(* ===== verification/Prelude.thy ===== *)
theory Prelude
  imports Main "HOL-Library.Word"
begin

text \<open>
  Shared vocabulary of the development: bytes and memory images, the 64-bit
  arithmetic of \<open>uint64_t\<close> written out on natural numbers, generic list
  lemmas, and the interfaces (locales) that several components share:
  preservation of an invariant by a family of operations, and a source of
  package bytes that a client reads by offset and count.
\<close>

unbundle bit_operations_syntax

named_theorems preserves_intro \<open>one-step preservation facts\<close>

section \<open>Bytes and words\<close>

type_synonym byte = "8 word"

definition char_of_byte :: "byte \<Rightarrow> char" where
  "char_of_byte b = char_of (unat b)"

definition byte_of_char :: "char \<Rightarrow> byte" where
  "byte_of_char c = word_of_nat (of_char c)"

lemma byte_of_char_of_byte [simp]: "byte_of_char (char_of_byte b) = b"
proof -
  have "unat b < 256" using unsigned_less [of b] by simp
  then show ?thesis by (simp add: byte_of_char_def char_of_byte_def)
qed

lemma char_of_byte_of_char [simp]: "char_of_byte (byte_of_char c) = c"
proof -
  have "of_char c < (256 :: nat)" by simp
  then have "unat (word_of_nat (of_char c) :: byte) = of_char c"
    by (simp add: unat_of_nat)
  then show ?thesis by (simp add: byte_of_char_def char_of_byte_def)
qed

text \<open>\<open>uint64_t\<close> arithmetic on natural numbers: the result of an addition and
  of a subtraction of two 64-bit values.\<close>

definition wrap64 :: "nat \<Rightarrow> nat" where
  "wrap64 n = n mod 2 ^ 64"

definition sub64 :: "nat \<Rightarrow> nat \<Rightarrow> nat" where
  "sub64 a b = (a + (2 ^ 64 - b)) mod 2 ^ 64"

definition wrap32 :: "nat \<Rightarrow> nat" where
  "wrap32 n = n mod 2 ^ 32"

lemma wrap64_less [simp]: "wrap64 n < 2 ^ 64"
  by (simp add: wrap64_def)

lemma wrap64_id: "n < 2 ^ 64 \<Longrightarrow> wrap64 n = n"
  by (simp add: wrap64_def)

lemma sub64_id: "b \<le> a \<Longrightarrow> a < 2 ^ 64 \<Longrightarrow> sub64 a b = a - b"
proof -
  assume "b \<le> a" and "a < 2 ^ 64"
  then have "a + (2 ^ 64 - b) = (a - b) + 2 ^ 64" and "a - b < 2 ^ 64" by simp_all
  then show ?thesis by (simp add: sub64_def)
qed

section \<open>Memory images\<close>

text \<open>\<open>memcpy(dst, src, n)\<close> at the start of a buffer: the new bytes, then what
  the buffer held behind them.\<close>

definition overlay :: "'a list \<Rightarrow> 'a list \<Rightarrow> 'a list" where
  "overlay new old = new @ drop (length new) old"

lemma take_overlay [simp]: "take (length new) (overlay new old) = new"
  by (simp add: overlay_def)

lemma length_overlay: "length (overlay new old) = max (length new) (length old)"
  by (simp add: overlay_def)

text \<open>The bytes \<open>[off, off + n)\<close> of a file or buffer.\<close>

definition bslice :: "nat \<Rightarrow> nat \<Rightarrow> 'a list \<Rightarrow> 'a list" where
  "bslice off n xs = take n (drop off xs)"

lemma length_bslice: "length (bslice off n xs) = min n (length xs - off)"
  by (simp add: bslice_def min.commute)

lemma bslice_append: "bslice off m xs @ bslice (off + m) n xs = bslice off (m + n) xs"
  by (simp add: bslice_def take_add add.commute)

lemma bslice_0 [simp]: "bslice off 0 xs = []"
  by (simp add: bslice_def)

lemma bslice_of_bslice: "a + m \<le> n \<Longrightarrow> bslice a m (bslice off n xs) = bslice (off + a) m xs"
  by (simp add: bslice_def drop_take add.commute)

lemma bslice_take: "off + n \<le> k \<Longrightarrow> bslice off n (take k xs) = bslice off n xs"
  by (simp add: bslice_def drop_take)

lemma bslice_all: "length xs \<le> n \<Longrightarrow> bslice 0 n xs = xs"
  by (simp add: bslice_def)

lemma bslice_beyond: "length xs \<le> off \<Longrightarrow> bslice off n xs = []"
  by (simp add: bslice_def)

section \<open>Lists\<close>

lemma nth_update_neq: "i \<noteq> j \<Longrightarrow> (xs[i := x]) ! j = xs ! j"
  by simp

lemma nth_update_cases:
  "i < length xs \<Longrightarrow> (xs[i := x]) ! j = (if i = j then x else xs ! j)"
  by simp

lemma find_Some_D: "find P xs = Some x \<Longrightarrow> x \<in> set xs \<and> P x"
  by (induction xs) (auto split: if_splits)

lemma find_NoneD: "find P xs = None \<Longrightarrow> x \<in> set xs \<Longrightarrow> \<not> P x"
  by (induction xs) (auto split: if_splits)

section \<open>Interface: operations that keep an invariant\<close>

text \<open>A component with a state and a set of operations promises one invariant
  of every operation. Its clients get the invariant of every run.\<close>

primrec run_ops :: "('op \<Rightarrow> 's \<Rightarrow> 's) \<Rightarrow> 's \<Rightarrow> 'op list \<Rightarrow> 's" where
  "run_ops step s [] = s"
| "run_ops step s (p # ps) = run_ops step (step p s) ps"

lemma run_ops_append: "run_ops step s (ps @ qs) = run_ops step (run_ops step s ps) qs"
  by (induction ps arbitrary: s) simp_all

locale inv_component =
  fixes step :: "'op \<Rightarrow> 's \<Rightarrow> 's"
    and ok :: "'op \<Rightarrow> bool"
    and inv :: "'s \<Rightarrow> bool"
  assumes step_inv: "ok p \<Longrightarrow> inv s \<Longrightarrow> inv (step p s)"
begin

lemma run_inv: "inv s \<Longrightarrow> list_all ok ps \<Longrightarrow> inv (run_ops step s ps)"
  by (induction ps arbitrary: s) (auto intro: step_inv)

lemma run_prefix_inv:
  "inv s \<Longrightarrow> list_all ok (ps @ qs) \<Longrightarrow> inv (run_ops step s ps)"
  by (rule run_inv) simp_all

end

text \<open>A measure that no operation lowers (a count of acknowledged segments, a
  highest version, a served high-water mark).\<close>

locale monotone_component = inv_component step ok inv
  for step :: "'op \<Rightarrow> 's \<Rightarrow> 's" and ok :: "'op \<Rightarrow> bool" and inv :: "'s \<Rightarrow> bool" +
  fixes mark :: "'s \<Rightarrow> 'm :: preorder"
  assumes step_mark: "ok p \<Longrightarrow> inv s \<Longrightarrow> mark s \<le> mark (step p s)"
begin

lemma run_mark: "inv s \<Longrightarrow> list_all ok ps \<Longrightarrow> mark s \<le> mark (run_ops step s ps)"
proof (induction ps arbitrary: s)
  case Nil
  show ?case by simp
next
  case (Cons p ps)
  then have "mark s \<le> mark (step p s)" and "inv (step p s)"
    by (auto intro: step_mark step_inv)
  with Cons show ?case by (auto intro: order_trans)
qed

end

end
