(* ===== verification/CString.thy ===== *)
theory CString
  imports Prelude
begin

text \<open>
  The C library's string functions as the source uses them, on \<open>char\<close> lists
  without their terminating NUL: prefix and case-insensitive comparison,
  searching, the base name after the last slash, \<open>strtoul\<close> and \<open>strtol\<close> in
  base 10 with their saturation, and copying into a buffer of bounded size.
  The comparison and classification functions are those of the C locale.
\<close>

section \<open>Character classes\<close>

definition c_tolower :: "char \<Rightarrow> char" where
  "c_tolower c = (let n = (of_char c :: nat) in
     if 65 \<le> n \<and> n \<le> 90 then char_of (n + 32) else c)"

definition c_isdigit :: "char \<Rightarrow> bool" where
  "c_isdigit c = (let n = (of_char c :: nat) in 48 \<le> n \<and> n \<le> 57)"

definition c_isalpha :: "char \<Rightarrow> bool" where
  "c_isalpha c = (let n = (of_char c :: nat) in (65 \<le> n \<and> n \<le> 90) \<or> (97 \<le> n \<and> n \<le> 122))"

definition c_isalnum :: "char \<Rightarrow> bool" where
  "c_isalnum c = (c_isalpha c \<or> c_isdigit c)"

definition c_isspace :: "char \<Rightarrow> bool" where
  "c_isspace c = (let n = (of_char c :: nat) in n = 32 \<or> (9 \<le> n \<and> n \<le> 13))"

definition digit_val :: "char \<Rightarrow> nat" where
  "digit_val c = of_char c - 48"

section \<open>Comparison and search\<close>

text \<open>\<open>strncmp(s, p, strlen(p)) == 0\<close>.\<close>

fun starts_with :: "string \<Rightarrow> string \<Rightarrow> bool" where
  "starts_with [] s = True"
| "starts_with (p # ps) [] = False"
| "starts_with (p # ps) (c # cs) = (p = c \<and> starts_with ps cs)"

definition strcasecmp_eq :: "string \<Rightarrow> string \<Rightarrow> bool" where
  "strcasecmp_eq a b = (map c_tolower a = map c_tolower b)"

definition strncasecmp_eq :: "string \<Rightarrow> string \<Rightarrow> nat \<Rightarrow> bool" where
  "strncasecmp_eq a b n = (map c_tolower (take n a) = map c_tolower (take n b))"

text \<open>\<open>strstr\<close> and \<open>strcasestr\<close>: the suffix that starts with the first match.\<close>

fun strstr :: "string \<Rightarrow> string \<Rightarrow> string option" where
  "strstr [] pat = (if pat = [] then Some [] else None)"
| "strstr (c # cs) pat = (if starts_with pat (c # cs) then Some (c # cs) else strstr cs pat)"

definition strcasestr :: "string \<Rightarrow> string \<Rightarrow> string option" where
  "strcasestr s pat =
     (case strstr (map c_tolower s) (map c_tolower pat) of
        None \<Rightarrow> None
      | Some r \<Rightarrow> Some (drop (length s - length r) s))"

definition strchr :: "string \<Rightarrow> char \<Rightarrow> string option" where
  "strchr s c = (let r = dropWhile (\<lambda>x. x \<noteq> c) s in if r = [] then None else Some r)"

text \<open>The text after the last slash, or all of it.\<close>

definition c_basename :: "string \<Rightarrow> string" where
  "c_basename s = rev (takeWhile (\<lambda>c. c \<noteq> CHR ''/'') (rev s))"

text \<open>The text before the last slash, when there is one.\<close>

definition c_dirname :: "string \<Rightarrow> string option" where
  "c_dirname s = (if CHR ''/'' \<in> set s
     then Some (take (length s - length (c_basename s) - 1) s) else None)"

text \<open>\<open>strncpy\<close> / \<open>snprintf "%s"\<close> into a buffer of \<open>n\<close> bytes whose last byte
  is the NUL.\<close>

definition cstr_trunc :: "nat \<Rightarrow> string \<Rightarrow> string" where
  "cstr_trunc n s = take (n - 1) s"

text \<open>A fixed \<open>char\<close> field read as a C string: up to the first NUL.\<close>

definition cstr_of_bytes :: "byte list \<Rightarrow> string" where
  "cstr_of_bytes bs = map char_of_byte (takeWhile (\<lambda>b. b \<noteq> 0) bs)"

section \<open>Numbers\<close>

definition ULONG_MAX :: nat where
  "ULONG_MAX = 2 ^ 64 - 1"

fun digits_value :: "nat \<Rightarrow> string \<Rightarrow> nat" where
  "digits_value acc [] = acc"
| "digits_value acc (c # cs) = digits_value (10 * acc + digit_val c) cs"

text \<open>\<open>strtoul(s, &end, 10)\<close> on a 64-bit \<open>unsigned long\<close>: leading white space, an
  optional sign, digits; saturation to \<open>ULONG_MAX\<close>; a minus sign negates the
  value modulo \<open>2 ^ 64\<close>; without digits the value is 0 and the end pointer is
  the start of the text.\<close>

definition strtoul10 :: "string \<Rightarrow> nat \<times> string" where
  "strtoul10 s =
     (let t = dropWhile c_isspace s;
          neg = (t \<noteq> [] \<and> hd t = CHR ''-'');
          u = (if t \<noteq> [] \<and> (hd t = CHR ''-'' \<or> hd t = CHR ''+'') then tl t else t);
          ds = takeWhile c_isdigit u;
          rest = dropWhile c_isdigit u;
          v = digits_value 0 ds
      in if ds = [] then (0, s)
         else if v > ULONG_MAX then (ULONG_MAX, rest)
         else if neg then (sub64 0 v, rest) else (v, rest))"

text \<open>\<open>strtol(s, NULL, 10)\<close> on a 64-bit \<open>long\<close>.\<close>

definition strtol10 :: "string \<Rightarrow> int" where
  "strtol10 s =
     (let t = dropWhile c_isspace s;
          neg = (t \<noteq> [] \<and> hd t = CHR ''-'');
          u = (if t \<noteq> [] \<and> (hd t = CHR ''-'' \<or> hd t = CHR ''+'') then tl t else t);
          v = int (digits_value 0 (takeWhile c_isdigit u))
      in if neg then max (- (2 ^ 63)) (- v) else min (2 ^ 63 - 1) v)"

text \<open>Decimal printing (\<open>%u\<close>, \<open>%llu\<close>).\<close>

fun dec_str :: "nat \<Rightarrow> string" where
  "dec_str n = (if n < 10 then [char_of (48 + n)]
     else dec_str (n div 10) @ [char_of (48 + n mod 10)])"

declare dec_str.simps [simp del]

section \<open>Facts\<close>

lemma starts_with_append [simp]: "starts_with p (p @ s)"
  by (induction p) simp_all

lemma starts_with_iff: "starts_with p s \<longleftrightarrow> (\<exists>t. s = p @ t)"
  by (induction p s rule: starts_with.induct) auto

lemma strstr_Some: "strstr s pat = Some r \<Longrightarrow> starts_with pat r \<and> (\<exists>t. s = t @ r)"
proof (induction s)
  case Nil
  then show ?case by (auto split: if_splits)
next
  case (Cons c cs)
  show ?case
  proof (cases "starts_with pat (c # cs)")
    case True
    with Cons.prems show ?thesis by auto
  next
    case False
    with Cons.prems have "strstr cs pat = Some r" by simp
    then obtain t where "starts_with pat r" "cs = t @ r" using Cons.IH by blast
    then show ?thesis by (metis append_Cons)
  qed
qed

lemma c_isdigit_code: "c_isdigit c \<Longrightarrow> digit_val c < 10"
  unfolding c_isdigit_def digit_val_def Let_def by linarith

lemma c_isdigit_not_space: "c_isdigit c \<Longrightarrow> \<not> c_isspace c"
  by (simp add: c_isdigit_def c_isspace_def Let_def)

lemma c_isdigit_char_of: "n < 10 \<Longrightarrow> c_isdigit (char_of (48 + n)) \<and> digit_val (char_of (48 + n)) = n"
  by (simp add: c_isdigit_def digit_val_def Let_def)

lemma digits_value_append:
  "digits_value acc (xs @ ys) = digits_value (digits_value acc xs) ys"
  by (induction xs arbitrary: acc) simp_all

lemma dec_str_digits: "list_all c_isdigit (dec_str n)"
proof (induction n rule: dec_str.induct)
  case (1 n)
  show ?case
  proof (cases "n < 10")
    case True
    then show ?thesis by (simp add: dec_str.simps [of n] c_isdigit_char_of)
  next
    case False
    with 1 show ?thesis by (simp add: dec_str.simps [of n] c_isdigit_char_of)
  qed
qed

lemma dec_str_nonempty [simp]: "dec_str n \<noteq> []"
  by (subst dec_str.simps) simp

lemma digits_value_dec_str: "digits_value 0 (dec_str n) = n"
proof (induction n rule: dec_str.induct)
  case (1 n)
  show ?case
  proof (cases "n < 10")
    case True
    then show ?thesis by (simp add: dec_str.simps [of n] c_isdigit_char_of)
  next
    case False
    with 1 have "digits_value 0 (dec_str (n div 10)) = n div 10" by simp
    with False show ?thesis
      by (simp add: dec_str.simps [of n] digits_value_append c_isdigit_char_of)
  qed
qed

text \<open>Printing a 64-bit number and reading it back with \<open>strtoul\<close>.\<close>

lemma strtoul10_dec_str:
  assumes "n \<le> ULONG_MAX" and "rest = [] \<or> \<not> c_isdigit (hd rest)"
  shows "strtoul10 (dec_str n @ rest) = (n, rest)"
proof -
  have digs: "list_all c_isdigit (dec_str n)" by (rule dec_str_digits)
  obtain c cs where cc: "dec_str n = c # cs" by (cases "dec_str n") auto
  with digs have c: "c_isdigit c" by simp
  then have nsp: "\<not> c_isspace c" by (rule c_isdigit_not_space)
  from c have sign: "c \<noteq> CHR ''-''" "c \<noteq> CHR ''+''"
    by (auto simp: c_isdigit_def)
  have tw: "takeWhile c_isdigit (dec_str n @ rest) = dec_str n"
  proof -
    have "\<forall>x\<in>set (dec_str n). c_isdigit x" using digs by (simp add: list_all_iff)
    moreover have "takeWhile c_isdigit rest = []" using assms(2) by (cases rest) auto
    ultimately show ?thesis by (simp add: takeWhile_append2)
  qed
  have dw: "dropWhile c_isdigit (dec_str n @ rest) = rest"
  proof -
    have "\<forall>x\<in>set (dec_str n). c_isdigit x" using digs by (simp add: list_all_iff)
    moreover have "dropWhile c_isdigit rest = rest" using assms(2) by (cases rest) auto
    ultimately show ?thesis by (simp add: dropWhile_append2)
  qed
  have "dropWhile c_isspace (dec_str n @ rest) = dec_str n @ rest"
    using nsp cc by simp
  moreover have "hd (dec_str n @ rest) = c" and "dec_str n @ rest \<noteq> []"
    using cc by simp_all
  ultimately show ?thesis
    using assms(1) sign
    by (simp add: strtoul10_def Let_def tw dw digits_value_dec_str)
qed

lemma length_cstr_trunc: "0 < n \<Longrightarrow> length (cstr_trunc n s) < n"
  by (simp add: cstr_trunc_def)

lemma cstr_trunc_id: "length s < n \<Longrightarrow> cstr_trunc n s = s"
  by (simp add: cstr_trunc_def)

lemma c_basename_no_slash: "CHR ''/'' \<notin> set (c_basename s)"
  using set_takeWhileD by (fastforce simp: c_basename_def)

end
