(* ===== verification/LiveStream.thy ===== *)
theory LiveStream
  imports CString
begin

text \<open>
  The live streaming session of \<open>src/ws_stream.c\<close>: a file that a browser
  uploads in 1 MB segments and that readers fetch on demand, held in a bounded
  number of RAM slots. This theory has the state \<open>live_t\<close> (with its two
  configuration globals), and one definition per operation; each is the
  section of the function that runs under the session mutex. The blocking
  operations are in \<open>LiveRead\<close>.

  Conventions. A slot or segment index of \<open>-1\<close> is \<open>None\<close>. \<open>uint64_t\<close> values
  are natural numbers; the wrap-around is written out (\<open>wrap64\<close>, \<open>sub64\<close>)
  where an argument can cause it. A slot's memory is the list of bytes written
  to it so far. \<open>lv_mem\<close> says that the arrays of the session are allocated,
  and \<open>lv_trace\<close> records the calls that leave the component: the samples
  given to the debug log and the seek requests given to the transport.
\<close>

section \<open>State\<close>

definition SEG :: nat where
  "SEG = 1024 * 1024"

definition WS_LIVE_SLOTS_DEFAULT :: nat where
  "WS_LIVE_SLOTS_DEFAULT = 64"

definition WS_LIVE_TIMEOUT_DEFAULT_SEC :: nat where
  "WS_LIVE_TIMEOUT_DEFAULT_SEC = 300"

datatype live_event = WsCache nat nat nat | SeekCall nat

record live =
  lv_active :: bool
  lv_upload_complete :: bool
  lv_aborted :: bool
  lv_refs :: nat
  lv_free_pending :: bool
  lv_session_id :: string
  lv_filename :: string
  lv_total :: nat
  lv_nsegs :: nat
  lv_present :: "bool list"
  lv_slot_of :: "nat option list"
  lv_slots :: "byte list list"
  lv_nslots :: nat
  lv_last_use :: "nat list"
  lv_slot_read :: "bool list"
  lv_slot_seg :: "nat option list"
  lv_waiters :: "nat list"
  lv_acked_ever :: "bool list"
  lv_seek_sent :: "nat list"
  lv_present_count :: nat
  lv_served :: nat
  lv_run_hi :: nat
  lv_peak_seg :: nat
  lv_tick :: nat
  lv_seek_fn :: bool
  lv_timeout_sec :: nat
  lv_slots_cfg :: nat
  lv_mem :: bool
  lv_now :: nat
  lv_trace :: "live_event list"

text \<open>The zero-initialised global.\<close>

definition live_init :: live where
  "live_init = \<lparr> lv_active = False, lv_upload_complete = False, lv_aborted = False,
     lv_refs = 0, lv_free_pending = False, lv_session_id = [], lv_filename = [],
     lv_total = 0, lv_nsegs = 0, lv_present = [], lv_slot_of = [], lv_slots = [],
     lv_nslots = 0, lv_last_use = [], lv_slot_read = [], lv_slot_seg = [],
     lv_waiters = [], lv_acked_ever = [], lv_seek_sent = [], lv_present_count = 0,
     lv_served = 0, lv_run_hi = 0, lv_peak_seg = 0, lv_tick = 0, lv_seek_fn = False,
     lv_timeout_sec = WS_LIVE_TIMEOUT_DEFAULT_SEC, lv_slots_cfg = WS_LIVE_SLOTS_DEFAULT,
     lv_mem = False, lv_now = 0, lv_trace = [] \<rparr>"

section \<open>Configuration\<close>

definition ws_live_set_timeout_sec :: "int \<Rightarrow> live \<Rightarrow> live" where
  "ws_live_set_timeout_sec sec lv =
     lv\<lparr>lv_timeout_sec := (if sec > 0 then nat sec else WS_LIVE_TIMEOUT_DEFAULT_SEC)\<rparr>"

definition ws_live_set_slots :: "int \<Rightarrow> live \<Rightarrow> live" where
  "ws_live_set_slots n lv =
     (if 4 \<le> n \<and> n \<le> 4096 then lv\<lparr>lv_slots_cfg := nat n\<rparr> else lv)"

definition ws_live_set_seek_fn :: "bool \<Rightarrow> live \<Rightarrow> live" where
  "ws_live_set_seek_fn fn lv = lv\<lparr>lv_seek_fn := fn\<rparr>"

text \<open>\<open>env\<close> is the value of the variable \<open>WS_LIVE_SLOTS\<close>, if it is set.\<close>

definition default_slots :: "string option \<Rightarrow> live \<Rightarrow> nat" where
  "default_slots env lv =
     (case env of
        Some e \<Rightarrow>
          if e \<noteq> [] \<and> 4 \<le> strtol10 e \<and> strtol10 e \<le> 4096 then nat (strtol10 e)
          else lv_slots_cfg lv
      | None \<Rightarrow> lv_slots_cfg lv)"

section \<open>Creation and release\<close>

definition free_locked :: "live \<Rightarrow> live" where
  "free_locked lv = lv\<lparr>lv_present := [], lv_slot_of := [], lv_slots := [],
     lv_last_use := [], lv_slot_seg := [], lv_slot_read := [], lv_waiters := [],
     lv_acked_ever := [], lv_seek_sent := [], lv_free_pending := False, lv_mem := False\<rparr>"

text \<open>The number of RAM slots that \<open>ws_live_create\<close> settles on.\<close>

definition live_slot_budget :: "int \<Rightarrow> nat \<Rightarrow> nat \<Rightarrow> nat" where
  "live_slot_budget ring_mb dflt nsegs =
     (let a = (if ring_mb > 0
               then (let n = nat ring_mb;
                         n1 = (if n < 4 then 4 else n)
                     in if n1 > 4096 then 4096 else n1)
               else dflt);
          b = (if a > nsegs + 4 then nsegs + 4 else a)
      in if b < 4 then 4 else b)"

definition live_nsegs :: "nat \<Rightarrow> nat" where
  "live_nsegs sz = wrap64 (sz + SEG - 1) div SEG"

text \<open>\<open>fresh_id\<close> is the session id printed from the clock, the process id,
  \<open>rand()\<close> and a counter; \<open>mem_ok\<close> says that all nine allocations succeeded.
  The result is the return code, the id copied to the caller, and the state.\<close>

definition ws_live_create ::
  "string option \<Rightarrow> nat \<Rightarrow> int \<Rightarrow> nat \<Rightarrow> string option \<Rightarrow> string \<Rightarrow> bool \<Rightarrow> live
     \<Rightarrow> int \<times> string option \<times> live" where
  "ws_live_create filename total_size ring_mb sid_max env fresh_id mem_ok lv =
     (case filename of
        None \<Rightarrow> (-1, None, lv)
      | Some f \<Rightarrow>
        if f = [] \<or> total_size = 0 then (-1, None, lv)
        else
        let base = c_basename f in
        if base = [] \<or> base = ''.'' \<or> base = ''..'' then (-1, None, lv)
        else if lv_active lv then
          (if \<not> lv_aborted lv \<and> lv_filename lv = base \<and> lv_total lv = total_size
           then (0, if sid_max > 0 then Some (cstr_trunc sid_max (lv_session_id lv)) else None, lv)
           else (-2, None, lv))
        else if lv_refs lv > 0 then (-2, None, lv)
        else if \<not> mem_ok then (-1, None, lv)
        else
        let nsegs = live_nsegs total_size;
            nslots = live_slot_budget ring_mb (default_slots env lv) nsegs;
            lv' = lv\<lparr> lv_session_id := cstr_trunc 64 fresh_id,
                      lv_filename := cstr_trunc 256 base,
                      lv_total := total_size,
                      lv_nsegs := nsegs,
                      lv_present := replicate nsegs False,
                      lv_slot_of := replicate nsegs None,
                      lv_slots := replicate nslots [],
                      lv_nslots := nslots,
                      lv_last_use := replicate nslots 0,
                      lv_slot_seg := replicate nslots None,
                      lv_slot_read := replicate nslots False,
                      lv_waiters := replicate nsegs 0,
                      lv_acked_ever := replicate nsegs False,
                      lv_seek_sent := replicate nsegs 0,
                      lv_present_count := 0,
                      lv_served := 0,
                      lv_run_hi := 0,
                      lv_peak_seg := 0,
                      lv_upload_complete := False,
                      lv_aborted := False,
                      lv_refs := 0,
                      lv_free_pending := False,
                      lv_active := True,
                      lv_mem := True \<rparr>
        in (0, if sid_max > 0 then Some (cstr_trunc sid_max (lv_session_id lv')) else None, lv'))"

definition ws_live_session_active :: "live \<Rightarrow> bool" where
  "ws_live_session_active lv = lv_active lv"

definition ws_live_check_id :: "string option \<Rightarrow> live \<Rightarrow> bool" where
  "ws_live_check_id sid lv =
     (case sid of None \<Rightarrow> False
      | Some s \<Rightarrow> s \<noteq> [] \<and> lv_active lv \<and> lv_session_id lv = s)"

section \<open>Storing a segment\<close>

definition seg_len :: "live \<Rightarrow> nat \<Rightarrow> nat" where
  "seg_len lv seg =
     (let start = seg * SEG in
      if start \<ge> lv_total lv then 0
      else (let left = lv_total lv - start in if left < SEG then left else SEG))"

text \<open>The three reasons for which a resident segment \<open>s\<close> may make room for
  \<open>seg\<close>: already served, urgent read, demand paging.\<close>

definition live_evictable :: "live \<Rightarrow> nat \<Rightarrow> nat \<Rightarrow> bool" where
  "live_evictable lv seg s =
     (let incoming_waited = (seg < lv_nsegs lv \<and> lv_waiters lv ! seg > 0);
          far = (seg \<ge> lv_peak_seg lv)
      in if lv_run_hi lv \<ge> (s + 1) * SEG then True
         else if incoming_waited \<and> lv_acked_ever lv ! s then True
         else lv_peak_seg lv > 0 \<and> lv_acked_ever lv ! s \<and> (far \<or> s \<noteq> seg))"

text \<open>The eviction scan: the least recently used evictable segment, with its
  stamp; the first of equal stamps wins.\<close>

fun evict_scan :: "live \<Rightarrow> nat \<Rightarrow> nat list \<Rightarrow> (nat \<times> nat) option \<Rightarrow> (nat \<times> nat) option" where
  "evict_scan lv seg [] best = best"
| "evict_scan lv seg (s # ss) best =
     (case lv_slot_of lv ! s of
        None \<Rightarrow> evict_scan lv seg ss best
      | Some i \<Rightarrow>
        if \<not> lv_present lv ! s then evict_scan lv seg ss best
        else if lv_waiters lv ! s > 0 then evict_scan lv seg ss best
        else if \<not> live_evictable lv seg s then evict_scan lv seg ss best
        else
          let stamp = lv_last_use lv ! i in
          (case best of
             None \<Rightarrow> evict_scan lv seg ss (Some (stamp, s))
           | Some (oldest, _) \<Rightarrow>
               if stamp < oldest then evict_scan lv seg ss (Some (stamp, s))
               else evict_scan lv seg ss best))"

definition live_evict :: "live \<Rightarrow> nat \<Rightarrow> live" where
  "live_evict lv victim =
     (case lv_slot_of lv ! victim of
        None \<Rightarrow> lv
      | Some i \<Rightarrow>
          lv\<lparr> lv_trace := lv_trace lv @
                [WsCache 0 0 (if lv_slot_read lv ! i then 0 else seg_len lv victim)],
              lv_slot_read := (lv_slot_read lv)[i := False],
              lv_present := (lv_present lv)[victim := False],
              lv_slot_of := (lv_slot_of lv)[victim := None] \<rparr>)"

definition live_bind_slot :: "live \<Rightarrow> nat \<Rightarrow> nat \<Rightarrow> live" where
  "live_bind_slot lv seg i =
     (if seg < lv_nsegs lv
      then lv\<lparr> lv_slot_of := (lv_slot_of lv)[seg := Some i],
               lv_slot_seg := (lv_slot_seg lv)[i := Some seg] \<rparr>
      else lv)"

definition alloc_slot :: "nat \<Rightarrow> live \<Rightarrow> nat option \<times> live" where
  "alloc_slot seg lv =
     (if seg < lv_nsegs lv \<and> lv_slot_of lv ! seg \<noteq> None
      then (lv_slot_of lv ! seg, lv)
      else
      case find (\<lambda>i. lv_slot_seg lv ! i = None) [0..<lv_nslots lv] of
        Some i \<Rightarrow> (Some i, live_bind_slot lv seg i)
      | None \<Rightarrow>
        (case evict_scan lv seg [1..<lv_nsegs lv] None of
           None \<Rightarrow> (None, lv)
         | Some (_, victim) \<Rightarrow>
           (case lv_slot_of lv ! victim of
              None \<Rightarrow> (None, lv)
            | Some i \<Rightarrow> (Some i, live_bind_slot (live_evict lv victim) seg i))))"

text \<open>The copy into the slot \<open>i\<close> and the bookkeeping that follows it.\<close>

definition commit_seg ::
  "nat \<Rightarrow> nat \<Rightarrow> nat \<Rightarrow> byte list \<Rightarrow> bool \<Rightarrow> bool \<Rightarrow> live \<Rightarrow> live" where
  "commit_seg seg i s_len bytes resident repeated lv =
     lv\<lparr> lv_trace := lv_trace lv @
           [WsCache (if resident then s_len else 0)
                    (if repeated \<and> \<not> resident then s_len else 0) 0],
         lv_slot_read := (if \<not> resident then (lv_slot_read lv)[i := False]
                          else lv_slot_read lv),
         lv_slots := (lv_slots lv)[i := overlay bytes (lv_slots lv ! i)],
         lv_present := (lv_present lv)[seg := True],
         lv_present_count :=
           (if \<not> lv_present lv ! seg then lv_present_count lv + 1 else lv_present_count lv),
         lv_acked_ever := (lv_acked_ever lv)[seg := True],
         lv_tick := lv_tick lv + 1,
         lv_last_use := (lv_last_use lv)[i := lv_tick lv + 1] \<rparr>"

text \<open>\<open>store_seg_locked\<close>: the slot index when stored, 1 when the message does not
  touch the segment, -1 on a partial segment, -2 when no slot can be freed.\<close>

definition store_seg :: "nat \<Rightarrow> byte list \<Rightarrow> nat \<Rightarrow> nat \<Rightarrow> live \<Rightarrow> int \<times> live" where
  "store_seg seg data offset len lv =
     (let s_start = seg * SEG;
          s_len = seg_len lv seg;
          last_end = wrap64 (offset + len);
          w_start = (if offset > s_start then offset else s_start);
          w_end = (if last_end < s_start + s_len then last_end else s_start + s_len)
      in if w_end \<le> w_start then (1, lv)
         else if w_end - w_start \<noteq> s_len then (-1, lv)
         else
         (case alloc_slot seg lv of
            (None, lv1) \<Rightarrow> (-2, lv1)
          | (Some i, lv1) \<Rightarrow>
              (int i, commit_seg seg i s_len (bslice (w_start - offset) s_len data)
                        (lv_present lv ! seg) (lv_acked_ever lv ! seg) lv1)))"

text \<open>The loop of the non-blocking writer over the segments of its message.\<close>

fun try_store_segs :: "nat list \<Rightarrow> byte list \<Rightarrow> nat \<Rightarrow> nat \<Rightarrow> live \<Rightarrow> int \<times> live" where
  "try_store_segs [] data offset len lv = (0, lv)"
| "try_store_segs (s # ss) data offset len lv =
     (case store_seg s data offset len lv of
        (r, lv1) \<Rightarrow>
          if r = 1 then try_store_segs ss data offset len lv1
          else if r = -1 then (-1, lv1)
          else if r = -2 then (-2, lv1)
          else try_store_segs ss data offset len lv1)"

text \<open>The segments a write of \<open>len > 0\<close> bytes at \<open>offset\<close> runs over.\<close>

definition write_segs :: "nat \<Rightarrow> nat \<Rightarrow> nat list" where
  "write_segs offset len =
     (let last_end = wrap64 (offset + len);
          last_seg = sub64 last_end 1 div SEG
      in [offset div SEG ..< Suc last_seg])"

definition ws_live_try_write :: "nat \<Rightarrow> byte list option \<Rightarrow> nat \<Rightarrow> live \<Rightarrow> int \<times> live" where
  "ws_live_try_write offset data len lv =
     (if data = None \<and> len > 0 then (-1, lv)
      else if \<not> lv_active lv \<or> lv_aborted lv then (-1, lv)
      else if len = 0 then (0, lv)
      else if wrap64 (offset + len) > lv_total lv \<or> offset mod SEG \<noteq> 0 then (-1, lv)
      else
      case data of
        None \<Rightarrow> (-1, lv)
      | Some d \<Rightarrow> try_store_segs (write_segs offset len) d offset len lv)"

section \<open>Queries\<close>

definition ws_live_demand_window :: "live \<Rightarrow> nat" where
  "ws_live_demand_window lv =
     (let w = lv_nslots lv div 4;
          w1 = (if w < 1 then 1 else w)
      in if w1 > 8 then 8 else w1)"

definition ws_live_waiter_count :: "live \<Rightarrow> nat" where
  "ws_live_waiter_count lv =
     (if lv_active lv \<and> lv_mem lv then sum_list (take (lv_nsegs lv) (lv_waiters lv)) else 0)"

definition ws_live_get_total :: "live \<Rightarrow> nat" where
  "ws_live_get_total lv = (if lv_active lv then lv_total lv else 0)"

definition sum_seg_bytes :: "(nat \<Rightarrow> bool) \<Rightarrow> live \<Rightarrow> nat" where
  "sum_seg_bytes P lv = sum_list (map (seg_len lv) (filter P [0..<lv_nsegs lv]))"

definition ws_live_get_counters :: "live \<Rightarrow> nat \<times> nat" where
  "ws_live_get_counters lv =
     ((if lv_active lv \<and> lv_mem lv then sum_seg_bytes (\<lambda>s. lv_present lv ! s) lv else 0),
      (if lv_active lv then lv_total lv else 0))"

text \<open>The length of the prefix of segments stored at least once.\<close>

definition acked_prefix :: "live \<Rightarrow> nat" where
  "acked_prefix lv = length (takeWhile (\<lambda>s. lv_acked_ever lv ! s) [0..<lv_nsegs lv])"

definition ws_live_get_resume_offset :: "live \<Rightarrow> nat" where
  "ws_live_get_resume_offset lv =
     (let s = (if lv_active lv \<and> lv_mem lv then acked_prefix lv else 0);
          bytes = s * SEG
      in if bytes > lv_total lv then lv_total lv else bytes)"

definition ws_live_get_header :: "nat \<Rightarrow> live \<Rightarrow> byte list" where
  "ws_live_get_header len lv =
     (if lv_active lv \<and> lv_nsegs lv > 0 \<and> lv_present lv ! 0
      then (let full = seg_len lv 0;
                got = (if len < full then len else full)
            in case lv_slot_of lv ! 0 of
                 None \<Rightarrow> []
               | Some i \<Rightarrow> take got (lv_slots lv ! i))
      else [])"

text \<open>The numbers and flags that \<open>ws_live_get_status\<close> prints.\<close>

record live_status =
  st_active :: bool
  st_aborted :: bool
  st_session_id :: string
  st_filename :: string
  st_total :: nat
  st_received :: nat
  st_served :: nat
  st_complete :: bool
  st_header_ready :: bool
  st_resident :: nat
  st_slots_used :: nat
  st_slots :: nat

definition ws_live_get_status :: "live \<Rightarrow> live_status" where
  "ws_live_get_status lv =
     (if \<not> lv_active lv
      then \<lparr> st_active = False, st_aborted = lv_aborted lv, st_session_id = [],
             st_filename = [], st_total = 0, st_received = 0, st_served = 0,
             st_complete = False, st_header_ready = False, st_resident = 0,
             st_slots_used = 0, st_slots = 0 \<rparr>
      else \<lparr> st_active = True, st_aborted = lv_aborted lv,
             st_session_id = lv_session_id lv, st_filename = lv_filename lv,
             st_total = lv_total lv,
             st_received = sum_seg_bytes (\<lambda>s. lv_acked_ever lv ! s) lv,
             st_served = lv_served lv,
             st_complete = (lv_active lv \<and> lv_upload_complete lv),
             st_header_ready =
               (lv_active lv \<and> \<not> lv_aborted lv \<and> lv_nsegs lv > 0 \<and> lv_present lv ! 0),
             st_resident = sum_seg_bytes (\<lambda>s. lv_present lv ! s) lv,
             st_slots_used =
               length (filter (\<lambda>i. lv_slot_seg lv ! i \<noteq> None) [0..<lv_nslots lv]),
             st_slots = lv_nslots lv \<rparr>)"

text \<open>\<open>json_filename\<close>: the file name escaped for the status reply, cut at the
  capacity of the output buffer.\<close>

definition hex_digit :: "nat \<Rightarrow> char" where
  "hex_digit n = (if n < 10 then char_of (48 + n) else char_of (87 + n))"

definition json_escape_char :: "char \<Rightarrow> string" where
  "json_escape_char c =
     (if c = CHR 0x22 \<or> c = CHR 0x5C then [CHR 0x5C, c]
      else if of_char c < (32 :: nat)
      then CHR 0x5C # ''u00'' @ [hex_digit (of_char c div 16), hex_digit (of_char c mod 16)]
      else [c])"

fun json_filename_loop :: "string \<Rightarrow> nat \<Rightarrow> string \<Rightarrow> string" where
  "json_filename_loop [] cap out = out"
| "json_filename_loop (c # cs) cap out =
     (if length out + 7 < cap then json_filename_loop cs cap (out @ json_escape_char c)
      else out)"

definition json_filename :: "string \<Rightarrow> nat \<Rightarrow> string" where
  "json_filename src cap = json_filename_loop src cap []"

section \<open>Finish, abort, destroy and the reader count\<close>

definition acked_count :: "live \<Rightarrow> nat" where
  "acked_count lv = length (filter (\<lambda>s. lv_acked_ever lv ! s) [0..<lv_nsegs lv])"

definition ws_live_finish :: "live \<Rightarrow> int \<times> live" where
  "ws_live_finish lv =
     (if \<not> lv_active lv \<or> lv_aborted lv \<or> acked_count lv \<noteq> lv_nsegs lv then (-1, lv)
      else (0, lv\<lparr>lv_upload_complete := True\<rparr>))"

definition ws_live_abort :: "live \<Rightarrow> live" where
  "ws_live_abort lv =
     (if lv_active lv \<and> \<not> lv_aborted lv then lv\<lparr>lv_aborted := True\<rparr> else lv)"

definition ws_live_destroy :: "live \<Rightarrow> live" where
  "ws_live_destroy lv =
     (if \<not> lv_active lv then lv
      else
      let lv1 = lv\<lparr>lv_active := False, lv_aborted := True\<rparr>;
          lv2 = (if lv_refs lv1 = 0 then free_locked lv1
                 else lv1\<lparr>lv_free_pending := True\<rparr>)
      in lv2\<lparr>lv_upload_complete := False, lv_session_id := [], lv_filename := [],
             lv_total := 0, lv_nsegs := 0, lv_present_count := 0, lv_served := 0\<rparr>)"

definition ws_live_attach :: "live \<Rightarrow> int \<times> live" where
  "ws_live_attach lv =
     (if \<not> lv_active lv then (-1, lv) else (0, lv\<lparr>lv_refs := lv_refs lv + 1\<rparr>))"

definition ws_live_detach :: "live \<Rightarrow> live" where
  "ws_live_detach lv =
     (let lv1 = (if lv_refs lv > 0 then lv\<lparr>lv_refs := lv_refs lv - 1\<rparr> else lv)
      in if lv_refs lv1 = 0 \<and> lv_free_pending lv1 then free_locked lv1 else lv1)"

end
