(* ===== verification/LiveInv.thy ===== *)
theory LiveInv
  imports LiveStream
begin

text \<open>
  The well-formedness invariant of the live session and its preservation by
  every operation of \<open>LiveStream\<close>. The invariant ties the three index tables
  together (segment to slot, slot to segment, presence flags), bounds the
  marks that drive eviction, and states the life cycle of the session's
  memory: it is allocated exactly while a session is active or its release
  waits for the last reader.
\<close>

section \<open>The invariant\<close>

definition live_shape :: "live \<Rightarrow> bool" where
  "live_shape lv \<longleftrightarrow>
     0 < lv_total lv \<and> lv_total lv + SEG \<le> 2 ^ 64 \<and> lv_nsegs lv = live_nsegs (lv_total lv) \<and>
     length (lv_present lv) = lv_nsegs lv \<and> length (lv_slot_of lv) = lv_nsegs lv \<and>
     length (lv_waiters lv) = lv_nsegs lv \<and> length (lv_acked_ever lv) = lv_nsegs lv \<and>
     length (lv_seek_sent lv) = lv_nsegs lv \<and> 4 \<le> lv_nslots lv \<and>
     length (lv_slots lv) = lv_nslots lv \<and> length (lv_last_use lv) = lv_nslots lv \<and>
     length (lv_slot_read lv) = lv_nslots lv \<and> length (lv_slot_seg lv) = lv_nslots lv"

text \<open>The index tables; segment \<open>x\<close> is exempt from the presence clause, which
  an allocation leaves to the store that follows it.\<close>

definition live_tables_but :: "nat \<Rightarrow> live \<Rightarrow> bool" where
  "live_tables_but x lv \<longleftrightarrow>
     (\<forall>s<lv_nsegs lv. s \<noteq> x \<longrightarrow> (lv_present lv ! s \<longleftrightarrow> lv_slot_of lv ! s \<noteq> None)) \<and>
     (\<forall>s<lv_nsegs lv. \<forall>i. lv_slot_of lv ! s = Some i \<longrightarrow>
        i < lv_nslots lv \<and> lv_slot_seg lv ! i = Some s) \<and>
     (\<forall>i<lv_nslots lv. \<forall>s. lv_slot_seg lv ! i = Some s \<longrightarrow>
        s < lv_nsegs lv \<and> lv_slot_of lv ! s = Some i) \<and>
     (\<forall>s<lv_nsegs lv. lv_present lv ! s \<longrightarrow> lv_acked_ever lv ! s)"

abbreviation live_tables :: "live \<Rightarrow> bool" where
  "live_tables lv \<equiv> live_tables_but (lv_nsegs lv) lv"

lemma tables_butI:
  assumes "\<And>s. s < lv_nsegs lv \<Longrightarrow> s \<noteq> x \<Longrightarrow> lv_present lv ! s \<longleftrightarrow> lv_slot_of lv ! s \<noteq> None"
    and "\<And>s i. s < lv_nsegs lv \<Longrightarrow> lv_slot_of lv ! s = Some i \<Longrightarrow>
           i < lv_nslots lv \<and> lv_slot_seg lv ! i = Some s"
    and "\<And>s i. i < lv_nslots lv \<Longrightarrow> lv_slot_seg lv ! i = Some s \<Longrightarrow>
           s < lv_nsegs lv \<and> lv_slot_of lv ! s = Some i"
    and "\<And>s. s < lv_nsegs lv \<Longrightarrow> lv_present lv ! s \<Longrightarrow> lv_acked_ever lv ! s"
  shows "live_tables_but x lv"
  unfolding live_tables_but_def using assms by blast

lemma tables_present:
  "live_tables_but x lv \<Longrightarrow> s < lv_nsegs lv \<Longrightarrow> s \<noteq> x \<Longrightarrow>
     lv_present lv ! s \<longleftrightarrow> lv_slot_of lv ! s \<noteq> None"
  unfolding live_tables_but_def by blast

lemma tables_slotD:
  "live_tables_but x lv \<Longrightarrow> s < lv_nsegs lv \<Longrightarrow> lv_slot_of lv ! s = Some i \<Longrightarrow>
     i < lv_nslots lv \<and> lv_slot_seg lv ! i = Some s"
  unfolding live_tables_but_def by blast

lemma tables_segD:
  "live_tables_but x lv \<Longrightarrow> i < lv_nslots lv \<Longrightarrow> lv_slot_seg lv ! i = Some s \<Longrightarrow>
     s < lv_nsegs lv \<and> lv_slot_of lv ! s = Some i"
  unfolding live_tables_but_def by blast

lemma tables_ackD:
  "live_tables_but x lv \<Longrightarrow> s < lv_nsegs lv \<Longrightarrow> lv_present lv ! s \<Longrightarrow> lv_acked_ever lv ! s"
  unfolding live_tables_but_def by blast

lemma tables_cong:
  assumes "live_tables_but x lv" and "lv_nsegs lv' = lv_nsegs lv" and "lv_nslots lv' = lv_nslots lv"
    and "lv_present lv' = lv_present lv" and "lv_slot_of lv' = lv_slot_of lv"
    and "lv_slot_seg lv' = lv_slot_seg lv" and "lv_acked_ever lv' = lv_acked_ever lv"
  shows "live_tables_but x lv'"
  using assms by (simp only: live_tables_but_def)

definition live_slot_fill :: "live \<Rightarrow> bool" where
  "live_slot_fill lv \<longleftrightarrow>
     (\<forall>s<lv_nsegs lv. \<forall>i. lv_present lv ! s \<longrightarrow> lv_slot_of lv ! s = Some i \<longrightarrow>
        seg_len lv s \<le> length (lv_slots lv ! i))"

definition live_marks :: "live \<Rightarrow> bool" where
  "live_marks lv \<longleftrightarrow>
     lv_run_hi lv \<le> lv_total lv \<and> (lv_peak_seg lv = 0 \<or> lv_peak_seg lv < lv_nsegs lv)"

definition live_life :: "live \<Rightarrow> bool" where
  "live_life lv \<longleftrightarrow>
     (lv_active lv \<longrightarrow> lv_mem lv \<and> \<not> lv_free_pending lv) \<and>
     (\<not> lv_active lv \<longrightarrow> lv_nsegs lv = 0 \<and> lv_total lv = 0 \<and>
        (lv_mem lv \<longleftrightarrow> lv_free_pending lv) \<and> (lv_refs lv = 0 \<longleftrightarrow> \<not> lv_free_pending lv))"

definition live_inv :: "live \<Rightarrow> bool" where
  "live_inv lv \<longleftrightarrow> live_life lv \<and>
     (lv_active lv \<longrightarrow> live_shape lv \<and> live_tables lv \<and> live_slot_fill lv \<and> live_marks lv)"

lemma live_invI:
  "live_life lv \<Longrightarrow> (lv_active lv \<Longrightarrow> live_shape lv) \<Longrightarrow> (lv_active lv \<Longrightarrow> live_tables lv) \<Longrightarrow>
   (lv_active lv \<Longrightarrow> live_slot_fill lv) \<Longrightarrow> (lv_active lv \<Longrightarrow> live_marks lv) \<Longrightarrow> live_inv lv"
  by (simp add: live_inv_def)

lemma live_inv_active:
  "live_inv lv \<Longrightarrow> lv_active lv \<Longrightarrow>
     live_life lv \<and> live_shape lv \<and> live_tables lv \<and> live_slot_fill lv \<and> live_marks lv"
  by (simp add: live_inv_def)

lemma live_nsegs_total: "live_nsegs n * SEG < 2 ^ 64"
proof -
  have "live_nsegs n * SEG \<le> wrap64 (n + SEG - 1)" by (simp add: live_nsegs_def)
  also have "\<dots> < 2 ^ 64" by (rule wrap64_less)
  finally show ?thesis .
qed

lemma SEG_pos [simp]: "0 < SEG"
  by (simp add: SEG_def)

text \<open>A file of at most \<open>2 ^ 64 - SEG\<close> bytes is covered by its segments.\<close>

lemma live_nsegs_cover:
  assumes "0 < n" and "n + SEG \<le> 2 ^ 64"
  shows "n \<le> live_nsegs n * SEG" and "(live_nsegs n - 1) * SEG < n" and "0 < live_nsegs n"
proof -
  have eq: "live_nsegs n = (n + SEG - 1) div SEG"
    using assms by (simp add: live_nsegs_def wrap64_id SEG_def)
  show cover: "n \<le> live_nsegs n * SEG"
    unfolding eq using div_mult_mod_eq [of "n + SEG - 1" SEG] mod_less_divisor [OF SEG_pos, of "n + SEG - 1"]
    by linarith
  from cover assms(1) show pos: "0 < live_nsegs n" by (cases "live_nsegs n") auto
  have "live_nsegs n * SEG \<le> n + SEG - 1" unfolding eq by simp
  then have "(live_nsegs n - 1) * SEG + SEG \<le> n + SEG - 1"
    using pos by (cases "live_nsegs n") (auto simp: algebra_simps)
  then show "(live_nsegs n - 1) * SEG < n" using assms(1) by linarith
qed

lemma seg_len_le: "seg_len lv s \<le> SEG"
  by (simp add: seg_len_def Let_def)

lemma seg_len_le_total: "seg_len lv s \<le> lv_total lv - s * SEG"
  by (simp add: seg_len_def Let_def)

lemma seg_len_cong: "lv_total lv' = lv_total lv \<Longrightarrow> seg_len lv' s = seg_len lv s"
  by (simp add: seg_len_def Let_def)

lemma seg_len_pos_iff: "0 < seg_len lv s \<longleftrightarrow> s * SEG < lv_total lv"
  by (auto simp: seg_len_def Let_def)

section \<open>The eviction scan\<close>

definition evict_candidate :: "live \<Rightarrow> nat \<Rightarrow> nat \<Rightarrow> bool" where
  "evict_candidate lv seg s \<longleftrightarrow>
     lv_present lv ! s \<and> lv_slot_of lv ! s \<noteq> None \<and> lv_waiters lv ! s = 0 \<and>
     live_evictable lv seg s"

definition slot_stamp :: "live \<Rightarrow> nat \<Rightarrow> nat" where
  "slot_stamp lv s = (case lv_slot_of lv ! s of None \<Rightarrow> 0 | Some i \<Rightarrow> lv_last_use lv ! i)"

definition evict_pick :: "live \<Rightarrow> nat \<Rightarrow> nat \<Rightarrow> (nat \<times> nat) option \<Rightarrow> (nat \<times> nat) option" where
  "evict_pick lv seg s best =
     (if evict_candidate lv seg s
      then (case best of
              None \<Rightarrow> Some (slot_stamp lv s, s)
            | Some (oldest, w) \<Rightarrow>
                if slot_stamp lv s < oldest then Some (slot_stamp lv s, s) else Some (oldest, w))
      else best)"

lemma evict_scan_step:
  "evict_scan lv seg (s # ss) best = evict_scan lv seg ss (evict_pick lv seg s best)"
proof (cases "lv_slot_of lv ! s")
  case None
  then show ?thesis by (simp add: evict_pick_def evict_candidate_def)
next
  case (Some i)
  then show ?thesis
    by (cases best) (auto simp: evict_pick_def evict_candidate_def slot_stamp_def Let_def)
qed

declare evict_scan.simps(2) [simp del]
declare evict_scan_step [simp]

lemma evict_scan_cand:
  "evict_scan lv seg ss best = Some (t, v) \<Longrightarrow>
     best = Some (t, v) \<or> (v \<in> set ss \<and> evict_candidate lv seg v \<and> t = slot_stamp lv v)"
proof (induction ss arbitrary: best)
  case Nil
  then show ?case by simp
next
  case (Cons s ss)
  from Cons.prems have "evict_pick lv seg s best = Some (t, v) \<or>
    (v \<in> set ss \<and> evict_candidate lv seg v \<and> t = slot_stamp lv v)"
    by (intro Cons.IH) simp
  then show ?case
    by (auto simp: evict_pick_def split: if_splits option.splits)
qed

lemma evict_scan_best: "evict_scan lv seg ss (Some (a, b)) = Some (t, v) \<Longrightarrow> t \<le> a"
proof (induction ss arbitrary: a b)
  case Nil
  then show ?case by simp
next
  case (Cons s ss)
  from Cons.prems show ?case
    by (auto simp: evict_pick_def dest: Cons.IH split: if_splits)
qed

lemma evict_scan_not_None: "evict_scan lv seg ss (Some b) \<noteq> None"
proof (induction ss arbitrary: b)
  case Nil
  then show ?case by simp
next
  case (Cons s ss)
  then show ?case by (cases b) (simp add: evict_pick_def)
qed

lemma evict_scan_least:
  "evict_scan lv seg ss best = Some (t, v) \<Longrightarrow> s \<in> set ss \<Longrightarrow> evict_candidate lv seg s \<Longrightarrow>
     t \<le> slot_stamp lv s"
proof (induction ss arbitrary: best)
  case Nil
  then show ?case by simp
next
  case (Cons a ss)
  show ?case
  proof (cases "s = a")
    case False
    with Cons show ?thesis by simp
  next
    case True
    with Cons.prems obtain o' w where "evict_pick lv seg a best = Some (o', w)"
      "o' \<le> slot_stamp lv s"
      by (auto simp: evict_pick_def split: option.splits if_splits)
    with Cons.prems(1) show ?thesis by (auto dest: evict_scan_best)
  qed
qed

lemma evict_scan_None:
  "evict_scan lv seg ss None = None \<Longrightarrow> s \<in> set ss \<Longrightarrow> \<not> evict_candidate lv seg s"
proof (induction ss)
  case Nil
  then show ?case by simp
next
  case (Cons a ss)
  then show ?case
    by (auto simp: evict_pick_def evict_scan_not_None split: if_splits)
qed

section \<open>Allocation\<close>

text \<open>The two updates an allocation is made of, field by field.\<close>

lemma live_bind_slot_same [simp]:
  "lv_total (live_bind_slot lv seg i) = lv_total lv"
  "lv_nsegs (live_bind_slot lv seg i) = lv_nsegs lv"
  "lv_nslots (live_bind_slot lv seg i) = lv_nslots lv"
  "lv_slots (live_bind_slot lv seg i) = lv_slots lv"
  "lv_last_use (live_bind_slot lv seg i) = lv_last_use lv"
  "lv_waiters (live_bind_slot lv seg i) = lv_waiters lv"
  "lv_acked_ever (live_bind_slot lv seg i) = lv_acked_ever lv"
  "lv_seek_sent (live_bind_slot lv seg i) = lv_seek_sent lv"
  "lv_present (live_bind_slot lv seg i) = lv_present lv"
  "lv_slot_read (live_bind_slot lv seg i) = lv_slot_read lv"
  "lv_run_hi (live_bind_slot lv seg i) = lv_run_hi lv"
  "lv_peak_seg (live_bind_slot lv seg i) = lv_peak_seg lv"
  "lv_tick (live_bind_slot lv seg i) = lv_tick lv"
  "lv_active (live_bind_slot lv seg i) = lv_active lv"
  "lv_aborted (live_bind_slot lv seg i) = lv_aborted lv"
  "lv_refs (live_bind_slot lv seg i) = lv_refs lv"
  "lv_free_pending (live_bind_slot lv seg i) = lv_free_pending lv"
  "lv_mem (live_bind_slot lv seg i) = lv_mem lv"
  "lv_session_id (live_bind_slot lv seg i) = lv_session_id lv"
  "lv_filename (live_bind_slot lv seg i) = lv_filename lv"
  "lv_upload_complete (live_bind_slot lv seg i) = lv_upload_complete lv"
  "lv_served (live_bind_slot lv seg i) = lv_served lv"
  "length (lv_slot_of (live_bind_slot lv seg i)) = length (lv_slot_of lv)"
  "length (lv_slot_seg (live_bind_slot lv seg i)) = length (lv_slot_seg lv)"
  by (simp_all add: live_bind_slot_def)

lemma live_bind_slot_tables:
  "seg < lv_nsegs lv \<Longrightarrow> lv_slot_of (live_bind_slot lv seg i) = (lv_slot_of lv)[seg := Some i]"
  "seg < lv_nsegs lv \<Longrightarrow> lv_slot_seg (live_bind_slot lv seg i) = (lv_slot_seg lv)[i := Some seg]"
  by (simp_all add: live_bind_slot_def)

lemma live_evict_same [simp]:
  "lv_total (live_evict lv v) = lv_total lv"
  "lv_nsegs (live_evict lv v) = lv_nsegs lv"
  "lv_nslots (live_evict lv v) = lv_nslots lv"
  "lv_slots (live_evict lv v) = lv_slots lv"
  "lv_last_use (live_evict lv v) = lv_last_use lv"
  "lv_waiters (live_evict lv v) = lv_waiters lv"
  "lv_acked_ever (live_evict lv v) = lv_acked_ever lv"
  "lv_seek_sent (live_evict lv v) = lv_seek_sent lv"
  "lv_slot_seg (live_evict lv v) = lv_slot_seg lv"
  "lv_run_hi (live_evict lv v) = lv_run_hi lv"
  "lv_peak_seg (live_evict lv v) = lv_peak_seg lv"
  "lv_tick (live_evict lv v) = lv_tick lv"
  "lv_active (live_evict lv v) = lv_active lv"
  "lv_aborted (live_evict lv v) = lv_aborted lv"
  "lv_refs (live_evict lv v) = lv_refs lv"
  "lv_free_pending (live_evict lv v) = lv_free_pending lv"
  "lv_mem (live_evict lv v) = lv_mem lv"
  "lv_session_id (live_evict lv v) = lv_session_id lv"
  "lv_filename (live_evict lv v) = lv_filename lv"
  "lv_upload_complete (live_evict lv v) = lv_upload_complete lv"
  "lv_served (live_evict lv v) = lv_served lv"
  "length (lv_present (live_evict lv v)) = length (lv_present lv)"
  "length (lv_slot_of (live_evict lv v)) = length (lv_slot_of lv)"
  "length (lv_slot_read (live_evict lv v)) = length (lv_slot_read lv)"
  by (simp_all add: live_evict_def split: option.split)

lemma live_evict_tables:
  "lv_slot_of lv ! v = Some i \<Longrightarrow> lv_present (live_evict lv v) = (lv_present lv)[v := False]"
  "lv_slot_of lv ! v = Some i \<Longrightarrow> lv_slot_of (live_evict lv v) = (lv_slot_of lv)[v := None]"
  by (simp_all add: live_evict_def)

text \<open>What a successful allocation does, by the path it took.\<close>

definition alloc_effect :: "nat \<Rightarrow> live \<Rightarrow> nat \<Rightarrow> live \<Rightarrow> bool" where
  "alloc_effect seg lv i lv' \<longleftrightarrow>
     (lv_slot_of lv ! seg = Some i \<and> lv' = lv) \<or>
     (lv_slot_of lv ! seg = None \<and> i < lv_nslots lv \<and> lv_slot_seg lv ! i = None \<and>
        lv' = live_bind_slot lv seg i) \<or>
     (lv_slot_of lv ! seg = None \<and>
      (\<forall>j<lv_nslots lv. lv_slot_seg lv ! j \<noteq> None) \<and>
      (\<exists>v. 0 < v \<and> v < lv_nsegs lv \<and> evict_candidate lv seg v \<and> lv_slot_of lv ! v = Some i \<and>
        (\<forall>s. 0 < s \<and> s < lv_nsegs lv \<and> evict_candidate lv seg s \<longrightarrow>
           slot_stamp lv v \<le> slot_stamp lv s) \<and>
        lv' = live_bind_slot (live_evict lv v) seg i))"

lemma alloc_slot_Some:
  assumes "alloc_slot seg lv = (Some i, lv')" and "seg < lv_nsegs lv"
  shows "alloc_effect seg lv i lv'"
proof (cases "lv_slot_of lv ! seg")
  case (Some j)
  with assms show ?thesis by (simp add: alloc_slot_def alloc_effect_def)
next
  case None
  let ?f = "find (\<lambda>i. lv_slot_seg lv ! i = None) [0..<lv_nslots lv]"
  show ?thesis
  proof (cases ?f)
    case (Some j)
    then have "j < lv_nslots lv" "lv_slot_seg lv ! j = None"
      by (auto dest: find_Some_D)
    with Some None assms show ?thesis by (auto simp: alloc_slot_def alloc_effect_def)
  next
    case fN: None
    have full: "\<forall>j<lv_nslots lv. lv_slot_seg lv ! j \<noteq> None"
      using find_NoneD [OF fN] by auto
    from assms None fN obtain t v
      where sc: "evict_scan lv seg [1..<lv_nsegs lv] None = Some (t, v)"
      by (auto simp: alloc_slot_def split: option.splits)
    have cand: "v \<in> set [1..<lv_nsegs lv]" "evict_candidate lv seg v" "t = slot_stamp lv v"
      using evict_scan_cand [OF sc] by auto
    have least: "\<forall>s. 0 < s \<and> s < lv_nsegs lv \<and> evict_candidate lv seg s \<longrightarrow>
        slot_stamp lv v \<le> slot_stamp lv s"
      using evict_scan_least [OF sc] cand(3) by auto
    from cand(2) obtain k where k: "lv_slot_of lv ! v = Some k"
      by (auto simp: evict_candidate_def)
    with assms None fN sc have "i = k" "lv' = live_bind_slot (live_evict lv v) seg i"
      by (auto simp: alloc_slot_def)
    with k cand have "0 < v" "v < lv_nsegs lv" "lv_slot_of lv ! v = Some i" by simp_all
    with None full cand(2) least \<open>lv' = live_bind_slot (live_evict lv v) seg i\<close>
    show ?thesis unfolding alloc_effect_def by blast
  qed
qed

lemma alloc_slot_None:
  assumes "alloc_slot seg lv = (None, lv')" and "seg < lv_nsegs lv"
  shows "lv' = lv \<and> (\<forall>j<lv_nslots lv. lv_slot_seg lv ! j \<noteq> None) \<and>
     (\<forall>s. 0 < s \<and> s < lv_nsegs lv \<longrightarrow> \<not> evict_candidate lv seg s)"
proof -
  from assms have N: "lv_slot_of lv ! seg = None"
    by (auto simp: alloc_slot_def split: if_splits option.splits)
  from assms N have fN: "find (\<lambda>i. lv_slot_seg lv ! i = None) [0..<lv_nslots lv] = None"
    by (auto simp: alloc_slot_def split: option.splits)
  have sc: "evict_scan lv seg [1..<lv_nsegs lv] None = None"
  proof (rule ccontr)
    assume "evict_scan lv seg [1..<lv_nsegs lv] None \<noteq> None"
    then obtain t v where tv: "evict_scan lv seg [1..<lv_nsegs lv] None = Some (t, v)" by auto
    then obtain k where "lv_slot_of lv ! v = Some k"
      using evict_scan_cand [OF tv] by (auto simp: evict_candidate_def)
    with tv N fN assms show False by (auto simp: alloc_slot_def)
  qed
  show ?thesis
    using find_NoneD [OF fN] evict_scan_None [OF sc] assms N fN sc
    by (auto simp: alloc_slot_def)
qed

text \<open>The fields an allocation leaves alone.\<close>

lemma alloc_effect_cases:
  assumes "alloc_effect seg lv i lv'"
  obtains "lv_slot_of lv ! seg = Some i" "lv' = lv"
  | "lv_slot_of lv ! seg = None" "i < lv_nslots lv" "lv_slot_seg lv ! i = None"
    "lv' = live_bind_slot lv seg i"
  | v where "lv_slot_of lv ! seg = None" "0 < v" "v < lv_nsegs lv" "evict_candidate lv seg v"
    "lv_slot_of lv ! v = Some i" "\<forall>j<lv_nslots lv. lv_slot_seg lv ! j \<noteq> None"
    "\<forall>s. 0 < s \<and> s < lv_nsegs lv \<and> evict_candidate lv seg s \<longrightarrow>
       slot_stamp lv v \<le> slot_stamp lv s"
    "lv' = live_bind_slot (live_evict lv v) seg i"
  using assms unfolding alloc_effect_def
  by (elim disjE conjE exE) (erule (1) that(1), erule (3) that(2), erule (7) that(3))

lemma alloc_effect_form:
  "alloc_effect seg lv i lv' \<Longrightarrow>
     lv' = lv \<or> lv' = live_bind_slot lv seg i \<or> (\<exists>v. lv' = live_bind_slot (live_evict lv v) seg i)"
  unfolding alloc_effect_def by blast

lemma alloc_effect_same:
  assumes "alloc_effect seg lv i lv'"
  shows "lv_total lv' = lv_total lv" and "lv_nsegs lv' = lv_nsegs lv"
    and "lv_nslots lv' = lv_nslots lv" and "lv_slots lv' = lv_slots lv"
    and "lv_last_use lv' = lv_last_use lv" and "lv_waiters lv' = lv_waiters lv"
    and "lv_acked_ever lv' = lv_acked_ever lv" and "lv_seek_sent lv' = lv_seek_sent lv"
    and "lv_run_hi lv' = lv_run_hi lv" and "lv_peak_seg lv' = lv_peak_seg lv"
    and "lv_tick lv' = lv_tick lv" and "lv_active lv' = lv_active lv"
    and "lv_aborted lv' = lv_aborted lv" and "lv_refs lv' = lv_refs lv"
    and "lv_free_pending lv' = lv_free_pending lv" and "lv_mem lv' = lv_mem lv"
    and "lv_session_id lv' = lv_session_id lv" and "lv_filename lv' = lv_filename lv"
    and "lv_upload_complete lv' = lv_upload_complete lv" and "lv_served lv' = lv_served lv"
    and "length (lv_present lv') = length (lv_present lv)"
    and "length (lv_slot_of lv') = length (lv_slot_of lv)"
    and "length (lv_slot_read lv') = length (lv_slot_read lv)"
    and "length (lv_slot_seg lv') = length (lv_slot_seg lv)"
  using alloc_effect_form [OF assms] by auto

lemma alloc_effect_tables:
  assumes eff: "alloc_effect seg lv i lv'" and sh: "live_shape lv" and tb: "live_tables lv"
    and seg: "seg < lv_nsegs lv"
  shows "live_tables_but seg lv'" and "lv_slot_of lv' ! seg = Some i" and "i < lv_nslots lv"
    and "\<forall>s<lv_nsegs lv. lv_present lv' ! s \<longrightarrow> lv_present lv ! s"
    and "\<forall>s<lv_nsegs lv. s \<noteq> seg \<longrightarrow> lv_present lv' ! s \<longrightarrow> lv_slot_of lv' ! s = lv_slot_of lv ! s"
proof -
  have T1: "\<And>s. s < lv_nsegs lv \<Longrightarrow> lv_present lv ! s \<longleftrightarrow> lv_slot_of lv ! s \<noteq> None"
    and T2: "\<And>s j. s < lv_nsegs lv \<Longrightarrow> lv_slot_of lv ! s = Some j \<Longrightarrow>
        j < lv_nslots lv \<and> lv_slot_seg lv ! j = Some s"
    and T3: "\<And>j s. j < lv_nslots lv \<Longrightarrow> lv_slot_seg lv ! j = Some s \<Longrightarrow>
        s < lv_nsegs lv \<and> lv_slot_of lv ! s = Some j"
    and T4: "\<And>s. s < lv_nsegs lv \<Longrightarrow> lv_present lv ! s \<Longrightarrow> lv_acked_ever lv ! s"
    using tb unfolding live_tables_but_def by blast+
  have len: "length (lv_slot_of lv) = lv_nsegs lv" "length (lv_present lv) = lv_nsegs lv"
    "length (lv_slot_seg lv) = lv_nslots lv"
    using sh by (simp_all add: live_shape_def)
  have "live_tables_but seg lv' \<and> lv_slot_of lv' ! seg = Some i \<and> i < lv_nslots lv \<and>
    (\<forall>s<lv_nsegs lv. lv_present lv' ! s \<longrightarrow> lv_present lv ! s) \<and>
    (\<forall>s<lv_nsegs lv. s \<noteq> seg \<longrightarrow> lv_present lv' ! s \<longrightarrow> lv_slot_of lv' ! s = lv_slot_of lv ! s)"
  proof (rule alloc_effect_cases [OF eff])
    assume "lv_slot_of lv ! seg = Some i" and "lv' = lv"
    with tb T2 seg show ?thesis unfolding live_tables_but_def by blast
  next
    assume a: "lv_slot_of lv ! seg = None" "i < lv_nslots lv" "lv_slot_seg lv ! i = None"
      and lv': "lv' = live_bind_slot lv seg i"
    have f: "lv_slot_of lv' = (lv_slot_of lv)[seg := Some i]"
      "lv_slot_seg lv' = (lv_slot_seg lv)[i := Some seg]" "lv_present lv' = lv_present lv"
      "lv_acked_ever lv' = lv_acked_ever lv" "lv_nsegs lv' = lv_nsegs lv"
      "lv_nslots lv' = lv_nslots lv"
      unfolding lv' using seg by (simp_all add: live_bind_slot_tables)
    show ?thesis
      unfolding live_tables_but_def f
      using a seg len by (auto simp: nth_list_update T1 T4 dest: T2 T3 split: if_splits)
  next
    fix v
    assume v: "lv_slot_of lv ! seg = None" "v < lv_nsegs lv" "lv_slot_of lv ! v = Some i"
      and lv': "lv' = live_bind_slot (live_evict lv v) seg i"
    from v have ne: "v \<noteq> seg" by auto
    from v T2 have iv: "i < lv_nslots lv" "lv_slot_seg lv ! i = Some v" by auto
    have f: "lv_slot_of lv' = (lv_slot_of lv)[v := None, seg := Some i]"
      "lv_slot_seg lv' = (lv_slot_seg lv)[i := Some seg]"
      "lv_present lv' = (lv_present lv)[v := False]"
      "lv_acked_ever lv' = lv_acked_ever lv" "lv_nsegs lv' = lv_nsegs lv"
      "lv_nslots lv' = lv_nslots lv"
      unfolding lv' using seg v by (simp_all add: live_bind_slot_tables live_evict_tables)
    show ?thesis
      unfolding live_tables_but_def f
      using v ne iv seg len by (auto simp: nth_list_update T1 T4 dest: T2 T3 split: if_splits)
  qed
  then show "live_tables_but seg lv'" and "lv_slot_of lv' ! seg = Some i" and "i < lv_nslots lv"
    and "\<forall>s<lv_nsegs lv. lv_present lv' ! s \<longrightarrow> lv_present lv ! s"
    and "\<forall>s<lv_nsegs lv. s \<noteq> seg \<longrightarrow> lv_present lv' ! s \<longrightarrow> lv_slot_of lv' ! s = lv_slot_of lv ! s"
    by blast+
qed

end
