(* ===== verification/LiveStore.thy ===== *)
theory LiveStore
  imports LiveInv
begin

text \<open>
  Storing segments: the effect of \<open>store_seg\<close>, preservation of the session
  invariant, and the content invariant. The content of a session is the file
  being uploaded; while every message carries bytes of that file, every
  resident segment holds exactly its part of it.
\<close>

section \<open>The effect of a commit\<close>

lemma commit_seg_same [simp]:
  "lv_total (commit_seg seg i n bs rs rp lv) = lv_total lv"
  "lv_nsegs (commit_seg seg i n bs rs rp lv) = lv_nsegs lv"
  "lv_nslots (commit_seg seg i n bs rs rp lv) = lv_nslots lv"
  "lv_slot_of (commit_seg seg i n bs rs rp lv) = lv_slot_of lv"
  "lv_slot_seg (commit_seg seg i n bs rs rp lv) = lv_slot_seg lv"
  "lv_waiters (commit_seg seg i n bs rs rp lv) = lv_waiters lv"
  "lv_seek_sent (commit_seg seg i n bs rs rp lv) = lv_seek_sent lv"
  "lv_run_hi (commit_seg seg i n bs rs rp lv) = lv_run_hi lv"
  "lv_peak_seg (commit_seg seg i n bs rs rp lv) = lv_peak_seg lv"
  "lv_active (commit_seg seg i n bs rs rp lv) = lv_active lv"
  "lv_aborted (commit_seg seg i n bs rs rp lv) = lv_aborted lv"
  "lv_refs (commit_seg seg i n bs rs rp lv) = lv_refs lv"
  "lv_free_pending (commit_seg seg i n bs rs rp lv) = lv_free_pending lv"
  "lv_mem (commit_seg seg i n bs rs rp lv) = lv_mem lv"
  "lv_session_id (commit_seg seg i n bs rs rp lv) = lv_session_id lv"
  "lv_filename (commit_seg seg i n bs rs rp lv) = lv_filename lv"
  "lv_upload_complete (commit_seg seg i n bs rs rp lv) = lv_upload_complete lv"
  "lv_served (commit_seg seg i n bs rs rp lv) = lv_served lv"
  "lv_present (commit_seg seg i n bs rs rp lv) = (lv_present lv)[seg := True]"
  "lv_acked_ever (commit_seg seg i n bs rs rp lv) = (lv_acked_ever lv)[seg := True]"
  "lv_slots (commit_seg seg i n bs rs rp lv) = (lv_slots lv)[i := overlay bs (lv_slots lv ! i)]"
  "lv_last_use (commit_seg seg i n bs rs rp lv) = (lv_last_use lv)[i := lv_tick lv + 1]"
  "lv_tick (commit_seg seg i n bs rs rp lv) = lv_tick lv + 1"
  "length (lv_slot_read (commit_seg seg i n bs rs rp lv)) = length (lv_slot_read lv)"
  by (simp_all add: commit_seg_def)

text \<open>The range conditions under which a message stores a segment: it covers the
  segment from its first to its last byte.\<close>

definition covers_seg :: "live \<Rightarrow> nat \<Rightarrow> nat \<Rightarrow> nat \<Rightarrow> bool" where
  "covers_seg lv seg offset len \<longleftrightarrow>
     0 < seg_len lv seg \<and> offset \<le> seg * SEG \<and>
     seg * SEG + seg_len lv seg \<le> wrap64 (offset + len)"

definition misses_seg :: "live \<Rightarrow> nat \<Rightarrow> nat \<Rightarrow> nat \<Rightarrow> bool" where
  "misses_seg lv seg offset len \<longleftrightarrow>
     min (wrap64 (offset + len)) (seg * SEG + seg_len lv seg) \<le> max offset (seg * SEG)"

lemma covers_not_misses: "covers_seg lv seg offset len \<Longrightarrow> \<not> misses_seg lv seg offset len"
  by (auto simp: covers_seg_def misses_seg_def)

text \<open>\<open>store_seg\<close> by cases.\<close>

lemma store_seg_eq:
  "store_seg seg data offset len lv =
     (if misses_seg lv seg offset len then (1, lv)
      else if \<not> covers_seg lv seg offset len then (-1, lv)
      else
      (case alloc_slot seg lv of
         (None, lv1) \<Rightarrow> (-2, lv1)
       | (Some i, lv1) \<Rightarrow>
           (int i, commit_seg seg i (seg_len lv seg)
                     (bslice (seg * SEG - offset) (seg_len lv seg) data)
                     (lv_present lv ! seg) (lv_acked_ever lv ! seg) lv1)))"
proof -
  let ?s = "seg * SEG" and ?l = "seg_len lv seg" and ?e = "wrap64 (offset + len)"
  let ?ws = "if offset > ?s then offset else ?s"
  let ?we = "if ?e < ?s + ?l then ?e else ?s + ?l"
  have m: "(?we \<le> ?ws) = misses_seg lv seg offset len"
    by (auto simp: misses_seg_def min_def max_def)
  have c: "\<not> ?we \<le> ?ws \<Longrightarrow> (?we - ?ws \<noteq> ?l) = (\<not> covers_seg lv seg offset len)"
    by (auto simp: covers_seg_def split: if_splits)
  have w: "covers_seg lv seg offset len \<Longrightarrow> ?ws = ?s"
    by (auto simp: covers_seg_def)
  show ?thesis
    unfolding store_seg_def Let_def m [symmetric]
    using c w by (auto split: prod.split option.split)
qed

text \<open>The three outcomes, in the form the proofs use.\<close>

lemma store_seg_outcome:
  assumes "store_seg seg data offset len lv = (r, lv')" and "seg < lv_nsegs lv"
  obtains (skip) "r = 1" "lv' = lv" "misses_seg lv seg offset len"
  | (bad) "r = -1" "lv' = lv"
  | (busy) "r = -2" "lv' = lv" "\<forall>j<lv_nslots lv. lv_slot_seg lv ! j \<noteq> None"
      "\<forall>s. 0 < s \<and> s < lv_nsegs lv \<longrightarrow> \<not> evict_candidate lv seg s"
  | (stored) i lv1 where "r = int i" "alloc_effect seg lv i lv1" "covers_seg lv seg offset len"
      "lv' = commit_seg seg i (seg_len lv seg)
               (bslice (seg * SEG - offset) (seg_len lv seg) data)
               (lv_present lv ! seg) (lv_acked_ever lv ! seg) lv1"
proof (cases "misses_seg lv seg offset len")
  case True
  with assms that(1) show ?thesis by (simp add: store_seg_eq)
next
  case nm: False
  show ?thesis
  proof (cases "covers_seg lv seg offset len")
    case False
    with nm assms that(2) show ?thesis by (simp add: store_seg_eq)
  next
    case cov: True
    obtain o1 lv1 where al: "alloc_slot seg lv = (o1, lv1)" by (cases "alloc_slot seg lv")
    show ?thesis
    proof (cases o1)
      case None
      with al assms nm cov show ?thesis
        using that(3) alloc_slot_None [of seg lv lv1] by (simp add: store_seg_eq)
    next
      case (Some i)
      with al assms nm cov show ?thesis
        using that(4) [of i lv1] alloc_slot_Some [of seg lv i lv1] by (simp add: store_seg_eq)
    qed
  qed
qed

text \<open>A message outside the file never reaches a segment beyond the last one.\<close>

lemma store_seg_beyond:
  assumes "lv_nsegs lv \<le> seg" and "lv_total lv \<le> lv_nsegs lv * SEG"
  shows "store_seg seg data offset len lv = (1, lv)"
proof -
  have "lv_nsegs lv * SEG \<le> seg * SEG" using assms(1) by simp
  then have "lv_total lv \<le> seg * SEG" using assms(2) by linarith
  then have "seg_len lv seg = 0" by (simp add: seg_len_def Let_def)
  then have "misses_seg lv seg offset len" by (auto simp: misses_seg_def)
  then show ?thesis by (simp add: store_seg_eq)
qed

section \<open>Preservation of the session invariant\<close>

lemma stored_shape:
  assumes "live_shape lv" and eff: "alloc_effect seg lv i lv1"
  shows "live_shape (commit_seg seg i n bs rs rp lv1)"
  using assms(1) by (simp add: live_shape_def alloc_effect_same [OF eff])

lemma stored_tables:
  assumes eff: "alloc_effect seg lv i lv1" and sh: "live_shape lv" and tb: "live_tables lv"
    and seg: "seg < lv_nsegs lv"
  shows "live_tables (commit_seg seg i n bs rs rp lv1)"
proof -
  note E = alloc_effect_tables [OF eff sh tb seg]
  let ?lv' = "commit_seg seg i n bs rs rp lv1"
  have len: "length (lv_present lv1) = lv_nsegs lv" "length (lv_acked_ever lv1) = lv_nsegs lv"
    "lv_nsegs lv1 = lv_nsegs lv" "lv_nslots lv1 = lv_nslots lv"
    using sh by (simp_all add: live_shape_def alloc_effect_same [OF eff])
  show ?thesis
  proof (rule tables_butI)
    fix s assume "s < lv_nsegs ?lv'"
    then show "lv_present ?lv' ! s \<longleftrightarrow> lv_slot_of ?lv' ! s \<noteq> None"
      using tables_present [OF E(1), of s] E(2) seg len by (cases "s = seg") simp_all
  next
    fix s j assume "s < lv_nsegs ?lv'" "lv_slot_of ?lv' ! s = Some j"
    then show "j < lv_nslots ?lv' \<and> lv_slot_seg ?lv' ! j = Some s"
      using tables_slotD [OF E(1), of s j] by simp
  next
    fix s j assume "j < lv_nslots ?lv'" "lv_slot_seg ?lv' ! j = Some s"
    then show "s < lv_nsegs ?lv' \<and> lv_slot_of ?lv' ! s = Some j"
      using tables_segD [OF E(1), of j s] by simp
  next
    fix s assume "s < lv_nsegs ?lv'" "lv_present ?lv' ! s"
    then show "lv_acked_ever ?lv' ! s"
      using tables_ackD [OF E(1), of s] seg len by (cases "s = seg") simp_all
  qed
qed

lemma stored_fill:
  assumes eff: "alloc_effect seg lv i lv1" and sh: "live_shape lv" and tb: "live_tables lv"
    and fl: "live_slot_fill lv" and seg: "seg < lv_nsegs lv"
    and bs: "length bs = seg_len lv seg"
  shows "live_slot_fill (commit_seg seg i n bs rs rp lv1)"
  unfolding live_slot_fill_def
proof (intro allI impI)
  let ?lv' = "commit_seg seg i n bs rs rp lv1"
  note E = alloc_effect_tables [OF eff sh tb seg]
  have len: "length (lv_present lv1) = lv_nsegs lv" "length (lv_slots lv1) = lv_nslots lv"
    "lv_nsegs lv1 = lv_nsegs lv" "lv_slots lv1 = lv_slots lv"
    using sh by (simp_all add: live_shape_def alloc_effect_same [OF eff])
  have sl: "seg_len ?lv' = seg_len lv"
    by (rule ext, rule seg_len_cong) (simp add: alloc_effect_same [OF eff])
  fix s j
  assume s: "s < lv_nsegs ?lv'" and p: "lv_present ?lv' ! s" and j: "lv_slot_of ?lv' ! s = Some j"
  show "seg_len ?lv' s \<le> length (lv_slots ?lv' ! j)"
  proof (cases "s = seg")
    case True
    with E(2) j have "j = i" by simp
    with E(3) True sl len bs show ?thesis
      by (simp add: length_overlay)
  next
    case False
    with p s len have p1: "lv_present lv1 ! s" by simp
    with E(4,5) s len False have p0: "lv_present lv ! s" "lv_slot_of lv ! s = Some j"
      using j by auto
    have "lv_slot_seg lv1 ! j = Some s" "lv_slot_seg lv1 ! i = Some seg"
      using tables_slotD [OF E(1)] E(2) s seg j len by simp_all
    with False have "j \<noteq> i" by auto
    with p0 fl s len sl show ?thesis by (simp add: live_slot_fill_def)
  qed
qed

lemma live_life_cong:
  "lv_active lv' = lv_active lv \<Longrightarrow> lv_mem lv' = lv_mem lv \<Longrightarrow> lv_refs lv' = lv_refs lv \<Longrightarrow>
   lv_free_pending lv' = lv_free_pending lv \<Longrightarrow> lv_nsegs lv' = lv_nsegs lv \<Longrightarrow>
   lv_total lv' = lv_total lv \<Longrightarrow> live_life lv' = live_life lv"
  by (simp add: live_life_def)

lemma bslice_length_covers:
  assumes "covers_seg lv seg offset len" and "length data = len" and "offset + len < 2 ^ 64"
  shows "length (bslice (seg * SEG - offset) (seg_len lv seg) data) = seg_len lv seg"
  using assms by (auto simp: length_bslice covers_seg_def wrap64_id)

text \<open>A message is well-formed when its buffer has the stated length and it ends
  inside the 64-bit range; the writers' range check ensures the latter for any
  message that ends inside the file.\<close>

lemma store_seg_inv:
  assumes inv: "live_inv lv" and act: "lv_active lv"
    and st: "store_seg seg data offset len lv = (r, lv')" and seg: "seg < lv_nsegs lv"
    and d: "length data = len" "offset + len < 2 ^ 64"
  shows "live_inv lv' \<and> lv_active lv' \<and> lv_nsegs lv' = lv_nsegs lv \<and> lv_total lv' = lv_total lv"
proof -
  note I = live_inv_active [OF inv act]
  show ?thesis
  proof (rule store_seg_outcome [OF st seg])
    assume "lv' = lv" then show ?thesis using inv act by simp
  next
    assume "lv' = lv" then show ?thesis using inv act by simp
  next
    assume "lv' = lv" then show ?thesis using inv act by simp
  next
    fix i lv1
    assume eff: "alloc_effect seg lv i lv1" and cov: "covers_seg lv seg offset len"
      and lv': "lv' = commit_seg seg i (seg_len lv seg)
               (bslice (seg * SEG - offset) (seg_len lv seg) data)
               (lv_present lv ! seg) (lv_acked_ever lv ! seg) lv1"
    note same = alloc_effect_same [OF eff]
    have "live_life lv'" unfolding lv'
      using I by (simp add: live_life_def same)
    moreover have "live_marks lv'" unfolding lv' using I by (simp add: live_marks_def same)
    moreover have "live_shape lv'" unfolding lv' using I eff by (blast intro: stored_shape)
    moreover have "live_tables lv'" unfolding lv' using I eff seg by (blast intro: stored_tables)
    moreover have "live_slot_fill lv'"
      unfolding lv' using I eff seg bslice_length_covers [OF cov d] by (blast intro: stored_fill)
    ultimately show ?thesis
      using act by (simp add: live_inv_def lv' same)
  qed
qed

section \<open>Content\<close>

text \<open>Every resident segment holds its part of the file \<open>f\<close>.\<close>

definition live_content :: "byte list \<Rightarrow> live \<Rightarrow> bool" where
  "live_content f lv \<longleftrightarrow>
     (\<forall>s<lv_nsegs lv. \<forall>i. lv_present lv ! s \<longrightarrow> lv_slot_of lv ! s = Some i \<longrightarrow>
        take (seg_len lv s) (lv_slots lv ! i) = bslice (s * SEG) (seg_len lv s) f)"

text \<open>A message that carries the bytes of \<open>f\<close> at its offset.\<close>

definition carries :: "byte list \<Rightarrow> nat \<Rightarrow> nat \<Rightarrow> byte list \<Rightarrow> bool" where
  "carries f offset len data \<longleftrightarrow> data = bslice offset len f \<and> offset + len \<le> length f"

lemma carries_slice:
  assumes "carries f offset len data" and "covers_seg lv seg offset len" and "offset + len < 2 ^ 64"
  shows "bslice (seg * SEG - offset) (seg_len lv seg) data = bslice (seg * SEG) (seg_len lv seg) f"
  using assms by (auto simp: carries_def covers_seg_def wrap64_id bslice_of_bslice)

lemma store_seg_content:
  assumes inv: "live_inv lv" and act: "lv_active lv" and con: "live_content f lv"
    and st: "store_seg seg data offset len lv = (r, lv')" and seg: "seg < lv_nsegs lv"
    and d: "length data = len" "offset + len < 2 ^ 64" and car: "carries f offset len data"
  shows "live_content f lv'"
proof -
  note I = live_inv_active [OF inv act]
  show ?thesis
  proof (rule store_seg_outcome [OF st seg])
    assume "lv' = lv" then show ?thesis using con by simp
  next
    assume "lv' = lv" then show ?thesis using con by simp
  next
    assume "lv' = lv" then show ?thesis using con by simp
  next
    fix i lv1
    assume eff: "alloc_effect seg lv i lv1" and cov: "covers_seg lv seg offset len"
      and lv': "lv' = commit_seg seg i (seg_len lv seg)
               (bslice (seg * SEG - offset) (seg_len lv seg) data)
               (lv_present lv ! seg) (lv_acked_ever lv ! seg) lv1"
    let ?bs = "bslice (seg * SEG - offset) (seg_len lv seg) data"
    note same = alloc_effect_same [OF eff]
    from I have sh: "live_shape lv" and tb: "live_tables lv" by simp_all
    note E = alloc_effect_tables [OF eff sh tb seg]
    have len: "length (lv_present lv1) = lv_nsegs lv" "length (lv_slots lv) = lv_nslots lv"
      using sh by (simp_all add: live_shape_def same)
    have lb: "length ?bs = seg_len lv seg" by (rule bslice_length_covers [OF cov d])
    have sl: "seg_len lv' = seg_len lv"
      by (rule ext, rule seg_len_cong) (simp add: lv' same)
    show ?thesis unfolding live_content_def
    proof (intro allI impI)
      fix s j
      assume s: "s < lv_nsegs lv'" and p: "lv_present lv' ! s" and j: "lv_slot_of lv' ! s = Some j"
      show "take (seg_len lv' s) (lv_slots lv' ! j) = bslice (s * SEG) (seg_len lv' s) f"
      proof (cases "s = seg")
        case True
        with E(2) j have "j = i" by (simp add: lv')
        then have "lv_slots lv' ! j = overlay ?bs (lv_slots lv ! i)"
          using E(3) len by (simp add: lv' same)
        then have "take (seg_len lv' s) (lv_slots lv' ! j) = ?bs"
          using True sl lb take_overlay [of ?bs "lv_slots lv ! i"] by simp
        also have "\<dots> = bslice (seg * SEG) (seg_len lv seg) f"
          by (rule carries_slice [OF car cov d(2)])
        finally show ?thesis using True sl by simp
      next
        case False
        with p s len have p1: "lv_present lv1 ! s" by (simp add: lv')
        with E(4,5) s False have p0: "lv_present lv ! s" "lv_slot_of lv ! s = Some j"
          using j by (auto simp: lv' same)
        have "lv_slot_seg lv1 ! j = Some s" "lv_slot_seg lv1 ! i = Some seg"
          using tables_slotD [OF E(1)] E(2) s seg j by (simp_all add: lv' same)
        with False have "j \<noteq> i" by auto
        with p0 con s sl show ?thesis by (simp add: live_content_def lv' same)
      qed
    qed
  qed
qed

end
