(* ===== verification/LiveOps.thy ===== *)
theory LiveOps
  imports LiveStore
begin

text \<open>
  The operations of the live session together: the non-blocking writer, the
  life cycle, and the invariant over every sequence of operations, obtained
  from the interface \<open>monotone_component\<close> of the prelude.
\<close>

section \<open>The non-blocking writer\<close>

lemma shape_cover:
  assumes "live_shape lv"
  shows "lv_total lv \<le> lv_nsegs lv * SEG" and "(lv_nsegs lv - 1) * SEG < lv_total lv"
    and "0 < lv_nsegs lv"
  using live_nsegs_cover [of "lv_total lv"] assms by (simp_all add: live_shape_def)

lemma try_store_segs_induct:
  assumes rc: "try_store_segs ss data offset len lv = (r, lv')"
    and base: "P lv"
    and step: "\<And>s lv r lv'. s \<in> set ss \<Longrightarrow> P lv \<Longrightarrow> store_seg s data offset len lv = (r, lv') \<Longrightarrow> P lv'"
  shows "P lv'"
  using rc base step
proof (induction ss arbitrary: lv)
  case Nil
  then show ?case by simp
next
  case (Cons s ss)
  obtain r1 lv1 where st: "store_seg s data offset len lv = (r1, lv1)"
    by (cases "store_seg s data offset len lv")
  have P1: "P lv1" using Cons.prems(3) [OF _ Cons.prems(2) st] by simp
  show ?case
  proof (cases "r1 = -1 \<or> r1 = -2")
    case True
    with Cons.prems(1) st P1 show ?thesis by auto
  next
    case False
    with Cons.prems(1) st have "try_store_segs ss data offset len lv1 = (r, lv')"
      by (auto split: if_splits)
    then show ?thesis using P1 Cons.prems(3) by (rule Cons.IH) auto
  qed
qed

text \<open>The range check of the writers admits two kinds of message: one inside the
  file, or one whose end wraps around, which no segment of the file takes.\<close>

lemma write_segs_wrapped:
  assumes "offset < 2 ^ 64" "len < 2 ^ 64" "2 ^ 64 \<le> offset + len" "offset mod SEG = 0"
    and "s \<in> set (write_segs offset len)"
  shows "wrap64 (offset + len) = 0"
proof (rule ccontr)
  let ?e = "offset + len - 2 ^ 64"
  assume nz: "wrap64 (offset + len) \<noteq> 0"
  have e: "wrap64 (offset + len) = ?e"
  proof -
    have "offset + len = ?e + 2 ^ 64" and "?e < 2 ^ 64" using assms(1-3) by simp_all
    then show ?thesis unfolding wrap64_def by (metis mod_add_self2 mod_less)
  qed
  with nz have "sub64 (wrap64 (offset + len)) 1 = ?e - 1"
    using assms(1,2) by (subst e, intro sub64_id) linarith+
  moreover have "(?e - 1) div SEG < offset div SEG"
  proof -
    have "?e - 1 < offset" using nz e assms(2) by linarith
    also have "offset = offset div SEG * SEG" using assms(4) by (metis add.right_neutral div_mult_mod_eq)
    finally show ?thesis by (simp add: less_mult_imp_div_less)
  qed
  ultimately show False using assms(5) by (simp add: write_segs_def Let_def)
qed

lemma write_segs_inside:
  assumes "0 < len" "offset + len \<le> lv_total lv" "live_shape lv" "s \<in> set (write_segs offset len)"
  shows "s < lv_nsegs lv"
proof -
  have lt: "offset + len < 2 ^ 64" using assms(2,3) SEG_pos unfolding live_shape_def by linarith
  then have w: "wrap64 (offset + len) = offset + len" by (rule wrap64_id)
  have "sub64 (offset + len) 1 = offset + len - 1"
    using assms(1) lt by (intro sub64_id) linarith+
  with assms(4) w have "s \<le> (offset + len - 1) div SEG" by (auto simp: write_segs_def Let_def)
  also have "\<dots> < lv_nsegs lv"
  proof -
    have "offset + len - 1 < lv_nsegs lv * SEG"
      using assms(1,2) shape_cover(1) [OF assms(3)] by linarith
    then show ?thesis by (simp add: less_mult_imp_div_less)
  qed
  finally show ?thesis .
qed

lemma store_seg_wrapped:
  "wrap64 (offset + len) = 0 \<Longrightarrow> store_seg s data offset len lv = (1, lv)"
  by (simp add: store_seg_eq misses_seg_def)

lemma try_store_segs_wrapped:
  "wrap64 (offset + len) = 0 \<Longrightarrow> try_store_segs ss data offset len lv = (0, lv)"
  by (induction ss) (simp_all add: store_seg_wrapped)

text \<open>The cases of \<open>ws_live_try_write\<close>.\<close>

lemma try_write_cases:
  assumes "ws_live_try_write offset (Some data) len lv = (r, lv')"
    and "offset < 2 ^ 64" "len < 2 ^ 64"
  obtains (same) "lv' = lv" "r = -1 \<or> (r = 0 \<and> (len = 0 \<or> 2 ^ 64 \<le> offset + len))"
  | (run) "lv_active lv" "\<not> lv_aborted lv" "0 < len" "offset + len \<le> lv_total lv"
      "offset mod SEG = 0" "offset + len < 2 ^ 64"
      "try_store_segs (write_segs offset len) data offset len lv = (r, lv')"
proof (cases "\<not> lv_active lv \<or> lv_aborted lv \<or> len = 0 \<or>
    wrap64 (offset + len) > lv_total lv \<or> offset mod SEG \<noteq> 0")
  case True
  with assms(1) that(1) show ?thesis by (auto simp: ws_live_try_write_def split: if_splits)
next
  case False
  then have run: "try_store_segs (write_segs offset len) data offset len lv = (r, lv')"
    using assms(1) by (simp add: ws_live_try_write_def)
  show ?thesis
  proof (cases "offset + len < 2 ^ 64")
    case True
    with False run that(2) show ?thesis by (simp add: wrap64_id)
  next
    case wrapped: False
    then have "try_store_segs (write_segs offset len) data offset len lv = (0, lv)"
    proof (cases "write_segs offset len = []")
      case True
      then show ?thesis by simp
    next
      case ne: False
      then obtain s where "s \<in> set (write_segs offset len)" by (meson list.set_sel(1))
      with wrapped False assms(2,3) have "wrap64 (offset + len) = 0"
        by (intro write_segs_wrapped) simp_all
      then show ?thesis by (rule try_store_segs_wrapped)
    qed
    with run wrapped that(1) show ?thesis by simp
  qed
qed

lemma try_write_inv:
  assumes inv: "live_inv lv" and w: "ws_live_try_write offset (Some data) (length data) lv = (r, lv')"
    and b: "offset < 2 ^ 64" "length data < 2 ^ 64"
  shows "live_inv lv' \<and> lv_active lv' = lv_active lv \<and> lv_total lv' = lv_total lv \<and>
     lv_nsegs lv' = lv_nsegs lv"
proof (rule try_write_cases [OF w b])
  assume "lv' = lv" then show ?thesis using inv by simp
next
  assume act: "lv_active lv" and len: "0 < length data" and fit: "offset + length data \<le> lv_total lv"
    and lt: "offset + length data < 2 ^ 64"
    and run: "try_store_segs (write_segs offset (length data)) data offset (length data) lv = (r, lv')"
  let ?P = "\<lambda>l. live_inv l \<and> lv_active l \<and> lv_total l = lv_total lv \<and> lv_nsegs l = lv_nsegs lv"
  have sh: "live_shape lv" using live_inv_active [OF inv act] by simp
  have "?P lv'"
  proof (rule try_store_segs_induct [OF run])
    show "?P lv" using inv act by simp
  next
    fix s l r' l'
    assume s: "s \<in> set (write_segs offset (length data))" and P: "?P l"
      and st: "store_seg s data offset (length data) l = (r', l')"
    have "s < lv_nsegs lv" using write_segs_inside [OF len fit sh s] .
    with P have "s < lv_nsegs l" by simp
    then show "?P l'"
      using store_seg_inv [of l s data offset "length data" r' l'] P st lt by simp
  qed
  then show ?thesis using act by simp
qed

lemma try_write_content:
  assumes inv: "live_inv lv" and con: "live_content f lv"
    and w: "ws_live_try_write offset (Some data) (length data) lv = (r, lv')"
    and b: "offset < 2 ^ 64" "length data < 2 ^ 64" and car: "carries f offset (length data) data"
  shows "live_content f lv'"
proof (rule try_write_cases [OF w b])
  assume "lv' = lv" then show ?thesis using con by simp
next
  assume act: "lv_active lv" and len: "0 < length data" and fit: "offset + length data \<le> lv_total lv"
    and lt: "offset + length data < 2 ^ 64"
    and run: "try_store_segs (write_segs offset (length data)) data offset (length data) lv = (r, lv')"
  let ?P = "\<lambda>l. live_inv l \<and> lv_active l \<and> lv_nsegs l = lv_nsegs lv \<and> live_content f l"
  have sh: "live_shape lv" using live_inv_active [OF inv act] by simp
  have "?P lv'"
  proof (rule try_store_segs_induct [OF run])
    show "?P lv" using inv act con by simp
  next
    fix s l r' l'
    assume s: "s \<in> set (write_segs offset (length data))" and P: "?P l"
      and st: "store_seg s data offset (length data) l = (r', l')"
    have "s < lv_nsegs lv" using write_segs_inside [OF len fit sh s] .
    with P have sl: "s < lv_nsegs l" by simp
    have "live_inv l' \<and> lv_active l' \<and> lv_nsegs l' = lv_nsegs l"
      using store_seg_inv [OF _ _ st sl _ lt] P by simp
    moreover have "live_content f l'"
      using store_seg_content [OF _ _ _ st sl _ lt car] P by simp
    ultimately show "?P l'" using P by simp
  qed
  then show ?thesis by simp
qed

section \<open>Creation and the life cycle\<close>

lemma slot_budget_min: "4 \<le> live_slot_budget r d n"
  by (simp add: live_slot_budget_def Let_def)

lemma create_fresh:
  assumes "0 < sz" "sz + SEG \<le> 2 ^ 64"
    and n: "n = live_nsegs sz" and k: "k = live_slot_budget r (default_slots env lv) n"
    and l: "lv_nsegs l = n" "lv_nslots l = k" "lv_total l = sz" "lv_present l = replicate n False"
    "lv_slot_of l = replicate n None" "lv_slots l = replicate k []" "lv_last_use l = replicate k 0"
    "lv_slot_seg l = replicate k None" "lv_slot_read l = replicate k False"
    "lv_waiters l = replicate n 0" "lv_acked_ever l = replicate n False"
    "lv_seek_sent l = replicate n 0" "lv_run_hi l = 0" "lv_peak_seg l = 0"
    "lv_active l" "lv_mem l" "\<not> lv_free_pending l"
  shows "live_inv l"
proof (rule live_invI)
  show "live_life l" using l by (simp add: live_life_def)
  show "live_shape l" using l assms(1,2) slot_budget_min unfolding live_shape_def
    by (simp add: n k)
  show "live_tables l" by (rule tables_butI) (simp_all add: l)
  show "live_slot_fill l" by (simp add: live_slot_fill_def l)
  show "live_marks l" by (simp add: live_marks_def l)
qed

lemma create_inv:
  assumes "live_inv lv" and "sz + SEG \<le> 2 ^ 64"
    and "ws_live_create fn sz ring sid_max env fresh ok lv = (r, out, lv')"
  shows "live_inv lv'"
proof (cases "lv' = lv")
  case True
  then show ?thesis using assms(1) by simp
next
  case False
  with assms(3) have pos: "0 < sz"
    by (auto simp: ws_live_create_def split: option.splits if_splits)
  show ?thesis
    by (rule create_fresh [OF pos assms(2) refl refl, where r = ring and env = env and lv = lv];
        insert assms(3) False;
        auto simp: ws_live_create_def Let_def split: option.splits if_splits)
qed

lemma live_life_inactive:
  "live_life lv \<Longrightarrow> \<not> lv_active lv \<Longrightarrow> live_inv lv"
  by (simp add: live_inv_def)

lemma free_locked_same [simp]:
  "lv_active (free_locked lv) = lv_active lv" "lv_aborted (free_locked lv) = lv_aborted lv"
  "lv_refs (free_locked lv) = lv_refs lv" "lv_total (free_locked lv) = lv_total lv"
  "lv_nsegs (free_locked lv) = lv_nsegs lv" "\<not> lv_mem (free_locked lv)"
  "\<not> lv_free_pending (free_locked lv)"
  by (simp_all add: free_locked_def)

lemma live_inv_transfer:
  assumes "live_inv lv" and "lv_active lv' = lv_active lv" and "lv_refs lv' = lv_refs lv \<or> lv_active lv"
    and "lv_free_pending lv' = lv_free_pending lv" and "lv_mem lv' = lv_mem lv"
    and "lv_total lv' = lv_total lv" and "lv_nsegs lv' = lv_nsegs lv"
    and "lv_nslots lv' = lv_nslots lv" and "lv_present lv' = lv_present lv"
    and "lv_slot_of lv' = lv_slot_of lv" and "lv_slots lv' = lv_slots lv"
    and "lv_slot_seg lv' = lv_slot_seg lv" and "lv_acked_ever lv' = lv_acked_ever lv"
    and "length (lv_last_use lv') = length (lv_last_use lv)"
    and "length (lv_slot_read lv') = length (lv_slot_read lv)"
    and "length (lv_waiters lv') = length (lv_waiters lv)"
    and "length (lv_seek_sent lv') = length (lv_seek_sent lv)"
    and "lv_active lv \<Longrightarrow> live_marks lv \<Longrightarrow> live_marks lv'"
  shows "live_inv lv'"
proof (rule live_invI)
  show "live_life lv'" using assms by (auto simp: live_inv_def live_life_def)
next
  assume "lv_active lv'"
  then have I: "live_life lv \<and> live_shape lv \<and> live_tables lv \<and> live_slot_fill lv \<and> live_marks lv"
    using assms(1,2) live_inv_active by simp
  show "live_shape lv'" using I assms by (simp add: live_shape_def)
  show "live_tables lv'" using I assms(7-13) tables_cong [of "lv_nsegs lv" lv lv'] by simp
  show "live_slot_fill lv'"
    using I assms(6-11) seg_len_cong [of lv' lv] by (simp add: live_slot_fill_def)
  show "live_marks lv'" using I assms(18) \<open>lv_active lv'\<close> assms(2) by simp
qed

lemma finish_inv: "live_inv lv \<Longrightarrow> ws_live_finish lv = (r, lv') \<Longrightarrow> live_inv lv'"
  by (auto simp: ws_live_finish_def live_marks_def split: if_splits
      intro: live_inv_transfer [where lv = lv])

lemma abort_inv: "live_inv lv \<Longrightarrow> live_inv (ws_live_abort lv)"
  by (rule live_inv_transfer [where lv = lv]) (simp_all add: ws_live_abort_def live_marks_def)

lemma destroy_inv:
  assumes "live_inv lv"
  shows "live_inv (ws_live_destroy lv)"
proof (cases "lv_active lv")
  case False
  then show ?thesis using assms by (simp add: ws_live_destroy_def)
next
  case True
  with assms have "lv_mem lv" "\<not> lv_free_pending lv" by (simp_all add: live_inv_def live_life_def)
  then show ?thesis
    using True by (intro live_life_inactive) (auto simp: ws_live_destroy_def live_life_def Let_def)
qed

lemma attach_inv: "live_inv lv \<Longrightarrow> ws_live_attach lv = (r, lv') \<Longrightarrow> live_inv lv'"
  by (auto simp: ws_live_attach_def live_marks_def split: if_splits
      intro: live_inv_transfer [where lv = lv])

lemma detach_inv:
  assumes "live_inv lv"
  shows "live_inv (ws_live_detach lv)"
proof (cases "lv_active lv")
  case True
  with assms have "\<not> lv_free_pending lv" by (simp add: live_inv_def live_life_def)
  then have "ws_live_detach lv = lv\<lparr>lv_refs := lv_refs lv - 1\<rparr>"
    by (cases "lv_refs lv") (simp_all add: ws_live_detach_def)
  then show ?thesis using assms True
    by (auto simp: live_marks_def intro: live_inv_transfer [where lv = lv])
next
  case False
  with assms show ?thesis
    by (intro live_life_inactive)
       (auto simp: ws_live_detach_def live_inv_def live_life_def Let_def)
qed

lemma config_inv:
  "live_inv lv \<Longrightarrow> live_inv (ws_live_set_timeout_sec t lv)"
  "live_inv lv \<Longrightarrow> live_inv (ws_live_set_slots n lv)"
  "live_inv lv \<Longrightarrow> live_inv (ws_live_set_seek_fn b lv)"
  by (rule live_inv_transfer [where lv = lv];
      simp add: ws_live_set_timeout_sec_def ws_live_set_slots_def ws_live_set_seek_fn_def
        live_marks_def)+

section \<open>What a write keeps\<close>

text \<open>The segments acknowledged at least once.\<close>

definition acked_set :: "live \<Rightarrow> nat set" where
  "acked_set lv = {s. s < lv_nsegs lv \<and> lv_acked_ever lv ! s}"

lemma store_seg_keeps:
  assumes sh: "live_shape lv" and st: "store_seg seg data offset len lv = (r, lv')"
    and seg: "seg < lv_nsegs lv"
  shows "acked_set lv \<subseteq> acked_set lv'" and "lv_waiters lv' = lv_waiters lv"
    and "lv_aborted lv' = lv_aborted lv" and "lv_refs lv' = lv_refs lv"
    and "lv_upload_complete lv' = lv_upload_complete lv" and "lv_run_hi lv' = lv_run_hi lv"
    and "lv_peak_seg lv' = lv_peak_seg lv" and "lv_session_id lv' = lv_session_id lv"
proof -
  have "acked_set lv \<subseteq> acked_set lv' \<and> lv_waiters lv' = lv_waiters lv \<and>
    lv_aborted lv' = lv_aborted lv \<and> lv_refs lv' = lv_refs lv \<and>
    lv_upload_complete lv' = lv_upload_complete lv \<and> lv_run_hi lv' = lv_run_hi lv \<and>
    lv_peak_seg lv' = lv_peak_seg lv \<and> lv_session_id lv' = lv_session_id lv"
  proof (rule store_seg_outcome [OF st seg], goal_cases)
    case (4 i lv1)
    note same = alloc_effect_same [OF 4(2)]
    have "acked_set lv \<subseteq> acked_set lv'"
      using seg sh by (auto simp: acked_set_def 4(4) same live_shape_def nth_list_update)
    then show ?case by (simp add: 4(4) same)
  qed simp_all
  then show "acked_set lv \<subseteq> acked_set lv'" and "lv_waiters lv' = lv_waiters lv"
    and "lv_aborted lv' = lv_aborted lv" and "lv_refs lv' = lv_refs lv"
    and "lv_upload_complete lv' = lv_upload_complete lv" and "lv_run_hi lv' = lv_run_hi lv"
    and "lv_peak_seg lv' = lv_peak_seg lv" and "lv_session_id lv' = lv_session_id lv"
    by simp_all
qed

text \<open>A resident segment leaves RAM only as the least recently used candidate for
  the incoming segment, with every slot taken.\<close>

lemma store_seg_evicts:
  assumes sh: "live_shape lv" and tb: "live_tables lv"
    and st: "store_seg seg data offset len lv = (r, lv')"
    and seg: "seg < lv_nsegs lv" and s: "s < lv_nsegs lv" "lv_present lv ! s" "\<not> lv_present lv' ! s"
  shows "0 < s \<and> s \<noteq> seg \<and> evict_candidate lv seg s \<and>
     (\<forall>j<lv_nslots lv. lv_slot_seg lv ! j \<noteq> None) \<and>
     (\<forall>t. 0 < t \<and> t < lv_nsegs lv \<and> evict_candidate lv seg t \<longrightarrow>
        slot_stamp lv s \<le> slot_stamp lv t)"
proof (rule store_seg_outcome [OF st seg], goal_cases)
  case (4 i lv1)
  have len: "length (lv_present lv) = lv_nsegs lv" using sh by (simp add: live_shape_def)
  have np: "\<not> lv_present lv1 ! s" "s \<noteq> seg"
    using s seg len by (auto simp: 4(4) alloc_effect_same [OF 4(2)] nth_list_update split: if_splits)
  show ?case
  proof (rule alloc_effect_cases [OF 4(2)], goal_cases)
    case 1
    then show ?case using np s by simp
  next
    case 2
    then show ?case using np s by simp
  next
    case (3 v)
    have "lv_present lv1 = (lv_present lv)[v := False]"
      using 3 seg by (simp add: live_evict_tables)
    with np s len have "s = v" by (cases "s = v") simp_all
    with 3 np show ?case by simp
  qed
qed (use s in simp_all)

text \<open>The pinned header and every segment a reader is parked on stay in RAM.\<close>

definition shielded :: "live \<Rightarrow> nat \<Rightarrow> bool" where
  "shielded lv s \<longleftrightarrow> s < lv_nsegs lv \<and> lv_present lv ! s \<and> (s = 0 \<or> lv_waiters lv ! s > 0)"

lemma store_seg_shielded:
  assumes "live_shape lv" "live_tables lv" "store_seg seg data offset len lv = (r, lv')"
    "seg < lv_nsegs lv" "shielded lv s"
  shows "lv_present lv' ! s"
proof (rule ccontr)
  assume "\<not> lv_present lv' ! s"
  with assms(5) have "0 < s \<and> evict_candidate lv seg s"
    using store_seg_evicts [OF assms(1-4), of s] by (simp add: shielded_def)
  with assms(5) show False by (simp add: shielded_def evict_candidate_def)
qed

text \<open>Facts that hold of \<open>ws_live_try_write\<close> because each stored segment keeps
  them.\<close>

lemma try_write_induct:
  assumes inv: "live_inv lv" and w: "ws_live_try_write offset (Some data) (length data) lv = (r, lv')"
    and b: "offset < 2 ^ 64" "length data < 2 ^ 64"
    and base: "P lv"
    and step: "\<And>s l r l'. live_shape l \<Longrightarrow> live_tables l \<Longrightarrow> s < lv_nsegs l \<Longrightarrow>
        lv_nsegs l = lv_nsegs lv \<Longrightarrow> s \<in> set (write_segs offset (length data)) \<Longrightarrow> P l \<Longrightarrow>
        store_seg s data offset (length data) l = (r, l') \<Longrightarrow> P l'"
  shows "P lv'"
proof (rule try_write_cases [OF w b])
  assume "lv' = lv" then show ?thesis using base by simp
next
  assume act: "lv_active lv" and len: "0 < length data" and fit: "offset + length data \<le> lv_total lv"
    and lt: "offset + length data < 2 ^ 64"
    and run: "try_store_segs (write_segs offset (length data)) data offset (length data) lv = (r, lv')"
  let ?P = "\<lambda>l. live_inv l \<and> lv_active l \<and> lv_nsegs l = lv_nsegs lv \<and> P l"
  have sh: "live_shape lv" using live_inv_active [OF inv act] by simp
  have "?P lv'"
  proof (rule try_store_segs_induct [OF run])
    show "?P lv" using inv act base by simp
  next
    fix s l r' l'
    assume s: "s \<in> set (write_segs offset (length data))" and Q: "?P l"
      and st: "store_seg s data offset (length data) l = (r', l')"
    have "s < lv_nsegs lv" using write_segs_inside [OF len fit sh s] .
    with Q have sl: "s < lv_nsegs l" by simp
    have "live_inv l' \<and> lv_active l' \<and> lv_nsegs l' = lv_nsegs l"
      using store_seg_inv [OF _ _ st sl _ lt] Q by simp
    moreover have "P l'" using step [OF _ _ sl _ s _ st] Q live_inv_active [of l] by simp
    ultimately show "?P l'" using Q by simp
  qed
  then show ?thesis by simp
qed

lemma try_write_keeps:
  assumes "live_inv lv" "ws_live_try_write offset (Some data) (length data) lv = (r, lv')"
    "offset < 2 ^ 64" "length data < 2 ^ 64"
  shows "acked_set lv \<subseteq> acked_set lv' \<and> lv_waiters lv' = lv_waiters lv \<and>
    lv_aborted lv' = lv_aborted lv \<and> lv_refs lv' = lv_refs lv \<and>
    lv_upload_complete lv' = lv_upload_complete lv \<and> lv_run_hi lv' = lv_run_hi lv \<and>
    lv_peak_seg lv' = lv_peak_seg lv \<and> lv_session_id lv' = lv_session_id lv"
proof (rule try_write_induct [OF assms], simp, goal_cases)
  case (1 s l r l')
  note k = store_seg_keeps [OF 1(1,7,3)]
  have "acked_set lv \<subseteq> acked_set l'" using 1(6) k(1) by blast
  then show ?case using 1(6) k by simp
qed

lemma try_write_shielded:
  assumes "live_inv lv" "ws_live_try_write offset (Some data) (length data) lv = (r, lv')"
    "offset < 2 ^ 64" "length data < 2 ^ 64" "shielded lv s"
  shows "lv_present lv' ! s"
proof -
  have "lv_present lv' ! s \<and> lv_waiters lv' = lv_waiters lv"
  proof (rule try_write_induct [OF assms(1-4)])
    show "lv_present lv ! s \<and> lv_waiters lv = lv_waiters lv"
      using assms(5) by (simp add: shielded_def)
  next
    fix t l r l'
    assume a: "live_shape l" "live_tables l" "t < lv_nsegs l" "lv_nsegs l = lv_nsegs lv"
      "lv_present l ! s \<and> lv_waiters l = lv_waiters lv"
      and st: "store_seg t data offset (length data) l = (r, l')"
    have "shielded l s" using a assms(5) by (simp add: shielded_def)
    then show "lv_present l' ! s \<and> lv_waiters l' = lv_waiters lv"
      using store_seg_shielded [OF a(1,2) st a(3)] store_seg_keeps(2) [OF a(1) st a(3)] a(5) by simp
  qed
  then show ?thesis by simp
qed

text \<open>During sequential playback (no reader has sought ahead and none is parked) a
  segment that leaves RAM has been served to its end.\<close>

lemma try_write_sequential:
  assumes inv: "live_inv lv" and w: "ws_live_try_write offset (Some data) (length data) lv = (r, lv')"
    and b: "offset < 2 ^ 64" "length data < 2 ^ 64"
    and seq: "lv_peak_seg lv = 0" "\<forall>t<lv_nsegs lv. lv_waiters lv ! t = 0"
    and s: "s < lv_nsegs lv" "lv_present lv ! s" "\<not> lv_present lv' ! s"
  shows "(s + 1) * SEG \<le> lv_run_hi lv"
proof -
  let ?P = "\<lambda>l. lv_peak_seg l = 0 \<and> lv_waiters l = lv_waiters lv \<and> lv_run_hi l = lv_run_hi lv \<and>
     (lv_present l ! s \<or> (s + 1) * SEG \<le> lv_run_hi lv)"
  have "?P lv'"
  proof (rule try_write_induct [OF inv w b])
    show "?P lv" using seq s by simp
  next
    fix t l r l'
    assume a: "live_shape l" "live_tables l" "t < lv_nsegs l" "lv_nsegs l = lv_nsegs lv" "?P l"
      and st: "store_seg t data offset (length data) l = (r, l')"
    note k = store_seg_keeps [OF a(1) st a(3)]
    show "?P l'"
    proof (cases "lv_present l ! s \<and> \<not> lv_present l' ! s")
      case True
      then have "evict_candidate l t s"
        using store_seg_evicts [OF a(1,2) st a(3)] s(1) a(4) by simp
      then have "(s + 1) * SEG \<le> lv_run_hi lv"
        using a(3-5) seq(2)
        by (auto simp: evict_candidate_def live_evictable_def Let_def split: if_splits)
      then show ?thesis using k a(5) by simp
    next
      case False
      then show ?thesis using k a(5) by auto
    qed
  qed
  then show ?thesis using s(3) by simp
qed

text \<open>A whole-segment message that is accepted is resident afterwards.\<close>

lemma store_seg_stored:
  assumes sh: "live_shape lv" and st: "store_seg seg data offset len lv = (r, lv')"
    and seg: "seg < lv_nsegs lv" and cov: "covers_seg lv seg offset len" and r: "r \<noteq> -2"
  shows "lv_present lv' ! seg \<and> seg \<in> acked_set lv'"
proof (rule store_seg_outcome [OF st seg], goal_cases)
  case 1
  then show ?case using covers_not_misses [OF cov] by simp
next
  case 2
  then show ?case using st cov covers_not_misses [OF cov]
    by (auto simp: store_seg_eq split: prod.splits option.splits)
next
  case 3
  then show ?case using r by simp
next
  case (4 i lv1)
  then show ?case
    using seg sh by (simp add: alloc_effect_same [OF 4(2)] live_shape_def acked_set_def)
qed

lemma single_write_segs:
  assumes "live_shape lv" "s < lv_nsegs lv" "len = seg_len lv s"
  shows "write_segs (s * SEG) len = [s]" and "covers_seg lv s (s * SEG) len"
    and "s * SEG + len \<le> lv_total lv" and "0 < len" and "s * SEG + len < 2 ^ 64"
proof -
  have "s * SEG \<le> (lv_nsegs lv - 1) * SEG" using assms(2) by simp
  with shape_cover(2) [OF assms(1)] have lt: "s * SEG < lv_total lv" by linarith
  then show pos: "0 < len" using assms(3) by (simp add: seg_len_pos_iff)
  have le: "len \<le> SEG" using assms(3) by (simp add: seg_len_le)
  show fit: "s * SEG + len \<le> lv_total lv"
    using seg_len_le_total [of lv s] assms(3) lt by linarith
  have lt64: "s * SEG + len < 2 ^ 64"
    using fit assms(1) SEG_pos unfolding live_shape_def by linarith
  then show "s * SEG + len < 2 ^ 64" .
  have w: "wrap64 (s * SEG + len) = s * SEG + len" using lt64 by (rule wrap64_id)
  then show "covers_seg lv s (s * SEG) len" using pos assms(3) by (simp add: covers_seg_def)
  have "sub64 (s * SEG + len) 1 = s * SEG + (len - 1)"
    using pos lt64 sub64_id [of 1 "s * SEG + len"] by simp
  moreover have "(s * SEG + (len - 1)) div SEG = s"
    using div_mult_self3 [of SEG s "len - 1"] pos le SEG_pos by simp
  ultimately show "write_segs (s * SEG) len = [s]"
    using w by (simp add: write_segs_def Let_def)
qed

end
