(* ===== verification/LiveRead.thy ===== *)
theory LiveRead
  imports LiveOps
begin

text \<open>
  The blocking operations of the live session: the range read of a stream
  reader, the blocking writer and the wait for the header. Each of them holds
  the session mutex except while it waits for a condition and while it calls
  the seek sink. What the other threads do meanwhile is an argument: a list of
  wake-ups, one for each time the lock is released, each a function on the
  session with a flag that says whether the deadline has passed. A list that
  ends stands for a thread that is still parked. The proofs ask of a wake-up
  only what the operations of \<open>LiveOps\<close> promise (\<open>live_rely\<close>).
\<close>

section \<open>The read\<close>

datatype wake = Wake (wake_env: "live \<Rightarrow> live") (wake_expired: bool)

text \<open>The first byte of \<open>[p, e)\<close> whose segment is not resident, or \<open>e\<close>; the scan
  advances to the end of the segment of \<open>p\<close>.\<close>

definition seg_next :: "live \<Rightarrow> nat \<Rightarrow> nat" where
  "seg_next lv p =
     (let s_end0 = (p div SEG + 1) * SEG;
          s_end = (if s_end0 > lv_total lv then lv_total lv else s_end0)
      in if s_end > p then s_end else p + 1)"

lemma seg_next_gt: "p < seg_next lv p"
  by (simp add: seg_next_def Let_def)

function first_miss :: "live \<Rightarrow> nat \<Rightarrow> nat \<Rightarrow> nat" where
  "first_miss lv p e =
     (if p < e then
        (if p div SEG \<ge> lv_nsegs lv \<or> \<not> lv_present lv ! (p div SEG) then p
         else if seg_next lv p \<ge> e then e
         else first_miss lv (seg_next lv p) e)
      else e)"
  by pat_completeness auto
termination
  by (relation "measure (\<lambda>(lv, p, e). e - p)") (simp_all add: seg_next_gt diff_less_mono2)

declare first_miss.simps [simp del]

text \<open>The copy loop: from file offset \<open>p\<close>, \<open>got\<close> of \<open>count\<close> bytes are done. Each
  round copies the rest of one segment and touches its slot.\<close>

definition touch_slot :: "nat \<Rightarrow> nat \<Rightarrow> live \<Rightarrow> live" where
  "touch_slot i m lv =
     lv\<lparr> lv_tick := lv_tick lv + 1,
         lv_last_use := (lv_last_use lv)[i := lv_tick lv + 1],
         lv_slot_read := (lv_slot_read lv)[i := True],
         lv_served := lv_served lv + m \<rparr>"

definition copy_len :: "live \<Rightarrow> nat \<Rightarrow> nat \<Rightarrow> nat" where
  "copy_len lv p left =
     (let s = p div SEG;
          so = p - s * SEG;
          m0 = SEG - so;
          m1 = (if m0 > left then left else m0);
          seg_left = seg_len lv s
      in if so + m1 > seg_left then seg_left - so else m1)"

function copy_out :: "nat \<Rightarrow> nat \<Rightarrow> nat \<Rightarrow> byte list \<Rightarrow> live \<Rightarrow> nat \<times> nat \<times> byte list \<times> live" where
  "copy_out p got count dst lv =
     (if got < count then
        (let s = p div SEG in
         case (if s < lv_nsegs lv then lv_slot_of lv ! s else None) of
           None \<Rightarrow> (p, got, dst, lv)
         | Some i \<Rightarrow>
           (let m = copy_len lv p (count - got) in
            if m = 0 then (p, got, dst, lv)
            else copy_out (p + m) (got + m) count
                   (dst @ bslice (p - s * SEG) m (lv_slots lv ! i)) (touch_slot i m lv)))
      else (p, got, dst, lv))"
  by pat_completeness auto
termination
  by (relation "measure (\<lambda>(p, got, count, dst, lv). count - got)") simp_all

declare copy_out.simps [simp del]

text \<open>\<open>emit_seek_locked\<close>: at most one request per segment every two seconds. The
  flag says whether the sink is to be called.\<close>

definition emit_seek :: "nat \<Rightarrow> live \<Rightarrow> bool \<times> live" where
  "emit_seek seg lv =
     (if seg < lv_nsegs lv \<and> sub64 (lv_now lv) (lv_seek_sent lv ! seg) > 2000
      then (lv_seek_fn lv, lv\<lparr>lv_seek_sent := (lv_seek_sent lv)[seg := lv_now lv]\<rparr>)
      else (False, lv))"

definition inc_waiter :: "nat \<Rightarrow> live \<Rightarrow> live" where
  "inc_waiter seg lv =
     (if seg < lv_nsegs lv
      then lv\<lparr>lv_waiters := (lv_waiters lv)[seg := lv_waiters lv ! seg + 1]\<rparr> else lv)"

definition dec_waiter :: "nat \<Rightarrow> live \<Rightarrow> live" where
  "dec_waiter seg lv =
     (if seg < lv_nsegs lv \<and> lv_waiters lv ! seg > 0
      then lv\<lparr>lv_waiters := (lv_waiters lv)[seg := lv_waiters lv ! seg - 1]\<rparr> else lv)"

definition raise_peak :: "nat \<Rightarrow> live \<Rightarrow> live" where
  "raise_peak seg lv =
     (if seg > lv_peak_seg lv \<and> seg < lv_nsegs lv then lv\<lparr>lv_peak_seg := seg\<rparr> else lv)"

text \<open>Parking on a missing segment: the seek request (with the lock released),
  then the wait.\<close>

datatype park = Parked live | ParkFail live | ParkRetry live "wake list"

fun park_wait :: "nat \<Rightarrow> live \<Rightarrow> wake list \<Rightarrow> park" where
  "park_wait need lv [] = Parked lv"
| "park_wait need lv (w # ws) =
     (let lv1 = dec_waiter need (wake_env w lv) in
      if wake_expired w then ParkFail lv1 else ParkRetry lv1 ws)"

definition park_on :: "nat \<Rightarrow> live \<Rightarrow> wake list \<Rightarrow> park" where
  "park_on need lv ws =
     (let lv1 = inc_waiter need (raise_peak need lv);
          (emit, lv2) = (if need > 0 then emit_seek need lv1 else (False, lv1))
      in if emit
         then (let lv3 = lv2\<lparr>lv_trace := lv_trace lv2 @ [SeekCall need]\<rparr> in
               case ws of
                 [] \<Rightarrow> Parked lv3
               | w # ws' \<Rightarrow>
                 (let lv4 = wake_env w lv3 in
                  if \<not> lv_active lv4 \<or> lv_aborted lv4 then ParkFail (dec_waiter need lv4)
                  else if need < lv_nsegs lv4 \<and> lv_present lv4 ! need
                  then ParkRetry (dec_waiter need lv4) ws'
                  else park_wait need lv4 ws'))
         else park_wait need lv2 ws)"

datatype read_result =
    ReadDone (rd_rc: int) (rd_bytes: "byte list") (rd_state: live)
  | ReadParked live
  | ReadNoFuel

text \<open>The outer loop. Every round either returns or releases the lock; the first
  argument bounds the number of rounds.\<close>

fun read_loop :: "nat \<Rightarrow> nat \<Rightarrow> nat \<Rightarrow> nat \<Rightarrow> byte list \<Rightarrow> nat \<Rightarrow> nat \<Rightarrow> live \<Rightarrow> wake list
    \<Rightarrow> read_result" where
  "read_loop 0 p count got dst read_start served_end lv ws = ReadNoFuel"
| "read_loop (Suc n) p count got dst read_start served_end lv ws =
     (if lv_aborted lv then ReadDone (-1) [] lv
      else
      let e = p + (count - got);
          miss = first_miss lv p e
      in if miss \<ge> e
         then (case copy_out p got count dst lv of
                 (p1, got1, dst1, lv1) \<Rightarrow>
                   if got1 \<ge> count
                   then ReadDone (int got1) dst1
                          (if read_start \<le> lv_run_hi lv1 + SEG \<and> served_end > lv_run_hi lv1
                           then lv1\<lparr>lv_run_hi := served_end\<rparr> else lv1)
                   else read_loop n p1 count got1 dst1 read_start served_end lv1 ws)
         else (case park_on (miss div SEG) lv ws of
                 Parked lv1 \<Rightarrow> ReadParked lv1
               | ParkFail lv1 \<Rightarrow> ReadDone (-1) [] lv1
               | ParkRetry lv1 ws' \<Rightarrow> read_loop n p count got dst read_start served_end lv1 ws'))"

definition ws_live_read :: "nat \<Rightarrow> nat \<Rightarrow> nat \<Rightarrow> live \<Rightarrow> wake list \<Rightarrow> read_result" where
  "ws_live_read fuel off count lv ws =
     (if count = 0 then ReadDone 0 [] lv
      else if \<not> lv_active lv then ReadDone (-1) [] lv
      else if off \<ge> lv_total lv then ReadDone 0 [] lv
      else
      let count1 = (if count > lv_total lv - off then lv_total lv - off else count)
      in read_loop fuel off count1 0 [] off (off + count1) lv ws)"

section \<open>The blocking writer and the header wait\<close>

datatype write_result = WriteDone (wr_rc: int) (wr_state: live) | WriteParked live

text \<open>\<open>ws_live_write\<close> on one segment: retry until it is stored, each time after a
  wait.\<close>

fun write_seg_wait :: "nat \<Rightarrow> byte list \<Rightarrow> nat \<Rightarrow> nat \<Rightarrow> live \<Rightarrow> wake list
    \<Rightarrow> write_result \<times> wake list" where
  "write_seg_wait s data offset len lv ws =
     (if lv_aborted lv then (WriteDone (-1) lv, ws)
      else
      case store_seg s data offset len lv of
        (r, lv1) \<Rightarrow>
          if r = 1 then (WriteDone 0 lv1, ws)
          else if r = -1 then (WriteDone (-1) lv1, ws)
          else if r \<ge> 0 then (WriteDone 0 lv1, ws)
          else
          (case ws of
             [] \<Rightarrow> (WriteParked lv1, [])
           | w # ws' \<Rightarrow>
               if wake_expired w then (WriteDone (-1) (wake_env w lv1), ws')
               else write_seg_wait s data offset len (wake_env w lv1) ws'))"

declare write_seg_wait.simps [simp del]

fun write_segs_wait :: "nat list \<Rightarrow> byte list \<Rightarrow> nat \<Rightarrow> nat \<Rightarrow> live \<Rightarrow> wake list \<Rightarrow> write_result" where
  "write_segs_wait [] data offset len lv ws = WriteDone 0 lv"
| "write_segs_wait (s # ss) data offset len lv ws =
     (case write_seg_wait s data offset len lv ws of
        (WriteDone r lv1, ws') \<Rightarrow>
          if r = 0 then write_segs_wait ss data offset len lv1 ws' else WriteDone r lv1
      | (WriteParked lv1, _) \<Rightarrow> WriteParked lv1)"

definition ws_live_write :: "nat \<Rightarrow> byte list option \<Rightarrow> nat \<Rightarrow> live \<Rightarrow> wake list \<Rightarrow> write_result" where
  "ws_live_write offset data len lv ws =
     (if data = None \<and> len > 0 then WriteDone (-1) lv
      else if \<not> lv_active lv \<or> lv_aborted lv then WriteDone (-1) lv
      else if len = 0 then WriteDone 0 lv
      else if wrap64 (offset + len) > lv_total lv \<or> offset mod SEG \<noteq> 0 then WriteDone (-1) lv
      else
      case data of
        None \<Rightarrow> WriteDone (-1) lv
      | Some d \<Rightarrow> write_segs_wait (write_segs offset len) d offset len lv ws)"

text \<open>\<open>ws_live_wait_header\<close>: 0 when segment 0 has arrived, -1 on abort or timeout,
  \<open>None\<close> while parked.\<close>

fun ws_live_wait_header :: "live \<Rightarrow> wake list \<Rightarrow> int option" where
  "ws_live_wait_header lv ws =
     (if \<not> lv_active lv \<or> lv_aborted lv then Some (-1)
      else if lv_nsegs lv > 0 \<and> lv_present lv ! 0 then Some 0
      else
      (case ws of
         [] \<Rightarrow> None
       | w # ws' \<Rightarrow>
           if wake_expired w then Some (-1) else ws_live_wait_header (wake_env w lv) ws'))"

declare ws_live_wait_header.simps [simp del]

section \<open>Scan and copy\<close>

lemma seg_next_here:
  assumes "p \<le> x" "x < seg_next lv p" "p < lv_total lv"
  shows "x div SEG = p div SEG"
proof -
  have "p < (p div SEG + 1) * SEG"
    using dividend_less_div_times [OF SEG_pos, of p] by (simp add: algebra_simps)
  with assms(2,3) have "x < (p div SEG + 1) * SEG"
    by (simp add: seg_next_def Let_def split: if_splits)
  then have "x div SEG < p div SEG + 1" by (rule less_mult_imp_div_less)
  moreover have "p div SEG \<le> x div SEG" using assms(1) by (rule div_le_mono)
  ultimately show ?thesis by simp
qed

lemma first_miss_all:
  "e \<le> first_miss lv p e \<Longrightarrow> p \<le> x \<Longrightarrow> x < e \<Longrightarrow> e \<le> lv_total lv \<Longrightarrow>
     x div SEG < lv_nsegs lv \<and> lv_present lv ! (x div SEG)"
proof (induction lv p e rule: first_miss.induct)
  case (1 lv p e)
  from "1.prems" have pe: "p < e" by simp
  then have here: "p div SEG < lv_nsegs lv \<and> lv_present lv ! (p div SEG)"
    using "1.prems"(1) first_miss.simps [of lv p e] by (auto split: if_splits)
  show ?case
  proof (cases "x < seg_next lv p")
    case True
    moreover have "p < lv_total lv" using pe "1.prems"(4) by linarith
    ultimately have "x div SEG = p div SEG" using "1.prems"(2) by (intro seg_next_here)
    then show ?thesis using here by simp
  next
    case False
    with "1.prems"(3) have ne: "\<not> e \<le> seg_next lv p" by simp
    then have "e \<le> first_miss lv (seg_next lv p) e"
      using "1.prems"(1) pe here first_miss.simps [of lv p e] by simp
    then show ?thesis
      using "1.IH" pe here ne False "1.prems"(3,4) by simp
  qed
qed

lemma first_miss_lt:
  "first_miss lv p e < e \<Longrightarrow> p \<le> first_miss lv p e \<and>
     (first_miss lv p e div SEG < lv_nsegs lv \<longrightarrow> \<not> lv_present lv ! (first_miss lv p e div SEG))"
proof (induction lv p e rule: first_miss.induct)
  case (1 lv p e)
  show ?case
  proof (cases "p < e \<and> p div SEG < lv_nsegs lv \<and> lv_present lv ! (p div SEG) \<and>
      \<not> e \<le> seg_next lv p")
    case True
    then have eq: "first_miss lv p e = first_miss lv (seg_next lv p) e"
      by (subst first_miss.simps) simp
    have "seg_next lv p \<le> first_miss lv p e \<and> (first_miss lv p e div SEG < lv_nsegs lv \<longrightarrow>
        \<not> lv_present lv ! (first_miss lv p e div SEG))"
      using "1.IH" True "1.prems" unfolding eq by simp
    then show ?thesis using seg_next_gt [of p lv] by simp
  next
    case False
    with "1.prems" have "first_miss lv p e = p \<and> \<not> (p div SEG < lv_nsegs lv \<and> lv_present lv ! (p div SEG))"
      using first_miss.simps [of lv p e] by (auto split: if_splits)
    then show ?thesis by simp
  qed
qed

lemma touch_slot_same [simp]:
  "lv_total (touch_slot i m lv) = lv_total lv" "lv_nsegs (touch_slot i m lv) = lv_nsegs lv"
  "lv_present (touch_slot i m lv) = lv_present lv" "lv_slot_of (touch_slot i m lv) = lv_slot_of lv"
  "lv_slots (touch_slot i m lv) = lv_slots lv" "lv_active (touch_slot i m lv) = lv_active lv"
  "lv_aborted (touch_slot i m lv) = lv_aborted lv" "lv_run_hi (touch_slot i m lv) = lv_run_hi lv"
  "lv_refs (touch_slot i m lv) = lv_refs lv" "lv_waiters (touch_slot i m lv) = lv_waiters lv"
  "seg_len (touch_slot i m lv) s = seg_len lv s"
  by (simp_all add: touch_slot_def seg_len_def Let_def)

lemma touch_slot_inv: "live_inv lv \<Longrightarrow> live_inv (touch_slot i m lv)"
  by (rule live_inv_transfer [where lv = lv]) (simp_all add: touch_slot_def live_marks_def)

lemma touch_slot_content: "live_content f (touch_slot i m lv) = live_content f lv"
  by (simp add: live_content_def)

text \<open>The bytes of one round of the copy loop.\<close>

lemma round_bytes:
  assumes "live_content f lv" "p div SEG < lv_nsegs lv" "lv_present lv ! (p div SEG)"
    "lv_slot_of lv ! (p div SEG) = Some i" "p mod SEG + m \<le> seg_len lv (p div SEG)"
  shows "bslice (p mod SEG) m (lv_slots lv ! i) = bslice p m f"
proof -
  let ?s = "p div SEG"
  have c: "take (seg_len lv ?s) (lv_slots lv ! i) = bslice (?s * SEG) (seg_len lv ?s) f"
    using assms(1-4) by (simp add: live_content_def)
  have "bslice (p mod SEG) m (lv_slots lv ! i) =
      bslice (p mod SEG) m (take (seg_len lv ?s) (lv_slots lv ! i))"
    using assms(5) by (simp add: bslice_take)
  also have "\<dots> = bslice (p mod SEG) m (bslice (?s * SEG) (seg_len lv ?s) f)"
    by (simp only: c)
  also have "\<dots> = bslice (?s * SEG + p mod SEG) m f"
    using assms(5) by (simp add: bslice_of_bslice)
  finally show ?thesis by simp
qed

lemma copy_len_bounds:
  assumes "p < lv_total lv"
  shows "0 < left \<Longrightarrow> 0 < copy_len lv p left" and "p mod SEG + copy_len lv p left \<le> seg_len lv (p div SEG)"
    and "copy_len lv p left \<le> left"
proof -
  have so: "p - p div SEG * SEG = p mod SEG" by (simp add: minus_div_mult_eq_mod)
  have solt: "p mod SEG < SEG" by simp
  have e: "p div SEG * SEG + p mod SEG = p" by simp
  have "p mod SEG < lv_total lv - p div SEG * SEG" "\<not> lv_total lv \<le> p div SEG * SEG"
    using assms e by linarith+
  then have sl: "p mod SEG < seg_len lv (p div SEG)"
    using solt by (simp add: seg_len_def Let_def)
  show "0 < left \<Longrightarrow> 0 < copy_len lv p left"
    using sl solt unfolding copy_len_def Let_def so by (simp split: if_split)
  show "p mod SEG + copy_len lv p left \<le> seg_len lv (p div SEG)"
    using sl unfolding copy_len_def Let_def so by (simp split: if_split)
  show "copy_len lv p left \<le> left"
    using sl solt unfolding copy_len_def Let_def so by (auto split: if_splits)
qed

text \<open>With every byte of the range resident, the copy loop copies all of it and
  changes nothing a reader depends on.\<close>

lemma copy_out_complete:
  assumes "live_inv lv" "lv_active lv" "live_content f lv" "got \<le> count"
    "p + (count - got) \<le> lv_total lv"
    "\<And>x. p \<le> x \<Longrightarrow> x < p + (count - got) \<Longrightarrow>
       x div SEG < lv_nsegs lv \<and> lv_present lv ! (x div SEG)"
  shows "\<exists>lv'. copy_out p got count dst lv =
      (p + (count - got), count, dst @ bslice p (count - got) f, lv') \<and>
      live_inv lv' \<and> live_content f lv' \<and> lv_active lv' \<and> lv_aborted lv' = lv_aborted lv \<and>
      lv_total lv' = lv_total lv \<and> lv_run_hi lv' = lv_run_hi lv \<and> lv_refs lv' = lv_refs lv \<and>
      lv_nsegs lv' = lv_nsegs lv \<and> lv_served lv' = lv_served lv + (count - got)"
  using assms
proof (induction p got count dst lv rule: copy_out.induct)
  case (1 p got count dst lv)
  let ?s = "p div SEG"
  show ?case
  proof (cases "got < count")
    case False
    then have "copy_out p got count dst lv = (p, got, dst, lv)" by (subst copy_out.simps) simp
    moreover have "count = got" using False "1.prems"(4) by simp
    ultimately show ?thesis using "1.prems" by simp
  next
    case True
    have here: "?s < lv_nsegs lv" "lv_present lv ! ?s" using "1.prems"(6) [of p] True by simp_all
    have tb: "live_tables lv" using live_inv_active [OF "1.prems"(1,2)] by simp
    obtain i where i: "lv_slot_of lv ! ?s = Some i"
      using tables_present [OF tb here(1)] here by auto
    let ?so = "p - ?s * SEG"
    let ?m = "copy_len lv p (count - got)"
    have so: "?so = p mod SEG" by (simp add: minus_div_mult_eq_mod)
    have plt: "p < lv_total lv" using "1.prems"(5) True by linarith
    note m = copy_len_bounds [OF plt, of "count - got"]
    have mc: "0 < ?m" "got + ?m \<le> count" using m True by simp_all
    have bytes: "bslice ?so ?m (lv_slots lv ! i) = bslice p ?m f"
      unfolding so by (rule round_bytes [OF "1.prems"(3) here i m(2)])
    let ?lv1 = "touch_slot i ?m lv"
    have step: "copy_out p got count dst lv =
        copy_out (p + ?m) (got + ?m) count (dst @ bslice ?so ?m (lv_slots lv ! i)) ?lv1"
      using True here i mc(1) by (subst copy_out.simps) (simp add: Let_def)
    obtain lv' where IH: "copy_out (p + ?m) (got + ?m) count (dst @ bslice ?so ?m (lv_slots lv ! i)) ?lv1 =
        (p + ?m + (count - (got + ?m)), count,
         (dst @ bslice ?so ?m (lv_slots lv ! i)) @ bslice (p + ?m) (count - (got + ?m)) f, lv')"
      and P: "live_inv lv'" "live_content f lv'" "lv_active lv'" "lv_aborted lv' = lv_aborted ?lv1"
        "lv_total lv' = lv_total ?lv1" "lv_run_hi lv' = lv_run_hi ?lv1" "lv_refs lv' = lv_refs ?lv1"
        "lv_nsegs lv' = lv_nsegs ?lv1" "lv_served lv' = lv_served ?lv1 + (count - (got + ?m))"
    proof -
      have "\<exists>lv'. copy_out (p + ?m) (got + ?m) count (dst @ bslice ?so ?m (lv_slots lv ! i)) ?lv1 =
        (p + ?m + (count - (got + ?m)), count,
         (dst @ bslice ?so ?m (lv_slots lv ! i)) @ bslice (p + ?m) (count - (got + ?m)) f, lv') \<and>
        live_inv lv' \<and> live_content f lv' \<and> lv_active lv' \<and> lv_aborted lv' = lv_aborted ?lv1 \<and>
        lv_total lv' = lv_total ?lv1 \<and> lv_run_hi lv' = lv_run_hi ?lv1 \<and> lv_refs lv' = lv_refs ?lv1 \<and>
        lv_nsegs lv' = lv_nsegs ?lv1 \<and> lv_served lv' = lv_served ?lv1 + (count - (got + ?m))"
      proof (rule "1.IH" [OF True refl _ refl])
        show "(if ?s < lv_nsegs lv then lv_slot_of lv ! ?s else None) = Some i" using here i by simp
        show "?m \<noteq> 0" using mc(1) by simp
        show "live_inv ?lv1" using "1.prems"(1) by (rule touch_slot_inv)
        show "lv_active ?lv1" using "1.prems"(2) by simp
        show "live_content f ?lv1" using "1.prems"(3) by (simp only: touch_slot_content)
        show "got + ?m \<le> count" by (rule mc(2))
        show "p + ?m + (count - (got + ?m)) \<le> lv_total ?lv1" using "1.prems"(5) mc(2) by simp
        show "\<And>x. p + ?m \<le> x \<Longrightarrow> x < p + ?m + (count - (got + ?m)) \<Longrightarrow>
            x div SEG < lv_nsegs ?lv1 \<and> lv_present ?lv1 ! (x div SEG)"
          using "1.prems"(6) mc(2) by simp
      qed
      then show ?thesis using that by blast
    qed
    have served: "lv_served ?lv1 = lv_served lv + ?m" by (simp add: touch_slot_def)
    have cat: "(dst @ bslice ?so ?m (lv_slots lv ! i)) @ bslice (p + ?m) (count - (got + ?m)) f =
        dst @ bslice p (count - got) f"
      using mc(2) bslice_append [of p ?m f "count - (got + ?m)"] by (simp add: bytes)
    have pos: "p + ?m + (count - (got + ?m)) = p + (count - got)" using mc(2) by simp
    show ?thesis
      using step IH P mc(2) unfolding cat pos served by (intro exI [of _ lv']) simp
  qed
qed

end
