(* ===== verification/LiveSession.thy ===== *)
theory LiveSession
  imports LiveRead
begin

text \<open>
  The live session as its clients see it: the invariant over every sequence of
  operations, the view of the session that an attached reader can rely on
  whatever the other threads do, and the correctness of the blocking read
  under that rely condition.
\<close>

section \<open>The operations as steps\<close>

datatype live_op =
    LCreate "string option" nat int nat "string option" string bool
  | LTryWrite nat "byte list"
  | LFinish
  | LAbort
  | LDestroy
  | LAttach
  | LDetach
  | LSetTimeout int
  | LSetSlots int
  | LSetSeek bool
  | LClock nat

fun live_step :: "live_op \<Rightarrow> live \<Rightarrow> live" where
  "live_step (LCreate fn sz ring mx env fresh ok) lv =
     snd (snd (ws_live_create fn sz ring mx env fresh ok lv))"
| "live_step (LTryWrite off data) lv = snd (ws_live_try_write off (Some data) (length data) lv)"
| "live_step LFinish lv = snd (ws_live_finish lv)"
| "live_step LAbort lv = ws_live_abort lv"
| "live_step LDestroy lv = ws_live_destroy lv"
| "live_step LAttach lv = snd (ws_live_attach lv)"
| "live_step LDetach lv = ws_live_detach lv"
| "live_step (LSetTimeout t) lv = ws_live_set_timeout_sec t lv"
| "live_step (LSetSlots n) lv = ws_live_set_slots n lv"
| "live_step (LSetSeek b) lv = ws_live_set_seek_fn b lv"
| "live_step (LClock t) lv = lv\<lparr>lv_now := t\<rparr>"

text \<open>What the callers respect: files stay below the 64-bit range (the transport
  caps them at 256 GB) and buffers and offsets are 64-bit values.\<close>

fun live_ok :: "live_op \<Rightarrow> bool" where
  "live_ok (LCreate fn sz ring mx env fresh ok) = (sz + SEG \<le> 2 ^ 64)"
| "live_ok (LTryWrite off data) = (off < 2 ^ 64 \<and> length data < 2 ^ 64)"
| "live_ok _ = True"

lemma clock_inv: "live_inv lv \<Longrightarrow> live_inv (lv\<lparr>lv_now := t\<rparr>)"
  by (rule live_inv_transfer [where lv = lv]) (simp_all add: live_marks_def)

lemma live_step_inv:
  assumes "live_ok p" and "live_inv lv"
  shows "live_inv (live_step p lv)"
proof (cases p)
  case (LCreate fn sz ring mx env fresh ok)
  obtain r out l where c: "ws_live_create fn sz ring mx env fresh ok lv = (r, out, l)"
    by (metis prod_cases3)
  show ?thesis using create_inv [OF assms(2) _ c] assms(1) LCreate c by simp
next
  case (LTryWrite off data)
  obtain r l where w: "ws_live_try_write off (Some data) (length data) lv = (r, l)"
    by (metis surj_pair)
  show ?thesis using try_write_inv [OF assms(2) w] assms(1) LTryWrite w by simp
next
  case LFinish
  then show ?thesis using finish_inv [OF assms(2)] by (cases "ws_live_finish lv") simp
next
  case LAttach
  then show ?thesis using attach_inv [OF assms(2)] by (cases "ws_live_attach lv") simp
qed (use assms in \<open>simp_all add: abort_inv destroy_inv detach_inv config_inv clock_inv\<close>)

interpretation live: inv_component live_step live_ok live_inv
  by unfold_locales (rule live_step_inv)

lemma live_init_inv: "live_inv live_init"
  by (simp add: live_inv_def live_life_def live_init_def)

text \<open>The acknowledged segments only grow while the session lives.\<close>

fun upload_op :: "live_op \<Rightarrow> bool" where
  "upload_op (LCreate fn sz ring mx env fresh ok) = False"
| "upload_op LDestroy = False"
| "upload_op p = live_ok p"

definition live_open :: "live \<Rightarrow> bool" where
  "live_open lv \<longleftrightarrow> live_inv lv \<and> lv_active lv"

lemma upload_step_open:
  assumes "upload_op p" and "live_open lv"
  shows "live_open (live_step p lv) \<and> acked_set lv \<subseteq> acked_set (live_step p lv)"
proof -
  have inv: "live_inv lv" and act: "lv_active lv" using assms(2) by (simp_all add: live_open_def)
  have "live_ok p" using assms(1) by (cases p) simp_all
  then have "live_inv (live_step p lv)" using inv by (rule live_step_inv)
  moreover have "lv_active (live_step p lv) \<and> acked_set lv \<subseteq> acked_set (live_step p lv)"
  proof (cases p)
    case (LTryWrite off data)
    obtain r l where w: "ws_live_try_write off (Some data) (length data) lv = (r, l)"
      by (metis surj_pair)
    have b: "off < 2 ^ 64" "length data < 2 ^ 64" using assms(1) LTryWrite by simp_all
    show ?thesis
      using try_write_inv [OF inv w b] try_write_keeps [OF inv w b] act LTryWrite w by simp
  next
    case LDetach
    have "\<not> lv_free_pending lv" using inv act by (simp add: live_inv_def live_life_def)
    then show ?thesis using act LDetach
      by (auto simp: ws_live_detach_def acked_set_def Let_def)
  qed (use assms(1) act in \<open>auto simp: ws_live_finish_def ws_live_abort_def ws_live_attach_def
      ws_live_set_timeout_sec_def ws_live_set_slots_def ws_live_set_seek_fn_def acked_set_def\<close>)
  ultimately show ?thesis by (simp add: live_open_def)
qed

interpretation upload: monotone_component live_step upload_op live_open acked_set
  by unfold_locales (use upload_step_open in blast)+

section \<open>What an attached reader relies on\<close>

text \<open>The session of the file \<open>f\<close> is either aborted for good or still that
  session, and some reader is attached.\<close>

definition session_view :: "byte list \<Rightarrow> live \<Rightarrow> bool" where
  "session_view f lv \<longleftrightarrow> live_inv lv \<and> 0 < lv_refs lv \<and>
     (lv_aborted lv \<or> (lv_active lv \<and> lv_total lv = length f \<and> live_content f lv))"

text \<open>The operations other threads may run meanwhile: anything but a detach, with
  uploads that carry bytes of \<open>f\<close>.\<close>

fun peer_op :: "byte list \<Rightarrow> live_op \<Rightarrow> bool" where
  "peer_op f (LTryWrite off data) =
     (off < 2 ^ 64 \<and> length data < 2 ^ 64 \<and> carries f off (length data) data)"
| "peer_op f LDetach = False"
| "peer_op f p = live_ok p"

lemma create_busy: "lv_active lv \<or> 0 < lv_refs lv \<Longrightarrow>
    snd (snd (ws_live_create fn sz ring mx env fresh ok lv)) = lv"
  by (auto simp: ws_live_create_def Let_def split: option.splits if_splits)

lemma live_content_cong:
  "lv_nsegs lv' = lv_nsegs lv \<Longrightarrow> lv_total lv' = lv_total lv \<Longrightarrow> lv_present lv' = lv_present lv \<Longrightarrow>
   lv_slot_of lv' = lv_slot_of lv \<Longrightarrow> lv_slots lv' = lv_slots lv \<Longrightarrow>
   live_content f lv' = live_content f lv"
  by (simp add: live_content_def seg_len_cong [of lv' lv])

lemma try_write_aborted: "lv_aborted lv \<Longrightarrow> snd (ws_live_try_write off (Some d) n lv) = lv"
  by (simp add: ws_live_try_write_def)

text \<open>The operations that touch neither the file nor the reader count.\<close>

fun side_op :: "live_op \<Rightarrow> bool" where
  "side_op LFinish = True"
| "side_op LAbort = True"
| "side_op LAttach = True"
| "side_op (LSetTimeout t) = True"
| "side_op (LSetSlots n) = True"
| "side_op (LSetSeek b) = True"
| "side_op (LClock t) = True"
| "side_op _ = False"

lemma side_step_same:
  assumes "side_op p"
  shows "lv_refs lv \<le> lv_refs (live_step p lv)" and "lv_active (live_step p lv) = lv_active lv"
    and "lv_total (live_step p lv) = lv_total lv" and "live_content f (live_step p lv) = live_content f lv"
    and "lv_aborted lv \<Longrightarrow> lv_aborted (live_step p lv)"
proof -
  have "lv_nsegs (live_step p lv) = lv_nsegs lv \<and> lv_total (live_step p lv) = lv_total lv \<and>
    lv_present (live_step p lv) = lv_present lv \<and> lv_slot_of (live_step p lv) = lv_slot_of lv \<and>
    lv_slots (live_step p lv) = lv_slots lv"
    using assms by (cases p) (simp_all add: ws_live_finish_def ws_live_abort_def ws_live_attach_def
      ws_live_set_timeout_sec_def ws_live_set_slots_def ws_live_set_seek_fn_def)
  then show "live_content f (live_step p lv) = live_content f lv" and "lv_total (live_step p lv) = lv_total lv"
    by (simp_all add: live_content_cong [of "live_step p lv" lv])
  show "lv_refs lv \<le> lv_refs (live_step p lv)" and "lv_active (live_step p lv) = lv_active lv"
    and "lv_aborted lv \<Longrightarrow> lv_aborted (live_step p lv)"
    using assms by (cases p, simp_all add: ws_live_finish_def ws_live_abort_def ws_live_attach_def
      ws_live_set_timeout_sec_def ws_live_set_slots_def ws_live_set_seek_fn_def)+
qed

lemma peer_step_view:
  assumes "peer_op f p" and "session_view f lv"
  shows "session_view f (live_step p lv)"
proof -
  have inv: "live_inv lv" and refs: "0 < lv_refs lv"
    and v: "lv_aborted lv \<or> (lv_active lv \<and> lv_total lv = length f \<and> live_content f lv)"
    using assms(2) by (simp_all add: session_view_def)
  have "live_ok p" using assms(1) by (cases p) simp_all
  then have inv': "live_inv (live_step p lv)" using inv by (rule live_step_inv)
  have "0 < lv_refs (live_step p lv) \<and> (lv_aborted (live_step p lv) \<or>
      (lv_active (live_step p lv) \<and> lv_total (live_step p lv) = length f \<and>
       live_content f (live_step p lv)))"
  proof (cases p)
    case (LCreate fn sz ring mx env fresh ok)
    then show ?thesis using create_busy refs v by simp
  next
    case (LTryWrite off data)
    obtain r l where w: "ws_live_try_write off (Some data) (length data) lv = (r, l)"
      by (metis surj_pair)
    have b: "off < 2 ^ 64" "length data < 2 ^ 64" "carries f off (length data) data"
      using assms(1) LTryWrite by simp_all
    note k = try_write_keeps [OF inv w b(1,2)] try_write_inv [OF inv w b(1,2)]
    show ?thesis
      using k v refs LTryWrite w try_write_content [OF inv _ w b] by auto
  next
    case LDetach
    then show ?thesis using assms(1) by simp
  next
    case LDestroy
    show ?thesis
    proof (cases "lv_active lv")
      case True
      then show ?thesis using LDestroy refs by (simp add: ws_live_destroy_def)
    next
      case False
      then show ?thesis using LDestroy v refs by (simp add: ws_live_destroy_def)
    qed
  qed (use refs v side_step_same(1-3,5) [of p lv] side_step_same(4) [of p f lv] in
      \<open>auto simp del: live_step.simps\<close>)
  then show ?thesis using inv' by (simp add: session_view_def)
qed

interpretation reader: inv_component live_step "peer_op f" "session_view f" for f
  by unfold_locales (rule peer_step_view)

text \<open>A wake-up is fair to the reader when it keeps the view; every finite run of
  peer operations is.\<close>

definition live_rely :: "byte list \<Rightarrow> wake \<Rightarrow> bool" where
  "live_rely f w \<longleftrightarrow> (\<forall>lv. session_view f lv \<longrightarrow> session_view f (wake_env w lv))"

lemma peer_run_rely: "list_all (peer_op f) ps \<Longrightarrow> live_rely f (Wake (\<lambda>lv. run_ops live_step lv ps) b)"
  by (simp add: live_rely_def reader.run_inv)

section \<open>Parking\<close>

lemma view_transfer:
  assumes "session_view f lv" and "lv_active lv' = lv_active lv" and "lv_refs lv' = lv_refs lv"
    and "lv_free_pending lv' = lv_free_pending lv" and "lv_mem lv' = lv_mem lv"
    and "lv_total lv' = lv_total lv" and "lv_nsegs lv' = lv_nsegs lv"
    and "lv_nslots lv' = lv_nslots lv" and "lv_present lv' = lv_present lv"
    and "lv_slot_of lv' = lv_slot_of lv" and "lv_slots lv' = lv_slots lv"
    and "lv_slot_seg lv' = lv_slot_seg lv" and "lv_acked_ever lv' = lv_acked_ever lv"
    and "length (lv_last_use lv') = length (lv_last_use lv)"
    and "length (lv_slot_read lv') = length (lv_slot_read lv)"
    and "length (lv_waiters lv') = length (lv_waiters lv)"
    and "length (lv_seek_sent lv') = length (lv_seek_sent lv)"
    and "lv_aborted lv' = lv_aborted lv"
    and "lv_active lv \<Longrightarrow> live_marks lv \<Longrightarrow> live_marks lv'"
  shows "session_view f lv'"
proof -
  have "live_inv lv'"
    by (rule live_inv_transfer [of lv]) (use assms in \<open>simp_all add: session_view_def\<close>)
  then show ?thesis
    using assms live_content_cong [of lv' lv f] by (simp add: session_view_def)
qed

lemma inc_waiter_view: "session_view f lv \<Longrightarrow> session_view f (inc_waiter s lv)"
  by (rule view_transfer [of f lv]) (simp_all add: inc_waiter_def live_marks_def)

lemma dec_waiter_view: "session_view f lv \<Longrightarrow> session_view f (dec_waiter s lv)"
  by (rule view_transfer [of f lv]) (simp_all add: dec_waiter_def live_marks_def)

lemma raise_peak_view: "session_view f lv \<Longrightarrow> session_view f (raise_peak s lv)"
  by (rule view_transfer [of f lv]) (simp_all add: raise_peak_def live_marks_def)

lemma emit_seek_view: "session_view f lv \<Longrightarrow> session_view f (snd (emit_seek s lv))"
  by (rule view_transfer [of f lv]) (simp_all add: emit_seek_def live_marks_def)

lemma trace_view: "session_view f lv \<Longrightarrow> session_view f (lv\<lparr>lv_trace := tr\<rparr>)"
  by (rule view_transfer [of f lv]) (simp_all add: live_marks_def)

lemmas park_views = inc_waiter_view dec_waiter_view raise_peak_view emit_seek_view trace_view

lemma dec_waiter_flags [simp]: "lv_aborted (dec_waiter s lv) = lv_aborted lv"
  "lv_active (dec_waiter s lv) = lv_active lv"
  by (simp_all add: dec_waiter_def)

text \<open>What a parked thread comes back with.\<close>

definition park_post :: "byte list \<Rightarrow> wake list \<Rightarrow> park \<Rightarrow> bool" where
  "park_post f ws pk =
     (case pk of
        Parked lv \<Rightarrow> session_view f lv
      | ParkFail lv \<Rightarrow> session_view f lv
      | ParkRetry lv ws' \<Rightarrow> session_view f lv \<and> set ws' \<subseteq> set ws \<and> length ws' < length ws)"

lemma park_wait_post:
  assumes "session_view f lv" and "\<forall>w\<in>set ws. live_rely f w"
  shows "park_post f ws (park_wait s lv ws)"
proof (cases ws)
  case Nil
  then show ?thesis using assms(1) by (simp add: park_post_def)
next
  case (Cons w ws')
  then have "session_view f (dec_waiter s (wake_env w lv))"
    using assms by (simp add: live_rely_def dec_waiter_view)
  then show ?thesis using Cons by (auto simp: park_post_def Let_def)
qed

lemma park_on_post:
  assumes v: "session_view f lv" and rely: "\<forall>w\<in>set ws. live_rely f w"
  shows "park_post f ws (park_on s lv ws)"
proof -
  let ?lv1 = "inc_waiter s (raise_peak s lv)"
  obtain emit lv2 where em: "(if s > 0 then emit_seek s ?lv1 else (False, ?lv1)) = (emit, lv2)"
    by (metis surj_pair)
  have v1: "session_view f ?lv1" by (intro park_views v)
  have v2: "session_view f lv2"
  proof (cases "s > 0")
    case True
    then have "lv2 = snd (emit_seek s ?lv1)" using em by simp
    then show ?thesis using emit_seek_view [OF v1] by simp
  next
    case False
    then show ?thesis using em v1 by simp
  qed
  show ?thesis
  proof (cases emit)
    case False
    then show ?thesis using park_wait_post [OF v2 rely, of s] em by (simp add: park_on_def)
  next
    case True
    let ?lv3 = "lv2\<lparr>lv_trace := lv_trace lv2 @ [SeekCall s]\<rparr>"
    have v3: "session_view f ?lv3" by (rule trace_view [OF v2])
    show ?thesis
    proof (cases ws)
      case Nil
      then show ?thesis using True em v3 by (simp add: park_on_def park_post_def)
    next
      case (Cons w ws')
      have v4: "session_view f (wake_env w ?lv3)" using rely v3 Cons by (simp add: live_rely_def)
      then have v5: "session_view f (dec_waiter s (wake_env w ?lv3))" by (rule dec_waiter_view)
      have "park_post f ws' (park_wait s (wake_env w ?lv3) ws')"
        using park_wait_post [OF v4] rely Cons by simp
      then have "park_post f ws (park_wait s (wake_env w ?lv3) ws')"
        using Cons by (auto simp: park_post_def split: park.splits)
      then show ?thesis
        using True em v5 Cons by (auto simp: park_on_def park_post_def Let_def)
    qed
  qed
qed

section \<open>The read is correct\<close>

lemma view_here:
  "session_view f lv \<Longrightarrow> \<not> lv_aborted lv \<Longrightarrow>
     live_inv lv \<and> lv_active lv \<and> lv_total lv = length f \<and> live_content f lv \<and> 0 < lv_refs lv"
  by (simp add: session_view_def)

text \<open>One fully resident round.\<close>

lemma read_round:
  assumes v: "session_view f lv" "\<not> lv_aborted lv" and len: "off + count \<le> length f" "got \<le> count"
    and miss: "first_miss lv (off + got) (off + count) \<ge> off + count"
    and c: "copy_out (off + got) got count (bslice off got f) lv = (p1, got1, dst1, lv1)"
  shows "got1 = count \<and> dst1 = bslice off count f \<and> session_view f lv1 \<and>
     lv_run_hi lv1 = lv_run_hi lv \<and> lv_total lv1 = length f \<and>
     lv_served lv1 = lv_served lv + (count - got)"
proof -
  note V = view_here [OF v]
  have rng: "off + got + (count - got) = off + count" using len(2) by simp
  obtain lv' where R: "copy_out (off + got) got count (bslice off got f) lv =
      (off + got + (count - got), count,
       bslice off got f @ bslice (off + got) (count - got) f, lv')"
    and P: "live_inv lv'" "live_content f lv'" "lv_active lv'" "lv_aborted lv' = lv_aborted lv"
      "lv_total lv' = lv_total lv" "lv_run_hi lv' = lv_run_hi lv" "lv_refs lv' = lv_refs lv"
      "lv_served lv' = lv_served lv + (count - got)"
  proof -
    have "\<exists>lv'. copy_out (off + got) got count (bslice off got f) lv =
      (off + got + (count - got), count,
       bslice off got f @ bslice (off + got) (count - got) f, lv') \<and>
      live_inv lv' \<and> live_content f lv' \<and> lv_active lv' \<and> lv_aborted lv' = lv_aborted lv \<and>
      lv_total lv' = lv_total lv \<and> lv_run_hi lv' = lv_run_hi lv \<and> lv_refs lv' = lv_refs lv \<and>
      lv_nsegs lv' = lv_nsegs lv \<and> lv_served lv' = lv_served lv + (count - got)"
      using V len miss
      by (intro copy_out_complete) (auto simp: rng intro: first_miss_all [OF miss, THEN conjunct1]
          first_miss_all [OF miss, THEN conjunct2])
    then show ?thesis using that by blast
  qed
  have "bslice off got f @ bslice (off + got) (count - got) f = bslice off count f"
    using bslice_append [of off got f "count - got"] len(2) by simp
  then show ?thesis using R P c V by (simp add: session_view_def)
qed

lemma run_hi_view:
  "session_view f lv \<Longrightarrow> lv_active lv \<longrightarrow> e \<le> lv_total lv \<Longrightarrow> session_view f (lv\<lparr>lv_run_hi := e\<rparr>)"
  by (rule view_transfer [of f lv]) (auto simp: live_marks_def)

lemma read_loop_correct:
  assumes "session_view f lv" and "\<forall>w\<in>set ws. live_rely f w"
    and "off + count \<le> length f" and "got \<le> count" and "length ws < n"
  shows "case read_loop n (off + got) count got (bslice off got f) rs (off + count) lv ws of
      ReadDone r bs lv' \<Rightarrow> session_view f lv' \<and>
        (r = -1 \<or> (r = int count \<and> bs = bslice off count f))
    | ReadParked lv' \<Rightarrow> session_view f lv'
    | ReadNoFuel \<Rightarrow> False"
  using assms
proof (induction n arbitrary: lv ws)
  case 0
  then show ?case by simp
next
  case (Suc n)
  show ?case
  proof (cases "lv_aborted lv")
    case True
    then show ?thesis using Suc.prems(1) by simp
  next
    case na: False
    have rng: "off + got + (count - got) = off + count" using Suc.prems(4) by simp
    let ?miss = "first_miss lv (off + got) (off + count)"
    show ?thesis
    proof (cases "?miss \<ge> off + count")
      case True
      obtain p1 got1 dst1 lv1
        where c: "copy_out (off + got) got count (bslice off got f) lv = (p1, got1, dst1, lv1)"
        by (metis prod_cases4)
      note R = read_round [OF Suc.prems(1) na Suc.prems(3,4) True c]
      have "session_view f (lv1\<lparr>lv_run_hi := off + count\<rparr>)"
        using R Suc.prems(3) by (intro run_hi_view) simp_all
      then show ?thesis using na True c R by (simp add: rng Let_def)
    next
      case False
      have post: "park_post f ws (park_on (?miss div SEG) lv ws)"
        by (rule park_on_post [OF Suc.prems(1,2)])
      show ?thesis
      proof (cases "park_on (?miss div SEG) lv ws")
        case (Parked lv1)
        then show ?thesis using na False post by (simp add: rng park_post_def Let_def)
      next
        case (ParkFail lv1)
        then show ?thesis using na False post by (simp add: rng park_post_def Let_def)
      next
        case (ParkRetry lv1 ws')
        have "session_view f lv1" "set ws' \<subseteq> set ws" "length ws' < length ws"
          using post ParkRetry by (simp_all add: park_post_def)
        then show ?thesis
          using na False ParkRetry Suc.IH [of lv1 ws'] Suc.prems(2-5)
          by (auto simp: rng Let_def)
      qed
    qed
  qed
qed

lemma ws_live_read_correct:
  assumes v: "session_view f lv" and act: "lv_active lv" and na: "\<not> lv_aborted lv"
    and rely: "\<forall>w\<in>set ws. live_rely f w" and fuel: "length ws < n"
  shows "case ws_live_read n off count lv ws of
      ReadDone r bs lv' \<Rightarrow> session_view f lv' \<and>
        (r = -1 \<or> (r = int (min count (length f - off)) \<and> bs = bslice off count f))
    | ReadParked lv' \<Rightarrow> session_view f lv'
    | ReadNoFuel \<Rightarrow> False"
proof (cases "count = 0 \<or> off \<ge> length f")
  case True
  then show ?thesis
    using v act view_here [OF v na] by (auto simp: ws_live_read_def bslice_beyond)
next
  case False
  have tot: "lv_total lv = length f" using view_here [OF v na] by simp
  let ?c = "if count > length f - off then length f - off else count"
  have c: "?c = min count (length f - off)" by simp
  have "bslice off ?c f = bslice off count f" by (simp add: bslice_def)
  moreover have "off + ?c \<le> length f" using False by auto
  ultimately show ?thesis
    using read_loop_correct [OF v rely, of off ?c 0 n off] fuel False act tot c
    by (simp add: ws_live_read_def Let_def split: read_result.splits if_splits)
qed

end
