(* ===== verification/LiveProps.thy ===== *)
theory LiveProps
  imports LiveSession
begin

text \<open>
  The properties of the live session that its clients (the upload socket, the
  range server and the installer) rest on, each with a concrete instance where
  it has hypotheses. Two sample sessions serve the instances: a three-byte file
  that is complete and has a reader, and a six-segment file whose four slots are
  all taken.
\<close>

section \<open>Sample sessions\<close>

definition demo_ops :: "live_op list" where
  "demo_ops = [LCreate (Some ''a.pkg'') 3 0 64 None ''id'' True, LTryWrite 0 [1, 2, 3], LAttach]"

definition demo_live :: live where
  "demo_live = run_ops live_step live_init demo_ops"

lemma demo_ops_ok: "list_all live_ok demo_ops"
  by (simp add: demo_ops_def SEG_def)

lemma demo_inv: "live_inv demo_live"
  unfolding demo_live_def by (rule live.run_inv [OF live_init_inv demo_ops_ok])

lemma demo_created: "snd (snd (ws_live_create (Some ''a.pkg'') 3 0 64 None ''id'' True live_init)) =
   live_init\<lparr> lv_session_id := ''id'', lv_filename := ''a.pkg'', lv_total := 3, lv_nsegs := 1,
     lv_present := [False], lv_slot_of := [None], lv_slots := replicate 5 [], lv_nslots := 5,
     lv_last_use := replicate 5 0, lv_slot_seg := replicate 5 None,
     lv_slot_read := replicate 5 False, lv_waiters := [0], lv_acked_ever := [False],
     lv_seek_sent := [0], lv_active := True, lv_mem := True \<rparr>"
  by (simp add: ws_live_create_def live_init_def Let_def c_basename_def live_nsegs_def wrap64_def
      SEG_def live_slot_budget_def default_slots_def WS_LIVE_SLOTS_DEFAULT_def cstr_trunc_def)

lemma demo_state: "demo_live =
   live_init\<lparr> lv_session_id := ''id'', lv_filename := ''a.pkg'', lv_total := 3, lv_nsegs := 1,
     lv_present := [True], lv_slot_of := [Some 0], lv_slots := [1, 2, 3] # replicate 4 [],
     lv_nslots := 5, lv_last_use := 1 # replicate 4 0, lv_slot_seg := Some 0 # replicate 4 None,
     lv_slot_read := replicate 5 False, lv_waiters := [0], lv_acked_ever := [True],
     lv_seek_sent := [0], lv_active := True, lv_mem := True, lv_refs := 1, lv_present_count := 1,
     lv_tick := 1, lv_trace := [WsCache 0 0 0] \<rparr>"
proof -
  let ?c = "snd (snd (ws_live_create (Some ''a.pkg'') 3 0 64 None ''id'' True live_init))"
  have segs: "write_segs 0 3 = [0]" by (simp add: write_segs_def wrap64_def sub64_def SEG_def)
  have al: "alloc_slot 0 ?c = (Some 0, live_bind_slot ?c 0 0)"
    unfolding demo_created by (simp add: alloc_slot_def live_init_def upt_rec)
  have w: "ws_live_try_write 0 (Some [1, 2, 3]) 3 ?c =
      (0, commit_seg 0 0 3 [1, 2, 3] False False (live_bind_slot ?c 0 0))"
    using al unfolding demo_created
    by (simp add: ws_live_try_write_def live_init_def wrap64_def segs store_seg_def seg_len_def
        SEG_def bslice_def Let_def)
  have "demo_live = snd (ws_live_attach (snd (ws_live_try_write 0 (Some [1, 2, 3]) 3 ?c)))"
    by (simp add: demo_live_def demo_ops_def numeral_3_eq_3)
  also have "\<dots> = snd (ws_live_attach (commit_seg 0 0 3 [1, 2, 3] False False (live_bind_slot ?c 0 0)))"
    by (simp only: w snd_conv)
  finally show ?thesis
    unfolding demo_created
    by (simp add: live_bind_slot_def commit_seg_def ws_live_attach_def overlay_def live_init_def
        numeral_eq_Suc)
qed

lemma demo_view: "session_view [1, 2, 3] demo_live"
  using demo_inv unfolding session_view_def
  by (simp add: demo_state live_init_def live_content_def seg_len_def bslice_def)

lemma demo_flags: "lv_active demo_live" "\<not> lv_aborted demo_live" "lv_total demo_live = 3"
  "lv_refs demo_live = 1" "lv_mem demo_live"
  by (simp_all add: demo_state live_init_def)

text \<open>The six-segment file: segments 0 to 3 are resident, the first two of them
  read past by the sequential reader; segment 4 is about to arrive.\<close>

definition demo_block :: "byte list" where
  "demo_block = replicate SEG 7"

lemma length_demo_block: "length demo_block = SEG"
  by (simp add: demo_block_def)

definition demo_full :: live where
  "demo_full = live_init\<lparr> lv_session_id := ''id'', lv_filename := ''b.pkg'',
     lv_total := 6 * SEG, lv_nsegs := 6,
     lv_present := [True, True, True, True, False, False],
     lv_slot_of := [Some 0, Some 1, Some 2, Some 3, None, None],
     lv_slots := [demo_block, demo_block, demo_block, demo_block],
     lv_nslots := 4, lv_last_use := [1, 5, 3, 4],
     lv_slot_seg := [Some 0, Some 1, Some 2, Some 3],
     lv_slot_read := [True, True, False, False], lv_waiters := [0, 0, 0, 0, 0, 0],
     lv_acked_ever := [True, True, True, True, False, False],
     lv_seek_sent := [0, 0, 0, 0, 0, 0], lv_present_count := 4, lv_run_hi := 2 * SEG,
     lv_tick := 5, lv_active := True, lv_mem := True \<rparr>"

lemma less_6: "s < 6 \<longleftrightarrow> s = 0 \<or> s = 1 \<or> s = 2 \<or> s = 3 \<or> s = 4 \<or> s = (5 :: nat)"
  by auto

lemma less_4: "s < 4 \<longleftrightarrow> s = 0 \<or> s = 1 \<or> s = 2 \<or> s = (3 :: nat)"
  by auto

lemma demo_full_seg: "s < 6 \<Longrightarrow> seg_len demo_full s = SEG"
  by (auto simp: less_6 seg_len_def demo_full_def SEG_def)

lemma demo_full_inv: "live_inv demo_full"
proof (rule live_invI)
  show "live_life demo_full" by (simp add: live_life_def demo_full_def live_init_def)
  show "live_shape demo_full"
    by (simp add: live_shape_def demo_full_def live_nsegs_def wrap64_def SEG_def)
  show "live_tables demo_full"
    unfolding live_tables_but_def by (simp add: demo_full_def less_6 less_4)
  show "live_slot_fill demo_full"
    unfolding live_slot_fill_def using demo_full_seg
    by (simp add: demo_full_def less_6 length_demo_block)
  show "live_marks demo_full" by (simp add: live_marks_def demo_full_def live_init_def)
qed

lemma demo_full_flags: "lv_active demo_full" "\<not> lv_aborted demo_full" "lv_nsegs demo_full = 6"
  by (simp_all add: demo_full_def live_init_def)

text \<open>Segment 4 takes the slot of segment 1, the only one read past (segment 0 is
  never a candidate).\<close>

lemma demo_full_write:
  "\<exists>lv'. ws_live_try_write (4 * SEG) (Some demo_block) (length demo_block) demo_full = (0, lv') \<and>
     \<not> lv_present lv' ! 1"
proof -
  have segs: "write_segs (4 * SEG) SEG = [4]" by (simp add: write_segs_def wrap64_def sub64_def SEG_def)
  have cov: "covers_seg demo_full 4 (4 * SEG) SEG"
    using demo_full_seg [of 4] by (simp add: covers_seg_def wrap64_def SEG_def)
  have sc: "evict_scan demo_full 4 [1..<6] None = Some (5, 1)"
    by (simp add: upt_rec evict_pick_def evict_candidate_def live_evictable_def slot_stamp_def
        demo_full_def live_init_def SEG_def)
  have al: "alloc_slot 4 demo_full = (Some 1, live_bind_slot (live_evict demo_full 1) 4 1)"
  proof -
    have "find (\<lambda>i. lv_slot_seg demo_full ! i = None) [0..<4] = None"
      by (simp add: upt_rec demo_full_def)
    then show ?thesis using sc by (simp add: alloc_slot_def demo_full_def)
  qed
  have st: "store_seg 4 demo_block (4 * SEG) SEG demo_full =
      (1, commit_seg 4 1 SEG (bslice 0 SEG demo_block) False False
             (live_bind_slot (live_evict demo_full 1) 4 1))"
    using covers_not_misses [OF cov] cov al demo_full_seg [of 4]
    by (simp add: store_seg_eq) (simp add: demo_full_def)
  have np: "\<not> lv_present (commit_seg 4 1 SEG (bslice 0 SEG demo_block) False False
             (live_bind_slot (live_evict demo_full 1) 4 1)) ! 1"
    by (simp add: commit_seg_def live_evict_def demo_full_def)
  have "ws_live_try_write (4 * SEG) (Some demo_block) (length demo_block) demo_full =
      try_store_segs [4] demo_block (4 * SEG) SEG demo_full"
    using segs by (simp add: ws_live_try_write_def length_demo_block)
      (simp add: demo_full_def live_init_def wrap64_def SEG_def)
  then show ?thesis using np st by simp
qed

section \<open>The reader\<close>

lemma div_SEG_nsegs: "live_shape lv \<Longrightarrow> x < lv_total lv \<Longrightarrow> x div SEG < lv_nsegs lv"
  using shape_cover(1) [of lv] by (simp add: less_mult_imp_div_less)

text \<open>C1. A blocking range read by an attached reader, whatever uploads, aborts and
  other readers do while it waits, comes back with exactly the bytes of the
  file that the range has in common with it or with an error; it never returns
  a short or wrong range and never spins: one round more than the number of
  times it is woken always suffices.\<close>

theorem live_read_exact:
  assumes "session_view f lv" and "lv_active lv" and "\<not> lv_aborted lv"
    and "\<forall>w\<in>set ws. live_rely f w" and "length ws < n"
  shows "case ws_live_read n off count lv ws of
      ReadDone r bs lv' \<Rightarrow> session_view f lv' \<and>
        (r = -1 \<or> (r = int (min count (length f - off)) \<and> bs = bslice off count f))
    | ReadParked lv' \<Rightarrow> session_view f lv'
    | ReadNoFuel \<Rightarrow> False"
  by (rule ws_live_read_correct [OF assms])

theorem live_read_exact_witness:
  "case ws_live_read 2 1 5 demo_live [Wake (\<lambda>lv. run_ops live_step lv [LAttach]) False] of
      ReadDone r bs lv' \<Rightarrow> session_view [1, 2, 3] lv' \<and>
        (r = -1 \<or> (r = int (min 5 (length [1, 2, 3 :: byte] - 1)) \<and> bs = bslice 1 5 [1, 2, 3]))
    | ReadParked lv' \<Rightarrow> session_view [1, 2, 3] lv'
    | ReadNoFuel \<Rightarrow> False"
proof -
  have "live_rely [1, 2, 3] (Wake (\<lambda>lv. run_ops live_step lv [LAttach]) False)"
    by (rule peer_run_rely) simp
  then have "\<forall>w\<in>set [Wake (\<lambda>lv. run_ops live_step lv [LAttach]) False]. live_rely [1, 2, 3] w"
    by simp
  then show ?thesis by (rule live_read_exact [OF demo_view demo_flags(1,2)]) simp
qed

text \<open>A range whose segments are all resident is served at once: the read does
  not wait, returns every byte of the range and counts them as served.\<close>

theorem live_read_resident:
  assumes v: "session_view f lv" and act: "lv_active lv" "\<not> lv_aborted lv"
    and rng: "0 < count" "off + count \<le> length f"
    and res: "\<forall>x. off \<le> x \<and> x < off + count \<longrightarrow> lv_present lv ! (x div SEG)"
  shows "\<exists>lv'. ws_live_read (Suc n) off count lv ws = ReadDone (int count) (bslice off count f) lv' \<and>
     lv_served lv' = lv_served lv + count"
proof -
  note V = view_here [OF v act(2)]
  have miss: "off + count \<le> first_miss lv off (off + count)"
  proof (rule ccontr)
    let ?m = "first_miss lv off (off + count)"
    assume "\<not> off + count \<le> ?m"
    then have m: "?m < off + count" by simp
    have "?m div SEG < lv_nsegs lv"
      by (rule div_SEG_nsegs) (use V m rng live_inv_active in auto)
    then show False using first_miss_lt [OF m] res m by auto
  qed
  obtain p1 got1 dst1 lv1 where c: "copy_out (off + 0) 0 count (bslice off 0 f) lv = (p1, got1, dst1, lv1)"
    by (metis prod_cases4)
  note R = read_round [OF v act(2) rng(2) _ _ c]
  have "off < lv_total lv" "\<not> count > lv_total lv - off" using V rng by auto
  then show ?thesis
    using R miss c V act rng(1) by (auto simp: ws_live_read_def Let_def)
qed

theorem live_read_resident_witness:
  "\<exists>lv'. ws_live_read 1 1 2 demo_live [] = ReadDone 2 (bslice 1 2 [1, 2, 3]) lv' \<and>
     lv_served lv' = lv_served demo_live + 2"
proof -
  have "\<forall>x. 1 \<le> x \<and> x < 1 + 2 \<longrightarrow> lv_present demo_live ! (x div SEG)"
    by (auto simp: demo_state SEG_def)
  then show ?thesis
    using live_read_resident [OF demo_view demo_flags(1,2), of 2 1 0 "[]"] by simp
qed

section \<open>The store\<close>

text \<open>A whole segment that arrives on a live session is either stored (and then
  resident, acknowledged, with exactly the bytes of the message in its slot) or
  refused with \<open>-2\<close>; a refusal changes nothing and happens only when every slot
  is taken and no resident segment may be evicted.\<close>

theorem live_store_outcome:
  assumes inv: "live_inv lv" and act: "lv_active lv" "\<not> lv_aborted lv"
    and seg: "seg < lv_nsegs lv" and len: "length data = seg_len lv seg"
    and w: "ws_live_try_write (seg * SEG) (Some data) (length data) lv = (r, lv')"
  shows "(r = 0 \<and> lv_present lv' ! seg \<and> seg \<in> acked_set lv' \<and>
            (\<exists>i. lv_slot_of lv' ! seg = Some i \<and> take (length data) (lv_slots lv' ! i) = data)) \<or>
         (r = -2 \<and> lv' = lv \<and> (\<forall>j<lv_nslots lv. lv_slot_seg lv ! j \<noteq> None) \<and>
            (\<forall>s. 0 < s \<and> s < lv_nsegs lv \<longrightarrow> \<not> evict_candidate lv seg s))"
proof -
  have sh: "live_shape lv" and tb: "live_tables lv" using live_inv_active [OF inv act(1)] by simp_all
  note S = single_write_segs [OF sh seg len]
  obtain r1 lv1 where st: "store_seg seg data (seg * SEG) (length data) lv = (r1, lv1)" by fastforce
  have wr: "(r, lv') = (if r1 = -1 then -1 else if r1 = -2 then -2 else 0, lv1)"
    using w st S act by (auto simp: ws_live_try_write_def wrap64_id split: if_splits)
  show ?thesis
  proof (rule store_seg_outcome [OF st seg], goal_cases)
    case 1
    then show ?case using covers_not_misses [OF S(2)] by simp
  next
    case 2
    then show ?case using st S(2) covers_not_misses [OF S(2)]
      by (auto simp: store_seg_eq split: prod.splits option.splits)
  next
    case 3
    then show ?case using wr by simp
  next
    case (4 i lv2)
    note E = alloc_effect_tables [OF 4(2) sh tb seg]
    have "lv_present lv1 ! seg \<and> seg \<in> acked_set lv1"
      using store_seg_stored [OF sh st seg S(2)] 4(1) by simp
    moreover have "lv_slots lv1 ! i = overlay data (lv_slots lv2 ! i)" "lv_slot_of lv1 ! seg = Some i"
      using E(2,3) sh len by (simp_all add: 4(4) commit_seg_def alloc_effect_same [OF 4(2)]
          live_shape_def bslice_all)
    ultimately show ?case using wr 4(1) by simp
  qed
qed

theorem live_store_outcome_witness:
  "\<exists>r lv'. ws_live_try_write (1 * SEG) (Some demo_block) (length demo_block) demo_full = (r, lv') \<and>
     (r = 0 \<and> lv_present lv' ! 1 \<or> r = -2 \<and> lv' = demo_full)"
proof -
  obtain r lv' where w: "ws_live_try_write (1 * SEG) (Some demo_block) (length demo_block) demo_full = (r, lv')"
    by fastforce
  have "lv_active demo_full" "\<not> lv_aborted demo_full" "1 < lv_nsegs demo_full"
    by (simp_all add: demo_full_def live_init_def)
  moreover have "length demo_block = seg_len demo_full 1"
    using demo_full_seg [of 1] by (simp add: length_demo_block)
  ultimately show ?thesis using live_store_outcome [OF demo_full_inv _ _ _ _ w] w by auto
qed

text \<open>C2. A segment leaves memory only to make room for another: it is not the
  header, nobody waits for it, it had been acknowledged and is evictable for a
  stated reason (already read past, urgent read, demand paging), every slot was
  taken, and it was the least recently used of all such segments.\<close>

theorem live_evict_lru:
  assumes inv: "live_inv lv" and act: "lv_active lv" "\<not> lv_aborted lv"
    and seg: "seg < lv_nsegs lv" and len: "length data = seg_len lv seg"
    and w: "ws_live_try_write (seg * SEG) (Some data) (length data) lv = (r, lv')"
    and s: "s < lv_nsegs lv" "lv_present lv ! s" "\<not> lv_present lv' ! s"
  shows "0 < s \<and> s \<noteq> seg \<and> lv_waiters lv ! s = 0 \<and> lv_acked_ever lv ! s \<and>
     live_evictable lv seg s \<and> (\<forall>j<lv_nslots lv. lv_slot_seg lv ! j \<noteq> None) \<and>
     (\<forall>t. 0 < t \<and> t < lv_nsegs lv \<and> evict_candidate lv seg t \<longrightarrow>
        slot_stamp lv s \<le> slot_stamp lv t)"
proof -
  have sh: "live_shape lv" and tb: "live_tables lv" using live_inv_active [OF inv act(1)] by simp_all
  note S = single_write_segs [OF sh seg len]
  obtain r1 lv1 where st: "store_seg seg data (seg * SEG) (length data) lv = (r1, lv1)" by fastforce
  have "lv' = lv1" using w st S act by (auto simp: ws_live_try_write_def wrap64_id split: if_splits)
  then show ?thesis
    using store_seg_evicts [OF sh tb st seg s(1,2)] s tables_ackD [OF tb s(1,2)]
    by (simp add: evict_candidate_def)
qed

theorem live_evict_lru_witness:
  "live_evictable demo_full 4 1 \<and> lv_waiters demo_full ! 1 = 0 \<and> lv_acked_ever demo_full ! 1"
proof -
  obtain lv' where w: "ws_live_try_write (4 * SEG) (Some demo_block) (length demo_block) demo_full = (0, lv')"
    and np: "\<not> lv_present lv' ! 1" using demo_full_write by auto
  have c: "lv_active demo_full" "\<not> lv_aborted demo_full" "4 < lv_nsegs demo_full"
    "1 < lv_nsegs demo_full" "lv_present demo_full ! 1" "lv_nsegs demo_full = 6"
    by (simp_all add: demo_full_def live_init_def)
  have "length demo_block = seg_len demo_full 4"
    using demo_full_seg [of 4] by (simp add: length_demo_block)
  from live_evict_lru [OF demo_full_inv c(1-3) this w c(4,5) np] show ?thesis by (simp add: c(6))
qed

text \<open>C3. The header segment and every segment some reader waits for stay resident
  through any write.\<close>

theorem live_shield:
  assumes "live_inv lv" and "ws_live_try_write off (Some data) (length data) lv = (r, lv')"
    and "off < 2 ^ 64" and "length data < 2 ^ 64"
    and "s < lv_nsegs lv" and "lv_present lv ! s" and "s = 0 \<or> lv_waiters lv ! s > 0"
  shows "lv_present lv' ! s"
  by (rule try_write_shielded [OF assms(1-4)]) (simp add: shielded_def assms(5-7))

theorem live_shield_witness:
  "\<exists>r lv'. ws_live_try_write (4 * SEG) (Some demo_block) (length demo_block) demo_full = (r, lv') \<and>
     lv_present lv' ! 0"
proof -
  obtain lv' where w: "ws_live_try_write (4 * SEG) (Some demo_block) (length demo_block) demo_full = (0, lv')"
    using demo_full_write by auto
  have "lv_present lv' ! 0"
    by (rule live_shield [OF demo_full_inv w])
       (simp_all add: SEG_def length_demo_block, simp_all add: demo_full_def)
  then show ?thesis using w by blast
qed

text \<open>With a purely sequential reader that is not waiting, only data it has read
  past is dropped, so it never has to ask for a segment again.\<close>

theorem live_sequential:
  assumes "live_inv lv" and "ws_live_try_write off (Some data) (length data) lv = (r, lv')"
    and "off < 2 ^ 64" and "length data < 2 ^ 64"
    and "lv_peak_seg lv = 0" and "\<forall>t<lv_nsegs lv. lv_waiters lv ! t = 0"
    and "s < lv_nsegs lv" and "lv_present lv ! s" and "\<not> lv_present lv' ! s"
  shows "(s + 1) * SEG \<le> lv_run_hi lv"
  by (rule try_write_sequential [OF assms])

theorem live_sequential_witness: "(1 + 1) * SEG \<le> lv_run_hi demo_full"
proof -
  obtain lv' where w: "ws_live_try_write (4 * SEG) (Some demo_block) (length demo_block) demo_full = (0, lv')"
    and np: "\<not> lv_present lv' ! 1" using demo_full_write by auto
  show ?thesis
    by (rule live_sequential [OF demo_full_inv w _ _ _ _ _ _ np])
       (simp_all add: SEG_def length_demo_block, simp_all add: demo_full_def live_init_def less_6)
qed

section \<open>The session over time\<close>



text \<open>C5. The set of acknowledged segments, which the resume offset and the received
  counter are computed from, never shrinks while the session lives, whatever is
  evicted.\<close>

theorem live_acked_monotone:
  assumes "live_inv lv" and "lv_active lv" and "list_all upload_op ps"
  shows "acked_set lv \<subseteq> acked_set (run_ops live_step lv ps) \<and> lv_active (run_ops live_step lv ps)"
proof -
  have "live_open lv" using assms(1,2) by (simp add: live_open_def)
  then show ?thesis
    using upload.run_mark [OF _ assms(3)] upload.run_inv [OF _ assms(3)] by (simp add: live_open_def)
qed

theorem live_acked_monotone_witness:
  "acked_set demo_full \<subseteq> acked_set (run_ops live_step demo_full
     [LTryWrite (4 * SEG) demo_block, LAbort, LFinish])"
proof -
  have "list_all upload_op [LTryWrite (4 * SEG) demo_block, LAbort, LFinish]"
    by (simp add: length_demo_block) (simp add: SEG_def)
  then show ?thesis using live_acked_monotone [OF demo_full_inv] demo_full_flags(1) by blast
qed

lemma acked_count_all: "acked_count lv = lv_nsegs lv \<longleftrightarrow> (\<forall>s<lv_nsegs lv. lv_acked_ever lv ! s)"
proof -
  let ?xs = "[0..<lv_nsegs lv]"
  have "length (filter (\<lambda>s. lv_acked_ever lv ! s) ?xs) = length ?xs \<longleftrightarrow>
      (\<forall>s\<in>set ?xs. lv_acked_ever lv ! s)"
    by (metis filter_True length_filter_less order_less_irrefl)
  then show ?thesis by (auto simp: acked_count_def)
qed

lemma acked_prefix_all: "acked_prefix lv = lv_nsegs lv \<longleftrightarrow> (\<forall>s<lv_nsegs lv. lv_acked_ever lv ! s)"
proof
  assume "acked_prefix lv = lv_nsegs lv"
  then have "takeWhile (\<lambda>s. lv_acked_ever lv ! s) [0..<lv_nsegs lv] = [0..<lv_nsegs lv]"
    unfolding acked_prefix_def
    by (metis append_eq_conv_conj length_upt minus_nat.diff_0 take_all_iff takeWhile_eq_take order_refl)
  then show "\<forall>s<lv_nsegs lv. lv_acked_ever lv ! s"
    by (metis atLeast_upt lessThan_iff takeWhile_eq_all_conv)
next
  assume "\<forall>s<lv_nsegs lv. lv_acked_ever lv ! s"
  then have "takeWhile (\<lambda>s. lv_acked_ever lv ! s) [0..<lv_nsegs lv] = [0..<lv_nsegs lv]"
    by (simp add: takeWhile_eq_all_conv)
  then show "acked_prefix lv = lv_nsegs lv" by (simp only: acked_prefix_def length_upt diff_zero)
qed

lemma acked_prefix_le: "acked_prefix lv \<le> lv_nsegs lv"
  unfolding acked_prefix_def using length_takeWhile_le [of _ "[0..<lv_nsegs lv]"] by simp

lemma resume_total:
  assumes "live_inv lv" and "lv_active lv"
  shows "ws_live_get_resume_offset lv = lv_total lv \<longleftrightarrow> acked_prefix lv = lv_nsegs lv"
proof -
  have sh: "live_shape lv" and mem: "lv_mem lv"
    using live_inv_active [OF assms] assms(2) by (simp_all add: live_life_def)
  note c = shape_cover [OF sh]
  show ?thesis
  proof
    assume "acked_prefix lv = lv_nsegs lv"
    then show "ws_live_get_resume_offset lv = lv_total lv"
      using c(1) assms(2) mem by (simp add: ws_live_get_resume_offset_def Let_def)
  next
    assume r: "ws_live_get_resume_offset lv = lv_total lv"
    show "acked_prefix lv = lv_nsegs lv"
    proof (rule ccontr)
      assume "acked_prefix lv \<noteq> lv_nsegs lv"
      with acked_prefix_le [of lv] have "acked_prefix lv \<le> lv_nsegs lv - 1" by simp
      then have "acked_prefix lv * SEG \<le> (lv_nsegs lv - 1) * SEG" by simp
      with c(2) have "acked_prefix lv * SEG < lv_total lv" by linarith
      with r assms(2) mem show False by (simp add: ws_live_get_resume_offset_def Let_def)
    qed
  qed
qed

text \<open>C6. Finishing succeeds exactly when the session is alive and every segment has
  been acknowledged at least once, which is when the resume offset is the whole
  file; nothing but the completion flag changes.\<close>

theorem live_finish_iff:
  assumes "live_inv lv" and "lv_active lv"
  shows "(fst (ws_live_finish lv) = 0 \<longleftrightarrow>
           \<not> lv_aborted lv \<and> acked_set lv = {0..<lv_nsegs lv}) \<and>
     (fst (ws_live_finish lv) = 0 \<longleftrightarrow>
           \<not> lv_aborted lv \<and> ws_live_get_resume_offset lv = lv_total lv) \<and>
     snd (ws_live_finish lv) =
       (if fst (ws_live_finish lv) = 0 then lv\<lparr>lv_upload_complete := True\<rparr> else lv)"
proof -
  have "acked_set lv = {0..<lv_nsegs lv} \<longleftrightarrow> (\<forall>s<lv_nsegs lv. lv_acked_ever lv ! s)"
    unfolding acked_set_def set_eq_iff mem_Collect_eq atLeastLessThan_iff by blast
  then have set: "acked_set lv = {0..<lv_nsegs lv} \<longleftrightarrow> acked_count lv = lv_nsegs lv"
    by (simp only: acked_count_all)
  have off: "ws_live_get_resume_offset lv = lv_total lv \<longleftrightarrow> acked_count lv = lv_nsegs lv"
    by (simp only: resume_total [OF assms] acked_count_all acked_prefix_all)
  show ?thesis unfolding set off using assms(2) by (simp add: ws_live_finish_def)
qed

theorem live_finish_iff_witness:
  "fst (ws_live_finish demo_live) = 0 \<and> fst (ws_live_finish demo_full) \<noteq> 0"
proof -
  have "acked_set demo_live = {0..<1}" "\<not> lv_aborted demo_live" "lv_nsegs demo_live = 1"
    by (auto simp: acked_set_def demo_state live_init_def)
  moreover have "4 \<notin> acked_set demo_full" "lv_nsegs demo_full = 6" "lv_active demo_full"
    by (simp_all add: acked_set_def demo_full_def)
  ultimately show ?thesis
    using live_finish_iff [OF demo_inv demo_flags(1)] live_finish_iff [OF demo_full_inv]
    by auto
qed

text \<open>While a reader is attached, no operation of any other thread replaces the
  session it reads: a new file cannot be started, even after the session has
  been destroyed, and the memory stays until the reader lets go.\<close>

definition reader_holds :: "live \<Rightarrow> bool" where
  "reader_holds lv \<longleftrightarrow> live_inv lv \<and> 0 < lv_refs lv"

lemma create_new_idle: "ws_live_create fn sz ring mx env fresh ok lv = (0, out, lv') \<Longrightarrow>
    lv' \<noteq> lv \<Longrightarrow> \<not> lv_active lv \<and> lv_refs lv = 0"
  by (auto simp: ws_live_create_def Let_def split: option.splits if_splits)

fun keeps_reader :: "live_op \<Rightarrow> bool" where
  "keeps_reader LDetach = False"
| "keeps_reader p = live_ok p"

lemma reader_step:
  assumes "keeps_reader p" and "reader_holds lv"
  shows "reader_holds (live_step p lv)"
proof -
  have ok: "live_ok p" using assms(1) by (cases p) simp_all
  have inv: "live_inv lv" and refs: "0 < lv_refs lv" using assms(2) by (simp_all add: reader_holds_def)
  have "0 < lv_refs (live_step p lv)"
  proof (cases p)
    case (LCreate fn sz ring mx env fresh ok)
    then show ?thesis using create_busy refs by simp
  next
    case (LTryWrite off data)
    obtain r l where w: "ws_live_try_write off (Some data) (length data) lv = (r, l)" by fastforce
    show ?thesis using try_write_keeps [OF inv w] ok refs LTryWrite w by simp
  next
    case LDestroy
    then show ?thesis using refs by (simp add: ws_live_destroy_def Let_def)
  next
    case LDetach
    then show ?thesis using assms(1) by simp
  qed (use refs side_step_same(1) [of p lv] in \<open>auto simp del: live_step.simps\<close>)
  then show ?thesis using live_step_inv [OF ok inv] by (simp add: reader_holds_def)
qed

interpretation pinned: inv_component live_step keeps_reader reader_holds
  by unfold_locales (rule reader_step)

theorem live_reader_pins:
  assumes "live_inv lv" and "0 < lv_refs lv" and "list_all keeps_reader ps"
  shows "lv_mem (run_ops live_step lv ps) \<and> 0 < lv_refs (run_ops live_step lv ps) \<and>
     snd (snd (ws_live_create fn sz ring mx env fresh ok (run_ops live_step lv ps))) =
       run_ops live_step lv ps"
proof -
  let ?l = "run_ops live_step lv ps"
  have "reader_holds ?l"
    by (rule pinned.run_inv [OF _ assms(3)]) (simp add: reader_holds_def assms(1,2))
  then have "0 < lv_refs ?l" and "live_life ?l" by (simp_all add: reader_holds_def live_inv_def)
  then show ?thesis using create_busy [of ?l] by (auto simp: live_life_def)
qed

theorem live_reader_pins_witness:
  "lv_mem (run_ops live_step demo_live [LDestroy, LAbort])"
  using live_reader_pins [OF demo_inv, of "[LDestroy, LAbort]"] demo_flags(4) by simp

end
