(* ===== verification/HttpText.thy ===== *)
theory HttpText
  imports CString
begin

text \<open>
  The text of HTTP requests as the servers read it: lines ended by CR LF or LF,
  the value of a header field found by its name without regard to case, and the
  words of the request line. \<open>src/ws_upload.c\<close> and \<open>src/stream_server.c\<close> hold the
  same scanner.
\<close>

definition is_blank :: "char \<Rightarrow> bool" where
  "is_blank c = (c = CHR '' '' \<or> c = CHR 0x09)"

definition CRLF :: string where
  "CRLF = [CHR 0x0D, CHR 0x0A]"

definition eol_pos :: "string \<Rightarrow> nat" where
  "eol_pos p =
     (case strstr p CRLF of
        Some r \<Rightarrow> length p - length r
      | None \<Rightarrow> (case strchr p (CHR 0x0A) of Some r \<Rightarrow> length p - length r | None \<Rightarrow> length p))"

definition header_value :: "string \<Rightarrow> nat \<Rightarrow> string" where
  "header_value v vmax =
     rev (dropWhile (\<lambda>c. is_blank c \<or> c = CHR 0x0D \<or> c = CHR 0x0A)
       (rev (take (vmax - 1) (dropWhile is_blank v))))"

definition next_line :: "string \<Rightarrow> string" where
  "next_line r = (if starts_with CRLF r then drop 2 r else drop 1 r)"

lemma next_line_less: "r \<noteq> [] \<Longrightarrow> length (next_line r) < length r"
  by (simp add: next_line_def)

lemma eol_drop_less: "drop (eol_pos p) p \<noteq> [] \<Longrightarrow> length (next_line (drop (eol_pos p) p)) < length p"
  by (rule order_less_le_trans [OF next_line_less]) simp_all

function has_header :: "string \<Rightarrow> string \<Rightarrow> nat \<Rightarrow> string option" where
  "has_header p name vmax =
     (if p = [] then None
      else
      let pos = eol_pos p; nlen = length name; rest = drop pos p in
      if pos > nlen + 1 \<and> strncasecmp_eq p name nlen \<and> p ! nlen = CHR '':''
      then Some (header_value (drop (nlen + 1) (take pos p)) vmax)
      else if rest = [] then None
      else
      let q = next_line rest in
      if q = [] \<or> hd q = CHR 0x0D \<or> hd q = CHR 0x0A then None
      else has_header q name vmax)"
  by pat_completeness auto
termination
  by (relation "measure (\<lambda>(p, name, vmax). length p)") (auto simp: eol_drop_less)

declare has_header.simps [simp del]

text \<open>\<open>sscanf("%15s %511s")\<close>: white space, then up to \<open>n\<close> other characters.\<close>

definition scan_word :: "nat \<Rightarrow> string \<Rightarrow> string \<times> string" where
  "scan_word n s =
     (let t = dropWhile c_isspace s;
          w = take n (takeWhile (\<lambda>c. \<not> c_isspace c) t)
      in (w, drop (length w) t))"

definition crlf2 :: string where
  "crlf2 = CRLF @ CRLF"

end
