(* ===== verification/WsCodec.thy ===== *)
theory WsCodec
  imports HttpText
begin

text \<open>
  The wire formats of the upload socket in \<open>src/ws_upload.c\<close>: the SHA-1 digest
  and base-64 text of the handshake, the frame encoders and the frame decoder,
  and the two extractors for control messages. Buffers are byte lists; an
  encoder that returns \<open>-1\<close> for lack of room is \<open>None\<close>, and the decoder's 0
  and \<open>-1\<close> are constructors.
\<close>

unbundle bit_operations_syntax

section \<open>SHA-1\<close>

record sha1 =
  sh_a :: "32 word"
  sh_b :: "32 word"
  sh_c :: "32 word"
  sh_d :: "32 word"
  sh_e :: "32 word"
  sh_len :: nat
  sh_buf :: "byte list"
  sh_buflen :: nat

definition rol32 :: "32 word \<Rightarrow> nat \<Rightarrow> 32 word" where
  "rol32 v n = push_bit n v OR drop_bit (32 - n) v"

definition be32 :: "byte list \<Rightarrow> nat \<Rightarrow> 32 word" where
  "be32 p i = push_bit 24 (ucast (p ! i)) OR push_bit 16 (ucast (p ! (i + 1))) OR
     push_bit 8 (ucast (p ! (i + 2))) OR ucast (p ! (i + 3))"

definition sha1_schedule :: "byte list \<Rightarrow> 32 word list" where
  "sha1_schedule p =
     fold (\<lambda>i w. w @ [rol32 (w ! (i - 3) XOR w ! (i - 8) XOR w ! (i - 14) XOR w ! (i - 16)) 1])
       [16..<80] (map (\<lambda>i. be32 p (i * 4)) [0..<16])"

type_synonym sha1_regs = "32 word \<times> 32 word \<times> 32 word \<times> 32 word \<times> 32 word"

definition sha1_round :: "32 word list \<Rightarrow> nat \<Rightarrow> sha1_regs \<Rightarrow> sha1_regs" where
  "sha1_round w i r =
     (case r of (a, b, cc, d, e) \<Rightarrow>
       let (fp, k) =
         (if i < 20 then ((b AND cc) OR (NOT b AND d), 0x5A827999)
          else if i < 40 then (b XOR cc XOR d, 0x6ED9EBA1)
          else if i < 60 then ((b AND cc) OR (b AND d) OR (cc AND d), 0x8F1BBCDC)
          else (b XOR cc XOR d, 0xCA62C1D6));
         t = rol32 a 5 + fp + e + k + w ! i
       in (t, a, rol32 b 30, cc, d))"

definition sha1_block :: "sha1 \<Rightarrow> byte list \<Rightarrow> sha1" where
  "sha1_block c p =
     (let w = sha1_schedule p in
      case fold (sha1_round w) [0..<80] (sh_a c, sh_b c, sh_c c, sh_d c, sh_e c) of
        (a, b, cc, d, e) \<Rightarrow>
          c\<lparr> sh_a := sh_a c + a, sh_b := sh_b c + b, sh_c := sh_c c + cc,
             sh_d := sh_d c + d, sh_e := sh_e c + e \<rparr>)"

text \<open>The context on the stack; \<open>init_buf\<close> is what its buffer holds.\<close>

definition sha1_init :: "byte list \<Rightarrow> sha1" where
  "sha1_init init_buf =
     \<lparr> sh_a = 0x67452301, sh_b = 0xEFCDAB89, sh_c = 0x98BADCFE, sh_d = 0x10325476,
       sh_e = 0xC3D2E1F0, sh_len = 0, sh_buf = init_buf, sh_buflen = 0 \<rparr>"

text \<open>The feeding loop. With 64 buffered bytes the C loop would not advance; the
  invariant \<open>sha1_ok\<close> excludes that state.\<close>

definition sha1_fill :: "sha1 \<Rightarrow> byte list \<Rightarrow> sha1" where
  "sha1_fill c chunk =
     (let c1 = c\<lparr> sh_buf := take (sh_buflen c) (sh_buf c) @ chunk @
                     drop (sh_buflen c + length chunk) (sh_buf c),
                  sh_buflen := sh_buflen c + length chunk \<rparr>
      in if sh_buflen c1 = 64 then (sha1_block c1 (sh_buf c1))\<lparr>sh_buflen := 0\<rparr> else c1)"

function sha1_feed :: "sha1 \<Rightarrow> byte list \<Rightarrow> sha1" where
  "sha1_feed c p =
     (if p = [] \<or> 64 \<le> sh_buflen c then c
      else (let n = min (64 - sh_buflen c) (length p)
            in sha1_feed (sha1_fill c (take n p)) (drop n p)))"
  by pat_completeness auto
termination
  by (relation "measure (\<lambda>(c, p). length p)") (simp_all add: Let_def)

declare sha1_feed.simps [simp del]

definition sha1_update :: "sha1 \<Rightarrow> byte list \<Rightarrow> sha1" where
  "sha1_update c p = sha1_feed (c\<lparr>sh_len := wrap64 (sh_len c + length p)\<rparr>) p"

text \<open>The padding loop; it ends within 64 rounds.\<close>

fun sha1_pad :: "nat \<Rightarrow> sha1 \<Rightarrow> sha1" where
  "sha1_pad 0 c = c"
| "sha1_pad (Suc n) c = (if sh_buflen c = 56 then c else sha1_pad n (sha1_update c [0]))"

definition be_bytes :: "nat \<Rightarrow> nat \<Rightarrow> byte list" where
  "be_bytes k v = map (\<lambda>i. word_of_nat (v div 256 ^ (k - 1 - i))) [0..<k]"

definition word_bytes :: "32 word \<Rightarrow> byte list" where
  "word_bytes h = [ucast (drop_bit 24 h), ucast (drop_bit 16 h), ucast (drop_bit 8 h), ucast h]"

definition sha1_final :: "sha1 \<Rightarrow> byte list" where
  "sha1_final c =
     (let bitlen = wrap64 (sh_len c * 8);
          c1 = sha1_pad 64 (sha1_update c [0x80]);
          lb = be_bytes 8 bitlen;
          c2 = c1\<lparr>sh_buf := take 56 (sh_buf c1) @ lb\<rparr>;
          c3 = sha1_block c2 (sh_buf c2)
      in word_bytes (sh_a c3) @ word_bytes (sh_b c3) @ word_bytes (sh_c c3) @
         word_bytes (sh_d c3) @ word_bytes (sh_e c3))"

section \<open>Base 64 and the accept key\<close>

definition b64_tab :: string where
  "b64_tab = ''ABCDEFGHIJKLMNOPQRSTUVWXYZabcdefghijklmnopqrstuvwxyz0123456789+/''"

definition b64_char :: "nat \<Rightarrow> char" where
  "b64_char n = b64_tab ! (n mod 64)"

fun b64_groups :: "byte list \<Rightarrow> string" where
  "b64_groups [] = []"
| "b64_groups [a] =
     (let v = unat a * 65536 in [b64_char (v div 262144), b64_char (v div 4096), CHR ''='', CHR ''=''])"
| "b64_groups [a, b] =
     (let v = unat a * 65536 + unat b * 256
      in [b64_char (v div 262144), b64_char (v div 4096), b64_char (v div 64), CHR ''=''])"
| "b64_groups (a # b # c # rest) =
     (let v = unat a * 65536 + unat b * 256 + unat c
      in b64_char (v div 262144) # b64_char (v div 4096) # b64_char (v div 64) # b64_char v #
         b64_groups rest)"

definition b64_encode :: "byte list \<Rightarrow> nat \<Rightarrow> string option" where
  "b64_encode bs cap =
     (if ((length bs + 2) div 3) * 4 + 1 > cap then None else Some (b64_groups bs))"

definition WS_GUID :: string where
  "WS_GUID = ''258EAFA5-E914-47DA-95CA-C5AB0DC85B11''"

definition trim_key :: "string \<Rightarrow> string" where
  "trim_key s =
     rev (dropWhile (\<lambda>c. is_blank c \<or> c = CHR 0x0D \<or> c = CHR 0x0A)
       (rev (cstr_trunc 256 (dropWhile is_blank s))))"

definition str_bytes :: "string \<Rightarrow> byte list" where
  "str_bytes s = map byte_of_char s"

definition ws_direct_handshake_accept_key :: "byte list \<Rightarrow> string \<Rightarrow> nat \<Rightarrow> string option" where
  "ws_direct_handshake_accept_key stack client_key cap =
     (if client_key = [] \<or> cap < 32 then None
      else
      let key = trim_key client_key in
      if key = [] then None
      else b64_encode (sha1_final (sha1_update (sha1_init stack)
             (str_bytes (cstr_trunc 320 (key @ WS_GUID))))) cap)"

section \<open>Frames\<close>

text \<open>The length field: one byte, or a marker and two or eight bytes. \<open>flag\<close> is
  the mask bit.\<close>

definition len_field :: "byte \<Rightarrow> nat \<Rightarrow> byte list" where
  "len_field flag plen =
     (if plen < 126 then [flag OR word_of_nat plen]
      else if plen \<le> 65535 then (flag OR 126) # be_bytes 2 plen
      else (flag OR 127) # be_bytes 8 plen)"

definition frame_need :: "nat \<Rightarrow> nat" where
  "frame_need plen = 2 + plen + (if plen \<ge> 126 then (if plen > 65535 then 8 else 2) else 0)"

definition ws_direct_frame_encode_server :: "byte \<Rightarrow> byte list \<Rightarrow> nat \<Rightarrow> byte list option" where
  "ws_direct_frame_encode_server opcode payload out_max =
     (if frame_need (length payload) > out_max then None
      else Some ((0x80 OR (opcode AND 0x0F)) # len_field 0 (length payload) @ payload))"

text \<open>\<open>xor_mask mk i payload\<close>: the payload from index \<open>i\<close> on.\<close>

fun xor_mask :: "byte list \<Rightarrow> nat \<Rightarrow> byte list \<Rightarrow> byte list" where
  "xor_mask mk i [] = []"
| "xor_mask mk i (b # bs) = (b XOR mk ! (i mod 4)) # xor_mask mk (i + 1) bs"

text \<open>\<open>mk\<close> is the four bytes drawn from \<open>rand()\<close>.\<close>

definition ws_direct_frame_encode_client ::
  "byte list \<Rightarrow> byte \<Rightarrow> byte list \<Rightarrow> nat \<Rightarrow> byte list option" where
  "ws_direct_frame_encode_client mk opcode payload out_max =
     (if frame_need (length payload) + 4 > out_max then None
      else Some ((0x80 OR (opcode AND 0x0F)) # len_field 0x80 (length payload) @ mk @
                 xor_mask mk 0 payload))"

text \<open>The decoder. A frame reports its opcode, the FIN flag, the position and
  length of the payload, its total length and the buffer, unmasked in place.\<close>

datatype frame_result =
    FrameMore
  | FrameBad
  | Frame (fr_opcode: byte) (fr_fin: bool) (fr_off: nat) (fr_len: nat) (fr_total: nat)
      (fr_buf: "byte list")

datatype frame_len = LenMore | LenBad | Len nat nat

definition be_val :: "byte list \<Rightarrow> nat" where
  "be_val bs = foldl (\<lambda>v b. v * 256 + unat b) 0 bs"

definition frame_plen :: "byte list \<Rightarrow> frame_len" where
  "frame_plen buf =
     (let plen = unat (buf ! 1 AND 0x7F) in
      if plen = 126 then (if length buf < 4 then LenMore else Len (be_val (bslice 2 2 buf)) 4)
      else if plen = 127
      then (if length buf < 10 then LenMore
            else if buf ! 2 AND 0x80 \<noteq> 0 then LenBad
            else Len (be_val (bslice 2 8 buf)) 10)
      else Len plen 2)"

definition ws_direct_frame_decode :: "byte list \<Rightarrow> frame_result" where
  "ws_direct_frame_decode buf =
     (if length buf < 2 then FrameMore
      else
      let b0 = buf ! 0;
          opcode = b0 AND 0x0F;
          fin = (b0 AND 0x80 \<noteq> 0);
          masked = (buf ! 1 AND 0x80 \<noteq> 0);
          masklen = (if masked then 4 else 0)
      in if b0 AND 0x70 \<noteq> 0 then FrameBad
         else if opcode > 0x0A \<or> (opcode > 0x02 \<and> opcode < 0x08) then FrameBad
         else
         (case frame_plen buf of
            LenMore \<Rightarrow> FrameMore
          | LenBad \<Rightarrow> FrameBad
          | Len plen hdr \<Rightarrow>
              if opcode \<ge> 0x08 \<and> (\<not> fin \<or> plen > 125) then FrameBad
              else if plen > 2 ^ 64 - 1 - hdr - masklen then FrameBad
              else if length buf < hdr + masklen + plen then FrameMore
              else Frame opcode fin (hdr + masklen) plen (hdr + masklen + plen)
                     (if masked
                      then take (hdr + 4) buf @
                           xor_mask (bslice hdr 4 buf) 0 (bslice (hdr + 4) plen buf) @
                           drop (hdr + 4 + plen) buf
                      else buf)))"

definition frame_payload :: "frame_result \<Rightarrow> byte list" where
  "frame_payload fr =
     (case fr of Frame op fin off n t buf \<Rightarrow> bslice off n buf | _ \<Rightarrow> [])"

section \<open>Control messages\<close>

fun wsj_copy :: "string \<Rightarrow> nat \<Rightarrow> string" where
  "wsj_copy [] n = []"
| "wsj_copy [c] n = (if c = CHR 0x22 \<or> n \<le> 1 then [] else [c])"
| "wsj_copy (c # d # cs) n =
     (if c = CHR 0x22 \<or> n \<le> 1 then []
      else if c = CHR 0x5C then d # wsj_copy cs (n - 1)
      else c # wsj_copy (d # cs) (n - 1))"

definition wsj_key :: "string \<Rightarrow> string \<Rightarrow> string option" where
  "wsj_key json key =
     (let pat = cstr_trunc 96 (CHR 0x22 # key @ [CHR 0x22]) in
      case strstr json pat of
        None \<Rightarrow> None
      | Some p \<Rightarrow> strchr (drop (length pat) p) (CHR '':''))"

definition wsj_string :: "string \<Rightarrow> string \<Rightarrow> nat \<Rightarrow> string option" where
  "wsj_string json key cap =
     (case wsj_key json key of
        None \<Rightarrow> None
      | Some p \<Rightarrow>
        (case strchr p (CHR 0x22) of
           None \<Rightarrow> None
         | Some q \<Rightarrow> Some (wsj_copy (tl q) cap)))"

definition wsj_u64 :: "string \<Rightarrow> string \<Rightarrow> nat option" where
  "wsj_u64 json key =
     (case wsj_key json key of
        None \<Rightarrow> None
      | Some p \<Rightarrow>
        (let q = dropWhile is_blank (tl p);
             r = (if q \<noteq> [] \<and> hd q = CHR 0x22 then tl q else q)
         in Some (fst (strtoul10 r))))"

end
