(* ===== verification/WsCodecProps.thy ===== *)
theory WsCodecProps
  imports WsCodec
begin

text \<open>
  Facts about the wire formats: big-endian numbers, frames that survive a round
  trip and any split of the byte stream, and the digest of a message as the
  reference definition of SHA-1 gives it, however the message is fed.
\<close>

section \<open>Big-endian numbers\<close>

lemma be_bytes_Suc: "be_bytes (Suc k) v = be_bytes k (v div 256) @ [word_of_nat v]"
proof -
  have "word_of_nat (v div 256 ^ (k - i)) = (word_of_nat (v div 256 div 256 ^ (k - 1 - i)) :: byte)"
    if "i < k" for i
  proof -
    from that have "k - i = Suc (k - 1 - i)" by simp
    then have "(256 :: nat) ^ (k - i) = 256 * 256 ^ (k - 1 - i)" by (simp only: power_Suc)
    then show ?thesis by (simp only: div_mult2_eq)
  qed
  then show ?thesis by (simp add: be_bytes_def)
qed

lemma length_be_bytes [simp]: "length (be_bytes k v) = k"
  by (simp add: be_bytes_def)

lemma be_val_snoc: "be_val (bs @ [b]) = be_val bs * 256 + unat b"
  by (simp add: be_val_def)

lemma be_val_bytes: "v < 256 ^ k \<Longrightarrow> be_val (be_bytes k v) = v"
proof (induction k arbitrary: v)
  case 0
  then show ?case by (simp add: be_val_def be_bytes_def)
next
  case (Suc k)
  then have "v div 256 < 256 ^ k" by (simp add: less_mult_imp_div_less mult.commute)
  with Suc.IH have "be_val (be_bytes k (v div 256)) = v div 256" .
  moreover have "unat (word_of_nat v :: byte) = v mod 256" by (simp add: unat_of_nat)
  ultimately show ?case by (simp add: be_bytes_Suc be_val_snoc)
qed

lemma be_val_less: "be_val bs < 256 ^ length bs"
proof (induction bs rule: rev_induct)
  case Nil
  then show ?case by (simp add: be_val_def)
next
  case (snoc b bs)
  have "unat b < 256" using unsigned_less [of b] by simp
  moreover have "Suc (be_val bs) * 256 \<le> 256 ^ length bs * 256" using snoc by simp
  ultimately show ?case by (simp add: be_val_snoc mult.commute)
qed

section \<open>The decoder on a growing buffer\<close>

lemma frame_plen_append:
  assumes "2 \<le> length buf" and "frame_plen buf \<noteq> LenMore"
  shows "frame_plen (buf @ ys) = frame_plen buf"
  using assms by (auto simp: frame_plen_def Let_def nth_append bslice_def split: if_splits)

lemma frame_plen_hdr: "2 \<le> length buf \<Longrightarrow> frame_plen buf = Len n hdr \<Longrightarrow> 2 \<le> hdr \<and> hdr \<le> length buf"
  by (auto simp: frame_plen_def Let_def split: if_splits)

lemma decode_append:
  "ws_direct_frame_decode buf = FrameBad \<Longrightarrow> ws_direct_frame_decode (buf @ ys) = FrameBad"
  "ws_direct_frame_decode buf = Frame op fin off n t buf' \<Longrightarrow>
     ws_direct_frame_decode (buf @ ys) = Frame op fin off n t (buf' @ ys)"
proof -
  have "ws_direct_frame_decode buf \<noteq> FrameMore \<Longrightarrow> ws_direct_frame_decode (buf @ ys) =
    (case ws_direct_frame_decode buf of Frame op fin off n t buf' \<Rightarrow> Frame op fin off n t (buf' @ ys)
       | r \<Rightarrow> r)"
  proof -
    assume nm: "ws_direct_frame_decode buf \<noteq> FrameMore"
    have two: "2 \<le> length buf"
      using nm by (rule contrapos_np) (simp add: ws_direct_frame_decode_def)
    then have i: "(buf @ ys) ! 0 = buf ! 0" "(buf @ ys) ! 1 = buf ! 1"
      by (auto simp: nth_append)
    show ?thesis
    proof (cases "frame_plen buf")
      case LenMore
      with nm two i show ?thesis
        by (auto simp: ws_direct_frame_decode_def Let_def split: if_splits)
    next
      case LenBad
      then have "frame_plen (buf @ ys) = LenBad" using frame_plen_append [OF two] by simp
      with LenBad nm two i show ?thesis
        by (simp add: ws_direct_frame_decode_def Let_def)
    next
      case (Len n hdr)
      then have p: "frame_plen (buf @ ys) = Len n hdr" using frame_plen_append [OF two] by simp
      have h: "hdr \<le> length buf" using frame_plen_hdr [OF two Len] by simp
      from Len nm two show ?thesis
        unfolding ws_direct_frame_decode_def Let_def i p
        by (auto simp: bslice_def split: if_splits)
    qed
  qed
  then show "ws_direct_frame_decode buf = FrameBad \<Longrightarrow> ws_direct_frame_decode (buf @ ys) = FrameBad"
    and "ws_direct_frame_decode buf = Frame op fin off n t buf' \<Longrightarrow>
     ws_direct_frame_decode (buf @ ys) = Frame op fin off n t (buf' @ ys)"
    by simp_all
qed

lemma length_xor_mask [simp]: "length (xor_mask mk i p) = length p"
  by (induction p arbitrary: i) simp_all

text \<open>A decoded frame, in terms of its header.\<close>

lemma decode_FrameD:
  assumes "ws_direct_frame_decode buf = Frame op fin off n t buf'"
  shows "\<exists>hdr ml. frame_plen buf = Len n hdr \<and> 2 \<le> length buf \<and>
     ml = (if buf ! 1 AND 0x80 \<noteq> 0 then 4 else 0) \<and>
     off = hdr + ml \<and> t = hdr + ml + n \<and> t \<le> length buf \<and>
     buf' = (if buf ! 1 AND 0x80 \<noteq> 0
             then take (hdr + 4) buf @
                  xor_mask (bslice hdr 4 buf) 0 (bslice (hdr + 4) n buf) @
                  drop (hdr + 4 + n) buf
             else buf)"
proof (cases "length buf < 2")
  case True
  then show ?thesis using assms by (simp add: ws_direct_frame_decode_def)
next
  case two: False
  show ?thesis
  proof (cases "frame_plen buf")
    case LenMore
    then show ?thesis using assms two
      by (simp add: ws_direct_frame_decode_def Let_def split: if_split_asm)
  next
    case LenBad
    then show ?thesis using assms two
      by (simp add: ws_direct_frame_decode_def Let_def split: if_split_asm)
  next
    case (Len n' hdr)
    show ?thesis
    proof (cases "buf ! 1 AND 0x80 = 0")
      case True
      then show ?thesis using assms two Len
        by (simp add: ws_direct_frame_decode_def Let_def split: if_split_asm)
    next
      case False
      then show ?thesis using assms two Len
        by (clarsimp simp: ws_direct_frame_decode_def Let_def split: if_split_asm)
    qed
  qed
qed

lemma decode_Frame_bounds:
  assumes "ws_direct_frame_decode buf = Frame op fin off n t buf'"
  shows "2 \<le> off \<and> t = off + n \<and> t \<le> length buf \<and> length buf' = length buf \<and> drop t buf' = drop t buf"
proof -
  obtain hdr ml where D: "frame_plen buf = Len n hdr" "2 \<le> length buf"
    "ml = (if buf ! 1 AND 0x80 \<noteq> 0 then 4 else 0)" "off = hdr + ml" "t = hdr + ml + n" "t \<le> length buf"
    "buf' = (if buf ! 1 AND 0x80 \<noteq> 0
             then take (hdr + 4) buf @
                  xor_mask (bslice hdr 4 buf) 0 (bslice (hdr + 4) n buf) @
                  drop (hdr + 4 + n) buf
             else buf)"
    using decode_FrameD [OF assms] by blast
  have h: "2 \<le> hdr" using frame_plen_hdr [OF D(2,1)] by simp
  show ?thesis
  proof (cases "buf ! 1 AND 0x80 = 0")
    case True
    then show ?thesis using D h by simp
  next
    case False
    then have b': "buf' = take (hdr + 4) buf @
        xor_mask (bslice hdr 4 buf) 0 (bslice (hdr + 4) n buf) @ drop (hdr + 4 + n) buf"
      and t: "t = hdr + 4 + n" "hdr + 4 + n \<le> length buf" "off = hdr + 4"
      using D(3-7) by simp_all
    then show ?thesis using h by (simp add: length_bslice)
  qed
qed

section \<open>Round trips\<close>


lemma short_len_table:
  "list_all (\<lambda>n. unat (((word_of_nat n :: byte)) AND 0x7F) = n \<and> unat ((0x80 OR (word_of_nat n :: byte)) AND 0x7F) = n \<and>
     (word_of_nat n :: byte) AND 0x80 = 0 \<and> (0x80 OR (word_of_nat n :: byte)) AND 0x80 \<noteq> 0) [0..<128]"
  by code_simp

definition valid_opcode :: "byte \<Rightarrow> bool" where
  "valid_opcode op \<longleftrightarrow> op \<in> {0, 1, 2, 8, 9, 10}"

lemma opcode_bits:
  assumes "valid_opcode op"
  shows "(0x80 OR (op AND 0x0F)) AND 0x70 = (0 :: byte)" and "(0x80 OR (op AND 0x0F)) AND 0x0F = op"
    and "(0x80 OR (op AND 0x0F)) AND 0x80 \<noteq> (0 :: byte)"
    and "\<not> (op > 0x0A \<or> (op > 0x02 \<and> op < 0x08))"
  using assms by (auto simp: valid_opcode_def)

lemma short_len_bits:
  assumes "n < 128" and "flag = 0 \<or> flag = (0x80 :: byte)"
  shows "unat ((flag OR word_of_nat n) AND 0x7F) = n"
    and "((flag OR word_of_nat n) AND 0x80 \<noteq> 0) = (flag \<noteq> 0)"
  using short_len_table assms by (auto simp: list_all_iff)

lemma len_field_head:
  assumes "flag = 0 \<or> flag = (0x80 :: byte)" and "n < 2 ^ 63"
  shows "len_field flag n \<noteq> [] \<and> (hd (len_field flag n) AND 0x80 \<noteq> 0) = (flag \<noteq> 0)"
  using short_len_bits [of n flag] assms by (auto simp: len_field_def)

lemma frame_plen_len_field:
  assumes "flag = 0 \<or> flag = (0x80 :: byte)" and "n < 2 ^ 63"
  shows "frame_plen (b0 # len_field flag n @ rest) = Len n (1 + length (len_field flag n))"
proof -
  consider "n < 126" | "126 \<le> n" "n \<le> 65535" | "65535 < n" by linarith
  then show ?thesis
  proof cases
    case 1
    then have "unat ((flag OR word_of_nat n) AND 0x7F) = n"
      using short_len_bits(1) [of n flag] assms(1) by simp
    then show ?thesis using 1 by (simp add: frame_plen_def len_field_def Let_def)
  next
    case 2
    have "unat ((flag OR 126) AND 0x7F) = 126" using assms(1) by auto
    moreover have "be_val (be_bytes 2 n) = n" by (rule be_val_bytes) (use 2 in simp)
    ultimately show ?thesis using 2
      by (simp add: frame_plen_def len_field_def Let_def bslice_def numeral_2_eq_2)
  next
    case 3
    have "unat ((flag OR 127) AND 0x7F) = 127" using assms(1) by auto
    moreover have "be_val (be_bytes 8 n) = n" by (rule be_val_bytes) (use assms(2) in simp)
    moreover have "(be_bytes 8 n @ rest) ! 0 AND 0x80 = 0"
    proof -
      have d: "n div 256 ^ 7 < 128" using assms(2) by (simp add: less_mult_imp_div_less)
      have "(be_bytes 8 n @ rest) ! 0 = word_of_nat (n div 256 ^ 7)"
        by (simp add: nth_append) (simp add: be_bytes_def)
      then show ?thesis using short_len_bits(2) [OF d, of 0] by simp
    qed
    ultimately show ?thesis using 3
      by (simp add: frame_plen_def len_field_def Let_def bslice_def numeral_2_eq_2)
  qed
qed


lemma length_len_field: "length (len_field flag n) \<le> 9"
  by (simp add: len_field_def)

lemma split_parts:
  "length a = i \<Longrightarrow> length b = n \<Longrightarrow> bslice i n (a @ b @ c) = b"
  "length a = i \<Longrightarrow> take i (a @ b) = a" "length a = i \<Longrightarrow> drop i (a @ b) = b"
  by (auto simp: bslice_def)



text \<open>The frames the server sends decode to the same opcode and payload.\<close>

theorem server_frame_roundtrip:
  assumes op: "valid_opcode op" and ctl: "op \<ge> 8 \<Longrightarrow> length payload \<le> 125"
    and len: "length payload < 2 ^ 63"
    and enc: "ws_direct_frame_encode_server op payload cap = Some bs"
  shows "\<exists>off. ws_direct_frame_decode (bs @ rest) =
      Frame op True off (length payload) (length bs) (bs @ rest) \<and>
      bslice off (length payload) (bs @ rest) = payload"
proof -
  let ?lf = "len_field 0 (length payload)" and ?b0 = "0x80 OR (op AND 0x0F)"
  let ?h = "1 + length ?lf"
  have bs: "bs = ?b0 # ?lf @ payload"
    using enc by (simp add: ws_direct_frame_encode_server_def split: if_split_asm)
  let ?buf = "?b0 # ?lf @ (payload @ rest)"
  have pl: "frame_plen ?buf = Len (length payload) ?h"
    by (rule frame_plen_len_field) (use len in simp_all)
  have ne: "?lf \<noteq> []" "hd ?lf AND 0x80 = 0" using len_field_head [of 0 "length payload"] len by simp_all
  then have one: "?buf ! 1 AND 0x80 = 0" by (simp add: nth_append hd_conv_nth)
  have zero: "?buf ! 0 = ?b0" by simp
  have lenb: "length ?buf = ?h + length payload + length rest" by simp
  have big: "\<not> length payload > 2 ^ 64 - 1 - ?h" using length_len_field [of 0 "length payload"] len by simp
  have two: "\<not> length ?buf < 2" using ne(1) by (cases ?lf) auto
  have short: "\<not> length ?buf < ?h + length payload" using lenb by simp
  have dec: "ws_direct_frame_decode ?buf = Frame op True ?h (length payload) (?h + length payload) ?buf"
    unfolding ws_direct_frame_decode_def Let_def zero pl frame_len.case
    using opcode_bits [OF op] one ctl big two short by auto
  have "bs @ rest = ?buf" "length bs = ?h + length payload" using bs by simp_all
  moreover have "bslice ?h (length payload) ((?b0 # ?lf) @ payload @ rest) = payload"
    by (rule split_parts(1)) simp_all
  ultimately show ?thesis using dec by (metis append_Cons)
qed


theorem server_frame_roundtrip_witness:
  "\<exists>off. ws_direct_frame_decode ([129, 2, 79, 75] @ []) =
     Frame 1 True off (length [79, 75 :: byte]) (length [129, 2, 79, 75 :: byte]) ([129, 2, 79, 75] @ [])"
proof -
  have e: "ws_direct_frame_encode_server 1 [79, 75] 64 = Some [129, 2, 79, 75]"
    by (simp add: ws_direct_frame_encode_server_def frame_need_def len_field_def)
  show ?thesis using server_frame_roundtrip [OF _ _ _ e, of "[]"] by (auto simp: valid_opcode_def)
qed

section \<open>SHA-1 against its definition\<close>


definition regs :: "sha1 \<Rightarrow> sha1_regs" where
  "regs c = (sh_a c, sh_b c, sh_c c, sh_d c, sh_e c)"

definition pending :: "sha1 \<Rightarrow> byte list" where
  "pending c = take (sh_buflen c) (sh_buf c)"

definition sha1_ok :: "sha1 \<Rightarrow> bool" where
  "sha1_ok c \<longleftrightarrow> length (sh_buf c) = 64 \<and> sh_buflen c < 64"

definition add_regs :: "sha1_regs \<Rightarrow> sha1_regs \<Rightarrow> sha1_regs" where
  "add_regs r s = (case r of (a, b, c, d, e) \<Rightarrow> case s of (a', b', c', d', e') \<Rightarrow>
     (a + a', b + b', c + c', d + d', e + e'))"

definition compress :: "sha1_regs \<Rightarrow> byte list \<Rightarrow> sha1_regs" where
  "compress r p = add_regs r (fold (sha1_round (sha1_schedule p)) [0..<80] r)"

text \<open>The reference: whole blocks are compressed, the rest is kept.\<close>

function absorb :: "sha1_regs \<Rightarrow> byte list \<Rightarrow> sha1_regs \<times> byte list" where
  "absorb r bs = (if length bs < 64 then (r, bs) else absorb (compress r (take 64 bs)) (drop 64 bs))"
  by pat_completeness auto
termination by (relation "measure (\<lambda>(r, bs). length bs)") simp_all

declare absorb.simps [simp del]

definition iv :: sha1_regs where
  "iv = (0x67452301, 0xEFCDAB89, 0x98BADCFE, 0x10325476, 0xC3D2E1F0)"

definition sha1_padded :: "byte list \<Rightarrow> byte list" where
  "sha1_padded m = m @ [0x80] @ replicate ((119 - length m mod 64) mod 64) 0 @ be_bytes 8 (wrap64 (8 * length m))"

definition regs_bytes :: "sha1_regs \<Rightarrow> byte list" where
  "regs_bytes r = (case r of (a, b, c, d, e) \<Rightarrow>
     word_bytes a @ word_bytes b @ word_bytes c @ word_bytes d @ word_bytes e)"

definition sha1_ref :: "byte list \<Rightarrow> byte list" where
  "sha1_ref m = regs_bytes (fst (absorb iv (sha1_padded m)))"

lemma absorb_append: "absorb r (xs @ ys) = (case absorb r xs of (r', p) \<Rightarrow> absorb r' (p @ ys))"
proof (induction r xs rule: absorb.induct)
  case (1 r bs)
  show ?case
  proof (cases "length bs < 64")
    case True
    then show ?thesis by (simp add: absorb.simps [of r bs])
  next
    case False
    then show ?thesis using 1 by (simp add: absorb.simps [of r bs] absorb.simps [of r "bs @ ys"])
  qed
qed

lemma regs_block: "regs (sha1_block c p) = compress (regs c) p"
  by (simp add: regs_def sha1_block_def compress_def add_regs_def Let_def split: prod.split)

lemma sha1_block_same [simp]: "sh_len (sha1_block c p) = sh_len c" "sh_buf (sha1_block c p) = sh_buf c"
  "sh_buflen (sha1_block c p) = sh_buflen c"
  by (simp_all add: sha1_block_def Let_def split: prod.split)

lemma regs_upd [simp]: "regs (c\<lparr>sh_buflen := n\<rparr>) = regs c" "regs (c\<lparr>sh_buf := b\<rparr>) = regs c" "regs (c\<lparr>sh_len := n\<rparr>) = regs c"
  by (simp_all add: regs_def)

lemma fill_spec:
  assumes ok: "sha1_ok c" and n: "length chunk \<le> 64 - sh_buflen c"
  shows "sha1_ok (sha1_fill c chunk) \<and> sh_len (sha1_fill c chunk) = sh_len c \<and>
    (regs (sha1_fill c chunk), pending (sha1_fill c chunk)) = absorb (regs c) (pending c @ chunk)"
proof -
  let ?b = "take (sh_buflen c) (sh_buf c) @ chunk @ drop (sh_buflen c + length chunk) (sh_buf c)"
  have lb: "length ?b = 64" using assms by (auto simp: sha1_ok_def)
  have pl: "length (pending c) = sh_buflen c" using ok by (simp add: pending_def sha1_ok_def)
  show ?thesis
  proof (cases "sh_buflen c + length chunk = 64")
    case True
    then have b: "?b = pending c @ chunk" using ok by (simp add: pending_def sha1_ok_def)
    have "absorb (regs c) (pending c @ chunk) = (compress (regs c) (pending c @ chunk), [])"
      using True pl by (simp add: absorb.simps)
    then show ?thesis
      using True lb b by (simp add: sha1_fill_def sha1_ok_def pending_def Let_def regs_block)
  next
    case False
    then have lt: "sh_buflen c + length chunk < 64" using n ok unfolding sha1_ok_def by linarith
    then have "absorb (regs c) (pending c @ chunk) = (regs c, pending c @ chunk)"
      using pl by (simp add: absorb.simps)
    then show ?thesis
      using False lt lb ok by (simp add: sha1_fill_def sha1_ok_def pending_def Let_def)
  qed
qed

lemma feed_spec:
  "sha1_ok c \<Longrightarrow> sha1_ok (sha1_feed c p) \<and> sh_len (sha1_feed c p) = sh_len c \<and>
    (regs (sha1_feed c p), pending (sha1_feed c p)) = absorb (regs c) (pending c @ p)"
proof (induction c p rule: sha1_feed.induct)
  case (1 c p)
  show ?case
  proof (cases "p = []")
    case True
    have "length (pending c) < 64" using 1(2) by (simp add: pending_def sha1_ok_def)
    then show ?thesis using True 1(2) by (simp add: sha1_feed.simps absorb.simps)
  next
    case False
    let ?n = "min (64 - sh_buflen c) (length p)"
    have lt: "\<not> 64 \<le> sh_buflen c" using 1(2) by (simp add: sha1_ok_def)
    have f: "sha1_feed c p = sha1_feed (sha1_fill c (take ?n p)) (drop ?n p)"
      using False lt by (subst sha1_feed.simps) (simp add: Let_def)
    have "length (take ?n p) \<le> 64 - sh_buflen c" by simp
    note F = fill_spec [OF 1(2) this]
    note IH = 1(1) [OF _ refl]
    have "absorb (regs c) (pending c @ p) = absorb (regs (sha1_fill c (take ?n p)))
        (pending (sha1_fill c (take ?n p)) @ drop ?n p)"
      using absorb_append [of "regs c" "pending c @ take ?n p" "drop ?n p"] F
      by (metis append_assoc append_take_drop_id old.prod.case)
    then show ?thesis using IH F False lt unfolding f by simp
  qed
qed

lemma update_spec:
  "sha1_ok c \<Longrightarrow> sha1_ok (sha1_update c p) \<and> sh_len (sha1_update c p) = wrap64 (sh_len c + length p) \<and>
    (regs (sha1_update c p), pending (sha1_update c p)) = absorb (regs c) (pending c @ p)"
  using feed_spec [of "c\<lparr>sh_len := wrap64 (sh_len c + length p)\<rparr>" p]
  by (simp add: sha1_update_def sha1_ok_def pending_def)

lemma length_pending: "sha1_ok c \<Longrightarrow> length (pending c) = sh_buflen c"
  by (simp add: pending_def sha1_ok_def)

lemma absorb_rest: "length (snd (absorb r bs)) = length bs mod 64"
proof (induction r bs rule: absorb.induct)
  case (1 r bs)
  show ?case
  proof (cases "length bs < 64")
    case True
    then show ?thesis by (simp add: absorb.simps)
  next
    case False
    then show ?thesis using 1 by (simp add: absorb.simps [of r bs] le_mod_geq)
  qed
qed

lemma update_buflen:
  assumes "sha1_ok c"
  shows "sh_buflen (sha1_update c p) = (sh_buflen c + length p) mod 64"
proof -
  note U = update_spec [OF assms, of p]
  have "sh_buflen (sha1_update c p) = length (pending (sha1_update c p))"
    using length_pending U by simp
  also have "pending (sha1_update c p) = snd (absorb (regs c) (pending c @ p))"
    using U by (metis snd_conv)
  finally show ?thesis by (simp add: absorb_rest length_pending [OF assms])
qed

lemma pad_table:
  "list_all (\<lambda>b. ((120 - b) mod 64 = 0 \<longrightarrow> b = 56) \<and>
     ((120 - b) mod 64 \<noteq> 0 \<longrightarrow> Suc ((120 - (b + 1) mod 64) mod 64) = (120 - b) mod 64) \<and>
     (120 - (b + 1) mod 64) mod 64 = (119 - b) mod 64) [0..<64]"
  by code_simp

lemma pad_step:
  assumes "b < 64"
  shows "(120 - b) mod 64 = 0 \<Longrightarrow> b = (56 :: nat)"
    and "(120 - b) mod 64 = Suc z \<Longrightarrow> (120 - (b + 1) mod 64) mod 64 = z"
    and "(120 - (b + 1) mod 64) mod 64 = (119 - b) mod 64"
proof -
  have "b \<in> set [0..<64]" using assms by simp
  note T = bspec [OF pad_table [unfolded list_all_iff] this]
  from T show "(120 - b) mod 64 = 0 \<Longrightarrow> b = 56" by metis
  from T show "(120 - b) mod 64 = Suc z \<Longrightarrow> (120 - (b + 1) mod 64) mod 64 = z"
    by (metis nat.inject nat.simps(3))
  from T show "(120 - (b + 1) mod 64) mod 64 = (119 - b) mod 64" by metis
qed

lemma pad_spec:
  assumes "sha1_ok c" and "(120 - sh_buflen c) mod 64 = z" and "z < n"
  shows "sha1_ok (sha1_pad n c) \<and> sh_buflen (sha1_pad n c) = 56 \<and>
    (regs (sha1_pad n c), pending (sha1_pad n c)) = absorb (regs c) (pending c @ replicate z 0)"
  using assms
proof (induction z arbitrary: n c)
  case 0
  obtain n' where n: "n = Suc n'" using 0 by (cases n) auto
  have b: "sh_buflen c = 56" using pad_step(1) 0(1,2) by (simp add: sha1_ok_def)
  have "length (pending c) = 56" using length_pending [OF 0(1)] b by simp
  then show ?case using 0(1) b n by (simp add: absorb.simps)
next
  case (Suc z)
  obtain n' where n: "n = Suc n'" using Suc.prems by (cases n) auto
  have ne: "sh_buflen c \<noteq> 56" using Suc.prems(2) by auto
  have lt: "sh_buflen c < 64" using Suc.prems(1) by (simp add: sha1_ok_def)
  let ?c = "sha1_update c [0]"
  note U = update_spec [OF Suc.prems(1), of "[0]"]
  have z: "(120 - sh_buflen ?c) mod 64 = z"
    using pad_step(2) [OF lt Suc.prems(2)] update_buflen [OF Suc.prems(1), of "[0]"] by simp
  have ok: "sha1_ok ?c" using U by simp
  have "z < n'" using Suc.prems(3) n by simp
  note I = Suc.IH [OF ok z this]
  have "absorb (regs c) (pending c @ replicate (Suc z) 0) = absorb (regs ?c) (pending ?c @ replicate z 0)"
    using absorb_append [of "regs c" "pending c @ [0]" "replicate z 0"] U
    by (metis append_Cons append_Nil append_assoc old.prod.case replicate_Suc)
  then show ?case using I ne n by simp
qed

text \<open>The digest, whatever pieces the message comes in.\<close>

definition sha1_feed_all :: "byte list list \<Rightarrow> sha1 \<Rightarrow> sha1" where
  "sha1_feed_all ps c = foldl sha1_update c ps"

lemma feed_all_spec:
  "sha1_ok c \<Longrightarrow> sha1_ok (sha1_feed_all ps c) \<and> sh_len (sha1_feed_all ps c) mod 2 ^ 64 = (sh_len c + length (concat ps)) mod 2 ^ 64 \<and>
    (regs (sha1_feed_all ps c), pending (sha1_feed_all ps c)) = absorb (regs c) (pending c @ concat ps)"
proof (induction ps arbitrary: c)
  case Nil
  have "length (pending c) < 64" using length_pending [OF Nil] Nil by (simp add: sha1_ok_def)
  then show ?case using Nil by (simp add: sha1_feed_all_def absorb.simps)
next
  case (Cons p ps)
  note U = update_spec [OF Cons.prems, of p]
  have ok: "sha1_ok (sha1_update c p)" using U by simp
  note I = Cons.IH [OF ok]
  have "absorb (regs c) (pending c @ concat (p # ps)) =
      absorb (regs (sha1_update c p)) (pending (sha1_update c p) @ concat ps)"
    using absorb_append [of "regs c" "pending c @ p" "concat ps"] U
    by (metis append_assoc concat.simps(2) old.prod.case)
  moreover have "(sh_len (sha1_update c p) + length (concat ps)) mod 2 ^ 64 =
      (sh_len c + length (concat (p # ps))) mod 2 ^ 64"
    using U by (simp add: wrap64_def mod_simps add.assoc)
  ultimately show ?case using I by (simp add: sha1_feed_all_def)
qed

text \<open>The handshake digest is the reference digest of the message: pad to whole
  blocks, compress block by block. The pieces the message is fed in and the
  initial contents of the context's buffer do not matter.\<close>

theorem sha1_chunks:
  assumes "length stack = 64"
  shows "sha1_final (sha1_feed_all ps (sha1_init stack)) = sha1_ref (concat ps)"
proof -
  let ?m = "concat ps" and ?i = "sha1_init stack"
  let ?c = "sha1_feed_all ps ?i"
  have ok0: "sha1_ok ?i" using assms by (simp add: sha1_ok_def sha1_init_def)
  have r0: "regs ?i = iv" "pending ?i = []" "sh_len ?i = 0"
    by (simp_all add: regs_def iv_def pending_def sha1_init_def)
  note F = feed_all_spec [OF ok0, of ps]
  have ok: "sha1_ok ?c" using F by simp
  have A: "(regs ?c, pending ?c) = absorb iv ?m" using F r0 by simp
  have bl: "sh_buflen ?c = length ?m mod 64"
    using length_pending [OF ok] A absorb_rest [of iv ?m] by (metis snd_conv)
  let ?c1 = "sha1_update ?c [0x80]"
  note U = update_spec [OF ok, of "[0x80]"]
  have ok1: "sha1_ok ?c1" using U by simp
  have bl1: "sh_buflen ?c1 = (length ?m mod 64 + 1) mod 64" using update_buflen [OF ok] bl by simp
  let ?z = "(120 - sh_buflen ?c1) mod 64"
  have z: "?z = (119 - length ?m mod 64) mod 64"
    unfolding bl1 by (rule pad_step(3)) simp
  let ?p = "sha1_pad 64 ?c1"
  note P = pad_spec [OF ok1 refl, of 64]
  have B: "(regs ?p, pending ?p) = absorb iv (?m @ [0x80] @ replicate ?z 0)"
  proof -
    have "absorb iv (?m @ [0x80] @ replicate ?z 0) = absorb (regs ?c) (pending ?c @ [0x80] @ replicate ?z 0)"
      using absorb_append [of iv ?m "[0x80] @ replicate ?z 0"] A by (metis old.prod.case)
    also have "\<dots> = absorb (regs ?c1) (pending ?c1 @ replicate ?z 0)"
      using absorb_append [of "regs ?c" "pending ?c @ [0x80]" "replicate ?z 0"] U
      by (metis append_assoc old.prod.case)
    finally show ?thesis using P by simp
  qed
  have bits: "wrap64 (sh_len ?c * 8) = wrap64 (8 * length ?m)"
  proof -
    have e: "sh_len ?c mod 2 ^ 64 = length ?m mod 2 ^ 64" using F r0 by simp
    have "sh_len ?c * 8 mod 2 ^ 64 = (sh_len ?c mod 2 ^ 64) * 8 mod 2 ^ 64"
      by (rule mod_mult_left_eq [symmetric])
    also have "\<dots> = length ?m * 8 mod 2 ^ 64" unfolding e by (rule mod_mult_left_eq)
    finally show ?thesis unfolding wrap64_def by (simp only: mult.commute)
  qed
  let ?lb = "be_bytes 8 (wrap64 (8 * length ?m))"
  have pp: "take 56 (sh_buf ?p) = pending ?p" "length (pending ?p) = 56"
    using P length_pending [of ?p] by (simp_all add: pending_def)
  have "absorb (regs ?p) (pending ?p @ ?lb) = (compress (regs ?p) (pending ?p @ ?lb), [])"
    using pp(2) by (simp add: absorb.simps be_bytes_def)
  then have C: "fst (absorb iv (sha1_padded ?m)) = compress (regs ?p) (pending ?p @ ?lb)"
    using absorb_append [of iv "?m @ [0x80] @ replicate ?z 0" ?lb] B z
    by (metis (no_types, lifting) append_assoc fst_conv old.prod.case sha1_padded_def)
  let ?c3 = "sha1_block (?p\<lparr>sh_buf := take 56 (sh_buf ?p) @ ?lb\<rparr>) (take 56 (sh_buf ?p) @ ?lb)"
  have "regs ?c3 = fst (absorb iv (sha1_padded ?m))"
    unfolding C regs_block pp(1) by simp
  moreover have "sha1_final ?c = regs_bytes (regs ?c3)"
    unfolding sha1_final_def Let_def bits regs_bytes_def regs_def by simp
  ultimately show ?thesis unfolding sha1_ref_def by simp
qed


theorem sha1_chunks_witness:
  "sha1_final (sha1_feed_all [[97], [98, 99]] (sha1_init (replicate 64 255))) = sha1_ref [97, 98, 99]"
  using sha1_chunks [of "replicate 64 255" "[[97], [98, 99]]"] by simp

end
