(* ===== verification/WsUpload.thy ===== *)
theory WsUpload
  imports LiveSession WsCodecProps
begin

text \<open>
  The upload service of \<open>src/ws_upload.c\<close>: session ownership, metadata and
  icon, the control messages, the header parser and handshake, the frame loop
  of a connection, its teardown, and the listener.

  Conventions. The globals of the file are the record \<open>upload\<close>, with the live
  session inside. What a call takes from the system (socket results, memory,
  the fresh session id, environment variables, the answer of the installer's
  cancel) is the record \<open>ws_env\<close>. Replies are constructors that carry the
  fields of the JSON text; the timing fields are left out. \<open>up_out\<close> records
  what is sent and which calls leave the component.
\<close>

section \<open>State\<close>

definition WS_TEXT_MAX :: nat where "WS_TEXT_MAX = 16 * 1024"
definition WS_BIN_MSG_MAX :: nat where "WS_BIN_MSG_MAX = 8 * 1024 * 1024"
definition WS_DIRECT_MAX_TOTAL :: nat where "WS_DIRECT_MAX_TOTAL = 256 * 1024 * 1024 * 1024"
definition WS_DIRECT_ICON_MAX :: nat where "WS_DIRECT_ICON_MAX = 10 * 1024 * 1024"
definition WS_DIRECT_DEFAULT_PORT :: int where "WS_DIRECT_DEFAULT_PORT = 18842"

datatype reply =
    RError string
  | RReady string nat nat
  | RPong
  | RStatus live_status
  | RIncomplete nat nat
  | RComplete string
  | RCancelled
  | RAck nat nat
  | RBusy nat nat
  | RSeek nat

datatype up_event = Send int reply | SendFrame int "byte list" | Shutdown int | CloseFd int | InstallerCancel

record upload =
  up_live :: live
  up_fds :: "int list"
  up_listen_fd :: int
  up_listen_running :: bool
  up_listen_created :: bool
  up_listen_port :: int
  up_uplink :: int
  up_owner :: string
  up_owner_sid :: string
  up_owner_filename :: string
  up_owner_total :: nat
  up_title :: string
  up_title_id :: string
  up_version :: string
  up_kind :: string
  up_icon :: "byte list option"
  up_icon_sid :: string
  up_out :: "up_event list"

record ws_env =
  we_fresh :: string
  we_mem :: bool
  we_slots :: "string option"
  we_port :: "string option"
  we_socket :: int
  we_bind :: bool
  we_listen :: bool
  we_thread :: bool
  we_installer_cancel :: int

definition upload_init :: upload where
  "upload_init = \<lparr> up_live = live_init, up_fds = replicate 16 (-1), up_listen_fd = -1,
     up_listen_running = False, up_listen_created = False, up_listen_port = 0, up_uplink = -1,
     up_owner = [], up_owner_sid = [], up_owner_filename = [], up_owner_total = 0,
     up_title = [], up_title_id = [], up_version = [], up_kind = [], up_icon = None,
     up_icon_sid = [], up_out = [] \<rparr>"

definition emit :: "up_event \<Rightarrow> upload \<Rightarrow> upload" where
  "emit e u = u\<lparr>up_out := up_out u @ [e]\<rparr>"

abbreviation say :: "int \<Rightarrow> reply \<Rightarrow> upload \<Rightarrow> upload" where
  "say fd r u \<equiv> emit (Send fd r) u"

section \<open>Tracked connections and the listener\<close>

fun live_add_slot :: "int \<Rightarrow> int list \<Rightarrow> int list" where
  "live_add_slot fd [] = []"
| "live_add_slot fd (x # xs) = (if x < 0 then fd # xs else x # live_add_slot fd xs)"

definition live_add :: "int \<Rightarrow> upload \<Rightarrow> upload" where
  "live_add fd u = u\<lparr>up_fds := live_add_slot fd (up_fds u)\<rparr>"

definition live_remove :: "int \<Rightarrow> upload \<Rightarrow> upload" where
  "live_remove fd u = u\<lparr>up_fds := map (\<lambda>x. if x = fd then -1 else x) (up_fds u)\<rparr>"

definition ws_direct_listener_start :: "ws_env \<Rightarrow> int \<Rightarrow> upload \<Rightarrow> int \<times> upload" where
  "ws_direct_listener_start env port u =
     (if up_listen_running u then (0, u)
      else
      let port1 = (if port \<le> 0 then WS_DIRECT_DEFAULT_PORT else port);
          fd = we_socket env
      in if fd < 0 then (-1, u)
         else if \<not> we_bind env then (-1, emit (CloseFd fd) u)
         else if \<not> we_listen env then (-1, emit (CloseFd fd) u)
         else
         let u1 = u\<lparr>up_listen_fd := fd, up_listen_port := port1, up_listen_running := True\<rparr>
         in if \<not> we_thread env
            then (-1, (emit (CloseFd fd) (u1\<lparr>up_listen_running := False\<rparr>))\<lparr>up_listen_fd := -1\<rparr>)
            else (0, u1\<lparr>up_listen_created := True,
                        up_live := ws_live_set_seek_fn True (up_live u1)\<rparr>))"

definition ws_direct_ensure_listener :: "ws_env \<Rightarrow> upload \<Rightarrow> int \<times> upload" where
  "ws_direct_ensure_listener env u =
     (if up_listen_running u then (0, u)
      else
      let port = (case we_port env of
                    Some e \<Rightarrow> if e \<noteq> [] \<and> strtol10 e > 0 \<and> strtol10 e < 65536 then strtol10 e
                              else WS_DIRECT_DEFAULT_PORT
                  | None \<Rightarrow> WS_DIRECT_DEFAULT_PORT);
          (r, u1) = ws_direct_listener_start env port u
      in if r \<noteq> 0 then (-1, u1) else (0, u1))"

definition emit_all :: "up_event list \<Rightarrow> upload \<Rightarrow> upload" where
  "emit_all es u = u\<lparr>up_out := up_out u @ es\<rparr>"

definition ws_direct_listener_stop :: "upload \<Rightarrow> upload" where
  "ws_direct_listener_stop u =
     (let u1 = (if up_listen_running u \<or> up_listen_created u
                then u\<lparr>up_listen_running := False, up_listen_created := False\<rparr> else u);
          lfd = up_listen_fd u1;
          kick = filter (\<lambda>fd. fd \<ge> 0) (up_fds u1);
          u2 = u1\<lparr>up_listen_fd := -1, up_fds := map (\<lambda>fd. if fd \<ge> 0 then -1 else fd) (up_fds u1)\<rparr>;
          u3 = emit_all (map Shutdown kick) u2;
          u4 = (if lfd \<ge> 0 then emit_all [Shutdown lfd, CloseFd lfd] u3 else u3)
      in u4\<lparr>up_listen_port := 0\<rparr>)"

definition ws_direct_listener_stop_if_idle :: "upload \<Rightarrow> bool \<times> upload" where
  "ws_direct_listener_stop_if_idle u =
     (if ws_live_session_active (up_live u) then (False, u)
      else if (\<exists>fd\<in>set (up_fds u). fd \<ge> 0) \<or> \<not> up_listen_running u then (False, u)
      else (True, ws_direct_listener_stop u))"

section \<open>Sessions and their owner\<close>

definition clear_icon :: "upload \<Rightarrow> upload" where
  "clear_icon u = u\<lparr>up_icon := None, up_icon_sid := []\<rparr>"

definition ws_direct_init_session ::
  "ws_env \<Rightarrow> string \<Rightarrow> nat \<Rightarrow> nat \<Rightarrow> upload \<Rightarrow> int \<times> string option \<times> upload" where
  "ws_direct_init_session env filename total_size sid_max u =
     (if filename = [] \<or> total_size = 0 \<or> total_size > WS_DIRECT_MAX_TOTAL then (-1, None, u)
      else
      case ws_live_create (Some filename) total_size 0 sid_max (we_slots env) (we_fresh env)
             (we_mem env) (up_live u) of
        (rc, sid, lv) \<Rightarrow>
          let u1 = u\<lparr>up_live := lv\<rparr>
          in (rc, sid, if rc = 0 then snd (ws_direct_ensure_listener env u1) else u1))"

text \<open>The caller holds the current owner's key and session id.\<close>

definition owner_ok :: "string \<Rightarrow> string \<Rightarrow> upload \<Rightarrow> bool" where
  "owner_ok owner sid u \<longleftrightarrow> up_owner u \<noteq> [] \<and> owner = up_owner u \<and> sid = up_owner_sid u \<and>
     ws_live_check_id (Some sid) (up_live u)"

definition ws_direct_owner_matches :: "string \<Rightarrow> string \<Rightarrow> upload \<Rightarrow> bool" where
  "ws_direct_owner_matches owner sid u = (owner \<noteq> [] \<and> sid \<noteq> [] \<and> owner_ok owner sid u)"

definition ws_direct_init_owned ::
  "ws_env \<Rightarrow> string \<Rightarrow> nat \<Rightarrow> string \<Rightarrow> string option \<Rightarrow> nat \<Rightarrow> upload \<Rightarrow> int \<times> string option \<times> upload" where
  "ws_direct_init_owned env filename total_size owner resume_sid sid_max u =
     (if length owner < 32 \<or> length owner > 64 \<or> filename = [] \<or> total_size = 0 \<or>
         total_size > WS_DIRECT_MAX_TOTAL \<or> sid_max < 64 then (-1, None, u)
      else if ws_live_session_active (up_live u) then
        (let same = (case resume_sid of
                       None \<Rightarrow> False
                     | Some rs \<Rightarrow> rs \<noteq> [] \<and> owner_ok owner rs u \<and>
                         filename = up_owner_filename u \<and> total_size = up_owner_total u)
         in if same then (0, Some (cstr_trunc sid_max (up_owner_sid u)), u) else (-2, None, u))
      else
      case ws_direct_init_session env filename total_size sid_max u of
        (rc, sid, u1) \<Rightarrow>
          if rc = 0
          then (rc, sid,
                (clear_icon u1)\<lparr> up_owner := cstr_trunc 65 owner,
                   up_owner_sid := cstr_trunc 64 (case sid of None \<Rightarrow> [] | Some x \<Rightarrow> x),
                   up_owner_filename := cstr_trunc 256 filename,
                   up_owner_total := total_size,
                   up_title := [], up_title_id := [], up_version := [], up_kind := [] \<rparr>)
          else (rc, sid, u1))"

definition ws_direct_set_metadata ::
  "string \<Rightarrow> string \<Rightarrow> string \<Rightarrow> string \<Rightarrow> string \<Rightarrow> string \<Rightarrow> upload \<Rightarrow> upload" where
  "ws_direct_set_metadata owner sid title title_id version kind u =
     (if owner_ok owner sid u
      then u\<lparr> up_title := cstr_trunc 256 title, up_title_id := cstr_trunc 64 title_id,
              up_version := cstr_trunc 32 version, up_kind := cstr_trunc 16 kind \<rparr>
      else u)"

definition ws_direct_get_metadata ::
  "string \<Rightarrow> upload \<Rightarrow> (string \<times> string \<times> string \<times> string) option" where
  "ws_direct_get_metadata sid u =
     (if up_owner u \<noteq> [] \<and> sid = up_owner_sid u \<and> ws_live_check_id (Some sid) (up_live u)
      then Some (up_title u, up_title_id u, up_version u, up_kind u) else None)"

definition png_signature :: "byte list" where
  "png_signature = [0x89, 0x50, 0x4E, 0x47, 0x0D, 0x0A, 0x1A, 0x0A]"

definition ws_direct_set_icon ::
  "bool \<Rightarrow> string \<Rightarrow> string \<Rightarrow> byte list \<Rightarrow> upload \<Rightarrow> int \<times> upload" where
  "ws_direct_set_icon mem_ok owner sid png u =
     (if length png < 8 \<or> length png > WS_DIRECT_ICON_MAX \<or> take 8 png \<noteq> png_signature then (-1, u)
      else if \<not> mem_ok then (-1, u)
      else if owner_ok owner sid u
      then (0, u\<lparr>up_icon := Some png, up_icon_sid := cstr_trunc 64 sid\<rparr>)
      else (-1, u))"

definition ws_direct_get_icon :: "bool \<Rightarrow> string \<Rightarrow> upload \<Rightarrow> byte list option" where
  "ws_direct_get_icon mem_ok sid u =
     (if ws_live_check_id (Some sid) (up_live u) \<and> sid = up_icon_sid u \<and> mem_ok
      then up_icon u else None)"

definition ws_direct_cancel_session :: "upload \<Rightarrow> upload" where
  "ws_direct_cancel_session u =
     (let u1 = (if up_uplink u \<ge> 0 then (emit (Shutdown (up_uplink u)) u)\<lparr>up_uplink := -1\<rparr> else u)
      in clear_icon (u1\<lparr>up_live := ws_live_destroy (ws_live_abort (up_live u1))\<rparr>))"

definition ws_direct_cancel_owned :: "ws_env \<Rightarrow> string \<Rightarrow> string \<Rightarrow> upload \<Rightarrow> int \<times> upload" where
  "ws_direct_cancel_owned env owner sid u =
     (if \<not> owner_ok owner sid u then (-1, u)
      else
      let u1 = emit InstallerCancel u
      in (0, if we_installer_cancel env \<noteq> 0 then ws_direct_cancel_session u1 else u1))"

definition ws_direct_finish_session :: "upload \<Rightarrow> string option \<times> upload" where
  "ws_direct_finish_session u =
     (case ws_live_finish (up_live u) of
        (r, lv) \<Rightarrow>
          if r \<noteq> 0 then (None, u\<lparr>up_live := lv\<rparr>)
          else (Some (''live:'' @ cstr_trunc 64
                  (takeWhile (\<lambda>c. c \<noteq> CHR 0x22) (st_session_id (ws_live_get_status lv)))),
                u\<lparr>up_live := lv\<rparr>))"

section \<open>Control messages\<close>

record conn =
  cn_pending :: int
  cn_auth :: bool
  cn_sid :: string
  cn_finish :: bool

text \<open>The session the \<open>init\<close> message resolves to: an error reply, or its id.\<close>

definition init_target :: "ws_env \<Rightarrow> string \<Rightarrow> string \<Rightarrow> nat \<Rightarrow> upload \<Rightarrow> (reply + string) \<times> upload" where
  "init_target env msg fn tot u =
     (if up_owner u \<noteq> [] then
        (case (wsj_string msg ''owner'' 65, wsj_string msg ''session_id'' 64) of
           (Some owner, Some rsid) \<Rightarrow>
             if \<not> ws_direct_owner_matches owner rsid u then (Inl (RError ''Another upload is active''), u)
             else if \<not> (fn = up_owner_filename u \<and> tot = up_owner_total u)
             then (Inl (RError ''File does not match session''), u)
             else (Inr (cstr_trunc 64 rsid), u)
         | _ \<Rightarrow> (Inl (RError ''Another upload is active''), u))
      else
      case ws_direct_init_session env fn tot 64 u of
        (rc, sid, u1) \<Rightarrow>
          if rc = -2 then (Inl (RError ''busy''), u1)
          else if rc \<noteq> 0 then (Inl (RError ''init failed''), u1)
          else (Inr (case sid of None \<Rightarrow> [] | Some x \<Rightarrow> x), u1))"

definition handle_init :: "ws_env \<Rightarrow> int \<Rightarrow> string \<Rightarrow> conn \<Rightarrow> upload \<Rightarrow> conn \<times> upload" where
  "handle_init env fd msg cn u =
     (case (wsj_string msg ''filename'' 256, wsj_u64 msg ''total'') of
        (Some fn, Some tot) \<Rightarrow>
          if tot = 0 then (cn, say fd (RError ''init needs filename+total'') u)
          else
          (case init_target env msg fn tot u of
             (Inl e, u1) \<Rightarrow> (cn, say fd e u1)
           | (Inr sid, u1) \<Rightarrow>
               if up_uplink u1 \<ge> 0 \<and> up_uplink u1 \<noteq> fd
               then (cn, say fd (RError ''Uploader already connected'') u1)
               else
               let u2 = u1\<lparr>up_uplink := fd\<rparr>
               in (cn\<lparr>cn_auth := True, cn_sid := cstr_trunc 64 sid\<rparr>,
                   say fd (RReady sid (ws_live_get_resume_offset (up_live u2))
                             (ws_live_demand_window (up_live u2))) u2))
      | _ \<Rightarrow> (cn, say fd (RError ''init needs filename+total'') u))"

definition conn_valid :: "conn \<Rightarrow> upload \<Rightarrow> bool" where
  "conn_valid cn u \<longleftrightarrow> cn_auth cn \<and> ws_live_check_id (Some (cn_sid cn)) (up_live u)"

definition seg_arg :: "string \<Rightarrow> nat" where
  "seg_arg msg =
     (case strstr msg (CHR 0x22 # ''seg'' @ [CHR 0x22, CHR '':'']) of
        None \<Rightarrow> 0
      | Some sp \<Rightarrow> fst (strtoul10 (drop 6 sp)))"

definition handle_text_msg :: "ws_env \<Rightarrow> int \<Rightarrow> string \<Rightarrow> conn \<Rightarrow> upload \<Rightarrow> conn \<times> upload" where
  "handle_text_msg env fd msg cn u =
     (case wsj_string msg ''op'' 32 of
        None \<Rightarrow> (cn, say fd (RError ''missing op'') u)
      | Some op \<Rightarrow>
        if op = ''init'' then handle_init env fd msg cn u
        else if op = ''sender_stats'' \<and> cn_auth cn then (cn, u)
        else if op = ''ping'' \<and> cn_auth cn then (cn, say fd RPong u)
        else if op = ''status'' then (cn, say fd (RStatus (ws_live_get_status (up_live u))) u)
        else if op = ''finish'' then
          (if \<not> conn_valid cn u then (cn, say fd (RError ''Unauthorized'') u)
           else
           (case ws_direct_finish_session u of
              (None, u1) \<Rightarrow> (cn, say fd (case ws_live_get_counters (up_live u1) of
                                         (r, t) \<Rightarrow> RIncomplete r t) u1)
            | (Some path, u1) \<Rightarrow> (cn\<lparr>cn_finish := True\<rparr>, say fd (RComplete path) u1)))
        else if op = ''cancel'' then
          (if \<not> conn_valid cn u then (cn, say fd (RError ''Unauthorized'') u)
           else (cn, say fd RCancelled (ws_direct_cancel_session u)))
        else if op = ''seg'' then
          (if \<not> conn_valid cn u then (cn, say fd (RError ''Unauthorized'') u)
           else (cn\<lparr>cn_pending := (if seg_arg msg \<le> 0x7fffffff then int (seg_arg msg) else -1)\<rparr>, u))
        else (cn, say fd (RError ''unknown op'') u))"

end
