(* ===== verification/WsConn.thy ===== *)
theory WsConn
  imports WsUpload
begin

text \<open>
  One upload connection of \<open>src/ws_upload.c\<close>, from the handshake to the
  teardown: \<open>has_header\<close>, the handshake reply, the message assembly of the
  frame loop of \<open>ws_conn_worker\<close> with its reassembly buffers (record
  \<open>wsbuf\<close>), and the clean-up.
\<close>

section \<open>Handshake\<close>

text \<open>The receive loop of the handshake over the chunks \<open>recv\<close> delivers; an empty
  chunk is the end of the stream.\<close>

fun hs_collect :: "byte list \<Rightarrow> byte list list \<Rightarrow> byte list" where
  "hs_collect raw [] = raw"
| "hs_collect raw (c # cs) =
     (if length raw \<ge> 8191 \<or> c = [] then raw
      else
      let raw' = raw @ c in
      if strstr (cstr_of_bytes raw') crlf2 \<noteq> None then raw' else hs_collect raw' cs)"

text \<open>The checks: the accept key for the reply and the bytes that already belong
  to the frame stream, or nothing for a rejected handshake.\<close>

definition ws_handshake :: "byte list \<Rightarrow> byte list \<Rightarrow> (string \<times> byte list) option" where
  "ws_handshake stack raw =
     (let hs = cstr_of_bytes raw;
          (meth, r1) = scan_word 15 hs;
          (path, r2) = scan_word 511 r1
      in case (strstr hs crlf2, has_header hs ''Upgrade'' 64, has_header hs ''Sec-WebSocket-Key'' 256) of
           (Some hend, Some up, Some key) \<Rightarrow>
             if meth = ''GET'' \<and> starts_with ''/ws/upload'' path \<and> strcasestr up ''websocket'' \<noteq> None
             then (case ws_direct_handshake_accept_key stack key 64 of
                     None \<Rightarrow> None
                   | Some acc \<Rightarrow> Some (acc, drop (length hs - length hend + 4) raw))
             else None
         | _ \<Rightarrow> None)"

section \<open>The frame loop\<close>

record wsbuf =
  wb_rbuf :: "byte list"
  wb_text :: "byte list"
  wb_bin :: "byte list"
  wb_cap :: nat
  wb_on :: bool
  wb_op :: byte

definition wsbuf_init :: "byte list \<Rightarrow> wsbuf" where
  "wsbuf_init keep = \<lparr> wb_rbuf = keep, wb_text = [], wb_bin = [], wb_cap = 0, wb_on = False, wb_op = 0 \<rparr>"

definition conn_init :: conn where
  "conn_init = \<lparr> cn_pending = -1, cn_auth = False, cn_sid = [], cn_finish = False \<rparr>"

text \<open>A whole binary message: it is applied only for an authorised connection of
  the live session, to an existing segment, with exactly the segment's length.
  The flag is \<open>False\<close> when the connection is to be closed; \<open>sent\<close> says whether
  the acknowledgement could be sent.\<close>

definition seg_count :: "nat \<Rightarrow> nat" where
  "seg_count tot = (if tot \<noteq> 0 then wrap64 (tot + SEG - 1) div SEG else 0)"

definition expected_len :: "nat \<Rightarrow> nat \<Rightarrow> nat" where
  "expected_len tot seg =
     (if seg < seg_count tot \<and> seg = seg_count tot - 1 then tot - seg * SEG else SEG)"

definition apply_binary :: "bool \<Rightarrow> int \<Rightarrow> byte list \<Rightarrow> conn \<Rightarrow> upload \<Rightarrow> bool \<times> upload" where
  "apply_binary sent fd data cn u =
     (let seg = nat (cn_pending cn mod 2 ^ 64);
          tot = ws_live_get_total (up_live u)
      in if \<not> conn_valid cn u \<or> \<not> ws_live_session_active (up_live u) \<or>
            seg \<ge> seg_count tot \<or> length data \<noteq> expected_len tot seg
         then (True, say fd (RError ''bad segment'') u)
         else
         (case ws_live_try_write (wrap64 (seg * SEG)) (Some data) (length data) (up_live u) of
            (wr, lv) \<Rightarrow>
              let u1 = u\<lparr>up_live := lv\<rparr> in
              if wr = 0 then (sent, say fd (RAck seg (length data)) u1)
              else if wr = -2 then (True, say fd (RBusy seg (length data)) u1)
              else (True, say fd (RError ''rejected'') u1)))"

text \<open>One decoded frame. The result says whether the connection goes on.\<close>

definition text_frame ::
  "ws_env \<Rightarrow> int \<Rightarrow> bool \<Rightarrow> bool \<Rightarrow> byte list \<Rightarrow> wsbuf \<Rightarrow> conn \<Rightarrow> upload \<Rightarrow> bool \<times> wsbuf \<times> conn \<times> upload" where
  "text_frame env fd is_start fin pay wb cn u =
     (if is_start \<and> wb_on wb then (False, wb, cn, u)
      else if \<not> is_start \<and> \<not> wb_on wb then (False, wb, cn, u)
      else
      let wb1 = (if is_start then wb\<lparr>wb_text := [], wb_op := 1, wb_on := True\<rparr> else wb)
      in if length (wb_text wb1) + length pay > WS_TEXT_MAX then (False, wb1, cn, u)
         else
         let wb2 = wb1\<lparr>wb_text := wb_text wb1 @ pay\<rparr>
         in if fin
            then (case handle_text_msg env fd (cstr_of_bytes (wb_text wb2)) cn u of
                    (cn1, u1) \<Rightarrow> (True, wb2\<lparr>wb_on := False, wb_text := []\<rparr>, cn1, u1))
            else (True, wb2, cn, u))"

definition binary_frame ::
  "bool \<Rightarrow> bool \<Rightarrow> int \<Rightarrow> bool \<Rightarrow> bool \<Rightarrow> byte list \<Rightarrow> wsbuf \<Rightarrow> conn \<Rightarrow> upload \<Rightarrow> bool \<times> wsbuf \<times> conn \<times> upload" where
  "binary_frame mem_ok sent fd is_start fin pay wb cn u =
     (if \<not> is_start \<and> \<not> wb_on wb then (False, wb, cn, u)
      else
      let wb1 = (if is_start then wb\<lparr>wb_op := 2, wb_on := True, wb_bin := []\<rparr> else wb)
      in if is_start \<and> cn_pending cn < 0 then (False, wb1, cn, u)
         else if length (wb_bin wb1) + length pay > WS_BIN_MSG_MAX then (False, wb1, cn, u)
         else
         let need = length (wb_bin wb1) + length pay in
         if need > wb_cap wb1 \<and> \<not> mem_ok then (False, wb1, cn, u)
         else
         let wb2 = wb1\<lparr>wb_cap := (if need > wb_cap wb1 then (if need < 65536 then 65536 else need)
                                  else wb_cap wb1),
                       wb_bin := wb_bin wb1 @ pay\<rparr>
         in if \<not> fin then (True, wb2, cn, u)
            else
            (case apply_binary sent fd (wb_bin wb2) cn u of
               (go, u1) \<Rightarrow>
                 if go
                 then (True, wb2\<lparr>wb_on := False, wb_bin := []\<rparr>, cn\<lparr>cn_pending := -1\<rparr>, u1)
                 else (False, wb2, cn, u1)))"

definition send_control :: "int \<Rightarrow> byte \<Rightarrow> byte list \<Rightarrow> nat \<Rightarrow> upload \<Rightarrow> upload" where
  "send_control fd op pay cap u =
     (case ws_direct_frame_encode_server op (if length pay > 125 then [] else pay) cap of
        None \<Rightarrow> u
      | Some fr \<Rightarrow> emit (SendFrame fd fr) u)"

definition frame_step ::
  "ws_env \<Rightarrow> bool \<Rightarrow> bool \<Rightarrow> int \<Rightarrow> byte \<Rightarrow> bool \<Rightarrow> byte list \<Rightarrow> wsbuf \<Rightarrow> conn \<Rightarrow> upload
     \<Rightarrow> bool \<times> wsbuf \<times> conn \<times> upload" where
  "frame_step env mem_ok sent fd opcode fin pay wb cn u =
     (if opcode = 0x8 then (False, wb, cn, send_control fd 0x8 pay 16 u)
      else if opcode = 0x9 then (True, wb, cn, send_control fd 0xA pay 256 u)
      else if opcode = 0xA then (True, wb, cn, u)
      else if opcode = 0x1 \<or> (opcode = 0x0 \<and> wb_op wb = 0x1)
      then text_frame env fd (opcode = 0x1) fin pay wb cn u
      else if opcode = 0x2 \<or> (opcode = 0x0 \<and> wb_op wb = 0x2)
      then binary_frame mem_ok sent fd (opcode = 0x2) fin pay wb cn u
      else (False, wb, cn, u))"

definition rcap :: nat where
  "rcap = WS_BIN_MSG_MAX + 1024"

text \<open>The drain loop: handle every complete frame in the buffer.\<close>

function drain ::
  "ws_env \<Rightarrow> bool \<Rightarrow> bool \<Rightarrow> int \<Rightarrow> wsbuf \<Rightarrow> conn \<Rightarrow> upload \<Rightarrow> bool \<times> wsbuf \<times> conn \<times> upload" where
  "drain env mem_ok sent fd wb cn u =
     (if wb_rbuf wb = [] then (True, wb, cn, u)
      else
      case ws_direct_frame_decode (wb_rbuf wb) of
        FrameMore \<Rightarrow> (length (wb_rbuf wb) < rcap, wb, cn, u)
      | FrameBad \<Rightarrow> (False, wb, cn, u)
      | Frame opcode fin poff plen used buf \<Rightarrow>
          (case frame_step env mem_ok sent fd opcode fin (bslice poff plen buf) wb cn u of
             (go, wb1, cn1, u1) \<Rightarrow>
               if go then drain env mem_ok sent fd (wb1\<lparr>wb_rbuf := drop used buf\<rparr>) cn1 u1
               else (False, wb1, cn1, u1)))"
  by pat_completeness auto
termination
proof (relation "measure (\<lambda>(env, mem_ok, sent, fd, wb, cn, u). length (wb_rbuf wb))", goal_cases)
  case 1
  show ?case by simp
next
  case (2 env mem_ok sent fd wb cn u opcode fin poff plen used buf)
  then show ?case using decode_Frame_bounds [of "wb_rbuf wb"] by auto
qed

declare drain.simps [simp del]

text \<open>One round of the worker's outer loop after a receive: \<open>recv\<close> delivered bytes,
  was interrupted, timed out, failed or found the stream closed.\<close>

datatype rx = Rx "byte list" | RxIntr | RxTimeout | RxError

definition recv_step :: "rx \<Rightarrow> wsbuf \<Rightarrow> upload \<Rightarrow> bool \<times> wsbuf" where
  "recv_step r wb u =
     (case r of
        RxIntr \<Rightarrow> (True, wb)
      | RxTimeout \<Rightarrow> (ws_live_waiter_count (up_live u) > 0, wb)
      | RxError \<Rightarrow> (False, wb)
      | Rx bs \<Rightarrow> if bs = [] then (False, wb) else (True, wb\<lparr>wb_rbuf := wb_rbuf wb @ bs\<rparr>))"

definition worker_round ::
  "ws_env \<Rightarrow> bool \<Rightarrow> bool \<Rightarrow> int \<Rightarrow> rx \<Rightarrow> wsbuf \<Rightarrow> conn \<Rightarrow> upload \<Rightarrow> bool \<times> wsbuf \<times> conn \<times> upload" where
  "worker_round env mem_ok sent fd r wb cn u =
     (case drain env mem_ok sent fd wb cn u of
        (go, wb1, cn1, u1) \<Rightarrow>
          if \<not> go then (False, wb1, cn1, u1)
          else if length (wb_rbuf wb1) \<ge> rcap then (False, wb1, cn1, u1)
          else (case recv_step r wb1 u1 of (go2, wb2) \<Rightarrow> (go2, wb2, cn1, u1)))"

text \<open>\<open>conn_done\<close>.\<close>

definition conn_done :: "ws_env \<Rightarrow> int \<Rightarrow> conn \<Rightarrow> upload \<Rightarrow> upload" where
  "conn_done env fd cn u =
     (let was_uplink = (up_uplink u = fd);
          u1 = (if was_uplink then u\<lparr>up_uplink := -1\<rparr> else u);
          u2 = (if was_uplink \<and> cn_auth cn \<and> \<not> cn_finish cn
                then (let u' = emit InstallerCancel u1 in
                      if we_installer_cancel env \<noteq> 0 \<and> ws_live_session_active (up_live u')
                      then ws_direct_cancel_session u' else u')
                else u1)
      in emit (CloseFd fd) (live_remove fd u2))"

text \<open>The seek sink: requests go to the owning socket.\<close>

definition uplink_seek :: "nat \<Rightarrow> upload \<Rightarrow> upload" where
  "uplink_seek seg u = (if up_uplink u \<ge> 0 then say (up_uplink u) (RSeek seg) u else u)"

end
