(* ===== verification/WsSystem.thy ===== *)
theory WsSystem
  imports WsConn
begin

text \<open>
  The upload service with any number of connections: the byte stream of a
  connection is handled the same however it is split into receives, only a
  connection that holds the live session's id can store bytes, and at any time
  at most one connection does.
\<close>

section \<open>A connection and its byte stream\<close>

lemma frame_step_rbuf:
  "frame_step env mem_ok sent fd op fin pay (wb\<lparr>wb_rbuf := x\<rparr>) cn u =
     (case frame_step env mem_ok sent fd op fin pay wb cn u of
        (go, wb1, cn1, u1) \<Rightarrow> (go, wb1\<lparr>wb_rbuf := x\<rparr>, cn1, u1))"
  by (simp add: frame_step_def text_frame_def binary_frame_def Let_def split: prod.split)

lemma drain_split:
  "drain env mem_ok sent fd wb cn u = (True, wb1, cn1, u1) \<Longrightarrow>
     drain env mem_ok sent fd (wb\<lparr>wb_rbuf := wb_rbuf wb @ b\<rparr>) cn u =
     drain env mem_ok sent fd (wb1\<lparr>wb_rbuf := wb_rbuf wb1 @ b\<rparr>) cn1 u1"
proof (induction env mem_ok sent fd wb cn u rule: drain.induct)
  case (1 env mem_ok sent fd wb cn u)
  show ?case
  proof (cases "wb_rbuf wb = []")
    case True
    then show ?thesis using 1(2) by (simp add: drain.simps [of env mem_ok sent fd wb])
  next
    case ne: False
    show ?thesis
    proof (cases "ws_direct_frame_decode (wb_rbuf wb)")
      case FrameMore
      then show ?thesis using 1(2) ne by (simp add: drain.simps [of env mem_ok sent fd wb])
    next
      case FrameBad
      then show ?thesis using 1(2) ne by (simp add: drain.simps [of env mem_ok sent fd wb])
    next
      case (Frame op fin off n t buf)
      obtain go wb2 cn2 u2 where st:
        "frame_step env mem_ok sent fd op fin (bslice off n buf) wb cn u = (go, wb2, cn2, u2)"
        by (metis prod_cases4)
      have go: "go" and d: "drain env mem_ok sent fd (wb2\<lparr>wb_rbuf := drop t buf\<rparr>) cn2 u2 = (True, wb1, cn1, u1)"
        using 1(2) ne Frame st by (simp_all add: drain.simps [of env mem_ok sent fd wb] split: if_splits)
      note bd = decode_Frame_bounds [OF Frame]
      have dec: "ws_direct_frame_decode (wb_rbuf wb @ b) = Frame op fin off n t (buf @ b)"
        by (rule decode_append(2) [OF Frame])
      have pay: "bslice off n (buf @ b) = bslice off n buf" "drop t (buf @ b) = drop t buf @ b"
        using bd by (simp_all add: bslice_def)
      have "drain env mem_ok sent fd (wb\<lparr>wb_rbuf := wb_rbuf wb @ b\<rparr>) cn u =
          drain env mem_ok sent fd (wb2\<lparr>wb_rbuf := drop t buf @ b\<rparr>) cn2 u2"
        using ne dec pay st go
        by (subst drain.simps) (simp add: frame_step_rbuf)
      also have "\<dots> = drain env mem_ok sent fd (wb1\<lparr>wb_rbuf := wb_rbuf wb1 @ b\<rparr>) cn1 u1"
        using 1(1) [OF ne Frame] st go d by simp
      finally show ?thesis .
    qed
  qed
qed

section \<open>All connections together\<close>

record sys =
  sy_up :: upload
  sy_conn :: "int \<Rightarrow> (wsbuf \<times> conn) option"

text \<open>Steps: a connection is accepted, receives, handles one frame or ends; the
  HTTP interface starts, cancels or describes a session; other parts of the
  program work on the live session. A session id is fresh when no connection
  holds it (\<open>ws_live_create\<close> draws it from the clock, the process id, a random
  number and a counter).\<close>

definition fresh_id :: "ws_env \<Rightarrow> sys \<Rightarrow> bool" where
  "fresh_id env s \<longleftrightarrow> we_fresh env \<noteq> [] \<and> length (we_fresh env) < 64 \<and>
     (\<forall>fd wb cn. sy_conn s fd = Some (wb, cn) \<longrightarrow> cn_sid cn \<noteq> we_fresh env)"

fun other_op :: "live_op \<Rightarrow> bool" where
  "other_op (LCreate fn sz ring mx env fresh ok) = False"
| "other_op (LTryWrite off data) = False"
| "other_op p = True"

inductive sys_step :: "sys \<Rightarrow> sys \<Rightarrow> bool" where
  Accept: "sy_conn s fd = None \<Longrightarrow> 0 \<le> fd \<Longrightarrow> ws_handshake stack raw = Some (acc, keep) \<Longrightarrow>
    sys_step s (s\<lparr>sy_conn := (sy_conn s)(fd := Some (wsbuf_init keep, conn_init)),
                  sy_up := live_add fd (sy_up s)\<rparr>)"
| Receive: "sy_conn s fd = Some (wb, cn) \<Longrightarrow> recv_step r wb (sy_up s) = (True, wb') \<Longrightarrow>
    sys_step s (s\<lparr>sy_conn := (sy_conn s)(fd := Some (wb', cn))\<rparr>)"
| Handle: "sy_conn s fd = Some (wb, cn) \<Longrightarrow> fresh_id env s \<Longrightarrow>
    ws_direct_frame_decode (wb_rbuf wb) = Frame op fin off n t buf \<Longrightarrow>
    frame_step env mem_ok sent fd op fin (bslice off n buf) wb cn (sy_up s) = (go, wb', cn', u') \<Longrightarrow>
    sys_step s (s\<lparr>sy_conn := (sy_conn s)(fd := Some (wb'\<lparr>wb_rbuf := drop t buf\<rparr>, cn')), sy_up := u'\<rparr>)"
| Done: "sy_conn s fd = Some (wb, cn) \<Longrightarrow>
    sys_step s (s\<lparr>sy_conn := (sy_conn s)(fd := None), sy_up := conn_done env fd cn (sy_up s)\<rparr>)"
| InitOwned: "fresh_id env s \<Longrightarrow>
    ws_direct_init_owned env fn tot owner rsid 64 (sy_up s) = (rc, sid, u') \<Longrightarrow>
    sys_step s (s\<lparr>sy_up := u'\<rparr>)"
| CancelOwned: "sys_step s (s\<lparr>sy_up := snd (ws_direct_cancel_owned env owner sid (sy_up s))\<rparr>)"
| Cancel: "sys_step s (s\<lparr>sy_up := ws_direct_cancel_session (sy_up s)\<rparr>)"
| Metadata: "sys_step s (s\<lparr>sy_up := ws_direct_set_metadata owner sid a b c d (sy_up s)\<rparr>)"
| Icon: "sys_step s (s\<lparr>sy_up := snd (ws_direct_set_icon m owner sid png (sy_up s))\<rparr>)"
| Listener: "sys_step s (s\<lparr>sy_up := snd (ws_direct_listener_stop_if_idle (sy_up s))\<rparr>)"
| Live: "other_op p \<Longrightarrow>
    sys_step s (s\<lparr>sy_up := (sy_up s)\<lparr>up_live := live_step p (up_live (sy_up s))\<rparr>\<rparr>)"
| Seek: "sys_step s (s\<lparr>sy_up := uplink_seek seg (sy_up s)\<rparr>)"

definition sys_init :: sys where
  "sys_init = \<lparr> sy_up = upload_init, sy_conn = (\<lambda>_. None) \<rparr>"

inductive reachable :: "sys \<Rightarrow> bool" where
  start: "reachable sys_init"
| onward: "reachable s \<Longrightarrow> sys_step s s' \<Longrightarrow> reachable s'"

section \<open>One writer at a time\<close>

text \<open>The id of the live session, as the writers check it.\<close>

definition id_of :: "live \<Rightarrow> string option" where
  "id_of lv = (if lv_active lv then Some (lv_session_id lv) else None)"

lemma conn_valid_iff:
  "conn_valid cn u \<longleftrightarrow> cn_auth cn \<and> cn_sid cn \<noteq> [] \<and> id_of (up_live u) = Some (cn_sid cn)"
  by (auto simp: conn_valid_def ws_live_check_id_def id_of_def)

definition one_writer :: "sys \<Rightarrow> bool" where
  "one_writer s \<longleftrightarrow> live_inv (up_live (sy_up s)) \<and>
     (\<forall>fd wb cn. sy_conn s fd = Some (wb, cn) \<longrightarrow> 0 \<le> fd \<and>
        (conn_valid cn (sy_up s) \<longrightarrow> up_uplink (sy_up s) = fd))"

lemma one_writerD:
  "one_writer s \<Longrightarrow> sy_conn s fd = Some (wb, cn) \<Longrightarrow> 0 \<le> fd"
  "one_writer s \<Longrightarrow> sy_conn s fd = Some (wb, cn) \<Longrightarrow> conn_valid cn (sy_up s) \<Longrightarrow> up_uplink (sy_up s) = fd"
  unfolding one_writer_def by blast+

text \<open>What one operation may do to the session and the uplink, as seen by the
  connections it does not belong to.\<close>

definition calm :: "upload \<Rightarrow> upload \<Rightarrow> bool" where
  "calm u u' \<longleftrightarrow> live_inv (up_live u') \<and>
     (id_of (up_live u') = None \<or> (id_of (up_live u') = id_of (up_live u) \<and> up_uplink u' = up_uplink u))"

lemma calm_refl: "live_inv (up_live u) \<Longrightarrow> calm u u"
  by (simp add: calm_def)

lemma calm_trans: "calm u v \<Longrightarrow> calm v w \<Longrightarrow> calm u w"
  by (auto simp: calm_def)

lemma calm_valid: "calm u u' \<Longrightarrow> conn_valid cn u' \<Longrightarrow> conn_valid cn u \<and> up_uplink u' = up_uplink u"
  by (auto simp: calm_def conn_valid_iff)

lemma calm_same: "live_inv (up_live u) \<Longrightarrow> up_live u' = up_live u \<Longrightarrow> up_uplink u' = up_uplink u \<Longrightarrow> calm u u'"
  by (simp add: calm_def)

lemma emit_same [simp]: "up_live (emit e u) = up_live u" "up_uplink (emit e u) = up_uplink u"
  "up_owner (emit e u) = up_owner u"
  by (simp_all add: emit_def)

lemma calm_emit: "calm u u' \<Longrightarrow> calm u (emit e u')"
  by (simp add: calm_def)

lemma side_id_of: "other_op p \<Longrightarrow> id_of (live_step p lv) = None \<or> id_of (live_step p lv) = id_of lv"
  by (cases p)
     (auto simp: id_of_def ws_live_finish_def ws_live_abort_def ws_live_destroy_def ws_live_attach_def
       ws_live_detach_def free_locked_def ws_live_set_timeout_sec_def ws_live_set_slots_def
       ws_live_set_seek_fn_def Let_def)

lemma calm_live_step:
  assumes "other_op p" and "live_inv (up_live u)"
  shows "calm u (u\<lparr>up_live := live_step p (up_live u)\<rparr>)"
proof -
  have "live_ok p" using assms(1) by (cases p) simp_all
  then have "live_inv (live_step p (up_live u))" using assms(2) by (rule live_step_inv)
  then show ?thesis using side_id_of [OF assms(1), of "up_live u"] by (auto simp: calm_def)
qed

lemma cancel_session_calm:
  assumes "live_inv (up_live u)"
  shows "calm u (ws_direct_cancel_session u)"
proof -
  have "id_of (ws_live_destroy (ws_live_abort (up_live u))) = None"
    by (simp add: id_of_def ws_live_destroy_def ws_live_abort_def Let_def free_locked_def)
  then show ?thesis
    using destroy_inv [OF abort_inv [OF assms]]
    by (simp add: calm_def ws_direct_cancel_session_def clear_icon_def Let_def)
qed

text \<open>Creating a session: the same session, or a new one under the fresh id.\<close>

lemma create_id_of:
  "ws_live_create fn sz ring mx env fresh ok lv = (rc, out, lv') \<Longrightarrow> length fresh < 64 \<Longrightarrow>
     id_of lv' = id_of lv \<or> id_of lv' = Some fresh"
  by (auto simp: ws_live_create_def id_of_def Let_def cstr_trunc_id split: option.splits if_splits)

lemma listener_same:
  "up_uplink (snd (ws_direct_ensure_listener env u)) = up_uplink u"
  "up_live (snd (ws_direct_ensure_listener env u)) = up_live u \<or>
   up_live (snd (ws_direct_ensure_listener env u)) = ws_live_set_seek_fn True (up_live u)"
  by (auto simp: ws_direct_ensure_listener_def ws_direct_listener_start_def emit_def Let_def
      split: prod.splits if_splits option.splits)

lemma set_seek_id_of: "id_of (ws_live_set_seek_fn b lv) = id_of lv"
  by (simp add: id_of_def ws_live_set_seek_fn_def)

lemma init_session_spec:
  assumes inv: "live_inv (up_live u)" and fresh: "length (we_fresh env) < 64"
    and i: "ws_direct_init_session env fn tot mx u = (rc, sid, u')"
  shows "live_inv (up_live u') \<and> up_uplink u' = up_uplink u \<and>
     (id_of (up_live u') = id_of (up_live u) \<or> id_of (up_live u') = Some (we_fresh env))"
proof (cases "fn = [] \<or> tot = 0 \<or> tot > WS_DIRECT_MAX_TOTAL")
  case True
  then show ?thesis using i inv by (auto simp: ws_direct_init_session_def)
next
  case False
  obtain r out lv where c: "ws_live_create (Some fn) tot 0 mx (we_slots env) (we_fresh env)
      (we_mem env) (up_live u) = (r, out, lv)" by (metis prod_cases3)
  have "tot + SEG \<le> 2 ^ 64" using False by (simp add: WS_DIRECT_MAX_TOTAL_def SEG_def)
  then have linv: "live_inv lv" using create_inv [OF inv _ c] by simp
  let ?u1 = "u\<lparr>up_live := lv\<rparr>"
  have u': "u' = (if r = 0 then snd (ws_direct_ensure_listener env ?u1) else ?u1)"
    using i False c by (auto simp: ws_direct_init_session_def)
  have "live_inv (up_live u') \<and> up_uplink u' = up_uplink u \<and> id_of (up_live u') = id_of lv"
    using listener_same [of env ?u1] linv config_inv(3) [OF linv] by (auto simp: u' set_seek_id_of)
  then show ?thesis using create_id_of [OF c fresh] by simp
qed

lemma cstr_trunc_idem: "cstr_trunc n (cstr_trunc n s) = cstr_trunc n s"
  by (simp add: cstr_trunc_def)

definition frame_effect :: "int \<Rightarrow> string \<Rightarrow> conn \<Rightarrow> conn \<Rightarrow> upload \<Rightarrow> upload \<Rightarrow> bool" where
  "frame_effect fd fresh cn cn' u u' \<longleftrightarrow> live_inv (up_live u') \<and>
     (id_of (up_live u') = None \<or> id_of (up_live u') = id_of (up_live u) \<or> id_of (up_live u') = Some fresh) \<and>
     (id_of (up_live u') = None \<or>
      (up_uplink u' = up_uplink u \<and> cn_auth cn' = cn_auth cn \<and> cn_sid cn' = cn_sid cn) \<or>
      (up_uplink u' = fd \<and> (0 \<le> up_uplink u \<longrightarrow> up_uplink u = fd)))"

lemma calm_effect:
  "calm u u' \<Longrightarrow> cn_auth cn' = cn_auth cn \<Longrightarrow> cn_sid cn' = cn_sid cn \<Longrightarrow> frame_effect fd fresh cn cn' u u'"
  by (auto simp: calm_def frame_effect_def)

lemma init_target_spec:
  assumes inv: "live_inv (up_live u)" and fresh: "length (we_fresh env) < 64"
    and i: "init_target env msg fn tot u = (r, u')"
  shows "live_inv (up_live u') \<and> up_uplink u' = up_uplink u \<and>
     (id_of (up_live u') = id_of (up_live u) \<or> id_of (up_live u') = Some (we_fresh env))"
proof (cases "up_owner u = []")
  case True
  obtain rc sid u1 where s: "ws_direct_init_session env fn tot 64 u = (rc, sid, u1)" by (metis prod_cases3)
  then have "u' = u1" using i True by (auto simp: init_target_def split: if_splits)
  then show ?thesis using init_session_spec [OF inv fresh s] by simp
next
  case False
  then have "u' = u" using i by (auto simp: init_target_def split: option.splits if_splits)
  then show ?thesis using inv by simp
qed

lemma handle_init_effect:
  assumes inv: "live_inv (up_live u)" and fresh: "length (we_fresh env) < 64"
    and h: "handle_init env fd msg cn u = (cn', u')"
  shows "frame_effect fd (we_fresh env) cn cn' u u'"
proof (cases "\<exists>fn tot. wsj_string msg ''filename'' 256 = Some fn \<and> wsj_u64 msg ''total'' = Some tot \<and> tot \<noteq> 0")
  case False
  then have "cn' = cn \<and> (\<exists>e. u' = emit e u)"
    using h by (auto simp: handle_init_def split: option.splits if_splits)
  then show ?thesis using inv by (auto intro: calm_effect calm_emit calm_refl)
next
  case True
  then obtain fn tot where f: "wsj_string msg ''filename'' 256 = Some fn" "wsj_u64 msg ''total'' = Some tot" "tot \<noteq> 0"
    by blast
  obtain r u1 where t: "init_target env msg fn tot u = (r, u1)" by fastforce
  note T = init_target_spec [OF inv fresh t]
  show ?thesis
  proof (cases r)
    case (Inl e)
    then have "cn' = cn" "u' = emit (Send fd e) u1" using h f t by (auto simp: handle_init_def)
    then show ?thesis using T by (simp add: frame_effect_def)
  next
    case (Inr sid)
    show ?thesis
    proof (cases "up_uplink u1 \<ge> 0 \<and> up_uplink u1 \<noteq> fd")
      case True
      then have "cn' = cn" "u' = emit (Send fd (RError ''Uploader already connected'')) u1"
        using h f t Inr by (auto simp: handle_init_def)
      then show ?thesis using T by (simp add: frame_effect_def)
    next
      case False
      then have "up_uplink u' = fd" "up_live u' = up_live u1"
        using h f t Inr by (auto simp: handle_init_def Let_def)
      then show ?thesis using T False by (auto simp: frame_effect_def)
    qed
  qed
qed

lemma finish_session_calm:
  assumes "live_inv (up_live u)" and "ws_direct_finish_session u = (p, u')"
  shows "calm u u'"
proof -
  obtain r lv where f: "ws_live_finish (up_live u) = (r, lv)" by fastforce
  then have "u' = u\<lparr>up_live := lv\<rparr>" using assms(2) by (auto simp: ws_direct_finish_session_def split: if_splits)
  moreover have "lv = live_step LFinish (up_live u)" using f by simp
  ultimately show ?thesis using calm_live_step [of LFinish u] assms(1) by simp
qed

lemma handle_text_effect:
  assumes inv: "live_inv (up_live u)" and fresh: "length (we_fresh env) < 64"
    and h: "handle_text_msg env fd msg cn u = (cn', u')"
  shows "frame_effect fd (we_fresh env) cn cn' u u'"
proof (cases "\<exists>op. wsj_string msg ''op'' 32 = Some op \<and> op = ''init''")
  case True
  then show ?thesis using h handle_init_effect [OF inv fresh] by (auto simp: handle_text_msg_def)
next
  case False
  obtain p v where f: "ws_direct_finish_session u = (p, v)" by fastforce
  have "calm u u' \<and> cn_auth cn' = cn_auth cn \<and> cn_sid cn' = cn_sid cn"
    using h False f inv cancel_session_calm [OF inv] finish_session_calm [OF inv f]
    unfolding handle_text_msg_def
    by (auto intro: calm_emit calm_refl split: option.splits if_splits)
  then show ?thesis by (intro calm_effect) simp_all
qed

lemma expected_len_less:
  assumes "tot < 2 ^ 64"
  shows "expected_len tot seg < 2 ^ 64"
proof -
  have "expected_len tot seg \<le> max tot SEG" by (auto simp: expected_len_def)
  also have "\<dots> < 2 ^ 64" using assms by (simp add: SEG_def)
  finally show ?thesis .
qed

lemma get_total_less: "live_inv lv \<Longrightarrow> ws_live_get_total lv < 2 ^ 64"
proof -
  assume inv: "live_inv lv"
  show ?thesis
  proof (cases "lv_active lv")
    case True
    then have "lv_total lv + SEG \<le> 2 ^ 64"
      using live_inv_active [OF inv] by (simp add: live_shape_def)
    then have "lv_total lv < 2 ^ 64" using SEG_pos by linarith
    then show ?thesis using True unfolding ws_live_get_total_def by simp
  qed (simp add: ws_live_get_total_def)
qed

lemma try_write_id_of:
  assumes "live_inv lv" "ws_live_try_write off (Some d) (length d) lv = (r, lv')"
    "off < 2 ^ 64" "length d < 2 ^ 64"
  shows "id_of lv' = id_of lv" and "live_inv lv'"
  using try_write_inv [OF assms] try_write_keeps [OF assms] by (simp_all add: id_of_def)

lemma apply_binary_calm:
  assumes inv: "live_inv (up_live u)" and a: "apply_binary sent fd data cn u = (go, u')"
  shows "calm u u'"
proof -
  let ?seg = "nat (cn_pending cn mod 2 ^ 64)"
  obtain wr lv where w: "ws_live_try_write (wrap64 (?seg * SEG)) (Some data) (length data) (up_live u) = (wr, lv)"
    by fastforce
  show ?thesis
  proof (cases "length data = expected_len (ws_live_get_total (up_live u)) ?seg")
    case False
    then have "\<exists>e. u' = emit e u" using a by (auto simp: apply_binary_def Let_def)
    then show ?thesis using calm_refl [OF inv] calm_emit by blast
  next
    case True
    then have len: "length data < 2 ^ 64" using expected_len_less get_total_less [OF inv] by simp
    note T = try_write_id_of [OF inv w wrap64_less len]
    then have "calm u (u\<lparr>up_live := lv\<rparr>)" by (simp add: calm_def)
    moreover have "(\<exists>e. u' = emit e u) \<or> (\<exists>e. u' = emit e (u\<lparr>up_live := lv\<rparr>))"
      using a w by (auto simp: apply_binary_def Let_def split: if_splits)
    ultimately show ?thesis using calm_refl [OF inv] calm_emit by blast
  qed
qed

lemma frame_step_effect:
  assumes inv: "live_inv (up_live u)" and fresh: "length (we_fresh env) < 64"
    and f: "frame_step env mem_ok sent fd op fin pay wb cn u = (go, wb', cn', u')"
  shows "frame_effect fd (we_fresh env) cn cn' u u'"
proof -
  have textual: "frame_effect fd (we_fresh env) cn cn' u u'"
    if "text_frame env fd is_start fin pay wb cn u = (go, wb', cn', u')" for is_start
  proof (cases "cn' = cn \<and> u' = u")
    case True
    then show ?thesis using inv by (simp add: frame_effect_def)
  next
    case False
    with that obtain msg where "handle_text_msg env fd msg cn u = (cn', u')"
      by (auto simp: text_frame_def Let_def split: if_splits prod.splits)
    then show ?thesis by (rule handle_text_effect [OF inv fresh])
  qed
  have binary: "frame_effect fd (we_fresh env) cn cn' u u'"
    if b: "binary_frame mem_ok sent fd is_start fin pay wb cn u = (go, wb', cn', u')" for is_start
  proof (cases "u' = u \<and> cn' = cn")
    case True
    then show ?thesis using inv by (simp add: frame_effect_def)
  next
    case False
    with b obtain d go' where "apply_binary sent fd d cn u = (go', u')"
      by (auto simp: binary_frame_def Let_def split: if_splits prod.splits)
    moreover have "cn_auth cn' = cn_auth cn \<and> cn_sid cn' = cn_sid cn"
      using b by (auto simp: binary_frame_def Let_def split: if_splits prod.splits)
    ultimately show ?thesis using apply_binary_calm [OF inv] by (intro calm_effect) auto
  qed
  have control: "cn' = cn \<Longrightarrow> u' = u \<or> (\<exists>e. u' = emit e u) \<Longrightarrow> frame_effect fd (we_fresh env) cn cn' u u'"
    using inv by (auto simp: frame_effect_def)
  have send: "send_control fd o' pay cap u = u \<or> (\<exists>e. send_control fd o' pay cap u = emit e u)" for o' cap
    by (simp add: send_control_def split: option.splits) blast
  show ?thesis
  proof (cases "op = 1 \<or> (op = 0 \<and> wb_op wb = 1)")
    case True
    then show ?thesis using f textual by (auto simp: frame_step_def)
  next
    case n1: False
    show ?thesis
    proof (cases "op = 2 \<or> (op = 0 \<and> wb_op wb = 2)")
      case True
      then show ?thesis using f n1 binary by (auto simp: frame_step_def)
    next
      case False
      have "cn' = cn \<and> (u' = u \<or> u' = send_control fd 0x8 pay 16 u \<or> u' = send_control fd 0xA pay 256 u)"
        using f n1 False by (simp add: frame_step_def split: if_splits)
      then show ?thesis using control send by metis
    qed
  qed
qed

lemma conn_done_live:
  assumes "live_inv (up_live u)"
  shows "live_inv (up_live (conn_done env fd cn u)) \<and>
    (id_of (up_live (conn_done env fd cn u)) = None \<or>
     (id_of (up_live (conn_done env fd cn u)) = id_of (up_live u) \<and>
      up_uplink (conn_done env fd cn u) = (if up_uplink u = fd then -1 else up_uplink u)))"
proof -
  let ?u1 = "if up_uplink u = fd then u\<lparr>up_uplink := -1\<rparr> else u"
  let ?e = "emit InstallerCancel ?u1"
  let ?u2 = "if up_uplink u = fd \<and> cn_auth cn \<and> \<not> cn_finish cn
    then if we_installer_cancel env \<noteq> 0 \<and> ws_live_session_active (up_live ?e)
         then ws_direct_cancel_session ?e else ?e
    else ?u1"
  have i1: "live_inv (up_live ?u1)" using assms by simp
  then have ce: "calm ?u1 ?e" by (intro calm_emit calm_refl)
  have i2: "live_inv (up_live ?e)" using i1 by simp
  have "calm ?u1 ?u2"
    using calm_refl [OF i1] ce calm_trans [OF ce cancel_session_calm [OF i2]] by (simp only: if_split) blast
  then have "calm ?u1 (live_remove fd ?u2)" by (simp only: calm_def live_remove_def) simp
  then have "calm ?u1 (conn_done env fd cn u)"
    by (simp only: conn_done_def Let_def) (rule calm_emit)
  then show ?thesis by (auto simp: calm_def split: if_splits)
qed

section \<open>Preservation\<close>

lemma one_writer_calm:
  "one_writer s \<Longrightarrow> calm (sy_up s) u' \<Longrightarrow> one_writer (s\<lparr>sy_up := u'\<rparr>)"
  using calm_valid [of "sy_up s" u'] by (auto simp: one_writer_def calm_def)

lemma not_fresh: "fresh_id env s \<Longrightarrow> sy_conn s fd = Some (wb, cn) \<Longrightarrow> cn_sid cn \<noteq> we_fresh env"
  unfolding fresh_id_def by blast

lemma handle_one_writer:
  assumes W: "one_writer s" and c: "sy_conn s fd = Some (wb, cn)" and fr: "fresh_id env s"
    and e: "frame_effect fd (we_fresh env) cn cn' (sy_up s) u'"
    and s': "sy_conn s' = (sy_conn s)(fd := Some (wb', cn'))" "sy_up s' = u'"
  shows "one_writer s'"
  unfolding one_writer_def s'
proof (intro conjI allI impI)
  show "live_inv (up_live u')" using e by (simp add: frame_effect_def)
next
  fix fd2 wb2 cn2
  assume c2: "((sy_conn s)(fd := Some (wb', cn'))) fd2 = Some (wb2, cn2)"
  show "0 \<le> fd2"
    using c2 one_writerD(1) [OF W c] one_writerD(1) [OF W] by (auto split: if_splits)
  assume v: "conn_valid cn2 u'"
  then have id: "id_of (up_live u') = Some (cn_sid cn2)" by (simp add: conn_valid_iff)
  show "up_uplink u' = fd2"
  proof (cases "up_uplink u' = fd \<and> (0 \<le> up_uplink (sy_up s) \<longrightarrow> up_uplink (sy_up s) = fd)")
    case True
    show ?thesis
    proof (cases "fd2 = fd")
      case False
      then have o: "sy_conn s fd2 = Some (wb2, cn2)" using c2 by simp
      then have "id_of (up_live (sy_up s)) = Some (cn_sid cn2)"
        using e id not_fresh [OF fr o] by (auto simp: frame_effect_def)
      then have "conn_valid cn2 (sy_up s)" using v by (simp add: conn_valid_iff)
      then show ?thesis using one_writerD [OF W o] True False by simp
    qed (use True in simp)
  next
    case False
    then have same: "up_uplink u' = up_uplink (sy_up s)" "cn_auth cn' = cn_auth cn" "cn_sid cn' = cn_sid cn"
      using e id by (auto simp: frame_effect_def)
    obtain wb3 cn3 where o: "sy_conn s fd2 = Some (wb3, cn3)" "cn_auth cn3 = cn_auth cn2" "cn_sid cn3 = cn_sid cn2"
      using c c2 same by (cases "fd2 = fd") auto
    then have "id_of (up_live (sy_up s)) = Some (cn_sid cn2)"
      using e id not_fresh [OF fr o(1)] by (auto simp: frame_effect_def)
    then have "conn_valid cn3 (sy_up s)" using v o by (simp add: conn_valid_iff)
    then show ?thesis using one_writerD(2) [OF W o(1)] same by simp
  qed
qed

lemma done_one_writer:
  assumes W: "one_writer s" and c: "sy_conn s fd = Some (wb, cn)"
    and s': "sy_conn s' = (sy_conn s)(fd := None)" "sy_up s' = conn_done env fd cn (sy_up s)"
  shows "one_writer s'"
  unfolding one_writer_def s'
proof (intro conjI allI impI)
  have inv: "live_inv (up_live (sy_up s))" using W by (simp add: one_writer_def)
  note D = conn_done_live [OF inv, of env fd cn]
  show "live_inv (up_live (conn_done env fd cn (sy_up s)))" using D by simp
  fix fd2 wb2 cn2
  assume "((sy_conn s)(fd := None)) fd2 = Some (wb2, cn2)"
  then have o: "sy_conn s fd2 = Some (wb2, cn2)" and ne: "fd2 \<noteq> fd" by (simp_all split: if_splits)
  show "0 \<le> fd2" by (rule one_writerD(1) [OF W o])
  assume "conn_valid cn2 (conn_done env fd cn (sy_up s))"
  then have "conn_valid cn2 (sy_up s)" "up_uplink (conn_done env fd cn (sy_up s)) =
      (if up_uplink (sy_up s) = fd then -1 else up_uplink (sy_up s))"
    using D by (auto simp: conn_valid_iff)
  then show "up_uplink (conn_done env fd cn (sy_up s)) = fd2"
    using one_writerD(2) [OF W o] ne by simp
qed

lemma init_owned_spec:
  assumes "live_inv (up_live u)" and "length (we_fresh env) < 64"
    and "ws_direct_init_owned env fn tot owner rsid mx u = (rc, sid, u')"
  shows "live_inv (up_live u') \<and> up_uplink u' = up_uplink u \<and>
     (id_of (up_live u') = id_of (up_live u) \<or> id_of (up_live u') = Some (we_fresh env))"
proof (cases "up_live u' = up_live u \<and> up_uplink u' = up_uplink u")
  case True
  then show ?thesis using assms(1) by simp
next
  case False
  obtain r1 sid1 u1 where i: "ws_direct_init_session env fn tot mx u = (r1, sid1, u1)" by (metis prod_cases3)
  have "up_live u' = up_live u1 \<and> up_uplink u' = up_uplink u1"
    using assms(3) False i by (auto simp: ws_direct_init_owned_def clear_icon_def Let_def split: if_splits)
  then show ?thesis using init_session_spec [OF assms(1,2) i] by simp
qed

lemma init_owned_one_writer:
  assumes W: "one_writer s" and fr: "fresh_id env s"
    and i: "ws_direct_init_owned env fn tot owner rsid mx (sy_up s) = (rc, sid, u')"
    and s': "sy_conn s' = sy_conn s" "sy_up s' = u'"
  shows "one_writer s'"
  unfolding one_writer_def s'
proof (intro conjI allI impI)
  have inv: "live_inv (up_live (sy_up s))" using W by (simp add: one_writer_def)
  have "length (we_fresh env) < 64" using fr by (simp add: fresh_id_def)
  note I = init_owned_spec [OF inv this i]
  show "live_inv (up_live u')" using I by simp
  fix fd wb cn
  assume o: "sy_conn s fd = Some (wb, cn)"
  show "0 \<le> fd" by (rule one_writerD(1) [OF W o])
  assume "conn_valid cn u'"
  then have "conn_valid cn (sy_up s)" using I not_fresh [OF fr o] by (auto simp: conn_valid_iff)
  then show "up_uplink u' = fd" using one_writerD(2) [OF W o] I by simp
qed

lemma sys_step_one_writer:
  assumes "sys_step s s'" and W: "one_writer s"
  shows "one_writer s'"
proof -
  have inv: "live_inv (up_live (sy_up s))" using W by (simp add: one_writer_def)
  have calm_to: "one_writer s'" if "s' = s\<lparr>sy_up := u'\<rparr>" and "calm (sy_up s) u'" for u'
    using one_writer_calm [OF W that(2)] that(1) by simp
  show ?thesis
    using assms(1)
  proof cases
    case (Accept fd stack raw acc keep)
    have u: "up_live (live_add fd (sy_up s)) = up_live (sy_up s)" "up_uplink (live_add fd (sy_up s)) = up_uplink (sy_up s)"
      by (simp_all add: live_add_def)
    have "frame_effect fd [] conn_init conn_init (sy_up s) (live_add fd (sy_up s))"
      using inv u by (simp add: frame_effect_def)
    show ?thesis
      unfolding one_writer_def Accept(1)
      using W Accept(3) u by (auto simp: one_writer_def conn_valid_iff conn_init_def split: if_splits)
  next
    case (Receive fd wb cn r wb')
    show ?thesis unfolding one_writer_def Receive(1)
      using W Receive(2) by (auto simp: one_writer_def)
  next
    case (Handle fd wb cn env op fin off n t buf mem_ok sent go wb' cn' u')
    have "length (we_fresh env) < 64" using Handle(3) by (simp add: fresh_id_def)
    note e = frame_step_effect [OF inv this Handle(5)]
    show ?thesis
      by (rule handle_one_writer [OF W Handle(2,3) e, where wb' = "wb'\<lparr>wb_rbuf := drop t buf\<rparr>"])
         (simp_all add: Handle(1))
  next
    case (Done fd wb cn env)
    show ?thesis by (rule done_one_writer [OF W Done(2)]) (simp_all add: Done(1))
  next
    case (InitOwned env fn tot owner rsid rc sid u')
    show ?thesis by (rule init_owned_one_writer [OF W InitOwned(2,3)]) (simp_all add: InitOwned(1))
  next
    case (CancelOwned env owner sid)
    have "calm (sy_up s) (snd (ws_direct_cancel_owned env owner sid (sy_up s)))"
      using calm_refl [OF inv] cancel_session_calm [of "emit InstallerCancel (sy_up s)"] inv
        calm_trans [OF calm_emit [OF calm_refl [OF inv]]]
      by (auto simp: ws_direct_cancel_owned_def Let_def intro: calm_emit)
    then show ?thesis using calm_to CancelOwned by blast
  next
    case Cancel
    then show ?thesis using calm_to cancel_session_calm [OF inv] by blast
  next
    case (Metadata owner sid a b c d)
    have "calm (sy_up s) (ws_direct_set_metadata owner sid a b c d (sy_up s))"
      by (rule calm_same [OF inv]) (simp_all add: ws_direct_set_metadata_def)
    then show ?thesis using calm_to Metadata by blast
  next
    case (Icon m owner sid png)
    have "calm (sy_up s) (snd (ws_direct_set_icon m owner sid png (sy_up s)))"
      by (rule calm_same [OF inv]) (simp_all add: ws_direct_set_icon_def)
    then show ?thesis using calm_to Icon by blast
  next
    case Listener
    have "calm (sy_up s) (snd (ws_direct_listener_stop_if_idle (sy_up s)))"
      by (rule calm_same [OF inv])
         (simp_all add: ws_direct_listener_stop_if_idle_def ws_direct_listener_stop_def emit_all_def Let_def)
    then show ?thesis using calm_to Listener by blast
  next
    case (Live p)
    then show ?thesis using calm_to calm_live_step [OF Live(2) inv] by blast
  next
    case (Seek seg)
    have "calm (sy_up s) (uplink_seek seg (sy_up s))"
      by (rule calm_same [OF inv]) (simp_all add: uplink_seek_def)
    then show ?thesis using calm_to Seek by blast
  qed
qed

lemma reachable_one_writer: "reachable s \<Longrightarrow> one_writer s"
proof (induction rule: reachable.induct)
  case start
  show ?case using live_init_inv by (simp add: one_writer_def sys_init_def upload_init_def)
next
  case (onward s s')
  then show ?case using sys_step_one_writer by blast
qed

end
