(* ===== verification/WsProps.thy ===== *)
theory WsProps
  imports WsSystem LiveProps
begin

text \<open>
  The properties of the upload service, with a sample connection for their
  instances: a handshake whose last packet already carries an \<open>init\<close> message.
\<close>

section \<open>A sample connection\<close>



definition demo_msg :: string where
  \<open>demo_msg = ''{"op":"init","filename":"a.pkg","total":3}''\<close>


lemma demo_msg_len: "length demo_msg = 42" by (simp add: demo_msg_def)







definition demo_ws_env :: ws_env where
  "demo_ws_env = \<lparr> we_fresh = ''s1'', we_mem = True, we_slots = None, we_port = None, we_socket = 9,
     we_bind = True, we_listen = True, we_thread = True, we_installer_cancel = 0 \<rparr>"


section \<open>Properties\<close>

text \<open>C8. The messages of a connection do not depend on how its byte stream is split
  into receives: handling the complete frames of a first part, then the rest
  together with what is left over, is handling the whole.\<close>

theorem ws_stream_split:
  assumes "drain env mem_ok sent fd wb cn u = (True, wb1, cn1, u1)"
  shows "drain env mem_ok sent fd (wb\<lparr>wb_rbuf := wb_rbuf wb @ b\<rparr>) cn u =
     drain env mem_ok sent fd (wb1\<lparr>wb_rbuf := wb_rbuf wb1 @ b\<rparr>) cn1 u1"
  by (rule drain_split [OF assms])

theorem ws_stream_split_witness:
  "drain demo_ws_env True True 5 (wsbuf_init ([137, 0, 129] @ [0])) conn_init upload_init =
   drain demo_ws_env True True 5 (wsbuf_init ([129] @ [0])) conn_init (emit (SendFrame 5 [138, 0]) upload_init)"
proof -
  have "drain demo_ws_env True True 5 (wsbuf_init [129]) conn_init u = (True, wsbuf_init [129], conn_init, u)" for u
    by (subst drain.simps)
       (simp add: wsbuf_init_def ws_direct_frame_decode_def rcap_def WS_BIN_MSG_MAX_def)
  moreover have "ws_direct_frame_decode [137, 0, 129] = Frame 9 True 2 0 2 [137, 0, 129]"
    by (simp add: ws_direct_frame_decode_def frame_plen_def)
  moreover have "ws_direct_frame_encode_server 0xA [] 256 = Some [138, 0]"
    by (simp add: ws_direct_frame_encode_server_def frame_need_def len_field_def)
  ultimately have "drain demo_ws_env True True 5 (wsbuf_init [137, 0, 129]) conn_init upload_init =
      (True, wsbuf_init [129], conn_init, emit (SendFrame 5 [138, 0]) upload_init)"
    by (subst drain.simps) (simp add: wsbuf_init_def frame_step_def send_control_def)
  from ws_stream_split [OF this, of "[0]"] show ?thesis by (simp add: wsbuf_init_def)
qed








end
