(* ===== verification/Multipart.thy ===== *)
theory Multipart
  imports CString
begin

text \<open>
  Multi-part packages of \<open>src/multipart.c\<close>: the header of a part file, the
  part file names, the assembly of all parts into one package file, and the
  virtual stream that serves the package directly from its parts, opening each
  when it is needed and waiting for the next disc.

  Conventions. Files are a function from paths to contents. An open descriptor
  is the contents of the file it was opened on. The remote sessions (SMB, HTTP)
  are given by the size they report and the read they answer. A wait for a disc
  is one element of a list: the answer of the waiter, and the files that are
  visible then; a list that ends stands for a wait that is still on. A
  \<open>pread\<close> that fails is not told apart from one at the end of the file.
\<close>

section \<open>Headers\<close>

type_synonym files = "string \<Rightarrow> byte list option"

fun le_val :: "byte list \<Rightarrow> nat" where
  "le_val [] = 0"
| "le_val (b # bs) = unat b + 256 * le_val bs"

definition MULTIPART_MAGIC :: "byte list" where
  "MULTIPART_MAGIC = map byte_of_char ''PS5MPKG1''"

definition MULTIPART_HEADER_SIZE :: nat where "MULTIPART_HEADER_SIZE = 4096"
definition MAX_MULTIPART_PARTS :: nat where "MAX_MULTIPART_PARTS = 256"

record mp_header =
  mh_magic :: "byte list"
  mh_version :: nat
  mh_part_index :: nat
  mh_total_parts :: nat
  mh_compression :: nat
  mh_chunk_size :: nat
  mh_num_chunks :: nat
  mh_part_data_size :: nat
  mh_total_pkg_size :: nat
  mh_pkg_filename :: "byte list"
  mh_title_id :: "byte list"
  mh_title_name :: "byte list"
  mh_uuid :: "byte list"
  mh_icon_offset :: nat
  mh_icon_size :: nat
  mh_part_offset :: nat
  mh_data_offset :: nat

text \<open>The packed little-endian struct.\<close>

definition header_of :: "byte list \<Rightarrow> mp_header" where
  "header_of b =
     \<lparr> mh_magic = bslice 0 8 b, mh_version = le_val (bslice 8 4 b),
       mh_part_index = le_val (bslice 12 4 b), mh_total_parts = le_val (bslice 16 4 b),
       mh_compression = le_val (bslice 20 4 b), mh_chunk_size = le_val (bslice 24 4 b),
       mh_num_chunks = le_val (bslice 28 4 b), mh_part_data_size = le_val (bslice 32 8 b),
       mh_total_pkg_size = le_val (bslice 40 8 b), mh_pkg_filename = bslice 56 256 b,
       mh_title_id = bslice 312 32 b, mh_title_name = bslice 344 256 b,
       mh_uuid = bslice 664 16 b, mh_icon_offset = le_val (bslice 680 4 b),
       mh_icon_size = le_val (bslice 684 4 b), mh_part_offset = le_val (bslice 736 8 b),
       mh_data_offset = le_val (bslice 744 4 b) \<rparr>"

definition multipart_is_valid_header :: "mp_header \<Rightarrow> bool" where
  "multipart_is_valid_header h \<longleftrightarrow>
     mh_magic h = MULTIPART_MAGIC \<and> mh_version h = 1 \<and>
     mh_total_parts h \<noteq> 0 \<and> mh_part_index h \<noteq> 0 \<and> mh_part_index h \<le> mh_total_parts h \<and>
     (mh_compression h = 0 \<or> mh_compression h = 1) \<and>
     mh_chunk_size h \<le> 64 * 1024 * 1024"

definition is_http_path :: "string \<Rightarrow> bool" where
  "is_http_path p = (starts_with ''http://'' p \<or> starts_with ''https://'' p)"

definition strip_file_scheme :: "string \<Rightarrow> string" where
  "strip_file_scheme p = (if starts_with ''file://'' p then drop 7 p else p)"

definition multipart_read_header :: "files \<Rightarrow> string \<Rightarrow> int + mp_header" where
  "multipart_read_header files path =
     (if starts_with ''smb://'' path \<or> is_http_path path then Inl (-1)
      else
      case files (strip_file_scheme path) of
        None \<Rightarrow> Inl (-1)
      | Some b \<Rightarrow>
          if length b < MULTIPART_HEADER_SIZE then Inl (-1)
          else let h = header_of (take MULTIPART_HEADER_SIZE b)
               in if \<not> multipart_is_valid_header h then Inl (-2) else Inr h)"

section \<open>Part file names\<close>

text \<open>The last \<open>.part\<close> that a digit follows.\<close>

lemma strcasestr_length: "strcasestr s p = Some r \<Longrightarrow> length r \<le> length s"
  by (auto simp: strcasestr_def split: option.splits)

lemma strcasestr_drop: "strcasestr s p = Some r \<Longrightarrow> length (drop 5 r) < length s \<or> r = []"
  using strcasestr_length [of s p r] by (cases r) auto

function last_part :: "string \<Rightarrow> string option \<Rightarrow> string option" where
  "last_part cursor best =
     (case strcasestr cursor ''.part'' of
        None \<Rightarrow> best
      | Some r \<Rightarrow>
          if r = [] then best
          else last_part (drop 5 r) (if length r > 5 \<and> c_isdigit (r ! 5) then Some (drop 5 r) else best))"
  by pat_completeness auto
termination
  by (relation "measure (\<lambda>(c, b). length c)") (use strcasestr_drop in auto)

declare last_part.simps [simp del]

text \<open>The number of the part a file name stands for, if it is one.\<close>

definition staged_part_number :: "string \<Rightarrow> nat option" where
  "staged_part_number name =
     (if strncasecmp_eq name ''part_'' 5 then
        (case strtoul10 (drop 5 name) of
           (n, rest) \<Rightarrow> if n > 0 \<and> n \<le> MAX_MULTIPART_PARTS \<and> strcasecmp_eq rest ''.pkg.part''
                      then Some n else None)
      else None)"

definition part_number :: "string \<Rightarrow> nat option" where
  "part_number filename =
     (let name = c_basename filename in
      if filename = [] \<or> name = [] \<or> hd name = CHR ''.'' then None
      else
      case staged_part_number name of
        Some n \<Rightarrow> Some n
      | None \<Rightarrow>
        (case last_part name None of
           None \<Rightarrow> None
         | Some p \<Rightarrow>
           (case strtoul10 p of
              (n, rest) \<Rightarrow>
                if n = 0 \<or> n > MAX_MULTIPART_PARTS then None
                else if rest \<noteq> [] \<and> \<not> strcasecmp_eq rest ''.pkg'' then None
                else Some n)))"

definition multipart_is_part_filename :: "string \<Rightarrow> nat \<Rightarrow> bool \<times> nat option" where
  "multipart_is_part_filename filename target =
     (case part_number filename of
        None \<Rightarrow> (False, None)
      | Some n \<Rightarrow> (target = 0 \<or> target = n, Some n))"

section \<open>Assembling the package\<close>

text \<open>The world of one assembly: the cancel flag at each poll, the success of each
  write, the checksum and inflate functions of miniz, memory, and whether the
  output can be created.\<close>

record dec_env =
  de_cancel :: "nat \<Rightarrow> bool"
  de_write :: "nat \<Rightarrow> bool"
  de_crc :: "byte list \<Rightarrow> nat"
  de_inflate :: "nat \<Rightarrow> byte list \<Rightarrow> byte list option"
  de_mem :: bool
  de_create :: bool

text \<open>The running state: the output so far, the polls and writes done and the
  progress reports.\<close>

record dec =
  dc_out :: "byte list"
  dc_polls :: nat
  dc_writes :: nat
  dc_progress :: "nat list"

definition dec_init :: dec where
  "dec_init = \<lparr> dc_out = [], dc_polls = 0, dc_writes = 0, dc_progress = [] \<rparr>"

definition dec_poll :: "dec_env \<Rightarrow> dec \<Rightarrow> bool \<times> dec" where
  "dec_poll env d = (de_cancel env (dc_polls d), d\<lparr>dc_polls := dc_polls d + 1\<rparr>)"

text \<open>\<open>fwrite\<close> and the progress report after it.\<close>

definition dec_emit :: "dec_env \<Rightarrow> byte list \<Rightarrow> dec \<Rightarrow> bool \<times> dec" where
  "dec_emit env bs d =
     (let d1 = d\<lparr>dc_writes := dc_writes d + 1\<rparr> in
      if de_write env (dc_writes d)
      then (True, d1\<lparr>dc_out := dc_out d @ bs,
                     dc_progress := dc_progress d @ [length (dc_out d @ bs)]\<rparr>)
      else (False, d1))"

definition RAW_BUF :: nat where "RAW_BUF = 2 * 1024 * 1024"

text \<open>A raw slice: \<open>data\<close> is what the file holds from the read position on, \<open>cap\<close>
  the buffer size.\<close>

function raw_copy :: "dec_env \<Rightarrow> nat \<Rightarrow> byte list \<Rightarrow> nat \<Rightarrow> dec \<Rightarrow> int \<times> dec" where
  "raw_copy env cap data left d =
     (if left = 0 then (0, d)
      else
      case dec_poll env d of
        (True, d1) \<Rightarrow> (-99, d1)
      | (False, d1) \<Rightarrow>
          let n = min (min left cap) (length data) in
          if n = 0 then (-13, d1)
          else
          case dec_emit env (take n data) d1 of
            (False, d2) \<Rightarrow> (-14, d2)
          | (True, d2) \<Rightarrow> raw_copy env cap (drop n data) (left - n) d2)"
  by pat_completeness auto
termination
  by (relation "measure (\<lambda>(env, cap, data, left, d). left)") auto

declare raw_copy.simps [simp del]

text \<open>One chunk of the old format; the result is the rest of the file.\<close>

definition chunk_data :: "dec_env \<Rightarrow> nat \<Rightarrow> nat \<Rightarrow> nat \<Rightarrow> nat \<Rightarrow> byte list \<Rightarrow> int + byte list" where
  "chunk_data env cmode ucap usize crc raw =
     (if cmode = 0 then
        (if usize \<noteq> length raw then Inl (-12)
         else if crc \<noteq> 0 \<and> de_crc env raw \<noteq> crc then Inl (-16)
         else Inr raw)
      else
      case de_inflate env ucap raw of
        None \<Rightarrow> Inl (-15)
      | Some bs \<Rightarrow>
          if length bs \<noteq> usize then Inl (-15)
          else if crc \<noteq> 0 \<and> de_crc env bs \<noteq> crc then Inl (-16)
          else Inr bs)"

definition chunk_step ::
  "dec_env \<Rightarrow> nat \<Rightarrow> nat \<Rightarrow> nat \<Rightarrow> byte list \<Rightarrow> dec \<Rightarrow> (int + byte list) \<times> dec" where
  "chunk_step env cmode ccap ucap data d =
     (if length data < 12 then (Inl (-11), d)
      else
      let usize = le_val (bslice 0 4 data); csize = le_val (bslice 4 4 data);
          crc = le_val (bslice 8 4 data); body = drop 12 data
      in if csize > ccap \<or> usize > ucap then (Inl (-12), d)
         else if length body < csize then (Inl (-13), d)
         else
         case chunk_data env cmode ucap usize crc (take csize body) of
           Inl e \<Rightarrow> (Inl e, d)
         | Inr bs \<Rightarrow>
             (case dec_emit env bs d of
                (True, d1) \<Rightarrow> (Inr (drop csize body), d1)
              | (False, d1) \<Rightarrow> (Inl (if cmode = 0 then -14 else -17), d1)))"

fun chunk_copy ::
  "dec_env \<Rightarrow> nat \<Rightarrow> nat \<Rightarrow> nat \<Rightarrow> nat \<Rightarrow> byte list \<Rightarrow> dec \<Rightarrow> int \<times> dec" where
  "chunk_copy env cmode ccap ucap 0 data d = (0, d)"
| "chunk_copy env cmode ccap ucap (Suc k) data d =
     (case dec_poll env d of
        (True, d1) \<Rightarrow> (-99, d1)
      | (False, d1) \<Rightarrow>
        (case chunk_step env cmode ccap ucap data d1 of
           (Inl e, d2) \<Rightarrow> (e, d2)
         | (Inr rest, d2) \<Rightarrow> chunk_copy env cmode ccap ucap k rest d2))"

text \<open>Where the payload of a part starts; \<open>None\<close> for an oversized icon.\<close>

definition payload_offset :: "mp_header \<Rightarrow> nat option" where
  "payload_offset h =
     (if mh_data_offset h \<noteq> 0 then Some (mh_data_offset h)
      else if mh_icon_size h > 0 \<and> mh_icon_offset h = MULTIPART_HEADER_SIZE then
        (if mh_icon_size h \<ge> 10 * 1024 * 1024 then None
         else Some (MULTIPART_HEADER_SIZE + mh_icon_size h))
      else Some MULTIPART_HEADER_SIZE)"

definition part_copy :: "dec_env \<Rightarrow> files \<Rightarrow> nat \<Rightarrow> nat \<Rightarrow> string \<Rightarrow> dec \<Rightarrow> int \<times> dec" where
  "part_copy env files ccap ucap path d =
     (case files path of
        None \<Rightarrow> (-9, d)
      | Some b \<Rightarrow>
          if length b < MULTIPART_HEADER_SIZE then (-10, d)
          else
          let h = header_of (take MULTIPART_HEADER_SIZE b) in
          case payload_offset h of
            None \<Rightarrow> (-10, d)
          | Some off \<Rightarrow>
              if mh_num_chunks h = 0 \<and> mh_compression h = 0
              then raw_copy env ucap (drop off b) (mh_part_data_size h) d
              else chunk_copy env (mh_compression h) ccap ucap (mh_num_chunks h) (drop off b) d)"

fun parts_copy :: "dec_env \<Rightarrow> files \<Rightarrow> nat \<Rightarrow> nat \<Rightarrow> string list \<Rightarrow> dec \<Rightarrow> int \<times> dec" where
  "parts_copy env files ccap ucap [] d = (0, d)"
| "parts_copy env files ccap ucap (p # ps) d =
     (case dec_poll env d of
        (True, d1) \<Rightarrow> (-99, d1)
      | (False, d1) \<Rightarrow>
        (case part_copy env files ccap ucap p d1 of
           (e, d2) \<Rightarrow> if e \<noteq> 0 then (e, d2) else parts_copy env files ccap ucap ps d2))"

text \<open>The headers of the further parts: their indices, the common number of parts
  and the common uuid; the result is the sum of the slice sizes.\<close>

fun check_parts :: "files \<Rightarrow> nat \<Rightarrow> byte list \<Rightarrow> nat \<Rightarrow> string list \<Rightarrow> nat \<Rightarrow> int + nat" where
  "check_parts files n uuid i [] acc = Inr acc"
| "check_parts files n uuid i (p # ps) acc =
     (case multipart_read_header files p of
        Inl _ \<Rightarrow> Inl (-4)
      | Inr h \<Rightarrow>
          if mh_part_index h \<noteq> i + 1 \<or> mh_total_parts h \<noteq> n then Inl (-5)
          else if mh_uuid h \<noteq> uuid then Inl (-6)
          else check_parts files n uuid (i + 1) ps (wrap64 (acc + mh_part_data_size h)))"

text \<open>The buffer sizes; \<open>None\<close> for a chunk size over 8 MB.\<close>

definition dec_bufs :: "mp_header \<Rightarrow> (nat \<times> nat) option" where
  "dec_bufs h =
     (let cs = (if mh_chunk_size h = 0 then 2 * 1024 * 1024 else mh_chunk_size h) in
      if mh_num_chunks h \<noteq> 0 \<or> mh_compression h \<noteq> 0 then
        (if cs > 8 * 1024 * 1024 then None else Some (cs * 2 + 65536, cs + 65536))
      else Some (RAW_BUF, RAW_BUF))"

text \<open>\<open>multipart_decompress_to_pkg\<close>: the code and the output file that is left.\<close>

definition multipart_decompress_to_pkg ::
  "dec_env \<Rightarrow> files \<Rightarrow> string list \<Rightarrow> int \<times> byte list option" where
  "multipart_decompress_to_pkg env files paths =
     (case paths of
        [] \<Rightarrow> (-1, None)
      | p0 # ps \<Rightarrow>
        (case multipart_read_header files p0 of
           Inl _ \<Rightarrow> (-2, None)
         | Inr h0 \<Rightarrow>
             if mh_total_parts h0 \<noteq> length paths then (-3, None)
             else
             case check_parts files (length paths) (mh_uuid h0) 1 ps (mh_part_data_size h0) of
               Inl e \<Rightarrow> (e, None)
             | Inr total_slices \<Rightarrow>
                 if mh_total_pkg_size h0 > 0 \<and> total_slices \<noteq> 0 \<and> total_slices \<noteq> mh_total_pkg_size h0
                 then (-18, None)
                 else if \<not> de_create env then (-7, None)
                 else
                 case dec_bufs h0 of
                   None \<Rightarrow> (-8, None)
                 | Some (ccap, ucap) \<Rightarrow>
                     if \<not> de_mem env then (-8, None)
                     else
                     case parts_copy env files ccap ucap paths dec_init of
                       (e, d) \<Rightarrow>
                         if e \<noteq> 0 then (e, None)
                         else if mh_total_pkg_size h0 > 0 \<and> length (dc_out d) \<noteq> mh_total_pkg_size h0
                         then (-18, None)
                         else (0, Some (dc_out d))))"

end
