(* ===== verification/VStream.thy ===== *)
theory VStream
  imports LiveRead Multipart
begin

text \<open>
  The virtual stream of \<open>src/multipart.c\<close>: opening a package by its path (live
  session, remote file, single file, multi-part set), reading a range of it,
  and closing it. The conventions are those of \<open>Multipart\<close>; the remote sessions
  are the fields \<open>ve_smb\<close> and \<open>ve_http\<close> of the environment.
\<close>

section \<open>State\<close>

record vpart =
  vp_path :: string
  vp_start :: nat
  vp_size :: nat
  vp_doff :: nat
  vp_fd :: "byte list option"

definition vpart_init :: vpart where
  "vpart_init = \<lparr> vp_path = [], vp_start = 0, vp_size = 0, vp_doff = 0, vp_fd = None \<rparr>"

record vstream =
  vs_is_multipart :: bool
  vs_is_smb :: bool
  vs_is_live :: bool
  vs_is_http :: bool
  vs_session :: "string option"
  vs_current_part :: nat
  vs_total_parts :: nat
  vs_total :: nat
  vs_filename :: string
  vs_title_id :: string
  vs_title_name :: string
  vs_uuid :: "byte list"
  vs_parts :: "vpart list"
  vs_notified :: "nat list"

definition vstream_init :: vstream where
  "vstream_init =
     \<lparr> vs_is_multipart = False, vs_is_smb = False, vs_is_live = False, vs_is_http = False,
       vs_session = None, vs_current_part = 0, vs_total_parts = 0, vs_total = 0,
       vs_filename = [], vs_title_id = [], vs_title_name = [], vs_uuid = replicate 16 0,
       vs_parts = replicate MAX_MULTIPART_PARTS vpart_init, vs_notified = [] \<rparr>"

text \<open>What the environment provides: the size of a remote file when it can be
  opened, the installed part finder and disc waiter, directory entries in
  \<open>readdir\<close> order and the variable \<open>PKG_TMP_DIR\<close>.\<close>

record vs_env =
  ve_smb :: "string \<Rightarrow> nat option"
  ve_http :: "string \<Rightarrow> nat option"
  ve_finder :: "(byte list \<Rightarrow> string \<Rightarrow> nat \<Rightarrow> string option) option"
  ve_waiter :: bool
  ve_dir :: "string \<Rightarrow> string list option"
  ve_tmp :: "string option"

section \<open>Opening\<close>

definition set_part :: "nat \<Rightarrow> vpart \<Rightarrow> vstream \<Rightarrow> vstream" where
  "set_part i p vs = vs\<lparr>vs_parts := (vs_parts vs)[i := p]\<rparr>"

text \<open>The payload offset of a part: an icon counts only in part 1.\<close>

definition stream_data_offset :: "mp_header \<Rightarrow> nat" where
  "stream_data_offset h =
     (if mh_data_offset h \<noteq> 0 then mh_data_offset h
      else if mh_part_index h = 1 \<and> mh_icon_size h > 0 \<and> mh_icon_offset h = MULTIPART_HEADER_SIZE
      then wrap32 (MULTIPART_HEADER_SIZE + mh_icon_size h)
      else MULTIPART_HEADER_SIZE)"

text \<open>The search for part \<open>p\<close>: the installed finder, then the directory of the
  first path, then the staging directory.\<close>

fun find_adjacent :: "files \<Rightarrow> byte list \<Rightarrow> nat \<Rightarrow> string \<Rightarrow> string list \<Rightarrow> string option" where
  "find_adjacent files uuid p dir [] = None"
| "find_adjacent files uuid p dir (e # es) =
     (if e \<noteq> [] \<and> hd e = CHR ''.'' then find_adjacent files uuid p dir es
      else if fst (multipart_is_part_filename e p) then
        (let cand = cstr_trunc 1024 (dir @ ''/'' @ e) in
         case multipart_read_header files cand of
           Inr h \<Rightarrow> if mh_uuid h = uuid \<and> mh_part_index h = p then Some (cstr_trunc 512 cand)
                   else find_adjacent files uuid p dir es
         | Inl _ \<Rightarrow> find_adjacent files uuid p dir es)
      else find_adjacent files uuid p dir es)"

definition staged_path :: "vs_env \<Rightarrow> nat \<Rightarrow> string" where
  "staged_path env p =
     (let t = (case ve_tmp env of
                 Some t \<Rightarrow> if t = [] then ''/data/pkgmgr/tmp'' else t
               | None \<Rightarrow> ''/data/pkgmgr/tmp'')
      in cstr_trunc 512 (t @ ''/part_'' @ dec_str p @ ''.pkg.part''))"

definition find_part ::
  "vs_env \<Rightarrow> files \<Rightarrow> string \<Rightarrow> byte list \<Rightarrow> string \<Rightarrow> nat \<Rightarrow> string option" where
  "find_part env files initial_path uuid name p =
     (case (case ve_finder env of None \<Rightarrow> None | Some f \<Rightarrow> f uuid name p) of
        Some q \<Rightarrow> Some q
      | None \<Rightarrow>
        (case (case c_dirname (cstr_trunc 512 initial_path) of
                 None \<Rightarrow> None
               | Some dir \<Rightarrow> (case ve_dir env dir of
                              None \<Rightarrow> None
                            | Some es \<Rightarrow> find_adjacent files uuid p dir es)) of
           Some q \<Rightarrow> Some q
         | None \<Rightarrow> if files (staged_path env p) \<noteq> None then Some (staged_path env p) else None))"

text \<open>Part \<open>p\<close> (from 1) when it is found, and when its disc is not there yet.\<close>

definition found_part :: "string \<Rightarrow> mp_header \<Rightarrow> nat \<Rightarrow> vstream \<Rightarrow> vpart" where
  "found_part path h p vs =
     \<lparr> vp_path = cstr_trunc 512 path,
       vp_start = (if p = 1 then 0
                   else if mh_part_offset h > 0 then mh_part_offset h
                   else wrap64 (vp_start (vs_parts vs ! (p - 2)) + vp_size (vs_parts vs ! (p - 2)))),
       vp_size = mh_part_data_size h,
       vp_doff = stream_data_offset h,
       vp_fd = None \<rparr>"

definition absent_part :: "mp_header \<Rightarrow> nat \<Rightarrow> vstream \<Rightarrow> vpart" where
  "absent_part hdr p vs =
     (let start = (if p > 1
                   then wrap64 (vp_start (vs_parts vs ! (p - 2)) + vp_size (vs_parts vs ! (p - 2)))
                   else vp_start (vs_parts vs ! (p - 1)))
      in \<lparr> vp_path = [], vp_start = start,
           vp_size = (if p = vs_total_parts vs then sub64 (vs_total vs) start
                      else mh_part_data_size hdr),
           vp_doff = MULTIPART_HEADER_SIZE, vp_fd = None \<rparr>)"

fun resolve_parts ::
  "vs_env \<Rightarrow> files \<Rightarrow> string \<Rightarrow> mp_header \<Rightarrow> nat list \<Rightarrow> vstream \<Rightarrow> vstream option" where
  "resolve_parts env files path hdr [] vs = Some vs"
| "resolve_parts env files path hdr (p # ps) vs =
     (case (if p = mh_part_index hdr then Some (cstr_trunc 512 path)
            else find_part env files path (mh_uuid hdr) (cstr_of_bytes (take 255 (mh_pkg_filename hdr))) p) of
        None \<Rightarrow> resolve_parts env files path hdr ps (set_part (p - 1) (absent_part hdr p vs) vs)
      | Some q \<Rightarrow>
        (case multipart_read_header files q of
           Inl _ \<Rightarrow> None
         | Inr h \<Rightarrow> resolve_parts env files path hdr ps (set_part (p - 1) (found_part q h p vs) vs)))"

definition multi_stream :: "mp_header \<Rightarrow> vstream" where
  "multi_stream hdr =
     vstream_init\<lparr> vs_is_multipart := True, vs_current_part := 1,
       vs_total_parts := mh_total_parts hdr, vs_total := mh_total_pkg_size hdr,
       vs_filename := cstr_of_bytes (take 255 (mh_pkg_filename hdr)),
       vs_title_id := cstr_of_bytes (take 31 (mh_title_id hdr)),
       vs_title_name := cstr_of_bytes (take 255 (mh_title_name hdr)),
       vs_uuid := mh_uuid hdr \<rparr>"

text \<open>A stream over one remote or local file.\<close>

definition single_stream :: "string \<Rightarrow> nat \<Rightarrow> vstream" where
  "single_stream path sz =
     vstream_init\<lparr> vs_current_part := 1, vs_total_parts := 1, vs_total := sz,
       vs_filename := cstr_trunc 256 (c_basename path),
       vs_parts := (vs_parts vstream_init)[0 := vpart_init\<lparr>vp_path := cstr_trunc 512 path, vp_size := sz\<rparr>] \<rparr>"

definition virtual_stream_open ::
  "vs_env \<Rightarrow> files \<Rightarrow> string \<Rightarrow> live \<Rightarrow> int \<times> vstream option \<times> live" where
  "virtual_stream_open env files path lv =
     (if starts_with ''live:'' path then
        (let sid = drop 5 path in
         if \<not> ws_live_check_id (Some sid) lv then (-1, None, lv)
         else if ws_live_get_total lv = 0 then (-1, None, lv)
         else
         case ws_live_attach lv of
           (r, lv1) \<Rightarrow>
             if r \<noteq> 0 then (-1, None, lv1)
             else (0, Some (vstream_init\<lparr> vs_is_live := True, vs_current_part := 1,
                       vs_total_parts := 1, vs_total := ws_live_get_total lv,
                       vs_filename := cstr_trunc 256 (sid @ ''.pkg'') \<rparr>), lv1))
      else if starts_with ''smb://'' path then
        (case ve_smb env path of
           None \<Rightarrow> (-1, None, lv)
         | Some sz \<Rightarrow> (0, Some ((single_stream path sz)\<lparr>vs_is_smb := True, vs_session := Some path\<rparr>), lv))
      else if is_http_path path then
        (case ve_http env path of
           None \<Rightarrow> (-1, None, lv)
         | Some sz \<Rightarrow> (0, Some ((single_stream path sz)\<lparr>vs_is_http := True, vs_session := Some path\<rparr>), lv))
      else
      let local = strip_file_scheme path in
      case files local of
        None \<Rightarrow> (-1, None, lv)
      | Some b \<Rightarrow>
        (case multipart_read_header files local of
           Inl _ \<Rightarrow> (0, Some (single_stream local (length b)), lv)
         | Inr hdr \<Rightarrow>
             if mh_total_parts hdr = 0 \<or> mh_total_parts hdr > MAX_MULTIPART_PARTS then (-2, None, lv)
             else
             case resolve_parts env files path hdr [1..<Suc (mh_total_parts hdr)] (multi_stream hdr) of
               None \<Rightarrow> (-4, None, lv)
             | Some vs \<Rightarrow> (0, Some vs, lv)))"

section \<open>Reading\<close>

text \<open>The first part whose range holds the offset.\<close>

definition part_holds :: "vpart \<Rightarrow> nat \<Rightarrow> bool" where
  "part_holds p off \<longleftrightarrow> off \<ge> vp_start p \<and> off < wrap64 (vp_start p + vp_size p)"

definition part_at :: "vstream \<Rightarrow> nat \<Rightarrow> nat option" where
  "part_at vs off = find (\<lambda>i. part_holds (vs_parts vs ! i) off) [0..<vs_total_parts vs]"

definition clip_count :: "nat \<Rightarrow> nat \<Rightarrow> nat \<Rightarrow> nat" where
  "clip_count total_size off count =
     (if wrap64 (off + count) > total_size then total_size - off else count)"

definition note_part :: "nat \<Rightarrow> vstream \<Rightarrow> vstream" where
  "note_part cur vs =
     (if vs_current_part vs \<noteq> cur
      then vs\<lparr>vs_current_part := cur, vs_notified := vs_notified vs @ [cur]\<rparr> else vs)"

text \<open>\<open>open\<close> on the recorded path, when the part is not open.\<close>

definition open_part :: "files \<Rightarrow> nat \<Rightarrow> vstream \<Rightarrow> vstream" where
  "open_part files i vs =
     (let p = vs_parts vs ! i in
      if vp_fd p = None \<and> vp_path p \<noteq> [] then set_part i (p\<lparr>vp_fd := files (vp_path p)\<rparr>) vs else vs)"

text \<open>The transfer loop of \<open>pread\<close> on the contents of an open file.\<close>

definition pread_all :: "byte list \<Rightarrow> nat \<Rightarrow> nat \<Rightarrow> byte list option" where
  "pread_all content off n = (if off + n \<le> length content then Some (bslice off n content) else None)"

definition read_part :: "nat \<Rightarrow> vpart \<Rightarrow> nat \<Rightarrow> vstream \<Rightarrow> int \<times> byte list \<times> vstream" where
  "read_part off p want vs =
     (if off < vp_start p then (-1, [], vs)
      else
      let rel = off - vp_start p in
      if rel \<ge> vp_size p then (-1, [], vs)
      else
      let chunk = (if want < vp_size p - rel then want else vp_size p - rel) in
      if chunk = 0 then (0, [], vs)
      else
      case vp_fd p of
        None \<Rightarrow> (-1, [], vs)
      | Some content \<Rightarrow>
        (case pread_all content (wrap64 (vp_doff p + rel)) chunk of
           None \<Rightarrow> (-1, [], vs)
         | Some bs \<Rightarrow> (int chunk, bs, vs)))"

text \<open>The part the waiter found: all other descriptors are closed, the entry is
  filled from the new header, and the file is opened. \<open>Inl\<close> is the error exit.\<close>

definition adopt_part :: "files \<Rightarrow> nat \<Rightarrow> string \<Rightarrow> vstream \<Rightarrow> vstream + vstream" where
  "adopt_part files i path vs =
     (let vs1 = vs\<lparr>vs_parts := map (\<lambda>k. if k < vs_total_parts vs \<and> k \<noteq> i
                       then (vs_parts vs ! k)\<lparr>vp_fd := None\<rparr> else vs_parts vs ! k)
                     [0..<length (vs_parts vs)]\<rparr>
      in case multipart_read_header files path of
           Inl _ \<Rightarrow> Inl vs1
         | Inr h \<Rightarrow>
             let p = vs_parts vs1 ! i;
                 p1 = p\<lparr> vp_path := cstr_trunc 512 path, vp_doff := stream_data_offset h,
                         vp_size := mh_part_data_size h,
                         vp_start := (if mh_part_offset h > 0 then mh_part_offset h else vp_start p),
                         vp_fd := files path \<rparr>;
                 vs2 = set_part i p1 vs1
             in if files path = None then Inl vs2 else Inr vs2)"

datatype vs_result =
    VsDone (vr_rc: int) (vr_bytes: "byte list") (vr_stream: vstream)
  | VsParked vstream

text \<open>The loop over local parts. A wait is the waiter, which finds a path for a part
  number or gives up, and the files visible from then on.\<close>

type_synonym disc_wait = "(nat \<Rightarrow> string option) \<times> files"

fun read_local ::
  "bool \<Rightarrow> files \<Rightarrow> vstream \<Rightarrow> nat \<Rightarrow> nat \<Rightarrow> disc_wait list \<Rightarrow> vs_result" where
  "read_local waiter files vs off count waits =
     (let want = clip_count (vs_total vs) off count in
      case part_at vs off of
        None \<Rightarrow> VsDone (-1) [] vs
      | Some i \<Rightarrow>
          let vs1 = open_part files i (note_part (i + 1) vs) in
          if vp_fd (vs_parts vs1 ! i) \<noteq> None
          then (case read_part off (vs_parts vs1 ! i) want vs1 of (r, bs, vs2) \<Rightarrow> VsDone r bs vs2)
          else if \<not> waiter then VsDone (-1) [] vs1
          else
          (case waits of
             [] \<Rightarrow> VsParked vs1
           | (w, files') # ws \<Rightarrow>
             (case w (i + 1) of
                None \<Rightarrow> VsDone (-1) [] vs1
              | Some path \<Rightarrow>
                (case adopt_part files' i path vs1 of
                   Inl vs2 \<Rightarrow> VsDone (-1) [] vs2
                 | Inr vs2 \<Rightarrow> read_local waiter files' vs2 off count ws))))"

declare read_local.simps [simp del]

text \<open>\<open>virtual_stream_read\<close> on a stream that is not live. \<open>remote\<close> is the read of the
  SMB or HTTP session.\<close>

definition virtual_stream_read ::
  "vs_env \<Rightarrow> (string \<Rightarrow> nat \<Rightarrow> nat \<Rightarrow> int \<times> byte list) \<Rightarrow> files \<Rightarrow> vstream \<Rightarrow> nat \<Rightarrow> nat
     \<Rightarrow> disc_wait list \<Rightarrow> vs_result" where
  "virtual_stream_read env remote files vs off count waits =
     (if count = 0 then VsDone 0 [] vs
      else if off \<ge> vs_total vs then VsDone 0 [] vs
      else
      case (if vs_is_smb vs \<or> vs_is_http vs then vs_session vs else None) of
        Some s \<Rightarrow> (case remote s off (clip_count (vs_total vs) off count) of (r, bs) \<Rightarrow> VsDone r bs vs)
      | None \<Rightarrow> read_local (ve_waiter env) files vs off count waits)"

text \<open>\<open>virtual_stream_read\<close> on a live stream.\<close>

definition virtual_stream_read_live ::
  "nat \<Rightarrow> vstream \<Rightarrow> nat \<Rightarrow> nat \<Rightarrow> live \<Rightarrow> wake list \<Rightarrow> read_result" where
  "virtual_stream_read_live fuel vs off count lv ws =
     (if count = 0 then ReadDone 0 [] lv
      else if off \<ge> vs_total vs then ReadDone 0 [] lv
      else
      let want = clip_count (vs_total vs) off count in
      if want = 0 then ReadDone 0 [] lv
      else
      case ws_live_read fuel off want lv ws of
        ReadDone r bs lv1 \<Rightarrow> if r < 0 then ReadDone (-1) [] lv1 else ReadDone r bs lv1
      | res \<Rightarrow> res)"

section \<open>Closing and checking\<close>

definition virtual_stream_close :: "vstream \<Rightarrow> live \<Rightarrow> vstream \<times> live" where
  "virtual_stream_close vs lv =
     (let lv1 = (if vs_is_live vs then ws_live_detach lv else lv);
          vs1 = vs\<lparr>vs_is_live := False, vs_session := None,
                  vs_parts := map (\<lambda>k. if k < vs_total_parts vs
                                       then (vs_parts vs ! k)\<lparr>vp_fd := None\<rparr> else vs_parts vs ! k)
                                [0..<length (vs_parts vs)]\<rparr>
      in (vs1, lv1))"

definition virtual_stream_get_smb_url :: "vstream \<Rightarrow> string option" where
  "virtual_stream_get_smb_url vs =
     (if \<not> vs_is_smb vs \<or> vp_path (vs_parts vs ! 0) = [] then None else Some (vp_path (vs_parts vs ! 0)))"

definition virtual_stream_check_path :: "vs_env \<Rightarrow> files \<Rightarrow> string \<Rightarrow> live \<Rightarrow> int" where
  "virtual_stream_check_path env files path lv =
     (if path = [] then -1
      else if starts_with ''live:'' path
      then (if ws_live_check_id (Some (drop 5 path)) lv then 0 else -1)
      else if starts_with ''smb://'' path then (if ve_smb env path = None then -1 else 0)
      else if is_http_path path then (if ve_http env path = None then -1 else 0)
      else if files (strip_file_scheme path) = None then -1 else 0)"

end
