(* ===== verification/VStreamProps.thy ===== *)
theory VStreamProps
  imports VStream
begin

text \<open>
  What the virtual stream delivers: the bytes of the package and nothing else,
  whichever disc is in the drive, and the same bytes that the assembly of the
  parts writes.
\<close>

section \<open>A package laid out in parts\<close>

text \<open>The place of a part: where its slice starts in the package, its length, and
  where it starts in the part file.\<close>

type_synonym place = "nat \<times> nat \<times> nat"

definition layout_ok :: "byte list \<Rightarrow> place list \<Rightarrow> bool" where
  "layout_ok f L \<longleftrightarrow> length f < 2 ^ 64 \<and>
     (\<forall>i<length L. case L ! i of (s, n, d) \<Rightarrow> s + n \<le> length f \<and> d + n < 2 ^ 64)"

definition carries_slice_of :: "byte list \<Rightarrow> place \<Rightarrow> byte list \<Rightarrow> bool" where
  "carries_slice_of f pl c \<longleftrightarrow>
     (case pl of (s, n, d) \<Rightarrow> (n = 0 \<or> d + n \<le> length c) \<and> bslice d n c = bslice s n f)"

text \<open>A file that carries the slice and whose header, when it is read, states the
  place.\<close>

definition fits :: "byte list \<Rightarrow> place \<Rightarrow> files \<Rightarrow> string \<Rightarrow> bool" where
  "fits f pl files path \<longleftrightarrow>
     (\<forall>c. files path = Some c \<longrightarrow> carries_slice_of f pl c) \<and>
     (\<forall>h. multipart_read_header files path = Inr h \<longrightarrow>
        (case pl of (s, n, d) \<Rightarrow> (0 < mh_part_offset h \<longrightarrow> mh_part_offset h = s) \<and>
           mh_part_data_size h = n \<and> stream_data_offset h = d))"

text \<open>\<open>known i path\<close>: the path is one that part \<open>i\<close> may be looked for at.\<close>

definition files_ok :: "byte list \<Rightarrow> place list \<Rightarrow> (nat \<Rightarrow> string \<Rightarrow> bool) \<Rightarrow> files \<Rightarrow> bool" where
  "files_ok f L known files \<longleftrightarrow>
     (\<forall>i<length L. \<forall>path. known i path \<longrightarrow> length path < 512 \<and> fits f (L ! i) files path)"

definition part_ok :: "byte list \<Rightarrow> place \<Rightarrow> (string \<Rightarrow> bool) \<Rightarrow> vpart \<Rightarrow> bool" where
  "part_ok f pl known p \<longleftrightarrow>
     (vp_start p, vp_size p, vp_doff p) = pl \<and> (vp_path p \<noteq> [] \<longrightarrow> known (vp_path p)) \<and>
     (\<forall>c. vp_fd p = Some c \<longrightarrow> carries_slice_of f pl c)"

definition stream_ok :: "byte list \<Rightarrow> place list \<Rightarrow> (nat \<Rightarrow> string \<Rightarrow> bool) \<Rightarrow> vstream \<Rightarrow> bool" where
  "stream_ok f L known vs \<longleftrightarrow>
     \<not> vs_is_smb vs \<and> \<not> vs_is_http vs \<and>
     vs_total vs = length f \<and> vs_total_parts vs = length L \<and> length L \<le> length (vs_parts vs) \<and>
     (\<forall>i<length L. part_ok f (L ! i) (known i) (vs_parts vs ! i))"

definition wait_ok :: "byte list \<Rightarrow> place list \<Rightarrow> (nat \<Rightarrow> string \<Rightarrow> bool) \<Rightarrow> disc_wait \<Rightarrow> bool" where
  "wait_ok f L known w \<longleftrightarrow> files_ok f L known (snd w) \<and>
     (\<forall>i<length L. \<forall>path. fst w (i + 1) = Some path \<longrightarrow> known i path)"

lemma stream_okD: "stream_ok f L known vs \<Longrightarrow> i < length L \<Longrightarrow>
    part_ok f (L ! i) (known i) (vs_parts vs ! i) \<and> i < length (vs_parts vs)"
  by (simp add: stream_ok_def)

lemma files_okD: "files_ok f L known files \<Longrightarrow> i < length L \<Longrightarrow> known i path \<Longrightarrow>
    length path < 512 \<and> fits f (L ! i) files path"
  by (simp add: files_ok_def)

lemma layout_okD: "layout_ok f L \<Longrightarrow> i < length L \<Longrightarrow> L ! i = (s, n, d) \<Longrightarrow>
    s + n \<le> length f \<and> d + n < 2 ^ 64 \<and> length f < 2 ^ 64"
  by (fastforce simp: layout_ok_def)

section \<open>Preservation\<close>

lemma set_part_ok:
  assumes "stream_ok f L known vs" and "i < length L \<Longrightarrow> part_ok f (L ! i) (known i) p"
  shows "stream_ok f L known (set_part i p vs)"
proof -
  have "part_ok f (L ! k) (known k) ((vs_parts vs)[i := p] ! k)" if k: "k < length L" for k
  proof (cases "i = k")
    case True
    then show ?thesis using k assms stream_okD [OF assms(1) k] by simp
  next
    case False
    then show ?thesis using stream_okD [OF assms(1) k] by simp
  qed
  then show ?thesis using assms(1) by (simp add: stream_ok_def set_part_def)
qed

lemma note_part_ok: "stream_ok f L known vs \<Longrightarrow> stream_ok f L known (note_part c vs)"
  by (simp add: stream_ok_def note_part_def)

lemma part_at_Some: "part_at vs off = Some i \<Longrightarrow> i < vs_total_parts vs \<and> part_holds (vs_parts vs ! i) off"
  by (auto simp: part_at_def dest: find_Some_D)

lemma open_part_ok:
  assumes s: "stream_ok f L known vs" and fl: "files_ok f L known files" and i: "i < length L"
  shows "stream_ok f L known (open_part files i vs)"
proof -
  let ?p = "vs_parts vs ! i"
  have p: "part_ok f (L ! i) (known i) ?p" using stream_okD [OF s i] by simp
  show ?thesis
  proof (cases "vp_fd ?p = None \<and> vp_path ?p \<noteq> []")
    case True
    then have "fits f (L ! i) files (vp_path ?p)" using p files_okD [OF fl i] by (simp add: part_ok_def)
    then have "part_ok f (L ! i) (known i) (?p\<lparr>vp_fd := files (vp_path ?p)\<rparr>)"
      using p by (auto simp: part_ok_def fits_def)
    then show ?thesis using True set_part_ok [OF s] by (simp add: open_part_def Let_def)
  next
    case False
    then show ?thesis using s by (auto simp: open_part_def Let_def)
  qed
qed

lemma adopt_part_ok:
  assumes s: "stream_ok f L known vs" and fl: "files_ok f L known files" and i: "i < length L"
    and k: "known i path" and a: "adopt_part files i path vs = r"
  shows "stream_ok f L known (case r of Inl v \<Rightarrow> v | Inr v \<Rightarrow> v)"
proof -
  let ?vs1 = "vs\<lparr>vs_parts := map (\<lambda>k. if k < vs_total_parts vs \<and> k \<noteq> i
      then (vs_parts vs ! k)\<lparr>vp_fd := None\<rparr> else vs_parts vs ! k) [0..<length (vs_parts vs)]\<rparr>"
  have s1: "stream_ok f L known ?vs1" using s by (auto simp: stream_ok_def part_ok_def)
  note K = files_okD [OF fl i k]
  show ?thesis
  proof (cases "multipart_read_header files path")
    case (Inl e)
    then show ?thesis using s1 a by (auto simp: adopt_part_def Let_def)
  next
    case (Inr h)
    let ?p = "vs_parts ?vs1 ! i"
    let ?p1 = "?p\<lparr> vp_path := cstr_trunc 512 path, vp_doff := stream_data_offset h,
        vp_size := mh_part_data_size h,
        vp_start := (if mh_part_offset h > 0 then mh_part_offset h else vp_start ?p),
        vp_fd := files path \<rparr>"
    have p: "part_ok f (L ! i) (known i) ?p" by (rule conjunct1 [OF stream_okD [OF s1 i]])
    have t: "cstr_trunc 512 path = path" using K by (simp add: cstr_trunc_id)
    have "part_ok f (L ! i) (known i) ?p1"
      using p K k Inr unfolding part_ok_def fits_def t by (auto split: prod.splits)
    then have ok: "stream_ok f L known (set_part i ?p1 ?vs1)" by (rule set_part_ok [OF s1])
    have eq: "r = (if files path = None then Inl (set_part i ?p1 ?vs1) else Inr (set_part i ?p1 ?vs1))"
      using a Inr by (simp add: adopt_part_def Let_def)
    show ?thesis unfolding eq using ok by (cases "files path = None") (simp_all only: simp_thms if_True if_False sum.case)
  qed
qed

lemma read_part_inside:
  assumes "vp_start p \<le> off" "off - vp_start p < vp_size p" "0 < want"
    "c = min want (vp_size p - (off - vp_start p))"
  shows "read_part off p want vs = (case vp_fd p of None \<Rightarrow> (-1, [], vs)
     | Some content \<Rightarrow> (case pread_all content (wrap64 (vp_doff p + (off - vp_start p))) c of
           None \<Rightarrow> (-1, [], vs) | Some bs \<Rightarrow> (int c, bs, vs)))"
proof -
  have e: "(if want < vp_size p - (off - vp_start p) then want else vp_size p - (off - vp_start p)) = c"
    using assms(4) by (simp add: min_def)
  have "c \<noteq> 0" using assms by auto
  then show ?thesis using assms(1,2) unfolding read_part_def Let_def e by simp
qed

lemma read_part_exact:
  assumes p: "part_ok f (L ! i) known p" and L: "layout_ok f L" "i < length L"
    and want: "0 < want" "want \<le> count" and r: "read_part off p want vs = (r, bs, vs')"
  shows "vs' = vs \<and> (r = -1 \<or> (0 < r \<and> r = int (length bs) \<and> length bs \<le> count \<and>
     bs = bslice off (length bs) f))"
proof -
  obtain s n d where pl: "L ! i = (s, n, d)" by (metis prod_cases3)
  then have f: "vp_start p = s" "vp_size p = n" "vp_doff p = d" using p by (simp_all add: part_ok_def)
  note B = layout_okD [OF L pl]
  show ?thesis
  proof (cases "s \<le> off \<and> off - s < n")
    case False
    then have "read_part off p want vs = (-1, [], vs)" using f by (auto simp: read_part_def Let_def)
    then show ?thesis using r by simp
  next
    case True
    let ?rel = "off - s"
    define c where "c = min want (n - ?rel)"
    have c: "0 < c" "c \<le> count" "?rel + c \<le> n" using True want by (auto simp: c_def)
    note R = read_part_inside [of p off want c vs, unfolded f, OF _ _ want(1) c_def]
    show ?thesis
    proof (cases "vp_fd p")
      case None
      then have "read_part off p want vs = (-1, [], vs)"
        using R True by simp
      then show ?thesis using r by simp
    next
      case (Some content)
      then have cs: "d + n \<le> length content" "bslice d n content = bslice s n f"
        using p pl True by (simp_all add: part_ok_def carries_slice_of_def)
      have w: "wrap64 (d + ?rel) = d + ?rel" using B c by (intro wrap64_id) linarith
      have "bslice (d + ?rel) c content = bslice ?rel c (bslice d n content)"
        using c(3) by (simp add: bslice_of_bslice)
      also have "\<dots> = bslice (s + ?rel) c f" unfolding cs(2) using c(3) by (simp add: bslice_of_bslice)
      finally have e: "bslice (d + ?rel) c content = bslice off c f" using True by simp
      have fit: "d + ?rel + c \<le> length content" using cs(1) c(3) by linarith
      have l: "length (bslice off c f) = c"
        unfolding length_bslice using B c(3) True by linarith
      have "read_part off p want vs = (int c, bslice off c f, vs)"
        using R True Some w fit e by (simp add: pread_all_def)
      then show ?thesis using r l c by simp
    qed
  qed
qed

section \<open>The read\<close>

lemma clip_bounds: "off < tot \<Longrightarrow> 0 < count \<Longrightarrow>
    0 < clip_count tot off count \<and> clip_count tot off count \<le> count"
  using mod_less_eq_dividend [of "off + count" "2 ^ 64"] by (auto simp: clip_count_def wrap64_def)

text \<open>What every result of a local read satisfies.\<close>

definition local_result_ok ::
  "byte list \<Rightarrow> place list \<Rightarrow> (nat \<Rightarrow> string \<Rightarrow> bool) \<Rightarrow> nat \<Rightarrow> nat \<Rightarrow> vs_result \<Rightarrow> bool" where
  "local_result_ok f L known off count res \<longleftrightarrow>
     (case res of
        VsDone r bs v \<Rightarrow> stream_ok f L known v \<and>
          (r = -1 \<or> 0 < r \<and> r = int (length bs) \<and> length bs \<le> count \<and> bs = bslice off (length bs) f)
      | VsParked v \<Rightarrow> stream_ok f L known v)"

lemma local_result_ok_done [simp]:
  "local_result_ok f L known off count (VsDone r bs v) \<longleftrightarrow> stream_ok f L known v \<and>
     (r = -1 \<or> 0 < r \<and> r = int (length bs) \<and> length bs \<le> count \<and> bs = bslice off (length bs) f)"
  "local_result_ok f L known off count (VsParked v) \<longleftrightarrow> stream_ok f L known v"
  by (simp_all add: local_result_ok_def)

lemma read_local_open:
  "part_at vs off = Some i \<Longrightarrow> v1 = open_part files i (note_part (i + 1) vs) \<Longrightarrow>
    vp_fd (vs_parts v1 ! i) \<noteq> None \<Longrightarrow>
    read_local waiter files vs off count ws =
      (case read_part off (vs_parts v1 ! i) (clip_count (vs_total vs) off count) v1 of
         (r, bs, v2) \<Rightarrow> VsDone r bs v2)"
  by (subst read_local.simps) (simp add: Let_def)

lemma read_local_wait:
  "part_at vs off = Some i \<Longrightarrow> v1 = open_part files i (note_part (i + 1) vs) \<Longrightarrow>
    vp_fd (vs_parts v1 ! i) = None \<Longrightarrow>
    read_local waiter files vs off count ws =
      (if \<not> waiter then VsDone (-1) [] v1
       else case ws of [] \<Rightarrow> VsParked v1
       | w # ws \<Rightarrow> (case fst w (i + 1) of None \<Rightarrow> VsDone (-1) [] v1
          | Some path \<Rightarrow> (case adopt_part (snd w) i path v1 of
               Inl v2 \<Rightarrow> VsDone (-1) [] v2
             | Inr v2 \<Rightarrow> read_local waiter (snd w) v2 off count ws)))"
  by (subst read_local.simps) (auto simp: Let_def split: list.splits prod.splits option.splits sum.splits)

lemma read_local_nowhere:
  "part_at vs off = None \<Longrightarrow> read_local waiter files vs off count ws = VsDone (-1) [] vs"
  by (subst read_local.simps) (simp add: Let_def)

lemma read_local_ok_step:
  assumes L: "layout_ok f L" and off: "off < length f" "0 < count"
    and fl: "files_ok f L known files" and vs: "stream_ok f L known vs" and ws: "list_all (wait_ok f L known) ws"
    and IH: "\<And>w ws' files vs. ws = w # ws' \<Longrightarrow> files_ok f L known files \<Longrightarrow> stream_ok f L known vs \<Longrightarrow>
      list_all (wait_ok f L known) ws' \<Longrightarrow>
      local_result_ok f L known off count (read_local waiter files vs off count ws')"
  shows "local_result_ok f L known off count (read_local waiter files vs off count ws)"
proof (cases "part_at vs off")
  case None
  then show ?thesis using vs by (simp add: read_local_nowhere)
next
  case (Some i)
  have t: "vs_total vs = length f" "vs_total_parts vs = length L" using vs by (simp_all add: stream_ok_def)
  then have i: "i < length L" using part_at_Some [OF Some] by simp
  define v1 where v1_def: "v1 = open_part files i (note_part (i + 1) vs)"
  have v1: "stream_ok f L known v1" unfolding v1_def using open_part_ok [OF note_part_ok [OF vs] fl i] .
  show ?thesis
  proof (cases "vp_fd (vs_parts v1 ! i)")
    case fd: (Some c)
    obtain r bs v2 where rp: "read_part off (vs_parts v1 ! i) (clip_count (length f) off count) v1 = (r, bs, v2)"
      by (metis prod_cases3)
    have "v2 = v1 \<and> (r = -1 \<or> 0 < r \<and> r = int (length bs) \<and> length bs \<le> count \<and> bs = bslice off (length bs) f)"
      using read_part_exact [OF conjunct1 [OF stream_okD [OF v1 i]] L i _ _ rp] clip_bounds [OF off] by blast
    then show ?thesis using v1 rp t read_local_open [OF Some v1_def] fd by simp
  next
    case fd: None
    note R = read_local_wait [OF Some v1_def fd, of waiter count ws]
    show ?thesis
    proof (cases "waiter \<and> (\<exists>w ws' path. ws = w # ws' \<and> fst w (i + 1) = Some path)")
      case False
      then show ?thesis using R v1 by (auto split: list.splits option.splits)
    next
      case True
      then obtain w ws' path where w: "waiter" "ws = w # ws'" "fst w (i + 1) = Some path" by blast
      then have wok: "files_ok f L known (snd w)" "known i path" "list_all (wait_ok f L known) ws'"
        using ws i by (auto simp: wait_ok_def)
      note A = adopt_part_ok [OF v1 wok(1) i wok(2) refl]
      show ?thesis
      proof (cases "adopt_part (snd w) i path v1")
        case (Inl v2)
        then show ?thesis using A R w by simp
      next
        case (Inr v2)
        then show ?thesis using A R w IH [OF w(2) wok(1) _ wok(3)] by simp
      qed
    qed
  qed
qed

lemma read_local_ok:
  assumes L: "layout_ok f L" and off: "off < length f" "0 < count"
  shows "files_ok f L known files \<Longrightarrow> stream_ok f L known vs \<Longrightarrow> list_all (wait_ok f L known) ws \<Longrightarrow>
    local_result_ok f L known off count (read_local waiter files vs off count ws)"
proof (induction ws arbitrary: files vs rule: list.induct)
  case N: Nil
  show ?case by (rule read_local_ok_step [OF L off N(1,2)]) (use N in simp_all)
next
  case C: (Cons w ws)
  show ?case by (rule read_local_ok_step [OF L off C(2,3)]) (use C in auto)
qed

end
