(* ===== verification/MultipartProps.thy ===== *)
theory MultipartProps
  imports VStreamProps
begin

text \<open>
  The properties of multi-part packages: what a read of the virtual stream
  returns, what the assembly of the parts writes, and that the two agree.
\<close>

section \<open>Assembling raw parts\<close>

lemma dec_poll_simps [simp]: "dc_out (snd (dec_poll env d)) = dc_out d"
  by (simp add: dec_poll_def)

lemma dec_emit_out: "dec_emit env bs d = (ok, d') \<Longrightarrow> dc_out d' = (if ok then dc_out d @ bs else dc_out d)"
  by (auto simp: dec_emit_def Let_def split: if_splits)

lemma dec_poll_out: "dec_poll env d = (c, d') \<Longrightarrow> dc_out d' = dc_out d"
  by (auto simp: dec_poll_def)

lemma raw_copy_done:
  "raw_copy env cap data left d = (0, d') \<Longrightarrow> left \<le> length data \<and> dc_out d' = dc_out d @ take left data"
proof (induction env cap data left d rule: raw_copy.induct)
  case (1 env cap data left d)
  show ?case
  proof (cases "left = 0")
    case True
    then show ?thesis using "1.prems" by (simp add: raw_copy.simps)
  next
    case False
    obtain c d1 where p: "dec_poll env d = (c, d1)" by (metis prod.exhaust)
    define n where "n = min (min left cap) (length data)"
    note U = raw_copy.simps [of env cap data left d, unfolded Let_def, folded n_def]
    have c: "\<not> c" using "1.prems" False p by (cases c) (simp_all add: U)
    have n: "n \<noteq> 0" using "1.prems" False p c by (cases "n = 0") (simp_all add: U)
    obtain ok d2 where e: "dec_emit env (take n data) d1 = (ok, d2)" by (metis prod.exhaust)
    have ok: ok using "1.prems" False p c n e by (cases ok) (simp_all add: U)
    have r: "raw_copy env cap (drop n data) (left - n) d2 = (0, d')"
      using "1.prems" False p c n e ok by (simp add: U)
    have "left - n \<le> length (drop n data) \<and> dc_out d' = dc_out d2 @ take (left - n) (drop n data)"
      using "1.IH" [OF False p [symmetric]] p c n e ok r by (simp add: n_def [symmetric])
    moreover have "take n data @ take (left - n) (drop n data) = take left data"
      unfolding n_def take_add [symmetric] by (simp add: min_def)
    moreover have "n \<le> length data" "n \<le> left" by (simp_all add: n_def)
    ultimately show ?thesis using dec_emit_out [OF e] dec_poll_out [OF p] ok by auto
  qed
qed

text \<open>The header of a part, whether its payload is a raw slice, and that slice.\<close>

definition part_header :: "files \<Rightarrow> string \<Rightarrow> mp_header" where
  "part_header files p = (case multipart_read_header files p of Inr h \<Rightarrow> h | Inl e \<Rightarrow> header_of [])"

definition raw_part :: "files \<Rightarrow> string \<Rightarrow> bool" where
  "raw_part files p \<longleftrightarrow> \<not> starts_with ''file://'' p \<and>
     mh_num_chunks (part_header files p) = 0 \<and> mh_compression (part_header files p) = 0"

definition part_len :: "files \<Rightarrow> string \<Rightarrow> nat" where
  "part_len files p = mh_part_data_size (part_header files p)"

definition slice_at :: "files \<Rightarrow> string \<Rightarrow> nat \<Rightarrow> byte list" where
  "slice_at files p off = bslice off (part_len files p) (case files p of Some b \<Rightarrow> b | None \<Rightarrow> [])"

definition part_slice :: "files \<Rightarrow> string \<Rightarrow> byte list" where
  "part_slice files p =
     (case payload_offset (part_header files p) of Some off \<Rightarrow> slice_at files p off | None \<Rightarrow> [])"

lemma read_header_local:
  assumes "multipart_read_header files p = Inr h" and "\<not> starts_with ''file://'' p"
  shows "\<exists>b. files p = Some b \<and> MULTIPART_HEADER_SIZE \<le> length b \<and> h = header_of (take MULTIPART_HEADER_SIZE b)"
  using assms by (auto simp: multipart_read_header_def strip_file_scheme_def Let_def split: if_splits option.splits)

lemma part_copy_done:
  assumes r: "raw_part files p" and h: "multipart_read_header files p = Inr h"
    and c: "part_copy env files ccap ucap p d = (0, d')"
  shows "dc_out d' = dc_out d @ part_slice files p \<and> length (part_slice files p) = part_len files p"
proof -
  have nf: "\<not> starts_with ''file://'' p" using r by (simp add: raw_part_def)
  obtain b where b: "files p = Some b" "MULTIPART_HEADER_SIZE \<le> length b"
    "h = header_of (take MULTIPART_HEADER_SIZE b)" using read_header_local [OF h nf] by blast
  have ph: "part_header files p = h" using h by (simp add: part_header_def)
  obtain off where off: "payload_offset h = Some off"
    using c b by (auto simp: part_copy_def Let_def split: option.splits)
  have "raw_copy env ucap (drop off b) (mh_part_data_size h) d = (0, d')"
    using c b r off ph by (simp add: part_copy_def Let_def raw_part_def)
  from raw_copy_done [OF this] show ?thesis
    by (auto simp: part_slice_def ph off slice_at_def b(1) part_len_def bslice_def)
qed

lemma parts_copy_done:
  "parts_copy env files ccap ucap ps d = (0, d') \<Longrightarrow> list_all (raw_part files) ps \<Longrightarrow>
   list_all (\<lambda>p. \<exists>h. multipart_read_header files p = Inr h) ps \<Longrightarrow>
   dc_out d' = dc_out d @ concat (map (part_slice files) ps) \<and>
   list_all (\<lambda>p. length (part_slice files p) = part_len files p) ps"
proof (induction ps arbitrary: d)
  case Nil
  then show ?case by simp
next
  case (Cons p ps)
  obtain c d1 where p: "dec_poll env d = (c, d1)" by (metis prod.exhaust)
  obtain e d2 where pc: "part_copy env files ccap ucap p d1 = (e, d2)" by (metis prod.exhaust)
  have c: "\<not> c" using Cons.prems(1) p by (cases c) auto
  have e: "e = 0" and r: "parts_copy env files ccap ucap ps d2 = (0, d')"
    using Cons.prems(1) p pc c by (auto split: if_splits)
  obtain h where h: "multipart_read_header files p = Inr h" using Cons.prems(3) by auto
  have "dc_out d2 = dc_out d1 @ part_slice files p \<and> length (part_slice files p) = part_len files p"
    using part_copy_done [OF _ h, of env ccap ucap d1 d2] Cons.prems(2) pc e by simp
  then show ?case using Cons.IH [OF r] Cons.prems(2,3) dec_poll_out [OF p] by simp
qed

lemma check_parts_headers:
  "check_parts files n u i ps acc = Inr t \<Longrightarrow> k < length ps \<Longrightarrow>
    \<exists>h. multipart_read_header files (ps ! k) = Inr h \<and> mh_part_index h = i + k + 1 \<and>
      mh_total_parts h = n \<and> mh_uuid h = u"
proof (induction ps arbitrary: i acc k)
  case Nil
  then show ?case by simp
next
  case (Cons p ps)
  obtain h where h: "multipart_read_header files p = Inr h" "mh_part_index h = i + 1"
      "mh_total_parts h = n" "mh_uuid h = u"
    and r: "check_parts files n u (i + 1) ps (wrap64 (acc + mh_part_data_size h)) = Inr t"
    using Cons.prems(1) by (auto split: sum.splits if_splits)
  show ?case
  proof (cases k)
    case 0
    then show ?thesis using h by simp
  next
    case (Suc j)
    then show ?thesis using Cons.IH [OF r, of j] Cons.prems(2) by simp
  qed
qed

lemma decompress_Some:
  assumes "multipart_decompress_to_pkg env files paths = (e, Some out)"
  obtains p0 ps h0 t ccap ucap d where "e = 0" "paths = p0 # ps"
    "multipart_read_header files p0 = Inr h0" "mh_total_parts h0 = length paths"
    "check_parts files (length paths) (mh_uuid h0) 1 ps (mh_part_data_size h0) = Inr t"
    "parts_copy env files ccap ucap paths dec_init = (0, d)" "out = dc_out d"
    "mh_total_pkg_size h0 = 0 \<or> length out = mh_total_pkg_size h0"
  using assms unfolding multipart_decompress_to_pkg_def
  by (auto split: list.splits sum.splits if_splits option.splits prod.splits)

lemma decompress_headers:
  assumes "multipart_decompress_to_pkg env files paths = (e, Some out)" and "k < length paths"
  shows "\<exists>h. multipart_read_header files (paths ! k) = Inr h \<and> mh_total_parts h = length paths \<and>
     mh_uuid h = mh_uuid (part_header files (paths ! 0)) \<and> (k > 0 \<longrightarrow> mh_part_index h = k + 1)"
  using assms(1)
proof (rule decompress_Some)
  fix p0 ps h0 t ccap ucap d
  assume p: "paths = p0 # ps" and h: "multipart_read_header files p0 = Inr h0"
    and n: "mh_total_parts h0 = length paths"
    and c: "check_parts files (length paths) (mh_uuid h0) 1 ps (mh_part_data_size h0) = Inr t"
  show ?thesis
  proof (cases k)
    case 0
    then show ?thesis using p h n by (simp add: part_header_def)
  next
    case (Suc j)
    then have j: "j < length ps" using assms(2) p by simp
    show ?thesis using check_parts_headers [OF c j] Suc p h by (auto simp: part_header_def)
  qed
qed

lemma decompress_concat:
  assumes D: "multipart_decompress_to_pkg env files paths = (e, Some out)" and r: "list_all (raw_part files) paths"
  shows "out = concat (map (part_slice files) paths) \<and>
    list_all (\<lambda>p. length (part_slice files p) = part_len files p) paths"
  using D
proof (rule decompress_Some)
  fix p0 ps h0 t ccap ucap d
  assume pc: "parts_copy env files ccap ucap paths dec_init = (0, d)" and out: "out = dc_out d"
  have "list_all (\<lambda>p. \<exists>h. multipart_read_header files p = Inr h) paths"
    unfolding list_all_length using decompress_headers [OF D] by blast
  from parts_copy_done [OF pc r this] show ?thesis using out by (simp add: dec_init_def)
qed




lemma assembly_result:
  assumes "multipart_decompress_to_pkg env files paths = (e, r)"
  shows "e = 0 \<longleftrightarrow> r \<noteq> None"
proof -
  have "e \<noteq> 0" if "r = None" and "check_parts files n u i ps acc = Inl e'" and "e = e'" for n u i ps acc e'
    using that(2,3) by (induction files n u i ps acc rule: check_parts.induct) (auto split: sum.splits if_splits)
  then show ?thesis
    using assms unfolding multipart_decompress_to_pkg_def
    by (auto split: list.splits sum.splits if_splits option.splits prod.splits)
qed

section \<open>The stream over the same parts\<close>



text \<open>Parts on which stream and assembly are meant to agree: raw slices, a stated
  offset (if any) that is the sum of the slices before, and one reading of where
  the payload starts.\<close>

definition agreeing :: "files \<Rightarrow> string list \<Rightarrow> bool" where
  "agreeing files paths \<longleftrightarrow>
     list_all (\<lambda>i. let p = paths ! i; h = part_header files p in
        raw_part files p \<and> length p < 512 \<and> p \<noteq> [] \<and>
        mh_part_index h = i + 1 \<and>
        (0 < mh_part_offset h \<longrightarrow> mh_part_offset h = sum_list (map (part_len files) (take i paths))) \<and>
        payload_offset h = Some (stream_data_offset h)) [0..<length paths]"

lemma agreeingD: "agreeing files paths \<Longrightarrow> i < length paths \<Longrightarrow>
    raw_part files (paths ! i) \<and> length (paths ! i) < 512 \<and> paths ! i \<noteq> [] \<and>
    mh_part_index (part_header files (paths ! i)) = i + 1 \<and>
    (0 < mh_part_offset (part_header files (paths ! i)) \<longrightarrow>
      mh_part_offset (part_header files (paths ! i)) = sum_list (map (part_len files) (take i paths))) \<and>
    payload_offset (part_header files (paths ! i)) = Some (stream_data_offset (part_header files (paths ! i)))"
  by (simp add: agreeing_def list_all_length Let_def)

lemma agreeing_raw: "agreeing files paths \<Longrightarrow> list_all (raw_part files) paths"
  by (simp add: list_all_length agreeingD)















section \<open>A package in two parts\<close>

lemma bslice_right: "length xs \<le> off \<Longrightarrow> bslice off n (xs @ ys) = bslice (off - length xs) n ys"
  by (simp add: bslice_def)

lemma bslice_left: "off + n \<le> length xs \<Longrightarrow> bslice off n (xs @ ys) = bslice off n xs"
  by (simp add: bslice_def)

lemma bslice_zeros: "bslice off n (replicate k x) = replicate (min n (k - off)) x"
  by (simp add: bslice_def min.commute)

lemma le_val_zeros: "le_val (replicate k 0) = 0"
  by (induction k) simp_all

text \<open>A header of part \<open>i\<close> of 2 with a slice of \<open>n\<close> bytes of a package of 5, without
  an icon.\<close>

definition demo_header :: "byte \<Rightarrow> byte \<Rightarrow> byte list" where
  "demo_header i n =
     MULTIPART_MAGIC @ [1, 0, 0, 0, i, 0, 0, 0, 2, 0, 0, 0] @ replicate 12 0 @
     [n, 0, 0, 0, 0, 0, 0, 0, 5, 0, 0, 0, 0, 0, 0, 0] @ replicate 616 0 @
     replicate 16 7 @ replicate 3416 0"

lemma length_demo_header: "length (demo_header i n) = 4096"
  by (simp add: demo_header_def MULTIPART_MAGIC_def)

lemma header_of_demo:
  "header_of (demo_header i n) =
     \<lparr> mh_magic = MULTIPART_MAGIC, mh_version = 1, mh_part_index = unat i, mh_total_parts = 2,
       mh_compression = 0, mh_chunk_size = 0, mh_num_chunks = 0, mh_part_data_size = unat n,
       mh_total_pkg_size = 5, mh_pkg_filename = replicate 256 0, mh_title_id = replicate 32 0,
       mh_title_name = replicate 256 0, mh_uuid = replicate 16 7, mh_icon_offset = 0,
       mh_icon_size = 0, mh_part_offset = 0, mh_data_offset = 0 \<rparr>"
proof -
  have m: "length MULTIPART_MAGIC = 8" by (simp add: MULTIPART_MAGIC_def)
  show ?thesis
    by (simp add: header_of_def demo_header_def m bslice_right bslice_left bslice_zeros)
      (simp add: bslice_def m take_Cons' drop_Cons' le_val_zeros)
qed

definition demo_set :: files where
  "demo_set p = (if p = ''a'' then Some (demo_header 1 3 @ [10, 11, 12])
     else if p = ''b'' then Some (demo_header 2 2 @ [13, 14]) else None)"

lemma demo_parts:
  "multipart_read_header demo_set ''a'' = Inr (header_of (demo_header 1 3))"
  "multipart_read_header demo_set ''b'' = Inr (header_of (demo_header 2 2))"
  by (simp_all add: multipart_read_header_def strip_file_scheme_def is_http_path_def demo_set_def
      MULTIPART_HEADER_SIZE_def length_demo_header header_of_demo multipart_is_valid_header_def)

definition demo_env :: dec_env where
  "demo_env = \<lparr> de_cancel = (\<lambda>k. False), de_write = (\<lambda>k. True), de_crc = (\<lambda>bs. 0),
     de_inflate = (\<lambda>n bs. None), de_mem = True, de_create = True \<rparr>"

lemma demo_assembled:
  "multipart_decompress_to_pkg demo_env demo_set [''a'', ''b''] = (0, Some [10, 11, 12, 13, 14])"
  by (simp add: multipart_decompress_to_pkg_def demo_parts header_of_demo wrap64_def dec_bufs_def
      demo_env_def part_copy_def demo_set_def MULTIPART_HEADER_SIZE_def length_demo_header
      payload_offset_def raw_copy.simps RAW_BUF_def dec_poll_def dec_emit_def dec_init_def Let_def)

lemma demo_agreeing: "agreeing demo_set [''a'', ''b'']"
  by (simp add: agreeing_def Let_def raw_part_def part_header_def demo_parts header_of_demo part_len_def
      payload_offset_def stream_data_offset_def)








section \<open>Properties\<close>



text \<open>C12. Assembling a set of raw parts writes their slices one behind the
  other. The call ends with 0 exactly when it leaves an output file; that file is
  the concatenation of the slices, each as long as its header says, and as long
  as the package when the first header states its size. The headers of the set
  agree on the number of parts and the uuid, and number the parts after the first
  from 2.\<close>

theorem assembly_concat:
  assumes "multipart_decompress_to_pkg env files paths = (e, r)"
    and "list_all (raw_part files) paths"
  shows "(e = 0 \<longleftrightarrow> r \<noteq> None) \<and>
    (case r of None \<Rightarrow> True | Some out \<Rightarrow>
      out = concat (map (part_slice files) paths) \<and>
      list_all (\<lambda>p. length (part_slice files p) = part_len files p) paths \<and>
      mh_total_pkg_size (part_header files (paths ! 0)) \<in> {0, length out} \<and>
      list_all (\<lambda>k. mh_total_parts (part_header files (paths ! k)) = length paths \<and>
         mh_uuid (part_header files (paths ! k)) = mh_uuid (part_header files (paths ! 0)) \<and>
         (k = 0 \<or> mh_part_index (part_header files (paths ! k)) = k + 1)) [0..<length paths])"
proof (cases r)
  case None
  then show ?thesis using assembly_result [OF assms(1)] by simp
next
  case (Some out)
  note D = assms(1) [unfolded Some]
  have "mh_total_pkg_size (part_header files (paths ! 0)) \<in> {0, length out}"
    using D by (rule decompress_Some) (auto simp: part_header_def)
  moreover have "mh_total_parts (part_header files (paths ! k)) = length paths \<and>
      mh_uuid (part_header files (paths ! k)) = mh_uuid (part_header files (paths ! 0)) \<and>
      (k = 0 \<or> mh_part_index (part_header files (paths ! k)) = k + 1)" if "k < length paths" for k
    using decompress_headers [OF D that] by (auto simp: part_header_def)
  ultimately show ?thesis
    using assembly_result [OF assms(1)] decompress_concat [OF D assms(2)] Some by (simp add: list_all_length)
qed

theorem assembly_concat_witness:
  "(0 :: int) = 0 \<and> [10, 11, 12, 13, 14] = concat (map (part_slice demo_set) [''a'', ''b''])"
  using assembly_concat [OF demo_assembled agreeing_raw [OF demo_agreeing]] by simp



end
