(* ===== verification/StreamServer.thy ===== *)
theory StreamServer
  imports MultipartProps HttpText
begin

text \<open>
  The range server of \<open>src/stream_server.c\<close>: the session state \<open>g_ss\<close> (record
  \<open>ss\<close>), the parsing of a request, the reply to one request, the keep-alive loop
  of a connection, and starting and stopping a session. Sockets, clock and
  threads are the environment: what \<open>recv\<close> delivers is a list of events, the
  results of \<open>send_all\<close> and of the polls of \<open>running\<close> are functions of their
  number, and a failing \<open>send_all\<close> is recorded as having delivered nothing. The log
  calls are left out.
\<close>

section \<open>Session state\<close>

definition STREAM_SEND_CHUNK :: nat where "STREAM_SEND_CHUNK = 2048 * 1024"
definition STREAM_REQ_MAX :: nat where "STREAM_REQ_MAX = 16 * 1024"
definition STREAM_MAX_TRACKED_FDS :: nat where "STREAM_MAX_TRACKED_FDS = 32"
definition STREAM_MAX_REQ_PER_CONN :: nat where "STREAM_MAX_REQ_PER_CONN = 100"

text \<open>\<open>ss_vs\<close> names the heap object of the open stream.\<close>

record ss =
  ss_listen :: "nat option"
  ss_running :: bool
  ss_thread :: bool
  ss_vs :: "nat option"
  ss_refs :: nat
  ss_stopping :: bool
  ss_total :: nat
  ss_fds :: "nat option list"
  ss_name :: string
  ss_icon :: "byte list option"
  ss_icon_name :: string

definition ss_init :: ss where
  "ss_init =
     \<lparr> ss_listen = None, ss_running = False, ss_thread = False, ss_vs = None, ss_refs = 0,
       ss_stopping = False, ss_total = 0, ss_fds = replicate STREAM_MAX_TRACKED_FDS None,
       ss_name = [], ss_icon = None, ss_icon_name = [] \<rparr>"

text \<open>Tracked descriptors: the first free entry takes the new one.\<close>

fun fd_add :: "nat \<Rightarrow> nat option list \<Rightarrow> nat option list" where
  "fd_add fd [] = []"
| "fd_add fd (x # xs) = (if x = None then Some fd # xs else x # fd_add fd xs)"

definition stream_track_add :: "nat \<Rightarrow> ss \<Rightarrow> ss" where
  "stream_track_add fd s = s\<lparr>ss_fds := fd_add fd (ss_fds s)\<rparr>"

definition stream_track_remove :: "nat \<Rightarrow> ss \<Rightarrow> ss" where
  "stream_track_remove fd s = s\<lparr>ss_fds := map (\<lambda>x. if x = Some fd then None else x) (ss_fds s)\<rparr>"

definition stream_vs_acquire :: "ss \<Rightarrow> nat option \<times> ss" where
  "stream_vs_acquire s =
     (if ss_running s \<and> ss_vs s \<noteq> None then (ss_vs s, s\<lparr>ss_refs := ss_refs s + 1\<rparr>) else (None, s))"

definition stream_vs_release :: "ss \<Rightarrow> ss" where
  "stream_vs_release s = (if ss_refs s > 0 then s\<lparr>ss_refs := ss_refs s - 1\<rparr> else s)"

definition stream_server_set_session_name :: "string \<Rightarrow> ss \<Rightarrow> ss" where
  "stream_server_set_session_name nm s =
     s\<lparr>ss_name := (if nm = [] then [] else cstr_trunc 128 (c_basename nm))\<rparr>"

definition stream_server_set_icon :: "byte list option \<Rightarrow> string \<Rightarrow> bool \<Rightarrow> ss \<Rightarrow> ss" where
  "stream_server_set_icon data nm mem s =
     (let s1 = s\<lparr>ss_icon := None, ss_icon_name := []\<rparr> in
      case data of
        None \<Rightarrow> s1
      | Some d \<Rightarrow>
          if d \<noteq> [] \<and> nm \<noteq> [] \<and> mem
          then s1\<lparr>ss_icon := Some d, ss_icon_name := cstr_trunc 128 (c_basename nm)\<rparr> else s1)"

section \<open>The Range header\<close>

text \<open>The first line after a newline whose text, behind blanks, starts with
  \<open>range:\<close> in any case.\<close>

lemma strchr_length: "strchr s c = Some r \<Longrightarrow> r \<noteq> [] \<and> length r \<le> length s"
  by (auto simp: strchr_def Let_def length_dropWhile_le split: if_splits)

lemma range_line_less:
  assumes "strchr s c = Some r"
  shows "length (dropWhile P (tl r)) < length s"
proof -
  have "length (dropWhile P (tl r)) \<le> length (tl r)" by (rule length_dropWhile_le)
  also have "\<dots> < length r" using strchr_length [OF assms] by simp
  finally show ?thesis using strchr_length [OF assms] by simp
qed

function range_line :: "string \<Rightarrow> string option" where
  "range_line s =
     (case strchr s (CHR 0x0A) of
        None \<Rightarrow> None
      | Some r \<Rightarrow>
          let t = dropWhile (\<lambda>c. c = CHR '' '' \<or> c = CHR 0x09) (tl r) in
          if strncasecmp_eq t ''range:'' 6 then Some t else range_line t)"
  by pat_completeness auto
termination
  by (relation "measure length") (auto simp: range_line_less)

declare range_line.simps [simp del]

text \<open>The earlier of two matches in the same text.\<close>

definition earlier :: "string option \<Rightarrow> string option \<Rightarrow> string option" where
  "earlier a b = (case (a, b) of
     (Some x, Some y) \<Rightarrow> if length y > length x then Some y else Some x
   | (None, _) \<Rightarrow> b
   | (_, None) \<Rightarrow> a)"

definition range_header :: "string \<Rightarrow> string option" where
  "range_header req =
     (case range_line req of
        Some t \<Rightarrow> Some t
      | None \<Rightarrow> earlier (earlier (strstr req ''Range:'') (strstr req ''range:'')) (strstr req ''RANGE:''))"

text \<open>The end of \<open>bytes=a-b\<close>: digits on the same header line, or the last byte.\<close>

definition range_end :: "string \<Rightarrow> string option \<Rightarrow> nat \<Rightarrow> nat" where
  "range_end q le tot =
     (let last = (if tot > 0 then tot - 1 else 0);
          on_line = (case le of None \<Rightarrow> True | Some l \<Rightarrow> length q > length l)
      in if q \<noteq> [] \<and> on_line \<and> c_isdigit (hd q) then fst (strtoul10 q) else last)"

text \<open>\<open>find_range\<close>: 1 with the range, 0 without a range, -1 when it cannot be
  satisfied. Positions in the request are compared by the text that follows them.\<close>

definition range_result :: "nat \<Rightarrow> nat \<Rightarrow> nat \<Rightarrow> int \<times> nat \<times> nat" where
  "range_result tot start e =
     (if tot = 0 \<or> start > e \<or> start \<ge> tot then (-1, 0, 0)
      else (1, start, if e \<ge> tot then tot - 1 else e))"

definition find_range :: "string \<Rightarrow> nat \<Rightarrow> int \<times> nat \<times> nat" where
  "find_range req tot =
     (case range_header req of
        None \<Rightarrow> (0, 0, 0)
      | Some rl \<Rightarrow>
        let le = strstr rl CRLF in
        (case strstr rl ''bytes='' of
           None \<Rightarrow> (0, 0, 0)
         | Some b0 \<Rightarrow>
             if (case le of None \<Rightarrow> False | Some l \<Rightarrow> length b0 < length l) then (0, 0, 0)
             else
             let b = drop 6 b0 in
             (case strchr b (CHR ''-'') of
                None \<Rightarrow> (0, 0, 0)
              | Some dash \<Rightarrow>
                  if (case le of None \<Rightarrow> False | Some l \<Rightarrow> length dash < length l) then (0, 0, 0)
                  else if length dash = length b then
                    (let n = fst (strtoul10 (tl dash)) in
                     if tot = 0 then (-1, 0, 0)
                     else
                     let suffix = (if n > tot then tot else n) in
                     if suffix = 0 then (-1, 0, 0)
                     else range_result tot (tot - suffix) (tot - 1))
                  else range_result tot (fst (strtoul10 b)) (range_end (tl dash) le tot))))"

section \<open>One request\<close>

text \<open>The environment of a connection: the results of \<open>send_all\<close> and of the polls
  of \<open>running\<close> by their number, the date, and whether the icon copy and the body
  buffer can be allocated.\<close>

record serve_env =
  se_send :: "nat \<Rightarrow> bool"
  se_running :: "nat \<Rightarrow> bool"
  se_date :: string
  se_icon_mem :: bool
  se_body_mem :: bool

record conn_st =
  cs_out :: "byte list"
  cs_sends :: nat
  cs_polls :: nat
  cs_streamed :: nat

definition conn_st_init :: conn_st where
  "conn_st_init = \<lparr> cs_out = [], cs_sends = 0, cs_polls = 0, cs_streamed = 0 \<rparr>"

definition bytes_of :: "string \<Rightarrow> byte list" where
  "bytes_of s = map byte_of_char s"

definition send_all :: "serve_env \<Rightarrow> byte list \<Rightarrow> conn_st \<Rightarrow> bool \<times> conn_st" where
  "send_all env bs c =
     (let c1 = c\<lparr>cs_sends := cs_sends c + 1\<rparr> in
      if se_send env (cs_sends c) then (True, c1\<lparr>cs_out := cs_out c @ bs\<rparr>) else (False, c1))"

definition poll_running :: "serve_env \<Rightarrow> conn_st \<Rightarrow> bool \<times> conn_st" where
  "poll_running env c = (se_running env (cs_polls c), c\<lparr>cs_polls := cs_polls c + 1\<rparr>)"

text \<open>The request line: method, path, version and the path without its query.\<close>

definition request_line :: "string \<Rightarrow> string" where
  "request_line req = take 511 (takeWhile (\<lambda>c. c \<noteq> CHR 0x0D \<and> c \<noteq> CHR 0x0A) req)"

definition request_words :: "string \<Rightarrow> string \<times> string \<times> string" where
  "request_words req =
     (case scan_word 15 (request_line req) of
        (meth, r1) \<Rightarrow> (case scan_word 511 r1 of
           (path, r2) \<Rightarrow> (meth, path, fst (scan_word 15 r2))))"

definition route_of :: "string \<Rightarrow> string" where
  "route_of path = takeWhile (\<lambda>c. c \<noteq> CHR ''?'') path"

definition stream_header_value :: "string \<Rightarrow> string \<Rightarrow> nat \<Rightarrow> string option" where
  "stream_header_value req name out_sz = has_header req name out_sz"

definition keep_wanted :: "string \<Rightarrow> string \<Rightarrow> bool" where
  "keep_wanted req version =
     (case stream_header_value req ''Connection'' 96 of
        None \<Rightarrow> version = ''HTTP/1.1''
      | Some v \<Rightarrow> strcasestr v ''close'' = None \<and>
          (strcasestr v ''keep-alive'' \<noteq> None \<or> version = ''HTTP/1.1''))"

definition conn_tok :: "bool \<Rightarrow> string" where
  "conn_tok keep = (if keep then ''keep-alive'' else ''close'')"

definition is_pkg_name :: "string \<Rightarrow> bool" where
  "is_pkg_name base =
     (length base > 4 \<and> (let e = drop (length base - 4) base in
        hd e = CHR ''.'' \<and> strcasecmp_eq (tl e) ''pkg''))"

text \<open>What a request asks for.\<close>

datatype target = BadMethod | NotFound | Icon "byte list" | Package

definition serve_target :: "bool \<Rightarrow> ss \<Rightarrow> string \<Rightarrow> string \<Rightarrow> target" where
  "serve_target icon_mem s meth route =
     (if meth \<noteq> ''GET'' \<and> meth \<noteq> ''HEAD'' then BadMethod
      else if \<not> starts_with ''/stream/'' route then NotFound
      else
      let base = c_basename route in
      case (if ss_icon_name s \<noteq> [] \<and> base = ss_icon_name s \<and> icon_mem then ss_icon s else None) of
        Some d \<Rightarrow> Icon d
      | None \<Rightarrow>
          if ss_name s \<noteq> [] then (if base \<noteq> ss_name s then NotFound else Package)
          else if \<not> is_pkg_name base then NotFound else Package)"

text \<open>The header texts.\<close>

definition lines_of :: "string list \<Rightarrow> string" where
  "lines_of ls = concat (map (\<lambda>l. l @ CRLF) ls) @ CRLF"

definition head_405 :: "string \<Rightarrow> string" where
  "head_405 tok = lines_of [''HTTP/1.1 405 Method Not Allowed'', ''Allow: GET, HEAD'',
     ''Content-Length: 0'', ''Connection: '' @ tok]"

definition head_404 :: "string \<Rightarrow> string" where
  "head_404 tok = lines_of [''HTTP/1.1 404 Not Found'', ''Content-Length: 0'', ''Connection: '' @ tok]"

definition head_icon :: "nat \<Rightarrow> string \<Rightarrow> string" where
  "head_icon n tok = lines_of [''HTTP/1.1 200 OK'', ''Content-Type: image/png'',
     ''Content-Length: '' @ dec_str n, ''Connection: '' @ tok]"

definition head_416 :: "nat \<Rightarrow> string \<Rightarrow> string" where
  "head_416 tot tok = lines_of [''HTTP/1.1 416 Range Not Satisfiable'',
     ''Content-Range: bytes */'' @ dec_str tot, ''Accept-Ranges: bytes'', ''Content-Length: 0'',
     ''Connection: '' @ tok]"

definition last_modified :: string where
  "last_modified = ''Last-Modified: Wed, 01 Jan 2025 00:00:00 GMT''"

definition disposition :: string where
  "disposition = ''Content-Disposition: attachment; filename='' @ [CHR 0x22] @ ''package.pkg'' @ [CHR 0x22]"

definition head_206 :: "string \<Rightarrow> nat \<Rightarrow> nat \<Rightarrow> nat \<Rightarrow> string \<Rightarrow> string" where
  "head_206 date start e tot tok = lines_of [''HTTP/1.1 206 Partial Content'', ''Date: '' @ date,
     last_modified, ''Content-Type: application/octet-stream'', ''Accept-Ranges: bytes'',
     ''Content-Length: '' @ dec_str (e - start + 1),
     ''Content-Range: bytes '' @ dec_str start @ ''-'' @ dec_str e @ ''/'' @ dec_str tot,
     disposition, ''Access-Control-Allow-Origin: *'', ''Connection: '' @ tok]"

definition head_200 :: "string \<Rightarrow> nat \<Rightarrow> string \<Rightarrow> string" where
  "head_200 date tot tok = lines_of [''HTTP/1.1 200 OK'', ''Date: '' @ date,
     last_modified, ''Content-Type: application/octet-stream'', ''Accept-Ranges: bytes'',
     ''Content-Length: '' @ dec_str tot, disposition, ''Access-Control-Allow-Origin: *'',
     ''Connection: '' @ tok]"

text \<open>The body. A read that never comes back parks the request; a read result of
  \<open>r\<close> bytes is sent as the first \<open>r\<close> bytes of the buffer.\<close>

datatype 's body_result = BodyDone (bd_off: nat) (bd_src: 's) (bd_conn: conn_st) | BodyParked conn_st

type_synonym 's reader = "'s \<Rightarrow> nat \<Rightarrow> nat \<Rightarrow> (int \<times> byte list \<times> 's) option"

function body_loop :: "'s reader \<Rightarrow> serve_env \<Rightarrow> nat \<Rightarrow> nat \<Rightarrow> nat \<Rightarrow> 's \<Rightarrow> conn_st \<Rightarrow> 's body_result" where
  "body_loop read env chunk off e s c =
     (if e < off then BodyDone off s c
      else
      case poll_running env c of
        (False, c1) \<Rightarrow> BodyDone off s c1
      | (True, c1) \<Rightarrow>
        (case read s off (if e - off + 1 > chunk then chunk else e - off + 1) of
           None \<Rightarrow> BodyParked c1
         | Some (r, bs, s1) \<Rightarrow>
             if r \<le> 0 then BodyDone off s1 c1
             else
             case send_all env (take (nat r) bs) c1 of
               (False, c2) \<Rightarrow> BodyDone off s1 c2
             | (True, c2) \<Rightarrow> body_loop read env chunk (off + nat r) e s1
                              (c2\<lparr>cs_streamed := cs_streamed c2 + nat r\<rparr>)))"
  by pat_completeness auto
termination
  by (relation "measure (\<lambda>(read, env, chunk, off, e, s, c). Suc e - off)") auto

declare body_loop.simps [simp del]

datatype 's serve_result = Served (sv_keep: bool) (sv_src: 's) (sv_conn: conn_st) | ServeParked conn_st

text \<open>A reply without a body of the package.\<close>

definition short_reply :: "serve_env \<Rightarrow> bool \<Rightarrow> string \<Rightarrow> byte list \<Rightarrow> 's \<Rightarrow> conn_st \<Rightarrow> 's serve_result" where
  "short_reply env keep hdr body s c =
     (case send_all env (bytes_of hdr) c of
        (False, c1) \<Rightarrow> Served False s c1
      | (True, c1) \<Rightarrow>
          if body = [] then Served keep s c1
          else (case send_all env body c1 of (ok, c2) \<Rightarrow> Served (ok \<and> keep) s c2))"

text \<open>The package reply: header, and for GET the body, for which the stream must be
  acquired.\<close>

definition package_reply ::
  "'s reader \<Rightarrow> serve_env \<Rightarrow> ss \<Rightarrow> bool \<Rightarrow> bool \<Rightarrow> string \<Rightarrow> nat \<Rightarrow> nat \<Rightarrow> 's \<Rightarrow> conn_st \<Rightarrow> 's serve_result" where
  "package_reply read env g is_head keep hdr start e s c =
     (if length hdr \<ge> 1024 then Served False s c
      else
      case send_all env (bytes_of hdr) c of
        (False, c1) \<Rightarrow> Served False s c1
      | (True, c1) \<Rightarrow>
          if is_head then Served keep s c1
          else if \<not> se_body_mem env then Served False s c1
          else if fst (stream_vs_acquire g) = None then Served False s c1
          else
          case body_loop read env STREAM_SEND_CHUNK start e s c1 of
            BodyParked c2 \<Rightarrow> ServeParked c2
          | BodyDone off s1 c2 \<Rightarrow> Served (off > e \<and> keep) s1 c2)"

definition serve_one_request ::
  "'s reader \<Rightarrow> serve_env \<Rightarrow> ss \<Rightarrow> string \<Rightarrow> 's \<Rightarrow> conn_st \<Rightarrow> 's serve_result" where
  "serve_one_request read env g req s c =
     (case request_words req of
        (meth, path, version) \<Rightarrow>
          let keep = keep_wanted req version; tok = conn_tok keep in
          (case serve_target (se_icon_mem env) g meth (route_of path) of
             BadMethod \<Rightarrow> short_reply env keep (head_405 tok) [] s c
           | NotFound \<Rightarrow> short_reply env keep (head_404 tok) [] s c
           | Icon d \<Rightarrow> short_reply env keep (head_icon (length d) tok) (if meth = ''GET'' then d else []) s c
           | Package \<Rightarrow>
               let tot = ss_total g in
               (case find_range req tot of
                  (rr, start, e) \<Rightarrow>
                    if rr < 0 then short_reply env keep (head_416 tot tok) [] s c
                    else if rr = 1
                    then package_reply read env g (meth = ''HEAD'') keep
                           (head_206 (se_date env) start e tot tok) start e s c
                    else package_reply read env g (meth = ''HEAD'') keep
                           (head_200 (se_date env) tot tok) 0 (if tot > 0 then tot - 1 else 0) s c)))"

section \<open>A connection\<close>

text \<open>What \<open>recv\<close> delivers; when the list is over the receive times out.\<close>

datatype recv_ev = Data string | Closed | Failed

definition c_str :: "string \<Rightarrow> string" where
  "c_str b = takeWhile (\<lambda>c. c \<noteq> CHR 0x00) b"

text \<open>Receiving until the buffer holds a blank line or is full; the result says
  whether the receive failed.\<close>

function collect :: "string \<Rightarrow> recv_ev list \<Rightarrow> string \<times> bool \<times> recv_ev list" where
  "collect buf evs =
     (if length buf \<ge> STREAM_REQ_MAX then (buf, False, evs)
      else
      case evs of
        [] \<Rightarrow> (buf, True, [])
      | Failed # es \<Rightarrow> (buf, True, es)
      | Closed # es \<Rightarrow> (buf, False, evs)
      | Data d # es \<Rightarrow>
          let n = min (length d) (STREAM_REQ_MAX - length buf);
              buf1 = buf @ take n d;
              es1 = (if n < length d then Data (drop n d) # es else es)
          in if n = 0 then (buf, False, evs)
             else if strstr (c_str buf1) crlf2 \<noteq> None then (buf1, False, es1)
             else collect buf1 es1)"
  by pat_completeness auto
termination
  by (relation "measure (\<lambda>(buf, evs). STREAM_REQ_MAX - length buf)") (auto simp: min_def intro!: diff_less_mono2)

declare collect.simps [simp del]

text \<open>Splitting the buffer behind the blank line: the request, the bytes carried
  over to the next one, and whether the request was cut off.\<close>

definition split_request :: "string \<Rightarrow> string \<times> string \<times> bool" where
  "split_request buf =
     (case strstr (c_str buf) crlf2 of
        None \<Rightarrow> (buf, [], True)
      | Some r \<Rightarrow>
          let n = length (c_str buf) - length r + 4 in (take n buf, drop n buf, False))"

text \<open>The keep-alive loop over at most \<open>n\<close> requests; \<open>served\<close> counts them.\<close>

datatype 's conn_result = ConnDone nat 's conn_st | ConnParked conn_st

fun conn_loop ::
  "'s reader \<Rightarrow> serve_env \<Rightarrow> ss \<Rightarrow> nat \<Rightarrow> string \<Rightarrow> recv_ev list \<Rightarrow> nat \<Rightarrow> 's \<Rightarrow> conn_st \<Rightarrow> 's conn_result" where
  "conn_loop read env g 0 carry evs served s c = ConnDone served s c"
| "conn_loop read env g (Suc n) carry evs served s c =
     (case poll_running env c of
        (False, c1) \<Rightarrow> ConnDone served s c1
      | (True, c1) \<Rightarrow>
        (case (if carry = [] \<or> strstr (c_str carry) crlf2 = None then collect carry evs
               else (carry, False, evs)) of
           (buf, failed, evs1) \<Rightarrow>
             if buf = [] \<or> failed then ConnDone served s c1
             else
             case split_request buf of
               (req, carry1, overflow) \<Rightarrow>
                 (case serve_one_request read env g (c_str req) s c1 of
                    ServeParked c2 \<Rightarrow> ConnParked c2
                  | Served keep s1 c2 \<Rightarrow>
                      if overflow \<or> \<not> keep then ConnDone (served + 1) s1 c2
                      else conn_loop read env g n carry1 evs1 (served + 1) s1 c2)))"

definition serve_connection ::
  "'s reader \<Rightarrow> serve_env \<Rightarrow> ss \<Rightarrow> recv_ev list \<Rightarrow> 's \<Rightarrow> conn_st \<Rightarrow> 's conn_result" where
  "serve_connection read env g evs s c = conn_loop read env g STREAM_MAX_REQ_PER_CONN [] evs 0 s c"

text \<open>The worker of one accepted connection: its descriptor is tracked while it is
  served.\<close>

definition connection_worker ::
  "'s reader \<Rightarrow> serve_env \<Rightarrow> nat \<Rightarrow> recv_ev list \<Rightarrow> 's \<Rightarrow> ss \<Rightarrow> 's conn_result \<times> ss" where
  "connection_worker read env fd evs s g =
     (let g1 = stream_track_add fd g
      in (serve_connection read env g1 evs s conn_st_init, stream_track_remove fd g1))"

section \<open>Starting and stopping\<close>

text \<open>What \<open>stream_server_session_start_ex\<close> meets: the memory, the open stream as
  a fresh heap object with its size, the socket calls and the thread. The listing
  of closed streams is what the call frees again.\<close>

record start_env =
  st_mem :: bool
  st_open :: "(nat \<times> nat) option"
  st_socket :: "nat option"
  st_bind :: bool
  st_listen :: bool
  st_thread :: bool

text \<open>Stopping in three steps: under the lock; the wait for the references to
  drain; under the lock again. The result of the first step is the list of
  descriptors to shut down.\<close>

definition stop_begin :: "ss \<Rightarrow> nat list \<times> ss" where
  "stop_begin s =
     (let s1 = (if ss_running s \<or> ss_thread s
                then s\<lparr>ss_running := False, ss_stopping := True, ss_thread := False\<rparr> else s)
      in (List.map_filter id (ss_fds s),
          s1\<lparr>ss_listen := None, ss_fds := map (\<lambda>x. None) (ss_fds s)\<rparr>))"

definition stop_ready :: "ss \<Rightarrow> bool" where
  "stop_ready s \<longleftrightarrow> ss_refs s = 0"

definition stop_finish :: "ss \<Rightarrow> nat option \<times> ss" where
  "stop_finish s =
     (ss_vs s, s\<lparr>ss_vs := None, ss_icon := None, ss_icon_name := [], ss_stopping := False,
                 ss_total := 0, ss_name := []\<rparr>)"

definition start_session :: "start_env \<Rightarrow> string \<Rightarrow> ss \<Rightarrow> int \<times> nat option \<times> ss" where
  "start_session env nm s =
     (if \<not> st_mem env then (-1, None, s)
      else
      case st_open env of
        None \<Rightarrow> (-1, None, s)
      | Some (obj, len) \<Rightarrow>
        (case st_socket env of
           None \<Rightarrow> (-1, Some obj, s)
         | Some fd \<Rightarrow>
             if \<not> st_bind env \<or> \<not> st_listen env then (-1, Some obj, s)
             else
             let s1 = s\<lparr>ss_vs := Some obj, ss_refs := 0, ss_stopping := False, ss_total := len,
                        ss_listen := Some fd, ss_running := True, ss_icon := None, ss_icon_name := [],
                        ss_name := (if nm = [] then [] else cstr_trunc 128 (c_basename nm))\<rparr>
             in if \<not> st_thread env
                then (-1, Some obj, s1\<lparr>ss_running := False, ss_listen := None, ss_vs := None,
                                    ss_total := 0, ss_name := []\<rparr>)
                else (0, None, s1\<lparr>ss_thread := True\<rparr>)))"

text \<open>The whole call on a session without requests in flight: it stops a running
  session first; the freed objects are listed.\<close>

definition stop_session :: "ss \<Rightarrow> nat option \<times> ss" where
  "stop_session s = stop_finish (snd (stop_begin s))"

definition stream_server_session_start_ex ::
  "start_env \<Rightarrow> string \<Rightarrow> string \<Rightarrow> ss \<Rightarrow> int \<times> nat option list \<times> ss" where
  "stream_server_session_start_ex env path nm s =
     (if path = [] then (-1, [], s)
      else
      case (if ss_running s then stop_session s else (None, s)) of
        (fr, s1) \<Rightarrow> (case start_session env nm s1 of (r, fr2, s2) \<Rightarrow> (r, [fr, fr2], s2)))"

end
