(* ===== verification/StreamServerProps.thy ===== *)
theory StreamServerProps
  imports StreamServer LiveProps
begin

text \<open>
  The range server: a source of package bytes as an interface, its clients (the
  body loop, the reply to a request, a connection), and its providers (the local
  package stream and the live session); then the reference count that keeps the
  stream alive while it is read.
\<close>

section \<open>The reply a request asks for\<close>

lemma find_range_cases: "find_range req tot = (rr, s, e) \<Longrightarrow>
    (rr = -1 \<or> rr = 0) \<and> s = 0 \<and> e = 0 \<or> rr = 1 \<and> s \<le> e \<and> e < tot"
  by (auto simp: find_range_def range_result_def Let_def split: option.splits if_splits)

text \<open>The complete message: the header and the bytes it announces, from the package \<open>f\<close>.\<close>

definition full_reply :: "bool \<Rightarrow> string \<Rightarrow> ss \<Rightarrow> byte list \<Rightarrow> string \<Rightarrow> byte list" where
  "full_reply icon_mem date g f req =
     (case request_words req of
        (meth, path, version) \<Rightarrow>
          let tok = conn_tok (keep_wanted req version); get = (meth = ''GET'') in
          (case serve_target icon_mem g meth (route_of path) of
             BadMethod \<Rightarrow> bytes_of (head_405 tok)
           | NotFound \<Rightarrow> bytes_of (head_404 tok)
           | Icon d \<Rightarrow> bytes_of (head_icon (length d) tok) @ (if get then d else [])
           | Package \<Rightarrow>
               (case find_range req (length f) of
                  (rr, start, e) \<Rightarrow>
                    if rr < 0 then bytes_of (head_416 (length f) tok)
                    else if rr = 1
                    then bytes_of (head_206 date start e (length f) tok) @
                           (if get then bslice start (e - start + 1) f else [])
                    else bytes_of (head_200 date (length f) tok) @ (if get then f else []))))"

text \<open>A reply of which a part went out, and all of it when the connection is kept.\<close>

definition delivered :: "byte list \<Rightarrow> bool \<Rightarrow> conn_st \<Rightarrow> conn_st \<Rightarrow> bool" where
  "delivered reply keep c c' \<longleftrightarrow>
     (\<exists>n\<le>length reply. cs_out c' = cs_out c @ take n reply \<and> (keep \<longrightarrow> n = length reply))"

text \<open>The complete replies to all requests but the last and the first \<open>k\<close> bytes of
  the reply to the last.\<close>

definition transcript :: "(string \<Rightarrow> byte list) \<Rightarrow> string list \<Rightarrow> nat \<Rightarrow> byte list" where
  "transcript reply reqs k =
     (if reqs = [] then [] else concat (map reply (butlast reqs)) @ take k (reply (last reqs)))"

lemma deliveredI: "n \<le> length reply \<Longrightarrow> cs_out c' = cs_out c @ take n reply \<Longrightarrow>
    (keep \<Longrightarrow> n = length reply) \<Longrightarrow> delivered reply keep c c'"
  unfolding delivered_def by blast

lemma delivered_none: "cs_out c' = cs_out c \<Longrightarrow> delivered reply False c c'"
  by (rule deliveredI [of 0]) simp_all

lemma delivered_all: "cs_out c' = cs_out c @ reply \<Longrightarrow> delivered reply keep c c'"
  by (rule deliveredI [of "length reply"]) simp_all

lemma delivered_head: "cs_out c' = cs_out c @ bytes_of h \<Longrightarrow> delivered (bytes_of h @ b) False c c'"
  by (rule deliveredI [of "length (bytes_of h)"]) simp_all

lemma send_all_cases:
  assumes "send_all env bs c = (ok, c')"
  shows "cs_out c' = (if ok then cs_out c @ bs else cs_out c) \<and> cs_streamed c' = cs_streamed c"
  using assms by (auto simp: send_all_def Let_def split: if_splits)

lemma short_reply_delivered:
  assumes "short_reply env keep hdr body s c = Served k s' c'"
  shows "s' = s \<and> delivered (bytes_of hdr @ body) k c c' \<and> (k \<longrightarrow> keep)"
proof -
  obtain ok c1 where s1: "send_all env (bytes_of hdr) c = (ok, c1)" by (metis prod.exhaust)
  obtain ok2 c2 where s2: "send_all env body c1 = (ok2, c2)" by (metis prod.exhaust)
  note S = send_all_cases [OF s1] send_all_cases [OF s2]
  show ?thesis
  proof (cases "ok \<and> body \<noteq> [] \<and> ok2")
    case True
    then have "cs_out c' = cs_out c @ bytes_of hdr @ body" "s' = s" "k = keep"
      using assms s1 s2 S by (auto simp: short_reply_def)
    then show ?thesis using delivered_all by blast
  next
    case False
    then show ?thesis using assms s1 s2 S delivered_none delivered_head delivered_all
      by (auto simp: short_reply_def split: if_splits)
  qed
qed

lemma short_reply_served: "short_reply env keep hdr body s c \<noteq> ServeParked c'"
  by (auto simp: short_reply_def split: prod.splits bool.splits)

section \<open>A source of package bytes\<close>

locale byte_source =
  fixes read :: "'s reader" and good :: "'s \<Rightarrow> bool" and f :: "byte list"
  assumes read_exact: "good s \<Longrightarrow> off < length f \<Longrightarrow> 0 < n \<Longrightarrow> read s off n = Some (r, bs, s') \<Longrightarrow>
    good s' \<and> (r \<le> 0 \<or> r = int (length bs) \<and> length bs \<le> n \<and> bs = bslice off (length bs) f)"
begin

lemma read_step:
  assumes "good s" "e < length f" "off \<le> e" "0 < chunk"
    and "read s off (if e - off + 1 > chunk then chunk else e - off + 1) = Some (r, bs, s')" "0 < r"
  shows "good s' \<and> take (nat r) bs = bslice off (nat r) f \<and> off + nat r \<le> e + 1"
proof -
  let ?n = "if e - off + 1 > chunk then chunk else e - off + 1"
  have n: "0 < ?n" "?n \<le> e - off + 1" using assms(4) by auto
  have "off < length f" using assms by simp
  from read_exact [OF assms(1) this n(1) assms(5)] assms(6)
  have g: "good s'" "r = int (length bs)" "length bs \<le> ?n" "bs = bslice off (length bs) f" by auto
  then show ?thesis using n(2) assms(3) by (simp del: n split del: if_split)
qed

text \<open>The body loop sends a prefix of the range, and all of it when it reports an
  offset beyond the end.\<close>

lemma body_exact:
  "good s \<Longrightarrow> e < length f \<Longrightarrow> 0 < chunk \<Longrightarrow> off \<le> e + 1 \<Longrightarrow>
   body_loop read env chunk off e s c = BodyDone off' s' c' \<Longrightarrow>
   good s' \<and> off \<le> off' \<and> off' \<le> e + 1 \<and> cs_out c' = cs_out c @ bslice off (off' - off) f \<and>
   cs_streamed c' = cs_streamed c + (off' - off)"
proof (induction "Suc e - off" arbitrary: off s c rule: less_induct)
  case less
  note U = body_loop.simps [of read env chunk off e s c]
  show ?case
  proof (cases "e < off")
    case True
    then show ?thesis using less.prems by (simp add: U)
  next
    case False
    obtain run c1 where p: "poll_running env c = (run, c1)" by (metis prod.exhaust)
    then have c1: "cs_out c1 = cs_out c" "cs_streamed c1 = cs_streamed c" by (auto simp: poll_running_def)
    show ?thesis
    proof (cases "run \<and> read s off (if e - off + 1 > chunk then chunk else e - off + 1) \<noteq> None")
      case False': False
      show ?thesis
      proof (cases run)
        case True
        then have "read s off (if e - off + 1 > chunk then chunk else e - off + 1) = None" using False' by blast
        then show ?thesis using less.prems False p True by (simp add: U)
      next
        case r: False
        then show ?thesis using less.prems False p c1 by (simp add: U)
      qed
    next
      case True
      then obtain r bs s1 where rd: "read s off (if e - off + 1 > chunk then chunk else e - off + 1) = Some (r, bs, s1)"
        and run by auto
      show ?thesis
      proof (cases "r \<le> 0")
        case r: True
        have "good s1" using read_exact [OF less.prems(1) _ _ rd] less.prems(2,3) False by auto
        then show ?thesis using less.prems False p c1 rd r \<open>run\<close> by (simp add: U)
      next
        case r: False
        note S = read_step [OF less.prems(1,2) _ less.prems(3) rd] False r
        then have S: "good s1" "take (nat r) bs = bslice off (nat r) f" "off + nat r \<le> e + 1" by simp_all
        obtain ok c2 where sd: "send_all env (bslice off (nat r) f) c1 = (ok, c2)" by (metis prod.exhaust)
        then have c2: "cs_streamed c2 = cs_streamed c1" "ok \<Longrightarrow> cs_out c2 = cs_out c1 @ bslice off (nat r) f"
          "\<not> ok \<Longrightarrow> cs_out c2 = cs_out c1" by (auto simp: send_all_def Let_def split: if_splits)
        show ?thesis
        proof (cases ok)
          case ok: False
          then show ?thesis using less.prems False p c1 rd r \<open>run\<close> S sd c2 by (simp add: U)
        next
          case ok: True
          define c3 where "c3 = c2\<lparr>cs_streamed := cs_streamed c2 + nat r\<rparr>"
          have b: "body_loop read env chunk (off + nat r) e s1 c3 = BodyDone off' s' c'"
            using less.prems(5) False p rd r \<open>run\<close> S sd ok by (simp add: U c3_def)
          have m: "Suc e - (off + nat r) < Suc e - off" using r False by simp
          note I = less.hyps [OF m S(1) less.prems(2,3) S(3) b]
          have "bslice off (nat r) f @ bslice (off + nat r) (off' - (off + nat r)) f = bslice off (off' - off) f"
            using I by (simp add: bslice_append)
          then show ?thesis using I c2 ok c1 by (simp add: c3_def)
        qed
      qed
    qed
  qed
qed

lemma package_exact:
  assumes g: "good s" and e: "start \<le> e" "e < length f"
    and r: "package_reply read env gs is_head keep hdr start e s c = Served k s' c'"
  shows "good s' \<and> (k \<longrightarrow> keep) \<and>
    delivered (bytes_of hdr @ (if is_head then [] else bslice start (e - start + 1) f)) k c c'"
proof -
  obtain ok c1 where s1: "send_all env (bytes_of hdr) c = (ok, c1)" by (metis prod.exhaust)
  note S = send_all_cases [OF s1]
  show ?thesis
  proof (cases "length hdr < 1024 \<and> ok \<and> \<not> is_head \<and> se_body_mem env \<and> fst (stream_vs_acquire gs) \<noteq> None")
    case False
    then show ?thesis
      using r s1 S g delivered_none delivered_head [of c' c hdr] delivered_all [of c' c "bytes_of hdr"]
      by (auto simp: package_reply_def split: if_splits bool.splits)
  next
    case True
    then obtain off' c2 where b: "body_loop read env STREAM_SEND_CHUNK start e s c1 = BodyDone off' s' c'"
      "k = (off' > e \<and> keep)"
      using r s1 by (auto simp: package_reply_def split: body_result.splits)
    have "good s' \<and> start \<le> off' \<and> off' \<le> e + 1 \<and> cs_out c' = cs_out c1 @ bslice start (off' - start) f"
      using body_exact [OF g e(2) _ _ b(1)] e(1) by (simp add: STREAM_SEND_CHUNK_def)
    moreover from this have "bslice start (off' - start) f = take (off' - start) (bslice start (e - start + 1) f)"
      by (auto simp: bslice_def min_def)
    moreover have "length (bslice start (e - start + 1) f) = e - start + 1"
      using e by (simp add: length_bslice)
    ultimately show ?thesis using S b(2) True e(1)
      by (auto intro!: deliveredI [of "length (bytes_of hdr) + (off' - start)"])
  qed
qed

lemma request_exact:
  assumes g: "good s" and f: "0 < length f" "ss_total gs = length f"
    and r: "serve_one_request read env gs req s c = Served k s' c'"
  shows "good s' \<and> (k \<longrightarrow> keep_wanted req (snd (snd (request_words req)))) \<and>
    delivered (full_reply (se_icon_mem env) (se_date env) gs f req) k c c'"
proof -
  obtain meth path version where w: "request_words req = (meth, path, version)" by (metis prod_cases3)
  obtain rr start e where fr: "find_range req (length f) = (rr, start, e)" by (metis prod_cases3)
  note FR = find_range_cases [OF fr]
  have gh: "(meth = ''GET'') \<noteq> (meth = ''HEAD'')" if "serve_target (se_icon_mem env) gs meth (route_of path) = Package"
    using that by (auto simp: serve_target_def split: if_splits)
  let ?tok = "conn_tok (keep_wanted req version)"
  note U = serve_one_request_def [of read env gs req s c, unfolded w prod.case Let_def f(2) fr]
  note V = full_reply_def [of "se_icon_mem env" "se_date env" gs f req, unfolded w prod.case Let_def fr]
  show ?thesis
  proof (cases "serve_target (se_icon_mem env) gs meth (route_of path)")
    case BadMethod
    then show ?thesis using r g unfolding U V by (auto simp: w dest!: short_reply_delivered)
  next
    case NotFound
    then show ?thesis using r g unfolding U V by (auto simp: w dest!: short_reply_delivered)
  next
    case (Icon d)
    then show ?thesis using r g unfolding U V by (auto simp: w dest!: short_reply_delivered)
  next
    case Package
    show ?thesis
    proof (cases "rr < 0")
      case True
      then show ?thesis using Package r g
        unfolding U V by (auto simp: w dest!: short_reply_delivered)
    next
      case rr: False
      show ?thesis
      proof (cases "rr = 1")
        case True
        then have "package_reply read env gs (meth = ''HEAD'') (keep_wanted req version)
            (head_206 (se_date env) start e (length f) ?tok) start e s c = Served k s' c'"
          using r Package by (simp add: U)
        from package_exact [OF g _ _ this] FR True
        have "good s' \<and> (k \<longrightarrow> keep_wanted req version) \<and>
            delivered (bytes_of (head_206 (se_date env) start e (length f) ?tok) @
              (if meth = ''HEAD'' then [] else bslice start (e - start + 1) f)) k c c'" by simp
        moreover have "full_reply (se_icon_mem env) (se_date env) gs f req =
            bytes_of (head_206 (se_date env) start e (length f) ?tok) @
              (if meth = ''HEAD'' then [] else bslice start (e - start + 1) f)"
          using True Package gh [OF Package] by (simp add: V)
        ultimately show ?thesis by (simp add: w)
      next
        case False
        then have pr: "package_reply read env gs (meth = ''HEAD'') (keep_wanted req version)
            (head_200 (se_date env) (length f) ?tok) 0 (length f - 1) s c = Served k s' c'"
          using r Package rr f(1) by (simp add: U)
        have bb: "bslice 0 (length f - 1 - 0 + 1) f = f" using f(1) by (simp add: bslice_def)
        from package_exact [OF g _ _ pr, unfolded bb] f(1)
        have "good s' \<and> (k \<longrightarrow> keep_wanted req version) \<and>
            delivered (bytes_of (head_200 (se_date env) (length f) ?tok) @
              (if meth = ''HEAD'' then [] else f)) k c c'" by simp
        moreover have "full_reply (se_icon_mem env) (se_date env) gs f req =
            bytes_of (head_200 (se_date env) (length f) ?tok) @ (if meth = ''HEAD'' then [] else f)"
          using False rr Package gh [OF Package] by (simp add: V)
        ultimately show ?thesis by (simp add: w)
      qed
    qed
  qed
qed

text \<open>A connection: complete replies to all requests but the last, and a part of
  the reply to the last one.\<close>

lemma conn_exact:
  assumes f: "0 < length f" "ss_total gs = length f"
  shows "good s \<Longrightarrow> conn_loop read env gs n carry evs m s c = ConnDone m' s' c' \<Longrightarrow>
    good s' \<and> m \<le> m' \<and> m' \<le> m + n \<and>
    (\<exists>reqs k. length reqs = m' - m \<and>
       cs_out c' = cs_out c @ transcript (full_reply (se_icon_mem env) (se_date env) gs f) reqs k)"
proof (induction n arbitrary: carry evs m s c)
  case 0
  then show ?case by (auto intro!: exI [of _ "[]"] simp: transcript_def)
next
  case (Suc n)
  obtain run c1 where p: "poll_running env c = (run, c1)" by (metis prod.exhaust)
  then have c1: "cs_out c1 = cs_out c" by (auto simp: poll_running_def)
  obtain buf failed evs1 where rc: "(if carry = [] \<or> strstr (c_str carry) crlf2 = None then collect carry evs
      else (carry, False, evs)) = (buf, failed, evs1)" by (metis prod_cases3)
  obtain req carry1 ov where sp: "split_request buf = (req, carry1, ov)" by (metis prod_cases3)
  show ?case
  proof (cases "run \<and> buf \<noteq> [] \<and> \<not> failed")
    case False
    then have "m' = m \<and> s' = s \<and> c' = c1" using Suc.prems(2) p rc by (cases run) auto
    then show ?thesis using Suc.prems(1) c1 by (auto intro!: exI [of _ "[]"] simp: transcript_def)
  next
    case True
    then obtain k1 s1 c2 where sv: "serve_one_request read env gs (c_str req) s c1 = Served k1 s1 c2"
      using Suc.prems(2) p rc sp by (cases "serve_one_request read env gs (c_str req) s c1") auto
    note R = request_exact [OF Suc.prems(1) f sv]
    then obtain k where k: "cs_out c2 = cs_out c @ take k (full_reply (se_icon_mem env) (se_date env) gs f (c_str req))"
      "k1 \<Longrightarrow> k = length (full_reply (se_icon_mem env) (se_date env) gs f (c_str req))"
      using c1 unfolding delivered_def by auto
    show ?thesis
    proof (cases "ov \<or> \<not> k1")
      case True
      then have "m' = m + 1 \<and> s' = s1 \<and> c' = c2"
        using Suc.prems(2) p rc sp sv \<open>run \<and> buf \<noteq> [] \<and> \<not> failed\<close> by auto
      then show ?thesis using R k(1) by (auto intro!: exI [of _ "[c_str req]"] simp: transcript_def)
    next
      case False
      then have "conn_loop read env gs n carry1 evs1 (m + 1) s1 c2 = ConnDone m' s' c'"
        using Suc.prems(2) p rc sp sv True by auto
      from Suc.IH [OF conjunct1 [OF R] this]
      obtain reqs j where I: "good s'" "m + 1 \<le> m'" "m' \<le> m + 1 + n" "length reqs = m' - (m + 1)"
        "cs_out c' = cs_out c2 @ transcript (full_reply (se_icon_mem env) (se_date env) gs f) reqs j" by blast
      have "cs_out c' = cs_out c @ transcript (full_reply (se_icon_mem env) (se_date env) gs f) (c_str req # reqs)
          (if reqs = [] then k else j)"
        using I(5) k False by (auto simp: transcript_def)
      moreover have "length (c_str req # reqs) = m' - m" using I(2,4) by simp
      moreover have "good s' \<and> m \<le> m' \<and> m' \<le> m + Suc n" using I(1,2,3) by simp
      ultimately show ?thesis by blast
    qed
  qed
qed

end

section \<open>The providers\<close>






text \<open>A stream over a live session: each read meets the wake-ups the supply holds
  next; one round more than their number is enough fuel.\<close>

definition live_source :: "vstream \<Rightarrow> (live \<times> (nat \<Rightarrow> wake list)) reader" where
  "live_source vs st off n =
     (case st of (lv, feed) \<Rightarrow>
        (case virtual_stream_read_live (Suc (length (feed 0))) vs off n lv (feed 0) of
           ReadDone r bs lv' \<Rightarrow> Some (r, bs, (lv', \<lambda>k. feed (Suc k)))
         | _ \<Rightarrow> None))"

definition live_good :: "byte list \<Rightarrow> vstream \<Rightarrow> live \<times> (nat \<Rightarrow> wake list) \<Rightarrow> bool" where
  "live_good f vs st \<longleftrightarrow>
     vs_total vs = length f \<and> session_view f (fst st) \<and> (\<forall>k. \<forall>w\<in>set (snd st k). live_rely f w)"

lemma live_read_aborted:
  "lv_aborted lv \<Longrightarrow> ws_live_read (Suc n) off count lv ws = ReadDone r bs lv' \<Longrightarrow> r \<le> 0 \<and> lv' = lv"
  by (auto simp: ws_live_read_def Let_def split: if_splits)

interpretation live_read: byte_source "live_source vs" "live_good f vs" f for vs f
proof
  fix st :: "live \<times> (nat \<Rightarrow> wake list)" and off n r bs st'
  assume g: "live_good f vs st" and b: "off < length f" "0 < n"
    and rd: "live_source vs st off n = Some (r, bs, st')"
  obtain lv feed where st: "st = (lv, feed)" by (cases st)
  define want where "want = clip_count (length f) off n"
  have w: "0 < want" "want \<le> n" using clip_bounds [OF b] by (simp_all add: want_def)
  have v: "vs_total vs = length f" "session_view f lv" "\<forall>k. \<forall>w\<in>set (feed k). live_rely f w"
    using g by (simp_all add: live_good_def st)
  obtain r1 bs1 lv' where d: "ws_live_read (Suc (length (feed 0))) off want lv (feed 0) = ReadDone r1 bs1 lv'"
    "st' = (lv', \<lambda>k. feed (Suc k))" "r < 0 \<and> r1 < 0 \<or> r = r1 \<and> bs = bs1"
    using rd v(1) b w
    by (auto simp: live_source_def st virtual_stream_read_live_def want_def [symmetric]
        split: read_result.splits if_splits)
  have "session_view f lv' \<and> (r1 \<le> 0 \<or> r1 = int (length bs1) \<and> length bs1 \<le> want \<and> bs1 = bslice off (length bs1) f)"
  proof (cases "lv_aborted lv")
    case True
    then show ?thesis using live_read_aborted [OF True d(1)] v(2) by simp
  next
    case False
    then have "lv_active lv" using v(2) by (simp add: session_view_def)
    from ws_live_read_correct [OF v(2) this False, of "feed 0" "Suc (length (feed 0))" want off] v(3) d(1)
    show ?thesis by (auto simp: length_bslice bslice_def min_def)
  qed
  then show "live_good f vs st' \<and>
      (r \<le> 0 \<or> r = int (length bs) \<and> length bs \<le> n \<and> bs = bslice off (length bs) f)"
    using d v w by (auto simp: live_good_def)
qed

section \<open>A range request\<close>

lemma strstr_skip: "p \<notin> set xs \<Longrightarrow> strstr (xs @ ys) (p # ps) = strstr ys (p # ps)"
  by (induction xs) auto

lemma strchr_skip: "c \<notin> set xs \<Longrightarrow> strchr (xs @ c # ys) c = Some (c # ys)"
  by (simp add: strchr_def Let_def dropWhile_append)

lemma dec_str_no: "\<not> c_isdigit c \<Longrightarrow> c \<notin> set (dec_str n)"
  using dec_str_digits [of n] by (auto simp: list_all_iff)

lemma range_line_found:
  assumes "CHR 0x0A \<notin> set pre"
  shows "range_line (pre @ CHR 0x0A # ''Range:'' @ rest) = Some (''Range:'' @ rest)"
proof -
  have "map c_tolower ''Range:'' = map c_tolower ''range:''" by code_simp
  then have "strncasecmp_eq (''Range:'' @ rest) ''range:'' 6" by (simp add: strncasecmp_eq_def)
  then show ?thesis by (subst range_line.simps) (simp add: strchr_skip [OF assms] Let_def)
qed

lemma strtoul10_hd_digits: "n \<le> ULONG_MAX \<Longrightarrow> \<not> c_isdigit c \<Longrightarrow> strtoul10 (dec_str n @ c # t) = (n, c # t)"
  by (rule strtoul10_dec_str) simp_all

lemma find_range_request:
  assumes pre: "CHR 0x0A \<notin> set pre" and ab: "a \<le> ULONG_MAX" "b \<le> ULONG_MAX"
  shows "find_range (pre @ CRLF @ ''Range: bytes='' @ dec_str a @ ''-'' @ dec_str b @ CRLF @ rest) tot =
    range_result tot a b"
proof -
  let ?rl = "''Range: bytes='' @ dec_str a @ ''-'' @ dec_str b @ CRLF @ rest"
  have rl: "range_header (pre @ CRLF @ ?rl) = Some ?rl"
    using range_line_found [of "pre @ [CHR 0x0D]" "'' bytes='' @ dec_str a @ ''-'' @ dec_str b @ CRLF @ rest"] pre
    by (simp add: range_header_def CRLF_def)
  have no: "CHR 0x0D \<notin> set (''Range: bytes='' @ dec_str a @ ''-'' @ dec_str b)"
    using dec_str_no [of "CHR 0x0D"] by (simp add: c_isdigit_def Let_def)
  have le: "strstr ?rl CRLF = Some (CRLF @ rest)"
    using strstr_skip [OF no, of "CRLF @ rest" "[CHR 0x0A]"] by (simp add: CRLF_def)
  have b0: "strstr ?rl ''bytes='' = Some (''bytes='' @ dec_str a @ ''-'' @ dec_str b @ CRLF @ rest)" by simp
  have dash: "strchr (dec_str a @ ''-'' @ dec_str b @ CRLF @ rest) (CHR ''-'') =
      Some (''-'' @ dec_str b @ CRLF @ rest)"
    using strchr_skip [of "CHR ''-''" "dec_str a"] dec_str_no [of "CHR ''-''"]
    by (simp add: c_isdigit_def Let_def)
  have na: "strtoul10 (dec_str a @ ''-'' @ dec_str b @ CRLF @ rest) = (a, ''-'' @ dec_str b @ CRLF @ rest)"
    using strtoul10_hd_digits [OF ab(1), of "CHR ''-''"] by (simp add: c_isdigit_def Let_def)
  have nb: "strtoul10 (dec_str b @ CRLF @ rest) = (b, CRLF @ rest)"
    using strtoul10_hd_digits [OF ab(2), of "CHR 0x0D"] by (simp add: c_isdigit_def Let_def CRLF_def)
  have hd: "c_isdigit (hd (dec_str b @ CRLF @ rest))"
    using dec_str_digits [of b] by (cases "dec_str b") auto
  have e: "range_end (dec_str b @ CRLF @ rest) (Some (CRLF @ rest)) tot = b"
    using hd nb by (simp add: range_end_def Let_def)
  show ?thesis
    unfolding find_range_def rl Let_def option.case le b0 using dash na e by (simp add: CRLF_def)
qed

section \<open>Properties\<close>

text \<open>C14. The range parser never yields a range outside the package: it reports 1
  only with \<open>start \<le> end < total\<close>, and otherwise 0 (no range) or -1 (not satisfiable).
  For a request whose first header line is \<open>Range: bytes=a-b\<close> with 64-bit numbers the
  range is \<open>a\<close> to the smaller of \<open>b\<close> and the last byte, and -1 exactly when
  \<open>b < a\<close> or \<open>a\<close> is not in the package.\<close>

theorem range_bounds:
  "(case find_range req tot of (rr, s, e) \<Rightarrow> rr = -1 \<or> rr = 0 \<or> rr = 1 \<and> s \<le> e \<and> e < tot) \<and>
   (CHR 0x0A \<notin> set pre \<longrightarrow> a \<le> ULONG_MAX \<longrightarrow> b \<le> ULONG_MAX \<longrightarrow>
    find_range (pre @ CRLF @ ''Range: bytes='' @ dec_str a @ ''-'' @ dec_str b @ CRLF @ rest) tot =
      (if a \<le> b \<and> a < tot then (1, a, min b (tot - 1)) else (-1, 0, 0)))"
proof
  show "case find_range req tot of (rr, s, e) \<Rightarrow> rr = -1 \<or> rr = 0 \<or> rr = 1 \<and> s \<le> e \<and> e < tot"
    using find_range_cases [of req tot] by (auto split: prod.splits)
  show "CHR 0x0A \<notin> set pre \<longrightarrow> a \<le> ULONG_MAX \<longrightarrow> b \<le> ULONG_MAX \<longrightarrow>
    find_range (pre @ CRLF @ ''Range: bytes='' @ dec_str a @ ''-'' @ dec_str b @ CRLF @ rest) tot =
      (if a \<le> b \<and> a < tot then (1, a, min b (tot - 1)) else (-1, 0, 0))"
    using find_range_request [of pre a b rest tot] by (auto simp: range_result_def min_def)
qed

theorem range_bounds_witness:
  "find_range (''GET /stream/a.pkg HTTP/1.1'' @ CRLF @ ''Range: bytes='' @ dec_str 2 @ ''-'' @ dec_str 9 @ CRLF @ CRLF) 5
     = (1, 2, 4)"
  using range_bounds [where tot = 5 and pre = "''GET /stream/a.pkg HTTP/1.1''" and a = 2 and b = 9 and rest = CRLF] by (simp add: ULONG_MAX_def)



definition small_env :: serve_env where
  "small_env = \<lparr> se_send = (\<lambda>k. True), se_running = (\<lambda>k. True), se_date = ''now'',
     se_icon_mem = True, se_body_mem = True \<rparr>"

definition small_ss :: ss where
  "small_ss = ss_init\<lparr> ss_running := True, ss_vs := Some 1, ss_total := 5 \<rparr>"


lemma small_flags:
  "se_send small_env k" "se_running small_env k" "se_date small_env = ''now''" "se_icon_mem small_env"
  "se_body_mem small_env" "ss_total small_ss = 5" "fst (stream_vs_acquire small_ss) = Some 1"
  by (simp_all add: small_env_def small_ss_def stream_vs_acquire_def)





lemma dec_str_digit: "n < 10 \<Longrightarrow> dec_str n = [char_of (48 + n)]"
  by (simp add: dec_str.simps [of n])












text \<open>C16. The same for a stream over a live session that a browser is still
  uploading. A request that comes back, whatever other threads do with the session
  during its reads, has delivered a first part of the right reply for the file
  \<open>f\<close>, all of it when the connection is kept, and the session is still that of
  \<open>f\<close> or aborted.\<close>

theorem live_request_exact:
  assumes "vs_total vs = length f" and "session_view f lv" and "\<forall>k. \<forall>w\<in>set (feed k). live_rely f w"
    and "0 < length f" and "ss_total g = length f"
    and "serve_one_request (live_source vs) env g req (lv, feed) c = Served keep st c'"
  shows "session_view f (fst st) \<and>
    (\<exists>n. cs_out c' = cs_out c @ take n (full_reply (se_icon_mem env) (se_date env) g f req) \<and>
       (keep \<longrightarrow> length (full_reply (se_icon_mem env) (se_date env) g f req) \<le> n))"
proof -
  have "live_good f vs (lv, feed)" using assms by (simp add: live_good_def)
  from live_read.request_exact [OF this assms(4-6)] show ?thesis
    unfolding live_good_def delivered_def by auto
qed

definition head_request :: string where
  "head_request = ''HEAD /stream/a.pkg HTTP/1.1'' @ crlf2"

lemma head_request_parts:
  "request_words head_request = (''HEAD'', ''/stream/a.pkg'', ''HTTP/1.1'')"
  "keep_wanted head_request ''HTTP/1.1''" "range_header head_request = None"
  "serve_target True (ss_init\<lparr>ss_total := 3\<rparr>) ''HEAD'' (route_of ''/stream/a.pkg'') = Package"
  by code_simp+

theorem live_request_exact_witness:
  "\<exists>st c. serve_one_request (live_source (vstream_init\<lparr>vs_total := 3\<rparr>)) small_env (ss_init\<lparr>ss_total := 3\<rparr>)
      head_request (demo_live, \<lambda>k. []) conn_st_init = Served True st c \<and>
    session_view [1, 2, 3] (fst st) \<and>
    cs_out c = full_reply True ''now'' (ss_init\<lparr>ss_total := 3\<rparr>) [1, 2, 3] head_request"
proof -
  have h: "length (head_200 ''now'' 3 ''keep-alive'') < 1024"
    by (simp add: head_200_def lines_of_def dec_str_digit last_modified_def disposition_def CRLF_def)
  obtain c where r: "serve_one_request (live_source (vstream_init\<lparr>vs_total := 3\<rparr>)) small_env
      (ss_init\<lparr>ss_total := 3\<rparr>) head_request (demo_live, \<lambda>k. []) conn_st_init =
      Served True (demo_live, \<lambda>k. []) c"
    using h by (simp add: serve_one_request_def head_request_parts package_reply_def conn_tok_def find_range_def
        small_flags send_all_def Let_def)
  show ?thesis
    using live_request_exact [OF _ demo_view _ _ _ r] r by (auto simp: small_flags conn_st_init_def)
qed

end
