(* ===== verification/StreamLife.thy ===== *)
theory StreamLife
  imports StreamServer
begin

text \<open>
  The life of the open stream object of the range server: request threads pin it
  with \<open>stream_vs_acquire\<close> and \<open>stream_vs_release\<close>, the install thread starts and
  stops sessions. The steps of all threads interleave freely at the lock; start
  and stop are called by one thread, one after the other.
\<close>

section \<open>Steps\<close>

text \<open>The session state, the objects that request threads hold, the objects freed
  so far, and whether a stop waits for the references to drain.\<close>

record life =
  lf_ss :: ss
  lf_held :: "nat list"
  lf_freed :: "nat list"
  lf_draining :: bool


inductive life_step :: "life \<Rightarrow> life \<Rightarrow> bool" where
  acquire: "stream_vs_acquire (lf_ss y) = (Some obj, s) \<Longrightarrow>
    life_step y (y\<lparr>lf_ss := s, lf_held := obj # lf_held y\<rparr>)"
| acquire_none: "stream_vs_acquire (lf_ss y) = (None, s) \<Longrightarrow> life_step y (y\<lparr>lf_ss := s\<rparr>)"
| release: "obj \<in> set (lf_held y) \<Longrightarrow>
    life_step y (y\<lparr>lf_ss := stream_vs_release (lf_ss y), lf_held := remove1 obj (lf_held y)\<rparr>)"
| track: "life_step y (y\<lparr>lf_ss := stream_track_add fd (lf_ss y)\<rparr>)"
| untrack: "life_step y (y\<lparr>lf_ss := stream_track_remove fd (lf_ss y)\<rparr>)"
| name: "life_step y (y\<lparr>lf_ss := stream_server_set_session_name nm (lf_ss y)\<rparr>)"
| icon: "life_step y (y\<lparr>lf_ss := stream_server_set_icon d nm mem (lf_ss y)\<rparr>)"
| stop: "\<not> lf_draining y \<Longrightarrow>
    life_step y (y\<lparr>lf_ss := snd (stop_begin (lf_ss y)), lf_draining := True\<rparr>)"
| drained: "lf_draining y \<Longrightarrow> stop_ready (lf_ss y) \<Longrightarrow> stop_finish (lf_ss y) = (fr, s) \<Longrightarrow>
    life_step y (y\<lparr>lf_ss := s, lf_freed := (case fr of Some obj \<Rightarrow> obj # lf_freed y | None \<Rightarrow> lf_freed y),
                   lf_draining := False\<rparr>)"
| start: "\<not> lf_draining y \<Longrightarrow> \<not> ss_running (lf_ss y) \<Longrightarrow>
    (\<And>obj n. st_open env = Some (obj, n) \<Longrightarrow> obj \<notin> set (lf_freed y)) \<Longrightarrow>
    start_session env nm (lf_ss y) = (r, fr, s) \<Longrightarrow>
    life_step y (y\<lparr>lf_ss := s, lf_freed := (case fr of Some obj \<Rightarrow> obj # lf_freed y | None \<Rightarrow> lf_freed y)\<rparr>)"

inductive_cases life_stepE: "life_step y y'"


section \<open>Invariant\<close>

















end
