(* ===== verification/PkgPlatform.thy ===== *)
theory PkgPlatform
  imports CString
begin

text \<open>
  \<open>src/pkg_platform.c\<close>: for which console a package is, what kind of content it
  is, and whether this console may install it. \<open>pkg_detail\<close> is \<open>pkg_detail_t\<close>
  without the modification time and the blur hash of the icon.
\<close>

section \<open>Package details\<close>

datatype pkg_type = PKG_TYPE_UNKNOWN | PKG_TYPE_BASE | PKG_TYPE_UPDATE | PKG_TYPE_DLC

record pkg_detail =
  pd_path :: string
  pd_filename :: string
  pd_title_id :: string
  pd_title_name :: string
  pd_content_id :: string
  pd_app_version :: string
  pd_category :: string
  pd_platform :: string
  pd_pkg_type :: pkg_type
  pd_type_str :: string
  pd_is_multipart :: bool
  pd_total_parts :: nat
  pd_total_size :: nat
  pd_file_size :: nat
  pd_localized :: string
  pd_default_lang :: string
  pd_icon_offset :: nat
  pd_icon_size :: nat
  pd_has_icon :: bool
  pd_is_valid :: bool
  pd_part_index :: nat

definition pkg_detail_zero :: pkg_detail where
  "pkg_detail_zero =
     \<lparr> pd_path = [], pd_filename = [], pd_title_id = [], pd_title_name = [], pd_content_id = [],
       pd_app_version = [], pd_category = [], pd_platform = [], pd_pkg_type = PKG_TYPE_UNKNOWN,
       pd_type_str = [], pd_is_multipart = False, pd_total_parts = 0, pd_total_size = 0,
       pd_file_size = 0, pd_localized = [], pd_default_lang = [], pd_icon_offset = 0, pd_icon_size = 0,
       pd_has_icon = False, pd_is_valid = False, pd_part_index = 0 \<rparr>"

section \<open>Notes of the parser\<close>

definition pkg_platform_note_header :: "byte list \<Rightarrow> pkg_detail \<Rightarrow> pkg_detail" where
  "pkg_platform_note_header hdr d =
     (if length hdr < 4 then d
      else if take 4 hdr = [0x7F, 0x46, 0x49, 0x48] then d\<lparr>pd_platform := ''ps5''\<rparr> else d)"

definition pkg_platform_note_param_json :: "pkg_detail \<Rightarrow> pkg_detail" where
  "pkg_platform_note_param_json d = d\<lparr>pd_platform := ''ps5''\<rparr>"

definition pkg_platform_note_param_sfo :: "pkg_detail \<Rightarrow> pkg_detail" where
  "pkg_platform_note_param_sfo d = (if pd_platform d = [] then d\<lparr>pd_platform := ''ps4''\<rparr> else d)"

section \<open>Title and folder names\<close>

definition k_retail_ps4 :: "string list" where
  "k_retail_ps4 = [''CUSA'', ''PCAS'', ''PCJS'', ''PCKS'', ''PLAS'', ''PLJM'', ''PLJS'', ''PLKS'', ''NPXS'']"

definition k_retail_ps5 :: "string list" where
  "k_retail_ps5 = [''PPSA'', ''ECAS'', ''ECJS'', ''ECKS'', ''ELAS'', ''ELJM'', ''ELJS'', ''ELKS'']"

definition has_prefix_in :: "string \<Rightarrow> string list \<Rightarrow> bool" where
  "has_prefix_in tid l = list_ex (\<lambda>p. strncasecmp_eq tid p 4) l"

definition pkg_platform_from_title_id :: "string \<Rightarrow> string" where
  "pkg_platform_from_title_id tid =
     (if has_prefix_in tid k_retail_ps5 then ''ps5''
      else if has_prefix_in tid k_retail_ps4 then ''ps4'' else [])"

definition component_platform :: "string \<Rightarrow> string" where
  "component_platform c =
     (if length c < 3 \<or> \<not> strncasecmp_eq c ''ps'' 2 then []
      else if c ! 2 \<noteq> CHR ''4'' \<and> c ! 2 \<noteq> CHR ''5'' then []
      else if length c > 3 \<and> c_isalnum (c ! 3) then []
      else if c ! 2 = CHR ''4'' then ''ps4'' else ''ps5'')"

definition pkg_platform_folder_name :: "string \<Rightarrow> string" where
  "pkg_platform_folder_name name = component_platform name"

definition pkg_platform_finalize :: "pkg_detail \<Rightarrow> pkg_detail" where
  "pkg_platform_finalize d =
     (if pd_platform d \<noteq> [] then d
      else let p = pkg_platform_from_title_id (pd_title_id d) in
           if p \<noteq> [] then d\<lparr>pd_platform := p\<rparr> else d)"

section \<open>Homebrew and content type\<close>

definition is_title_id_shape :: "string \<Rightarrow> bool" where
  "is_title_id_shape tid \<longleftrightarrow>
     length tid \<ge> 9 \<and> list_all c_isalpha (take 4 tid) \<and> list_all c_isdigit (take 5 (drop 4 tid))"

definition pkg_platform_is_homebrew :: "pkg_detail \<Rightarrow> bool" where
  "pkg_platform_is_homebrew d =
     (if pd_pkg_type d = PKG_TYPE_UPDATE \<or> pd_pkg_type d = PKG_TYPE_DLC then False
      else if strncasecmp_eq (pd_content_id d) ''IV0000-'' 7 then True
      else if \<not> is_title_id_shape (pd_title_id d) then False
      else \<not> has_prefix_in (pd_title_id d) k_retail_ps4 \<and> \<not> has_prefix_in (pd_title_id d) k_retail_ps5)"

definition pkg_platform_content_type :: "pkg_detail \<Rightarrow> string" where
  "pkg_platform_content_type d =
     (if pd_pkg_type d = PKG_TYPE_UPDATE then ''update''
      else if pd_pkg_type d = PKG_TYPE_DLC then ''dlc''
      else if pkg_platform_is_homebrew d then ''homebrew'' else ''game'')"

section \<open>Gating\<close>

datatype refusal = REASON_PS5_ONLY | REASON_PS4_HOMEBREW | REASON_PS4_DISABLED

text \<open>\<open>None\<close>: the package may be installed on \<open>console\<close>.\<close>

definition pkg_platform_can_install :: "string \<Rightarrow> bool \<Rightarrow> pkg_detail \<Rightarrow> refusal option" where
  "pkg_platform_can_install console allow_ps4 d =
     (if console = ''ps4'' then
        (if pd_platform d = ''ps5'' then Some REASON_PS5_ONLY else None)
      else if pd_platform d = ''ps4'' then
        (if pkg_platform_is_homebrew d then Some REASON_PS4_HOMEBREW
         else if \<not> allow_ps4 then Some REASON_PS4_DISABLED else None)
      else None)"

text \<open>The console of a host build: \<open>PKGMGR_CONSOLE\<close>, or a PS5.\<close>

definition pkg_platform_console :: "string option \<Rightarrow> string" where
  "pkg_platform_console env =
     (case env of Some e \<Rightarrow> if strcasecmp_eq e ''ps4'' then ''ps4'' else ''ps5'' | None \<Rightarrow> ''ps5'')"

section \<open>Facts\<close>

text \<open>Evidence in the order of its weight: a PS5 container or a \<open>param.json\<close>, then a
  \<open>param.sfo\<close>, then the title id; the order in which the parser meets the first
  three does not matter.\<close>

lemma evidence_order:
  "pkg_platform_note_param_sfo (pkg_platform_note_param_json d) = pkg_platform_note_param_json d"
  "pkg_platform_note_param_json (pkg_platform_note_param_sfo d) = pkg_platform_note_param_json d"
  "pd_platform d \<noteq> [] \<Longrightarrow> pkg_platform_finalize d = d"
  by (simp_all add: pkg_platform_note_param_sfo_def pkg_platform_note_param_json_def pkg_platform_finalize_def)

lemma console_range: "pkg_platform_console env \<in> {''ps4'', ''ps5''}"
  by (simp add: pkg_platform_console_def split: option.splits)

lemma updates_never_homebrew:
  "pd_pkg_type d = PKG_TYPE_UPDATE \<or> pd_pkg_type d = PKG_TYPE_DLC \<Longrightarrow> \<not> pkg_platform_is_homebrew d"
  by (simp add: pkg_platform_is_homebrew_def)

end
