(* ===== verification/Installer.thy ===== *)
theory Installer
  imports PkgPlatform Multipart
begin

text \<open>
  The install queue and the install state of \<open>src/installer.c\<close> (record \<open>inst\<close>):
  starting, queueing, cancelling and detaching installs, and what a worker does
  when it ends. The transfer itself is the range server and the console back
  end; the answers of the file system, the package parser, the sources and the
  threads are the environment record \<open>inst_env\<close>. Each operation is the code's
  sequence of sections under \<open>g_installer_mutex\<close>; the sections are definitions of
  their own, so that other operations can come between them. Times, the
  percentage and the log are left out.
\<close>

section \<open>State\<close>

record inst_status =
  is_installing :: bool
  is_completed :: bool
  is_failed :: bool
  is_multi :: bool
  is_direct :: bool
  is_waiting :: bool
  is_path :: string
  is_title_id :: string
  is_title_name :: string
  is_content_id :: string
  is_kind :: string
  is_version :: string
  is_str :: string
  is_prompt :: string
  is_total :: nat
  is_done :: nat
  is_served :: nat
  is_part :: nat
  is_parts :: nat
  is_error :: int

definition status_zero :: inst_status where
  "status_zero =
     \<lparr> is_installing = False, is_completed = False, is_failed = False, is_multi = False,
       is_direct = False, is_waiting = False, is_path = [], is_title_id = [], is_title_name = [],
       is_content_id = [], is_kind = [], is_version = [], is_str = [], is_prompt = [], is_total = 0,
       is_done = 0, is_served = 0, is_part = 0, is_parts = 0, is_error = 0 \<rparr>"

text \<open>A queue entry is a path and the update to install after it (or the empty
  string). \<open>in_workers\<close> counts the install workers that were started and have not
  ended.\<close>

record inst =
  in_status :: inst_status
  in_queue :: "(string \<times> string) list"
  in_pending :: string
  in_cancel :: bool
  in_detach :: bool
  in_batch :: bool
  in_failed_base :: string
  in_category :: string
  in_refusal :: "refusal option"
  in_monitor :: bool
  in_thread :: bool
  in_workers :: nat

definition INSTALL_QUEUE_MAX :: nat where "INSTALL_QUEUE_MAX = 16"
definition INSTALLER_REFUSED :: int where "INSTALLER_REFUSED = -15"
definition INSTALLER_UNAVAILABLE :: int where "INSTALLER_UNAVAILABLE = -16"
definition INSTALLER_QUEUED :: int where "INSTALLER_QUEUED = -17"
definition INSTALLER_SKIPPED :: int where "INSTALLER_SKIPPED = -18"
definition INSTALLER_HANDOFF_DISCARDED :: int where "INSTALLER_HANDOFF_DISCARDED = -1000"

record inst_env =
  en_console :: string
  en_allow_ps4 :: bool
  en_check :: "string \<Rightarrow> bool"
  en_unavailable :: "string \<Rightarrow> bool"
  en_parse :: "string \<Rightarrow> pkg_detail option"
  en_size :: "string \<Rightarrow> nat option"
  en_installed :: "string \<Rightarrow> bool"
  en_internal :: "nat option"
  en_nvme :: "nat option"
  en_usb :: "nat option"
  en_mkdir :: bool
  en_thread :: bool
  en_network :: bool
  en_direct :: bool
  en_usb_prefix :: string
  en_disc_dir :: string
  en_scan_dir :: string

section \<open>Queue\<close>

definition queue_find :: "string \<Rightarrow> inst \<Rightarrow> nat option" where
  "queue_find path s = find (\<lambda>i. fst (in_queue s ! i) = path) [0..<length (in_queue s)]"

definition queue_remove_at :: "nat \<Rightarrow> inst \<Rightarrow> inst" where
  "queue_remove_at i s =
     (if i \<ge> length (in_queue s) then s
      else s\<lparr>in_queue := take i (in_queue s) @ drop (i + 1) (in_queue s)\<rparr>)"

definition installer_queue_remove :: "string option \<Rightarrow> inst \<Rightarrow> int \<times> inst" where
  "installer_queue_remove path s =
     (case (case path of None \<Rightarrow> None | Some p \<Rightarrow> queue_find p s) of
        None \<Rightarrow> (-1, s)
      | Some i \<Rightarrow> (0, queue_remove_at i s))"

section \<open>Checks before an install\<close>

definition package_is_ps4 :: "pkg_detail \<Rightarrow> bool" where
  "package_is_ps4 d =
     (if pd_platform d \<noteq> [] then pd_platform d = ''ps4'' else strncasecmp_eq (pd_title_id d) ''CUSA'' 4)"

definition validate_install_storage :: "inst_env \<Rightarrow> pkg_detail \<Rightarrow> nat \<Rightarrow> int" where
  "validate_install_storage env d required =
     (let usb = (if package_is_ps4 d then en_usb env else None);
          room = (\<lambda>m x. case x of None \<Rightarrow> m | Some f \<Rightarrow> if f > m then f else m);
          avail = room (room (case en_internal env of None \<Rightarrow> 0 | Some f \<Rightarrow> f) (en_nvme env)) usb
      in if (en_internal env \<noteq> None \<or> en_nvme env \<noteq> None \<or> usb \<noteq> None) \<and> avail < required then -10 else 0)"

definition is_usb_or_disc_path :: "inst_env \<Rightarrow> string \<Rightarrow> bool" where
  "is_usb_or_disc_path env path =
     (if path = [] \<or> starts_with ''smb://'' path \<or> starts_with ''live:'' path then False
      else (en_usb_prefix env \<noteq> [] \<and> starts_with (en_usb_prefix env) path) \<or>
           starts_with ''/mnt/usb'' path \<or>
           (en_disc_dir env \<noteq> [] \<and> starts_with (en_disc_dir env) path) \<or>
           starts_with ''/mnt/disc'' path \<or>
           (en_scan_dir env \<noteq> [] \<and> starts_with (en_scan_dir env) path))"

definition installer_is_filesystem_install :: "inst_env \<Rightarrow> string \<Rightarrow> bool \<Rightarrow> bool" where
  "installer_is_filesystem_install env path multi = (en_direct env \<and> is_usb_or_disc_path env path \<and> \<not> multi)"

definition installer_check_platform :: "inst_env \<Rightarrow> pkg_detail \<Rightarrow> inst \<Rightarrow> bool \<times> inst" where
  "installer_check_platform env d s =
     (case pkg_platform_can_install (en_console env) (en_allow_ps4 env) d of
        None \<Rightarrow> (True, s)
      | Some r \<Rightarrow> (False, s\<lparr>in_refusal := Some r\<rparr>))"

text \<open>What is known of a package the parser does not understand.\<close>

definition fallback_detail :: "inst_env \<Rightarrow> string \<Rightarrow> pkg_detail" where
  "fallback_detail env path =
     pkg_detail_zero\<lparr> pd_path := path, pd_filename := cstr_trunc 256 (c_basename path),
       pd_title_id := ''UNKNOWN'', pd_title_name := ''Package'',
       pd_file_size := (if starts_with ''smb://'' path then 0
                        else case en_size env path of Some n \<Rightarrow> n | None \<Rightarrow> 0) \<rparr>"

text \<open>A base package that is started again clears the mark of its failed title;
  an update or DLC of a failed, not installed base is skipped.\<close>

definition base_gate :: "inst_env \<Rightarrow> pkg_detail \<Rightarrow> inst \<Rightarrow> bool \<times> inst" where
  "base_gate env d s =
     (let base = strcasecmp_eq (pd_type_str d) ''base'';
          hit = (in_failed_base s \<noteq> [] \<and> in_failed_base s = pd_title_id d);
          s1 = (if hit \<and> base then s\<lparr>in_failed_base := []\<rparr> else s)
      in (hit \<and> \<not> base \<and> \<not> en_installed env (pd_title_id d), s1))"

text \<open>The part of \<open>installer_start_internal\<close> between its two locked sections.\<close>

definition start_prepare :: "inst_env \<Rightarrow> string \<Rightarrow> string \<Rightarrow> inst \<Rightarrow> (int + pkg_detail) \<times> inst" where
  "start_prepare env path pending s =
     (if \<not> en_check env path
      then (Inl (if is_http_path path \<and> en_unavailable env path then INSTALLER_UNAVAILABLE else -4), s)
      else if pending \<noteq> [] \<and> \<not> en_check env pending
      then (Inl (if is_http_path pending \<and> en_unavailable env pending then INSTALLER_UNAVAILABLE else -4), s)
      else if en_parse env path = None \<and> is_http_path path \<and> en_unavailable env path
      then (Inl INSTALLER_UNAVAILABLE, s)
      else
      let d = pkg_platform_finalize (case en_parse env path of Some d \<Rightarrow> d | None \<Rightarrow> fallback_detail env path) in
      case installer_check_platform env d s of
        (False, s1) \<Rightarrow> (Inl INSTALLER_REFUSED, s1)
      | (True, s1) \<Rightarrow>
        (case base_gate env d s1 of
           (True, s2) \<Rightarrow> (Inl INSTALLER_SKIPPED, s2)
         | (False, s2) \<Rightarrow>
             if (pd_is_multipart d \<or> strstr path ''.part'' \<noteq> None) \<and>
                (starts_with ''smb://'' path \<or> is_http_path path) then (Inl (-13), s2)
             else
             let need = (if pd_total_size d > 0 then pd_total_size d else pd_file_size d);
                 e = validate_install_storage env d need
             in if e \<noteq> 0 then (Inl e, s2)
                else if pd_is_multipart d \<and> \<not> en_mkdir env then (Inl (-11), s2)
                else (Inr d, s2)))"

section \<open>Starting an install\<close>

text \<open>The first locked section: \<open>Inl\<close> is the refusal.\<close>

definition start_gate :: "bool \<Rightarrow> inst \<Rightarrow> int + inst" where
  "start_gate handoff s =
     (if handoff \<and> in_detach s then Inl INSTALLER_HANDOFF_DISCARDED
      else if is_installing (in_status s) then (if handoff then Inr s else Inl (-2))
      else Inr (s\<lparr>in_pending := []\<rparr>))"

definition is_disc_start :: "string \<Rightarrow> bool" where
  "is_disc_start path \<longleftrightarrow> strstr path ''/mnt/disc'' \<noteq> None \<or> strstr path ''/disc'' \<noteq> None \<or>
     strstr path ''_disc'' \<noteq> None"

definition direct_prompt :: string where
  "direct_prompt = ''Installing via direct storage. Track progress in the PS5 home menu. (Tip: connect to any network to see detailed real-time progress here).''"

definition start_prompt :: "string \<Rightarrow> pkg_detail \<Rightarrow> string" where
  "start_prompt path d =
     cstr_trunc 256
       (if pd_is_multipart d
        then ''Streaming '' @ (if is_disc_start path then ''Disc'' else ''Part'') @ '' 1 of '' @
             dec_str (pd_total_parts d) @ ''...''
        else ''Installing '' @ take 200 (if pd_title_name d \<noteq> [] then pd_title_name d else ''Package'') @ ''...'')"

text \<open>The status of a new install.\<close>

definition started_status :: "inst_env \<Rightarrow> string \<Rightarrow> pkg_detail \<Rightarrow> inst_status" where
  "started_status env path d =
     (let direct = (installer_is_filesystem_install env path (pd_is_multipart d) \<and> \<not> en_network env) in
      status_zero\<lparr> is_installing := True, is_multi := pd_is_multipart d, is_parts := pd_total_parts d,
        is_part := (if pd_is_multipart d then 1 else 0), is_path := path,
        is_title_id := cstr_trunc 32 (pd_title_id d), is_title_name := cstr_trunc 256 (pd_title_name d),
        is_content_id := cstr_trunc 64 (pd_content_id d), is_kind := cstr_trunc 16 (pd_type_str d),
        is_version := cstr_trunc 32 (pd_app_version d), is_direct := direct,
        is_str := (if direct then ''installing'' else ''transferring''),
        is_prompt := (if direct then direct_prompt else start_prompt path d),
        is_total := (if pd_total_size d > 0 then pd_total_size d else pd_file_size d) \<rparr>)"

text \<open>The second locked section.\<close>

definition start_commit ::
  "inst_env \<Rightarrow> string \<Rightarrow> string \<Rightarrow> bool \<Rightarrow> pkg_detail \<Rightarrow> inst \<Rightarrow> int \<times> inst" where
  "start_commit env path pending handoff d s =
     (if handoff \<and> in_detach s then (INSTALLER_HANDOFF_DISCARDED, s)
      else if is_installing (in_status s) \<and> \<not> handoff then (-2, s)
      else
      let s1 = s\<lparr> in_detach := False, in_batch := (pending \<noteq> []), in_pending := pending,
                  in_status := started_status env path d, in_category := cstr_trunc 16 (pd_category d),
                  in_cancel := False \<rparr>
      in if \<not> en_thread env
         then (-12, s1\<lparr>in_status := (in_status s1)\<lparr>is_installing := False, is_failed := True\<rparr>\<rparr>)
         else (0, s1\<lparr>in_thread := True, in_workers := in_workers s1 + 1\<rparr>))"

text \<open>\<open>installer_start_internal\<close> when no other operation comes between its sections.
  \<open>join\<close> is the wait for the previous worker, which does nothing when the caller is that
  worker, and else lets it come to its end.\<close>

definition installer_start_internal ::
  "(inst \<Rightarrow> inst) \<Rightarrow> inst_env \<Rightarrow> string \<Rightarrow> string \<Rightarrow> bool \<Rightarrow> inst \<Rightarrow> int \<times> inst" where
  "installer_start_internal join env path pending handoff s =
     (if path = [] then (-1, s)
      else
      let path1 = cstr_trunc 512 path; pending1 = cstr_trunc 512 pending in
      case start_gate handoff s of
        Inl e \<Rightarrow> (e, s)
      | Inr s1 \<Rightarrow>
        (case start_prepare env path1 pending1 (join s1) of
           (Inl e, s2) \<Rightarrow> (e, s2)
         | (Inr d, s2) \<Rightarrow> start_commit env path1 pending1 handoff d s2))"

definition join_self :: "inst \<Rightarrow> inst" where
  "join_self s = s\<lparr>in_thread := False\<rparr>"

text \<open>The next queued packages, until one starts.\<close>

definition put_back :: "string \<times> string \<Rightarrow> inst \<Rightarrow> inst" where
  "put_back e s = (if length (in_queue s) < INSTALL_QUEUE_MAX then s\<lparr>in_queue := e # in_queue s\<rparr> else s)"

lemma check_platform_frame: "installer_check_platform env d s = (ok, s1) \<Longrightarrow>
    s1 = s\<lparr>in_refusal := in_refusal s1\<rparr>"
  by (auto simp: installer_check_platform_def split: option.splits)

lemma base_gate_frame: "base_gate env d s = (skip, s1) \<Longrightarrow> s1 = s\<lparr>in_failed_base := in_failed_base s1\<rparr>"
  by (auto simp: base_gate_def Let_def split: if_splits)

lemma start_prepare_frame:
  assumes "start_prepare env path pending s = (r, s1)"
  shows "s1 = s\<lparr>in_refusal := in_refusal s1, in_failed_base := in_failed_base s1\<rparr>"
proof -
  define d where "d = pkg_platform_finalize (case en_parse env path of Some d \<Rightarrow> d | None \<Rightarrow> fallback_detail env path)"
  obtain ok s2 where p: "installer_check_platform env d s = (ok, s2)" by (metis prod.exhaust)
  obtain sk s3 where g: "base_gate env d s2 = (sk, s3)" by (metis prod.exhaust)
  note U = start_prepare_def [of env path pending s, folded d_def, unfolded p Let_def]
  have "s1 = s \<or> s1 = s2 \<or> s1 = s3"
    using assms g unfolding U by (cases ok; cases sk) (auto split: if_splits)
  then show ?thesis
    using check_platform_frame [OF p] base_gate_frame [OF g] by (cases s; cases s2; cases s3) auto
qed

lemma start_commit_queue: "start_commit env path pending h d s = (r, s1) \<Longrightarrow> in_queue s1 = in_queue s"
  by (auto simp: start_commit_def Let_def split: if_splits)

lemma start_gate_queue: "start_gate h s = Inr s1 \<Longrightarrow> in_queue s1 = in_queue s"
  by (auto simp: start_gate_def split: if_splits)

lemma start_internal_queue:
  assumes "installer_start_internal join_self env path pending h s = (r, s1)"
  shows "in_queue s1 = in_queue s"
proof (cases "path = []")
  case True
  then show ?thesis using assms by (simp add: installer_start_internal_def)
next
  case False
  show ?thesis
  proof (cases "start_gate h s")
    case (Inl e)
    then show ?thesis using assms False by (simp add: installer_start_internal_def Let_def)
  next
    case (Inr s2)
    obtain q s3 where p: "start_prepare env (cstr_trunc 512 path) (cstr_trunc 512 pending) (join_self s2) = (q, s3)"
      by (metis prod.exhaust)
    have q: "in_queue s3 = in_queue s"
      using start_gate_queue [OF Inr] arg_cong [OF start_prepare_frame [OF p], of in_queue] by (simp add: join_self_def)
    show ?thesis
    proof (cases q)
      case Inl': (Inl e)
      then show ?thesis using assms False Inr p q by (simp add: installer_start_internal_def Let_def)
    next
      case Inr': (Inr d)
      then show ?thesis using assms False Inr p q start_commit_queue
        by (fastforce simp: installer_start_internal_def Let_def)
    qed
  qed
qed

function installer_start_next_queued :: "inst_env \<Rightarrow> inst \<Rightarrow> inst" where
  "installer_start_next_queued env s =
     (if in_queue s = [] \<or> \<not> in_monitor s \<or> is_installing (in_status s) then s
      else
      let e = hd (in_queue s) in
      case installer_start_internal join_self env (fst e) (snd e) False (s\<lparr>in_queue := tl (in_queue s)\<rparr>) of
        (r, s1) \<Rightarrow>
          if r = 0 then s1
          else if r = -2 then put_back e s1
          else installer_start_next_queued env s1)"
  by pat_completeness auto
termination
  by (relation "measure (\<lambda>(env, s). length (in_queue s))")
    (auto dest!: start_internal_queue [OF sym])

declare installer_start_next_queued.simps [simp del]

section \<open>Cancelling, detaching, progress\<close>

definition installer_cancel :: "inst \<Rightarrow> int \<times> inst" where
  "installer_cancel s =
     (if \<not> is_installing (in_status s) then (-1, s)
      else if is_direct (in_status s) then (-2, s)
      else (0, s\<lparr> in_cancel := True, in_pending := [],
                  in_status := (in_status s)\<lparr> is_installing := False, is_failed := True,
                    is_str := ''canceled'', is_prompt := ''Installation was canceled'' \<rparr> \<rparr>))"

definition installer_detach_direct_storage :: "inst \<Rightarrow> int \<times> bool \<times> inst" where
  "installer_detach_direct_storage s =
     (if \<not> is_installing (in_status s) then (-1, False, s)
      else if \<not> is_direct (in_status s) then (-2, False, s)
      else (0, in_batch s,
            s\<lparr> in_detach := True, in_batch := False, in_pending := [],
               in_status := (in_status s)\<lparr> is_installing := False, is_completed := False, is_failed := False,
                 is_waiting := False, is_error := 0, is_str := ''background'',
                 is_prompt := ''PKG Manager stopped tracking. The PS5 installation will continue.'' \<rparr> \<rparr>))"

definition installer_notify_bytes_streamed :: "nat \<Rightarrow> inst \<Rightarrow> inst" where
  "installer_notify_bytes_streamed n s =
     (let st = in_status s in
      if is_installing st then
        s\<lparr>in_status := st\<lparr> is_served := wrap64 (is_served st + n),
            is_done := (if is_total st > 0 \<and> wrap64 (is_done st + n) > is_total st then is_total st
                        else wrap64 (is_done st + n)) \<rparr>\<rparr>
      else s)"

definition installer_on_part_changed :: "nat \<Rightarrow> nat \<Rightarrow> inst \<Rightarrow> inst" where
  "installer_on_part_changed cur tot s =
     (let st = in_status s in
      if is_installing st \<and> is_multi st then
        s\<lparr>in_status := st\<lparr> is_part := cur,
            is_prompt := cstr_trunc 256 (''Streaming '' @ (if is_disc_start (is_path st) then ''Disc '' else ''Part '') @
              dec_str cur @ '' of '' @ dec_str tot @ ''...'') \<rparr>\<rparr>
      else s)"

definition installer_is_canceling :: "inst \<Rightarrow> bool" where
  "installer_is_canceling s \<longleftrightarrow> in_cancel s \<or> \<not> in_monitor s"

section \<open>The end of a worker\<close>

text \<open>The package is transferred: completed, or kept installing for its update. The
  result is whether an update follows.\<close>

definition has_pending :: "inst \<Rightarrow> bool" where
  "has_pending s \<longleftrightarrow> in_pending s \<noteq> [] \<and> \<not> in_cancel s \<and> \<not> in_detach s \<and> in_monitor s"

definition worker_complete :: "string \<Rightarrow> inst \<Rightarrow> inst" where
  "worker_complete clean_name s =
     (let st = in_status s in
      if \<not> in_cancel s \<and> \<not> is_failed st \<and> is_installing st then
        (if has_pending s
         then s\<lparr>in_status := st\<lparr> is_done := is_total st, is_completed := False, is_str := ''installing'',
                  is_prompt := ''Base package installed. Starting update...'' \<rparr>\<rparr>
         else s\<lparr>in_status := st\<lparr> is_done := is_total st, is_installing := False, is_completed := True,
                  is_str := ''playable'',
                  is_prompt := cstr_trunc 256 ((if is_title_name st \<noteq> [] then is_title_name st else clean_name) @
                    '' is ready to play!'') \<rparr>\<rparr>)
      else s)"

text \<open>Taking the pending update before the stream is released.\<close>

definition take_pending :: "inst \<Rightarrow> string \<times> inst" where
  "take_pending s =
     (if has_pending s \<and> \<not> is_failed (in_status s) then (in_pending s, s\<lparr>in_pending := []\<rparr>)
      else if is_failed (in_status s) \<or> in_cancel s \<or> \<not> in_monitor s \<or> in_detach s
      then ([], s\<lparr>in_pending := []\<rparr>) else ([], s))"

definition handoff_failed :: "int \<Rightarrow> inst \<Rightarrow> inst" where
  "handoff_failed r s =
     s\<lparr>in_status := (in_status s)\<lparr> is_installing := False, is_failed := True, is_error := r, is_str := ''error'',
        is_prompt := ''Failed to start queued update (code '' @
          (if r < 0 then ''-'' @ dec_str (nat (- r)) else dec_str (nat r)) @ '')'' \<rparr>\<rparr>"

definition worker_handoff :: "inst_env \<Rightarrow> inst \<Rightarrow> inst" where
  "worker_handoff env s =
     (case take_pending s of
        (next, s1) \<Rightarrow>
          if next = [] then s1
          else (case installer_start_internal join_self env next [] True s1 of
                  (r, s2) \<Rightarrow> if r = 0 \<or> r = INSTALLER_HANDOFF_DISCARDED then s2 else handoff_failed r s2))"

text \<open>The wrapper of the worker: remember a failed base, then move the queue on.\<close>

definition note_failed_base :: "inst \<Rightarrow> inst" where
  "note_failed_base s =
     (let st = in_status s in
      if \<not> is_installing st \<and> is_failed st \<and> strcasecmp_eq (is_kind st) ''base'' \<and> is_title_id st \<noteq> []
      then s\<lparr>in_failed_base := is_title_id st\<rparr> else s)"

definition worker_end :: "inst_env \<Rightarrow> inst \<Rightarrow> inst" where
  "worker_end env s =
     (let s1 = worker_handoff env s
      in installer_start_next_queued env (note_failed_base (s1\<lparr>in_workers := in_workers s1 - 1\<rparr>)))"

text \<open>The ways a worker's transfer can come out.\<close>

datatype outcome = Finished string | Broken int string | Stopped

definition worker_fail :: "int \<Rightarrow> string \<Rightarrow> inst \<Rightarrow> inst" where
  "worker_fail code msg s =
     s\<lparr> in_pending := [],
        in_status := (in_status s)\<lparr> is_installing := False, is_failed := True, is_error := code,
          is_str := ''error'', is_prompt := cstr_trunc 256 msg \<rparr> \<rparr>"

definition worker_outcome :: "outcome \<Rightarrow> inst \<Rightarrow> inst" where
  "worker_outcome out s =
     (case out of
        Finished nm \<Rightarrow> worker_complete nm s
      | Broken code msg \<Rightarrow> worker_fail code msg s
      | Stopped \<Rightarrow> s\<lparr>in_pending := []\<rparr>)"

text \<open>Joining the previous worker from another thread: if one is running it has been
  told to stop, and comes to its end first.\<close>

definition join_worker :: "inst_env \<Rightarrow> inst \<Rightarrow> inst" where
  "join_worker env s =
     (if in_thread s \<and> in_workers s > 0
      then worker_end env (worker_outcome Stopped (s\<lparr>in_thread := False\<rparr>)) else s\<lparr>in_thread := False\<rparr>)"

section \<open>Requests\<close>

definition installer_enqueue :: "inst_env \<Rightarrow> string \<Rightarrow> string \<Rightarrow> inst \<Rightarrow> int \<times> inst" where
  "installer_enqueue env path update s =
     (if queue_find path s \<noteq> None \<or> is_path (in_status s) = path then (INSTALLER_QUEUED, s)
      else if length (in_queue s) \<ge> INSTALL_QUEUE_MAX then (-2, s)
      else
      let s1 = s\<lparr>in_queue := in_queue s @ [(cstr_trunc 512 path, cstr_trunc 512 update)]\<rparr>
      in (INSTALLER_QUEUED,
          if \<not> is_installing (in_status s) then installer_start_next_queued env s1 else s1))"

definition installer_start :: "inst_env \<Rightarrow> string \<Rightarrow> inst \<Rightarrow> int \<times> inst" where
  "installer_start env path s =
     (case installer_start_internal (join_worker env) env path [] False s of
        (r, s1) \<Rightarrow> if r = -2 then installer_enqueue env path [] s1 else (r, s1))"

definition installer_start_batch :: "inst_env \<Rightarrow> string \<Rightarrow> string \<Rightarrow> inst \<Rightarrow> int \<times> inst" where
  "installer_start_batch env base update s =
     (if base = [] \<or> update = [] then (-1, s)
      else
      case installer_start_internal (join_worker env) env base update False s of
        (r, s1) \<Rightarrow> if r = -2 then installer_enqueue env base update s1 else (r, s1))"

section \<open>Starting up and shutting down\<close>

definition inst_init :: inst where
  "inst_init =
     \<lparr> in_status = status_zero\<lparr>is_str := ''idle''\<rparr>, in_queue = [], in_pending = [], in_cancel = False,
       in_detach = False, in_batch = False, in_failed_base = [], in_category = [], in_refusal = None,
       in_monitor = True, in_thread = False, in_workers = 0 \<rparr>"

definition installer_init :: "bool \<Rightarrow> inst \<Rightarrow> int \<times> inst" where
  "installer_init thread_ok s =
     (let s1 = s\<lparr> in_status := status_zero\<lparr>is_str := ''idle''\<rparr>, in_pending := [], in_detach := False,
                  in_batch := False, in_cancel := False \<rparr>
      in if thread_ok then (0, s1\<lparr>in_monitor := True\<rparr>) else (-1, s1\<lparr>in_monitor := False\<rparr>))"

definition installer_shutdown :: "inst \<Rightarrow> inst" where
  "installer_shutdown s =
     s\<lparr> in_cancel := True, in_monitor := False, in_pending := [], in_queue := [], in_thread := False \<rparr>"

end
