(* ===== verification/InstallerSystem.thy ===== *)
theory InstallerSystem
  imports InstallerProps
begin

text \<open>
  The installer as a component: starts from outside, the operations on a running
  install, the end of a worker, and the invariant of every sequence of them.
\<close>

section \<open>A start from outside\<close>

text \<open>A worker that ended its install, joined or not, leaves the state settled.\<close>

lemma join_settled:
  assumes "inst_ok s" "\<not> is_installing (in_status s)" "join_worker env (s\<lparr>in_pending := []\<rparr>) = s1"
  shows "settled s1 \<and> queue_ok s1 \<and> in_monitor s1 \<and> (\<exists>k\<le>length (in_queue s). in_queue s1 = drop k (in_queue s))"
proof (cases "in_thread s \<and> in_workers s > 0")
  case True
  let ?s = "worker_outcome Stopped (s\<lparr>in_pending := [], in_thread := False\<rparr>)"
  have w: "queue_ok ?s" "in_workers ?s = 1" "in_monitor ?s"
    "is_installing (in_status ?s) \<Longrightarrow> has_pending ?s \<and> \<not> is_failed (in_status ?s)" "in_queue ?s = in_queue s"
    using assms(1,2) True by (simp_all add: inst_ok_def worker_outcome_def queue_ok_def)
  have "worker_end env ?s = s1" using assms(3) True by (simp add: join_worker_def)
  from worker_end_ok [OF w(1-4) this] show ?thesis using w(5) by auto
next
  case False
  have "s1 = s\<lparr>in_pending := [], in_thread := False\<rparr>" using assms(3) False by (simp add: join_worker_def)
  moreover have "in_workers s = 0" using assms(1) False by (cases "in_workers s") (auto simp: inst_ok_def)
  ultimately show ?thesis using assms(1,2) by (auto simp: inst_ok_def settled_def queue_ok_def intro: exI [of _ 0])
qed

lemma settled_prepare:
  assumes "start_prepare env path pending s = (r, s1)" "settled s" "queue_ok s" "in_monitor s"
  shows "settled s1 \<and> queue_ok s1 \<and> in_monitor s1"
  using assms(2-4) by (simp add: settled_def queue_ok_def prepare_frame [OF assms(1)])

lemma start_external:
  assumes ok: "inst_ok s"
    and st: "installer_start_internal (join_worker env) env path pending False s = (r, s1)"
  shows "inst_ok s1 \<and> (r = -2 \<longrightarrow> is_installing (in_status s1)) \<and>
    (r = 0 \<longrightarrow> is_installing (in_status s1) \<and> is_path (in_status s1) = cstr_trunc 512 path)"
proof (cases "path = [] \<or> is_installing (in_status s)")
  case True
  then show ?thesis using assms
    by (cases "path = []") (auto simp: installer_start_internal_def start_gate_def Let_def)
next
  case False
  then have p: "path \<noteq> []" and i: "\<not> is_installing (in_status s)" by simp_all
  obtain j where j: "join_worker env (s\<lparr>in_pending := []\<rparr>) = j" by simp
  obtain q s2 where pr: "start_prepare env (cstr_trunc 512 path) (cstr_trunc 512 pending) j = (q, s2)"
    by (metis prod.exhaust)
  have S: "settled s2" "queue_ok s2" "in_monitor s2"
    using settled_prepare [OF pr] join_settled [OF ok i j] by simp_all
  show ?thesis
  proof (cases q)
    case (Inl e)
    then have "r = e \<and> s1 = s2" using st p i j pr by (simp add: installer_start_internal_def start_gate_def Let_def)
    then show ?thesis using S settled_ok prepare_code [OF pr [unfolded Inl]] by auto
  next
    case (Inr d)
    then have c: "start_commit env (cstr_trunc 512 path) (cstr_trunc 512 pending) False d s2 = (r, s1)"
      using st p i j pr by (simp add: installer_start_internal_def start_gate_def Let_def)
    show ?thesis
    proof (cases "is_installing (in_status s2)")
      case True
      then show ?thesis using commit_busy [OF c] S settled_ok by auto
    next
      case idle: False
      then have w: "in_workers s2 = 0" using S by (simp add: settled_def)
      have g: "\<not> is_installing (in_status s2) \<or> False" "\<not> (False \<and> in_detach s2)" using idle by simp_all
      from commit_idle [OF c g] show ?thesis
      proof (elim disjE conjE)
        assume "r = 0" and e: "s1 = s2\<lparr> in_detach := False, in_batch := (cstr_trunc 512 pending \<noteq> []),
          in_pending := cstr_trunc 512 pending, in_status := started_status env (cstr_trunc 512 path) d,
          in_category := cstr_trunc 16 (pd_category d), in_cancel := False, in_thread := True,
          in_workers := in_workers s2 + 1 \<rparr>"
        then show ?thesis using S(2,3) w unfolding e inst_ok_def queue_ok_def by (simp add: started_flags)
      next
        assume "r = -12" "\<not> is_installing (in_status s1)" "in_workers s1 = in_workers s2"
          "in_queue s1 = in_queue s2" "in_monitor s1 = in_monitor s2"
        then show ?thesis using S w by (simp add: inst_ok_def queue_ok_def)
      qed
    qed
  qed
qed

section \<open>Queueing\<close>

lemma queue_find_None: "queue_find p s = None \<longleftrightarrow> p \<notin> fst ` set (in_queue s)"
proof -
  have "fst ` set (in_queue s) = {fst (in_queue s ! i) |i. i < length (in_queue s)}"
    by (auto simp: set_conv_nth)
  then show ?thesis by (auto simp: queue_find_def find_None_iff)
qed

lemma queue_find_Some:
  "queue_find p s = Some i \<Longrightarrow> i < length (in_queue s) \<and> fst (in_queue s ! i) = p"
  by (auto simp: queue_find_def find_Some_iff)

text \<open>Queueing behind a running install.\<close>

lemma enqueue_busy:
  assumes "inst_ok s" "is_installing (in_status s)" "length path < 512"
    and e: "installer_enqueue env path u s = (r, s1)"
  shows "inst_ok s1 \<and> r \<in> {INSTALLER_QUEUED, -2} \<and>
    (s1 = s \<or> s1 = s\<lparr>in_queue := in_queue s @ [(path, cstr_trunc 512 u)]\<rparr>) \<and>
    (r = INSTALLER_QUEUED \<longrightarrow> is_path (in_status s) = path \<or> path \<in> fst ` set (in_queue s1))"
proof (cases "queue_find path s \<noteq> None \<or> is_path (in_status s) = path \<or> length (in_queue s) \<ge> INSTALL_QUEUE_MAX")
  case True
  then show ?thesis using assms queue_find_None by (auto simp: installer_enqueue_def INSTALLER_QUEUED_def split: if_splits)
next
  case False
  then have "s1 = s\<lparr>in_queue := in_queue s @ [(path, cstr_trunc 512 u)]\<rparr> \<and> r = INSTALLER_QUEUED"
    using assms by (simp add: installer_enqueue_def Let_def cstr_trunc_id)
  then show ?thesis using False assms(1,2) by (auto simp: inst_ok_def queue_ok_def queue_find_None)
qed

lemma remove_at_ok: "queue_ok s \<Longrightarrow> queue_ok (queue_remove_at i s)"
proof -
  assume q: "queue_ok s"
  have "distinct (map fst (take i (in_queue s) @ drop (i + 1) (in_queue s)))" if "i < length (in_queue s)"
  proof -
    have "in_queue s = take i (in_queue s) @ in_queue s ! i # drop (i + 1) (in_queue s)"
      using that by (simp add: id_take_nth_drop)
    then have "distinct (map fst (take i (in_queue s) @ in_queue s ! i # drop (i + 1) (in_queue s)))"
      using q queue_ok_def by metis
    then show ?thesis by simp
  qed
  then show ?thesis using q by (auto simp: queue_ok_def queue_remove_at_def)
qed

section \<open>Operations\<close>

datatype inst_op =
    OpStart inst_env string
  | OpBatch inst_env string string
  | OpRemove "string option"
  | OpCancel
  | OpDetach
  | OpBytes nat
  | OpPart nat nat
  | OpEnd inst_env outcome

text \<open>A worker comes to its end: with an outcome of the transfer, or because it
  was told to stop.\<close>

definition worker_step :: "inst_env \<Rightarrow> outcome \<Rightarrow> inst \<Rightarrow> inst" where
  "worker_step env out s =
     (if in_workers s = 0 \<or> (out = Stopped \<and> is_installing (in_status s)) then s
      else worker_end env (worker_outcome out s))"

fun inst_step :: "inst_op \<Rightarrow> inst \<Rightarrow> inst" where
  "inst_step (OpStart env p) s = snd (installer_start env p s)"
| "inst_step (OpBatch env b u) s = snd (installer_start_batch env b u s)"
| "inst_step (OpRemove p) s = snd (installer_queue_remove p s)"
| "inst_step OpCancel s = snd (installer_cancel s)"
| "inst_step OpDetach s = snd (snd (installer_detach_direct_storage s))"
| "inst_step (OpBytes n) s = installer_notify_bytes_streamed n s"
| "inst_step (OpPart c t) s = installer_on_part_changed c t s"
| "inst_step (OpEnd env out) s = worker_step env out s"

text \<open>Paths fit into a queue entry.\<close>

fun inst_op_ok :: "inst_op \<Rightarrow> bool" where
  "inst_op_ok (OpStart env p) \<longleftrightarrow> length p < 512"
| "inst_op_ok (OpBatch env b u) \<longleftrightarrow> length b < 512"
| "inst_op_ok _ \<longleftrightarrow> True"

lemma start_request_ok:
  assumes "inst_ok s" "length p < 512"
    and "(case installer_start_internal (join_worker env) env p u False s of
        (r, s1) \<Rightarrow> if r = -2 then installer_enqueue env p v s1 else (r, s1)) = (r', s')"
  shows "inst_ok s'"
proof -
  obtain r s1 where st: "installer_start_internal (join_worker env) env p u False s = (r, s1)" by (metis prod.exhaust)
  note S = start_external [OF assms(1) st]
  show ?thesis
  proof (cases "r = -2")
    case True
    then show ?thesis using assms(3) st S enqueue_busy [of s1 p env v r' s'] assms(2) by simp
  next
    case False
    then show ?thesis using assms(3) st S by simp
  qed
qed

lemma complete_frame:
  "in_queue (worker_complete nm s) = in_queue s" "in_workers (worker_complete nm s) = in_workers s"
  "in_monitor (worker_complete nm s) = in_monitor s"
  "is_installing (in_status (worker_complete nm s)) \<Longrightarrow> is_installing (in_status s)"
  "is_installing (in_status (worker_complete nm s)) \<Longrightarrow> \<not> in_cancel s \<Longrightarrow> \<not> is_failed (in_status s) \<Longrightarrow>
     has_pending (worker_complete nm s) \<and> \<not> is_failed (in_status (worker_complete nm s))"
  by (simp_all add: worker_complete_def Let_def has_pending_def split: if_splits)

lemma worker_outcome_ok:
  assumes "inst_ok s" "in_workers s \<noteq> 0" "\<not> (out = Stopped \<and> is_installing (in_status s))" "worker_outcome out s = t"
  shows "queue_ok t \<and> in_workers t = 1 \<and> in_monitor t \<and> in_queue t = in_queue s \<and>
    (is_installing (in_status t) \<longrightarrow> has_pending t \<and> \<not> is_failed (in_status t))"
proof -
  have b: "queue_ok s" "in_workers s = 1" "in_monitor s" using assms(1,2) by (auto simp: inst_ok_def)
  have i: "\<not> in_cancel s \<and> \<not> is_failed (in_status s)" if "is_installing (in_status s)"
    using assms(1) that by (auto simp: inst_ok_def)
  show ?thesis
  proof (cases out)
    case (Finished nm)
    then have t: "t = worker_complete nm s" using assms(4) by (simp add: worker_outcome_def)
    show ?thesis using complete_frame [of nm s, folded t] b i by (auto simp: queue_ok_def)
  next
    case (Broken code msg)
    then show ?thesis using assms(4) b by (auto simp: worker_outcome_def worker_fail_def queue_ok_def)
  next
    case Stopped
    then show ?thesis using assms(3,4) b by (auto simp: worker_outcome_def queue_ok_def)
  qed
qed

lemma worker_step_ok:
  assumes "inst_ok s"
  shows "inst_ok (worker_step env out s)"
proof (cases "in_workers s = 0 \<or> (out = Stopped \<and> is_installing (in_status s))")
  case True
  then show ?thesis using assms by (simp add: worker_step_def)
next
  case False
  obtain t where t: "worker_outcome out s = t" by simp
  note O = worker_outcome_ok [OF assms _ _ t]
  have "settled (worker_end env t) \<and> queue_ok (worker_end env t) \<and> in_monitor (worker_end env t)"
    using worker_end_ok [of t env "worker_end env t"] O False by auto
  then have "inst_ok (worker_end env t)" using settled_ok by blast
  moreover have "worker_step env out s = worker_end env t" using False t by (auto simp: worker_step_def)
  ultimately show ?thesis by simp
qed

lemma inst_step_ok: "inst_op_ok p \<Longrightarrow> inst_ok s \<Longrightarrow> inst_ok (inst_step p s)"
proof (cases p)
  case (OpStart env q)
  moreover obtain r s1 where "installer_start env q s = (r, s1)" by (metis prod.exhaust)
  moreover assume "inst_op_ok p" "inst_ok s"
  ultimately show ?thesis using start_request_ok by (simp add: installer_start_def)
next
  case (OpBatch env b u)
  moreover obtain r s1 where "installer_start_batch env b u s = (r, s1)" by (metis prod.exhaust)
  moreover assume "inst_op_ok p" "inst_ok s"
  ultimately show ?thesis using start_request_ok by (simp add: installer_start_batch_def split: if_splits)
next
  case (OpRemove q)
  assume "inst_ok s"
  then have "inst_ok (queue_remove_at i s)" for i
    using remove_at_ok [of s i] by (auto simp: inst_ok_def queue_remove_at_def)
  then show ?thesis using OpRemove \<open>inst_ok s\<close> by (auto simp: installer_queue_remove_def split: option.splits)
next
  case OpCancel
  assume "inst_ok s"
  then show ?thesis using OpCancel by (auto simp: inst_ok_def installer_cancel_def queue_ok_def)
next
  case OpDetach
  assume "inst_ok s"
  then show ?thesis using OpDetach by (auto simp: inst_ok_def installer_detach_direct_storage_def queue_ok_def)
next
  case (OpBytes n)
  assume "inst_ok s"
  then show ?thesis using OpBytes by (auto simp: inst_ok_def installer_notify_bytes_streamed_def queue_ok_def Let_def)
next
  case (OpPart c t)
  assume "inst_ok s"
  then show ?thesis using OpPart by (auto simp: inst_ok_def installer_on_part_changed_def queue_ok_def Let_def)
next
  case (OpEnd env out)
  assume "inst_ok s"
  then show ?thesis using OpEnd worker_step_ok by simp
qed

interpretation installer: inv_component inst_step inst_op_ok inst_ok
  by unfold_locales (rule inst_step_ok)

lemma inst_init_ok: "inst_ok inst_init"
  by (simp add: inst_ok_def inst_init_def queue_ok_def status_zero_def)

end
