(* ===== verification/InstallerClaims.thy ===== *)
theory InstallerClaims
  imports InstallerSystem
begin

text \<open>
  The properties of the installer: the invariant of its runs, progress of the
  queue, what a start checks, what a refused start changes, that the followers of a
  failed title are skipped, and a cancel that comes too late.
\<close>

section \<open>What a start checks\<close>

definition package_of :: "inst_env \<Rightarrow> string \<Rightarrow> pkg_detail" where
  "package_of env path =
     pkg_platform_finalize (case en_parse env path of Some d \<Rightarrow> d | None \<Rightarrow> fallback_detail env path)"

definition base_of :: "string \<Rightarrow> pkg_detail \<Rightarrow> bool" where
  "base_of t d \<longleftrightarrow> pd_title_id d = t \<and> strcasecmp_eq (pd_type_str d) ''base''"

definition follows :: "string \<Rightarrow> pkg_detail \<Rightarrow> bool" where
  "follows t d \<longleftrightarrow> pd_title_id d = t \<and> \<not> strcasecmp_eq (pd_type_str d) ''base''"

definition needed_space :: "pkg_detail \<Rightarrow> nat" where
  "needed_space d = (if pd_total_size d > 0 then pd_total_size d else pd_file_size d)"

lemma check_platform_result:
  "installer_check_platform env d s = (ok, s1) \<Longrightarrow>
     ok = (pkg_platform_can_install (en_console env) (en_allow_ps4 env) d = None) \<and>
     in_failed_base s1 = in_failed_base s \<and>
     (\<not> ok \<longrightarrow> in_refusal s1 = pkg_platform_can_install (en_console env) (en_allow_ps4 env) d)"
  by (auto simp: installer_check_platform_def split: option.splits)

lemma base_gate_result:
  "base_gate env d s = (skip, s1) \<Longrightarrow>
     skip = (in_failed_base s \<noteq> [] \<and> follows (in_failed_base s) d \<and> \<not> en_installed env (pd_title_id d)) \<and>
     in_failed_base s1 = (if in_failed_base s \<noteq> [] \<and> base_of (in_failed_base s) d then [] else in_failed_base s)"
  by (auto simp: base_gate_def follows_def base_of_def Let_def split: if_splits)

lemma prepare_checks:
  assumes "start_prepare env path pending s = (Inr d, s1)"
  shows "d = package_of env path" "en_check env path" "pending \<noteq> [] \<Longrightarrow> en_check env pending"
    "pkg_platform_can_install (en_console env) (en_allow_ps4 env) d = None"
    "in_failed_base s \<noteq> [] \<Longrightarrow> follows (in_failed_base s) d \<Longrightarrow> en_installed env (pd_title_id d)"
    "pd_is_multipart d \<Longrightarrow> \<not> starts_with ''smb://'' path \<and> \<not> is_http_path path"
    "validate_install_storage env d (needed_space d) = 0"
proof -
  define e where "e = package_of env path"
  obtain ok s2 where p: "installer_check_platform env e s = (ok, s2)" by (metis prod.exhaust)
  obtain sk s3 where g: "base_gate env e s2 = (sk, s3)" by (metis prod.exhaust)
  note U = start_prepare_def [of env path pending s, folded package_of_def, folded e_def, unfolded p Let_def,
      folded needed_space_def]
  note P = check_platform_result [OF p] and G = base_gate_result [OF g]
  have b: "ok \<and> \<not> sk \<and> d = e \<and> en_check env path \<and> (pending = [] \<or> en_check env pending) \<and>
      \<not> ((pd_is_multipart e \<or> strstr path ''.part'' \<noteq> None) \<and> (starts_with ''smb://'' path \<or> is_http_path path)) \<and>
      validate_install_storage env e (needed_space e) = 0"
    using assms g unfolding U by (cases ok; cases sk) (simp_all split: if_splits)
  show "d = package_of env path" "en_check env path" "pending \<noteq> [] \<Longrightarrow> en_check env pending"
    "pkg_platform_can_install (en_console env) (en_allow_ps4 env) d = None"
    "in_failed_base s \<noteq> [] \<Longrightarrow> follows (in_failed_base s) d \<Longrightarrow> en_installed env (pd_title_id d)"
    "pd_is_multipart d \<Longrightarrow> \<not> starts_with ''smb://'' path \<and> \<not> is_http_path path"
    "validate_install_storage env d (needed_space d) = 0"
    using b P G by (simp_all add: e_def)
qed







section \<open>Properties\<close>


text \<open>C19. The queue never stalls and is first in, first out: when a worker ends
  in a run (done, failed or stopped), either a package is installing afterwards or
  nothing waits; what still waits is the end of the old queue, and a package that was
  taken from the queue and now installs is the last of those taken.\<close>

theorem queue_moves_on:
  assumes "list_all inst_op_ok ops" "s = run_ops inst_step inst_init ops" "in_workers s \<noteq> 0"
    and "\<not> (out = Stopped \<and> is_installing (in_status s))"
    and "s' = worker_step env out s"
  shows "(is_installing (in_status s') \<or> in_queue s' = []) \<and>
    (\<exists>k\<le>length (in_queue s). in_queue s' = drop k (in_queue s) \<and>
       (is_installing (in_status s') \<and> 0 < k \<longrightarrow>
          is_path (in_status s') = cstr_trunc 512 (fst (in_queue s ! (k - 1)))))"
proof -
  have ok: "inst_ok s" using installer.run_inv [OF inst_init_ok assms(1)] assms(2) by simp
  obtain t where t: "worker_outcome out s = t" by simp
  have e: "worker_end env t = s'" using assms(3,4,5) t by (auto simp: worker_step_def)
  note O = worker_outcome_ok [OF ok assms(3,4) t]
  show ?thesis using worker_end_ok [OF _ _ _ _ e] O by auto
qed


text \<open>C21. Nothing is installed unchecked: an install that \<open>installer_start_internal\<close>
  reports as started is of a package whose file (and whose update's file) can be
  read, that this console may install, for which a storage target has room or none
  could be measured, that is no multipart package of a network source, and that is
  not the update or add-on of a base that failed and is missing.\<close>

theorem started_install_checked:
  assumes "installer_start_internal join env path pending handoff s = (0, s')"
  shows "en_check env (cstr_trunc 512 path) \<and>
    (pending = [] \<or> en_check env (cstr_trunc 512 pending)) \<and>
    pkg_platform_can_install (en_console env) (en_allow_ps4 env) (package_of env (cstr_trunc 512 path)) = None \<and>
    validate_install_storage env (package_of env (cstr_trunc 512 path))
      (needed_space (package_of env (cstr_trunc 512 path))) = 0 \<and>
    (pd_is_multipart (package_of env (cstr_trunc 512 path)) \<longrightarrow>
       \<not> starts_with ''smb://'' (cstr_trunc 512 path) \<and> \<not> is_http_path (cstr_trunc 512 path)) \<and>
    is_installing (in_status s') \<and> is_path (in_status s') = cstr_trunc 512 path"
proof -
  have n: "path \<noteq> []" using assms by (auto simp: installer_start_internal_def)
  obtain g where g: "start_gate handoff s = Inr g"
    using assms n by (auto simp: installer_start_internal_def start_gate_def INSTALLER_HANDOFF_DISCARDED_def
        Let_def split: if_splits)
  obtain q s2 where p: "start_prepare env (cstr_trunc 512 path) (cstr_trunc 512 pending) (join g) = (q, s2)"
    by (metis prod.exhaust)
  obtain d where d: "q = Inr d"
    using assms n g p prepare_code [of env "cstr_trunc 512 path" "cstr_trunc 512 pending" "join g" _ s2]
    by (cases q) (auto simp: installer_start_internal_def Let_def)
  have c: "start_commit env (cstr_trunc 512 path) (cstr_trunc 512 pending) handoff d s2 = (0, s')"
    using assms n g p d by (simp add: installer_start_internal_def Let_def)
  have s: "is_installing (in_status s') \<and> is_path (in_status s') = cstr_trunc 512 path"
    using c by (auto simp: start_commit_def Let_def started_flags INSTALLER_HANDOFF_DISCARDED_def split: if_splits)
  have t: "pending = [] \<or> cstr_trunc 512 pending \<noteq> []" by (simp add: cstr_trunc_def)
  note P = prepare_checks [OF p [unfolded d]]
  show ?thesis using P(2-4,6,7) s t unfolding P(1) [symmetric] by blast
qed


text \<open>An external start that succeeds while the finishing worker is already joined.\<close>

lemma start_beside_worker:
  assumes "installer_start env path s = (0, s')" "\<not> in_thread s"
  shows "\<not> in_detach s' \<and> in_workers s' = in_workers s + 1"
proof -
  have st: "installer_start_internal (join_worker env) env path [] False s = (0, s')"
    using assms(1) by (auto simp: installer_start_def installer_enqueue_def INSTALLER_QUEUED_def Let_def
        split: prod.splits if_splits)
  have n: "path \<noteq> []" "\<not> is_installing (in_status s)"
    using st by (auto simp: installer_start_internal_def start_gate_def Let_def split: if_splits)
  let ?j = "s\<lparr>in_pending := [], in_thread := False\<rparr>"
  obtain q s2 where p: "start_prepare env (cstr_trunc 512 path) [] ?j = (q, s2)" by (metis prod.exhaust)
  have r: "(0, s') = (case q of Inl e \<Rightarrow> (e, s2) | Inr d \<Rightarrow> start_commit env (cstr_trunc 512 path) [] False d s2)"
    using st n p assms(2)
    by (simp add: installer_start_internal_def start_gate_def join_worker_def cstr_trunc_def Let_def split: sum.splits)
  then obtain d where d: "q = Inr d" using prepare_code [of env "cstr_trunc 512 path" "[]" ?j _ s2] p by (cases q) auto
  then have c: "start_commit env (cstr_trunc 512 path) [] False d s2 = (0, s')" using r by simp
  have "\<not> is_installing (in_status s2) \<or> False" "\<not> (False \<and> in_detach s2)" using prepare_frame(1) [OF p] n by simp_all
  from commit_idle [OF c this] show ?thesis using prepare_frame(3) [OF p] by auto
qed

text \<open>A cancel can come too late and lose: a worker that hands over to the
  pending update has passed the first locked section (\<open>start_gate\<close>, the join); a
  cancel then reports success, but the second section (\<open>start_commit\<close>) does not look
  at it: the update is installing and the cancel flag is cleared. If a request started
  another install after the cancel, two more workers run, and the status only knows
  of the update.\<close>

theorem handoff_overrides_cancel:
  assumes "start_gate True s = Inr g" "is_installing (in_status s)"
    and "installer_cancel (join_self g) = (0, c)"
    and "e = c \<or> installer_start env other c = (0, e)" "en_thread env"
  shows "\<not> is_installing (in_status c) \<and> \<not> in_thread c \<and>
    (\<exists>f. start_commit env upd [] True d e = (0, f) \<and> is_installing (in_status f) \<and>
       is_path (in_status f) = upd \<and> \<not> in_cancel f \<and>
       in_workers f = in_workers s + (if e = c then 1 else 2))"
proof -
  have g: "g = s" "\<not> in_detach s" using assms(1,2) by (auto simp: start_gate_def split: if_splits)
  have c: "\<not> is_installing (in_status c)" "\<not> in_thread c" "in_workers c = in_workers s" "\<not> in_detach c"
    using assms(3) g by (auto simp: installer_cancel_def join_self_def split: if_splits)
  have e: "\<not> in_detach e" "in_workers e = in_workers s + (if e = c then 0 else 1)"
    using assms(4) start_beside_worker [of env other c e] c by auto
  then have "\<exists>f. start_commit env upd [] True d e = (0, f) \<and> is_installing (in_status f) \<and>
       is_path (in_status f) = upd \<and> \<not> in_cancel f \<and> in_workers f = in_workers s + (if e = c then 1 else 2)"
    using assms(5) by (simp add: start_commit_def Let_def started_flags)
  with c show ?thesis by blast
qed

section \<open>Witnesses\<close>

definition demo_pkg :: "string \<Rightarrow> string \<Rightarrow> pkg_detail" where
  "demo_pkg tid kind = pkg_detail_zero\<lparr> pd_title_id := tid, pd_type_str := kind, pd_platform := ''ps4'',
     pd_content_id := ''UP0001'', pd_total_size := 5 \<rparr>"

definition demo_inst_env :: inst_env where
  "demo_inst_env =
     \<lparr> en_console = ''ps5'', en_allow_ps4 = True, en_check = (\<lambda>p. p \<noteq> ''gone''), en_unavailable = (\<lambda>_. False),
       en_parse = (\<lambda>p. Some (if p = ''b'' then demo_pkg ''CUSA00001'' ''base''
                            else if p = ''u'' then demo_pkg ''CUSA00001'' ''update''
                            else demo_pkg ''CUSA00002'' ''base'')),
       en_size = (\<lambda>_. None), en_installed = (\<lambda>_. False), en_internal = Some 100, en_nvme = None,
       en_usb = None, en_mkdir = True, en_thread = True, en_network = True, en_direct = False,
       en_usb_prefix = [], en_disc_dir = [], en_scan_dir = [] \<rparr>"

definition demo_inst_ops :: "inst_op list" where
  "demo_inst_ops = [OpStart demo_inst_env ''b'', OpStart demo_inst_env ''u'', OpStart demo_inst_env ''c'']"

definition demo_mid :: inst where
  "demo_mid = run_ops inst_step inst_init demo_inst_ops"

definition demo_failed :: inst where
  "demo_failed = worker_step demo_inst_env (Broken 1 []) demo_mid"

text \<open>A batch whose base is done and whose update is about to start.\<close>

definition demo_handoff :: inst where
  "demo_handoff = snd (take_pending (worker_outcome (Finished [])
     (run_ops inst_step inst_init [OpBatch demo_inst_env ''b'' ''u''])))"

definition demo_cancelled :: inst where
  "demo_cancelled = snd (installer_cancel (join_self demo_handoff))"

definition demo_second :: inst where
  "demo_second = snd (installer_start demo_inst_env ''c'' demo_cancelled)"

lemma demo_inst_ops_ok: "list_all inst_op_ok demo_inst_ops"
  by (simp add: demo_inst_ops_def)

lemma demo_mid_facts:
  "in_workers demo_mid = 1" "is_installing (in_status demo_mid)" "is_path (in_status demo_mid) = ''b''"
  "map fst (in_queue demo_mid) = [''u'', ''c'']" "is_title_id (in_status demo_mid) = ''CUSA00001''"
  "strcasecmp_eq (is_kind (in_status demo_mid)) ''base''"
  unfolding demo_mid_def demo_inst_ops_def by code_simp+



theorem queue_moves_on_witness:
  "is_installing (in_status demo_failed) \<or> in_queue demo_failed = []"
proof -
  have "in_workers demo_mid \<noteq> 0" "\<not> (Broken 1 [] = Stopped \<and> is_installing (in_status demo_mid))"
    using demo_mid_facts(1) by simp_all
  from queue_moves_on [OF demo_inst_ops_ok demo_mid_def this demo_failed_def] show ?thesis by blast
qed


theorem started_install_checked_witness:
  "is_path (in_status (snd (installer_start_internal join_self demo_inst_env ''b'' ''u'' False inst_init))) = ''b'' \<and>
   en_check demo_inst_env ''u''"
proof -
  have "installer_start_internal join_self demo_inst_env ''b'' ''u'' False inst_init =
      (0, snd (installer_start_internal join_self demo_inst_env ''b'' ''u'' False inst_init))"
    by code_simp
  from started_install_checked [OF this] show ?thesis by (simp add: cstr_trunc_def)
qed


theorem handoff_overrides_cancel_witness:
  "\<not> is_installing (in_status demo_cancelled) \<and>
   in_workers (snd (start_commit demo_inst_env ''u'' [] True (demo_pkg ''CUSA00001'' ''update'') demo_second)) = 3"
proof -
  have a: "start_gate True demo_handoff = Inr demo_handoff" "is_installing (in_status demo_handoff)"
    "in_workers demo_handoff = 1" "en_thread demo_inst_env"
    unfolding demo_handoff_def by code_simp+
  have b: "installer_cancel (join_self demo_handoff) = (0, demo_cancelled)"
    unfolding demo_cancelled_def demo_handoff_def by code_simp
  have c: "installer_start demo_inst_env ''c'' demo_cancelled = (0, demo_second)"
    unfolding demo_second_def demo_cancelled_def demo_handoff_def by code_simp
  have d: "demo_second \<noteq> demo_cancelled"
    unfolding demo_second_def demo_cancelled_def demo_handoff_def by code_simp
  from handoff_overrides_cancel [OF a(1,2) b disjI2 [OF c] a(4), of "''u''" "demo_pkg ''CUSA00001'' ''update''"]
  show ?thesis using a(3) d by auto
qed

end
