(* ===== verification/JsonText.thy ===== *)
theory JsonText
  imports CString
begin

text \<open>
  The JSON scanning of \<open>src/pkg_parser.c\<close>: values found by their key in a buffer
  that may hold any bytes, localized titles stored as one flat JSON object, and
  the choice of a title for an \<open>Accept-Language\<close> list. A pointer into a buffer is an
  index; \<open>str_at m i\<close> is the C string at index \<open>i\<close> of the memory \<open>m\<close> (what lies behind
  the modelled memory counts as a NUL).
\<close>

section \<open>C strings in a buffer\<close>

definition NUL :: char where "NUL = CHR 0x00"
definition QUOTE :: char where "QUOTE = CHR 0x22"
definition BACKSLASH :: char where "BACKSLASH = CHR 0x5C"

definition up_to_nul :: "string \<Rightarrow> string" where
  "up_to_nul s = takeWhile (\<lambda>c. c \<noteq> NUL) s"

definition str_at :: "string \<Rightarrow> nat \<Rightarrow> string" where
  "str_at m i = up_to_nul (drop i m)"

definition find_from :: "string \<Rightarrow> nat \<Rightarrow> string \<Rightarrow> nat option" where
  "find_from m i pat =
     (case strstr (str_at m i) pat of None \<Rightarrow> None | Some r \<Rightarrow> Some (i + (length (str_at m i) - length r)))"

definition chr_from :: "string \<Rightarrow> nat \<Rightarrow> char \<Rightarrow> nat option" where
  "chr_from m i c =
     (case strchr (str_at m i) c of None \<Rightarrow> None | Some r \<Rightarrow> Some (i + (length (str_at m i) - length r)))"

definition skip_space :: "string \<Rightarrow> nat \<Rightarrow> nat \<Rightarrow> nat" where
  "skip_space m q e = q + length (takeWhile c_isspace (take (e - q) (drop q m)))"

text \<open>The text of a string literal from \<open>q\<close> on, cut to a buffer of \<open>mx\<close> bytes.\<close>

function read_lit :: "string \<Rightarrow> nat \<Rightarrow> nat \<Rightarrow> nat \<Rightarrow> string \<Rightarrow> string" where
  "read_lit m q e mx acc =
     (if q \<ge> e \<or> m ! q = QUOTE then acc
      else
      let q1 = (if m ! q = BACKSLASH \<and> q + 1 < e then q + 1 else q)
      in read_lit m (q1 + 1) e mx (if length acc + 1 < mx then acc @ [m ! q1] else acc))"
  by pat_completeness auto
termination
  by (relation "measure (\<lambda>(m, q, e, mx, acc). e - q)") auto

declare read_lit.simps [simp del]

text \<open>The string literal that follows a colon, if one does.\<close>

definition literal_after :: "string \<Rightarrow> nat \<Rightarrow> nat \<Rightarrow> nat \<Rightarrow> string option" where
  "literal_after m i e mx =
     (let q = skip_space m i e
      in if q < e \<and> m ! q = QUOTE then Some (up_to_nul (read_lit m (q + 1) e mx [])) else None)"

section \<open>Values by key\<close>

definition quoted :: "string \<Rightarrow> string" where
  "quoted k = [QUOTE] @ k @ [QUOTE]"

lemma find_from_ge: "find_from m i pat = Some f \<Longrightarrow> i \<le> f"
  by (auto simp: find_from_def split: option.splits)

function json_extract_from :: "string \<Rightarrow> nat \<Rightarrow> string \<Rightarrow> nat \<Rightarrow> nat \<Rightarrow> string option" where
  "json_extract_from m len key mx p =
     (if p \<ge> len then None
      else
      case find_from m p (quoted key) of
        None \<Rightarrow> None
      | Some f \<Rightarrow>
          if f \<ge> len then None
          else
          case chr_from m (f + length (quoted key)) (CHR '':'') of
            None \<Rightarrow> None
          | Some c \<Rightarrow>
              if c \<ge> len then None
              else
              case literal_after m (c + 1) len mx of
                Some v \<Rightarrow> Some v
              | None \<Rightarrow> json_extract_from m len key mx (f + length (quoted key)))"
  by pat_completeness auto
termination
  by (relation "measure (\<lambda>(m, len, key, mx, p). len - p)") (auto simp: quoted_def dest!: find_from_ge)

declare json_extract_from.simps [simp del]

definition json_extract_key :: "string \<Rightarrow> nat \<Rightarrow> string \<Rightarrow> nat \<Rightarrow> string option" where
  "json_extract_key m len key mx = json_extract_from m len key mx 0"

definition json_has_key :: "string \<Rightarrow> nat \<Rightarrow> string \<Rightarrow> bool" where
  "json_has_key m len key =
     list_ex (\<lambda>i. take (length (quoted key)) (drop i m) = quoted key) [0..<len + 1 - length (quoted key)]"

section \<open>Flat objects of localized titles\<close>

fun val_text :: "nat \<Rightarrow> string \<Rightarrow> string" where
  "val_text 0 s = []"
| "val_text (Suc n) [] = []"
| "val_text (Suc n) (c # cs) =
     (if c = QUOTE then []
      else if c = BACKSLASH \<and> cs \<noteq> [] then hd cs # val_text n (tl cs)
      else c # val_text n cs)"

definition extract_val_for_key :: "string \<Rightarrow> string \<Rightarrow> nat \<Rightarrow> string option" where
  "extract_val_for_key json key mx =
     (let pat = quoted key @ '':'' @ [QUOTE] in
      case strstr json pat of
        None \<Rightarrow> None
      | Some r \<Rightarrow> Some (val_text (mx - 1) (drop (length pat) r)))"

definition nonempty_val :: "string \<Rightarrow> string \<Rightarrow> nat \<Rightarrow> string option" where
  "nonempty_val json key mx =
     (case extract_val_for_key json key mx of Some v \<Rightarrow> if v \<noteq> [] then Some v else None | None \<Rightarrow> None)"

text \<open>The key that starts at the quote at the head of \<open>r\<close>, and its value.\<close>

definition val_of_key_at :: "string \<Rightarrow> string option \<Rightarrow> nat \<Rightarrow> string option" where
  "val_of_key_at json r mx =
     (case r of
        None \<Rightarrow> None
      | Some s \<Rightarrow>
          (case strchr (tl s) QUOTE of
             None \<Rightarrow> None
           | Some t \<Rightarrow>
               let k = takeWhile (\<lambda>c. c \<noteq> QUOTE) (tl s)
               in if length k < 32 then nonempty_val json k mx else None))"

definition first_of :: "'a option \<Rightarrow> 'a option \<Rightarrow> 'a option" where
  "first_of a b = (case a of Some x \<Rightarrow> Some x | None \<Rightarrow> b)"

definition primary_tag :: "string \<Rightarrow> string" where
  "primary_tag tag =
     (case first_of (strchr tag (CHR ''-'')) (strchr tag (CHR ''_'')) of
        Some r \<Rightarrow> take (length tag - length r) tag
      | None \<Rightarrow> tag)"

definition match_tag :: "string \<Rightarrow> string \<Rightarrow> nat \<Rightarrow> string option" where
  "match_tag loc tag mx =
     (case nonempty_val loc tag mx of
        Some v \<Rightarrow> Some v
      | None \<Rightarrow>
          let primary = primary_tag tag in
          if length primary < 16 then
            val_of_key_at loc
              (first_of (strstr loc ([QUOTE] @ primary @ ''-''))
                 (strstr loc (quoted primary @ '':''))) mx
          else None)"

definition rtrim :: "string \<Rightarrow> string" where
  "rtrim s = rev (dropWhile c_isspace (rev s))"

definition is_tag_sep :: "char \<Rightarrow> bool" where
  "is_tag_sep c = (c = CHR '' '' \<or> c = CHR 0x09 \<or> c = CHR '','')"

definition next_item :: "string \<Rightarrow> string" where
  "next_item p = drop 1 (dropWhile (\<lambda>c. c \<noteq> CHR '','') p)"

lemma next_item_less: "p \<noteq> [] \<Longrightarrow> length (next_item p) < length p"
  using length_dropWhile_le [of "\<lambda>c. c \<noteq> CHR '',''" p] by (cases p) (auto simp: next_item_def)

function match_accept_language :: "string \<Rightarrow> string \<Rightarrow> nat \<Rightarrow> string option" where
  "match_accept_language loc accept mx =
     (let p = dropWhile is_tag_sep accept in
      if p = [] then None
      else
      let tag = rtrim (takeWhile (\<lambda>c. c \<noteq> CHR '','' \<and> c \<noteq> CHR '';'') p) in
      case (if 0 < length tag \<and> length tag < 32 then match_tag loc tag mx else None) of
        Some v \<Rightarrow> Some v
      | None \<Rightarrow> match_accept_language loc (next_item p) mx)"
  by pat_completeness auto
termination
proof (relation "measure (\<lambda>(loc, accept, mx). length accept)", goal_cases)
  case 1
  show ?case by simp
next
  case (2 loc accept mx p tag)
  then have "length (next_item p) < length p" by (simp add: next_item_less)
  also have "length p \<le> length accept" using 2(1) by (simp add: length_dropWhile_le)
  finally show ?case by simp
qed

declare match_accept_language.simps [simp del]

section \<open>Choosing a title\<close>

definition default_lang_title :: "string \<Rightarrow> string \<Rightarrow> nat \<Rightarrow> string option" where
  "default_lang_title loc lang mx =
     (if lang = [] then None
      else
      case nonempty_val loc lang mx of
        Some v \<Rightarrow> Some v
      | None \<Rightarrow>
          if length (primary_tag lang) < 16
          then val_of_key_at loc (strstr loc ([QUOTE] @ primary_tag lang @ ''-'')) mx else None)"

definition english_title :: "string \<Rightarrow> nat \<Rightarrow> string option" where
  "english_title loc mx =
     val_of_key_at loc (first_of (strstr loc ([QUOTE] @ ''en-'')) (strstr loc (quoted ''en'' @ '':''))) mx"

definition first_title :: "string \<Rightarrow> nat \<Rightarrow> string option" where
  "first_title loc mx =
     (case strchr loc (CHR '':'') of
        None \<Rightarrow> None
      | Some r \<Rightarrow>
          if length r > 1 \<and> r ! 1 = QUOTE then
            (case strchr (drop 2 r) QUOTE of
               None \<Rightarrow> None
             | Some t \<Rightarrow>
                 let l = length (drop 2 r) - length t
                 in if l + 1 < mx then Some (take l (drop 2 r)) else None)
          else None)"

definition pkg_parser_resolve_localized_title :: "string \<Rightarrow> string \<Rightarrow> string \<Rightarrow> nat \<Rightarrow> string option" where
  "pkg_parser_resolve_localized_title loc lang accept mx =
     (if loc = [] \<or> hd loc \<noteq> CHR ''{'' \<or> mx = 0 then None
      else first_of (match_accept_language loc accept mx)
        (first_of (default_lang_title loc lang mx) (first_of (english_title loc mx) (first_title loc mx))))"

definition pkg_parser_resolve_sfo_title :: "string \<Rightarrow> string \<Rightarrow> string \<Rightarrow> nat \<Rightarrow> string option" where
  "pkg_parser_resolve_sfo_title loc accept title mx =
     (if mx = 0 then None
      else
      let have_loc = (loc \<noteq> [] \<and> hd loc = CHR ''{'') in
      case (if have_loc then match_accept_language loc accept 256 else None) of
        Some v \<Rightarrow> Some (cstr_trunc mx v)
      | None \<Rightarrow>
          if title \<noteq> [] then Some (cstr_trunc mx title)
          else if have_loc then
            (case pkg_parser_resolve_localized_title loc [] [] mx of
               Some v \<Rightarrow> if v \<noteq> [] then Some v else None
             | None \<Rightarrow> None)
          else None)"

section \<open>Writing a flat object\<close>

text \<open>Escaping into a buffer of \<open>2 * PKG_TITLE_NAME_LEN\<close> bytes; \<open>n\<close> bytes are used.\<close>

fun esc_title :: "nat \<Rightarrow> string \<Rightarrow> string" where
  "esc_title n [] = []"
| "esc_title n (c # cs) =
     (if n + 2 < 512 then
        (if c = QUOTE \<or> c = BACKSLASH then [BACKSLASH, c] @ esc_title (n + 2) cs
         else c # esc_title (n + 1) cs)
      else [])"

definition loc_entry :: "string \<times> string \<Rightarrow> string" where
  "loc_entry e = quoted (fst e) @ '':'' @ quoted (esc_title 0 (snd e))"

text \<open>\<open>out\<close> is what is written so far, into a buffer of \<open>mx\<close> bytes.\<close>

fun loc_entries :: "nat \<Rightarrow> bool \<Rightarrow> string \<Rightarrow> (string \<times> string) list \<Rightarrow> string" where
  "loc_entries mx first out [] = out"
| "loc_entries mx first out (e # es) =
     (let w = (if first then [] else '','') @ loc_entry e
      in if length w < mx - length out then loc_entries mx False (out @ w) es else out)"

definition loc_json :: "nat \<Rightarrow> (string \<times> string) list \<Rightarrow> string" where
  "loc_json mx es =
     (let out = loc_entries mx True ''{'' es
      in if length out < mx - 1 then out @ ''}'' else out)"

end
