(* ===== verification/JsonTextProps.thy ===== *)
theory JsonTextProps
  imports JsonText
begin

text \<open>
  Localized titles are found again: the flat object that the parsers write gives
  back, for the tag of each language, the title that was stored for it, whatever
  quotes and backslashes the title holds.
\<close>

section \<open>Searching a key\<close>

definition key_pat :: "string \<Rightarrow> string" where
  "key_pat l = quoted l @ '':'' @ [QUOTE]"

definition lang_ok :: "string \<Rightarrow> bool" where
  "lang_ok l \<longleftrightarrow> l \<noteq> [] \<and> list_all (\<lambda>c. c_isalnum c \<or> c = CHR ''-'') l"

lemma lang_chars:
  "lang_ok l \<Longrightarrow> c \<in> set l \<Longrightarrow> c \<noteq> QUOTE \<and> c \<noteq> BACKSLASH \<and> c \<noteq> CHR '':'' \<and> c \<noteq> CHR '','' \<and> c \<noteq> CHR ''}'' \<and>
     c \<noteq> CHR ''{'' \<and> c \<noteq> CHR '';'' \<and> c \<noteq> CHR '' '' \<and> \<not> c_isspace c"
  by (auto simp: lang_ok_def list_all_iff c_isalnum_def c_isalpha_def c_isdigit_def c_isspace_def QUOTE_def
      BACKSLASH_def Let_def)

text \<open>A key matches only at a quote whose text up to the next quote is the key, with a
  colon and a quote behind it.\<close>

lemma takeWhile_key: "QUOTE \<notin> set l \<Longrightarrow> takeWhile (\<lambda>c. c \<noteq> QUOTE) (l @ QUOTE # t) = l"
  by (subst takeWhile_append2) auto

lemma dropWhile_key: "QUOTE \<notin> set l \<Longrightarrow> dropWhile (\<lambda>c. c \<noteq> QUOTE) (l @ QUOTE # t) = QUOTE # t"
  by (subst dropWhile_append2) auto

lemma key_at:
  assumes "lang_ok l" "starts_with (key_pat l) s"
  shows "\<exists>t. s = QUOTE # t \<and> takeWhile (\<lambda>c. c \<noteq> QUOTE) t = l \<and>
    (\<exists>r. dropWhile (\<lambda>c. c \<noteq> QUOTE) t = QUOTE # CHR '':'' # r)"
proof -
  have q: "QUOTE \<notin> set l" using lang_chars [OF assms(1)] by blast
  obtain r where "s = QUOTE # (l @ QUOTE # CHR '':'' # QUOTE # r)"
    using assms(2) by (auto simp: starts_with_iff key_pat_def quoted_def)
  then show ?thesis using takeWhile_key [OF q] dropWhile_key [OF q] by blast
qed

lemma strstr_no_quote:
  "lang_ok l \<Longrightarrow> QUOTE \<notin> set u \<Longrightarrow> strstr (u @ v) (key_pat l) = strstr v (key_pat l)"
proof (induction u)
  case (Cons c u)
  have "\<not> starts_with (key_pat l) (c # u @ v)" using key_at [OF Cons.prems(1)] Cons.prems(2) by fastforce
  then show ?case using Cons by simp
qed simp

lemma strstr_no: "\<not> starts_with pat s \<Longrightarrow> s \<noteq> [] \<Longrightarrow> strstr s pat = strstr (tl s) pat"
  by (cases s) simp_all

section \<open>Escaped text\<close>

inductive escaped :: "string \<Rightarrow> bool" where
  esc_nil: "escaped []"
| esc_plain: "c \<noteq> QUOTE \<Longrightarrow> c \<noteq> BACKSLASH \<Longrightarrow> escaped s \<Longrightarrow> escaped (c # s)"
| esc_char: "escaped s \<Longrightarrow> escaped (BACKSLASH # c # s)"

lemma escaped_esc_title: "escaped (esc_title n s)"
  by (induction n s rule: esc_title.induct) (auto intro: escaped.intros)

lemma back_quote [simp]: "BACKSLASH \<noteq> QUOTE" "QUOTE \<noteq> BACKSLASH"
  by (simp_all add: QUOTE_def BACKSLASH_def)

lemma escaped_first_quote:
  "escaped e \<Longrightarrow> takeWhile (\<lambda>c. c \<noteq> QUOTE) (e @ QUOTE # r) = l \<Longrightarrow> BACKSLASH \<notin> set l \<Longrightarrow>
     dropWhile (\<lambda>c. c \<noteq> QUOTE) (e @ QUOTE # r) = QUOTE # r"
  by (induction e arbitrary: l rule: escaped.induct) auto

text \<open>No key matches at a quote in front of or inside a stored title.\<close>

lemma no_key_in_title:
  assumes "lang_ok l" "escaped e" "x \<noteq> CHR '':''"
  shows "\<not> starts_with (key_pat l) (QUOTE # e @ QUOTE # x # r)"
proof
  assume "starts_with (key_pat l) (QUOTE # e @ QUOTE # x # r)"
  from key_at [OF assms(1) this]
  have t: "takeWhile (\<lambda>c. c \<noteq> QUOTE) (e @ QUOTE # x # r) = l"
    and d: "\<exists>s. dropWhile (\<lambda>c. c \<noteq> QUOTE) (e @ QUOTE # x # r) = QUOTE # CHR '':'' # s" by auto
  have "BACKSLASH \<notin> set l" using lang_chars [OF assms(1)] by blast
  from escaped_first_quote [OF assms(2) t this] d assms(3) show False by auto
qed

lemma no_key_at_end:
  assumes "lang_ok l" "x \<notin> set l" "x \<noteq> QUOTE"
  shows "\<not> starts_with (key_pat l) (QUOTE # x # r)"
proof
  assume "starts_with (key_pat l) (QUOTE # x # r)"
  from key_at [OF assms(1) this] have "takeWhile (\<lambda>c. c \<noteq> QUOTE) (x # r) = l" by auto
  then show False using assms(2,3) by auto
qed

lemma strstr_over_title:
  assumes "escaped e" "lang_ok l" "x \<notin> set l" "x \<noteq> QUOTE" "x \<noteq> CHR '':''"
  shows "strstr (e @ QUOTE # x # r) (key_pat l) = strstr (x # r) (key_pat l)"
  using assms
proof (induction e rule: escaped.induct)
  case esc_nil
  then show ?case using strstr_no [OF no_key_at_end [of l x r]] by simp
next
  case (esc_plain c s)
  have "\<not> starts_with (key_pat l) (c # s @ QUOTE # x # r)" using key_at [OF esc_plain.prems(1)] esc_plain.hyps(1) by fastforce
  then show ?case using esc_plain by simp
next
  case (esc_char s c)
  have a: "\<not> starts_with (key_pat l) (BACKSLASH # c # s @ QUOTE # x # r)" using key_at [OF esc_char.prems(1)] by fastforce
  have b: "\<not> starts_with (key_pat l) (c # s @ QUOTE # x # r)"
  proof (cases "c = QUOTE")
    case True
    then show ?thesis using no_key_in_title [OF esc_char.prems(1) esc_char.hyps esc_char.prems(4)] by simp
  next
    case False
    then show ?thesis using key_at [OF esc_char.prems(1)] by fastforce
  qed
  show ?case using a b esc_char.IH [OF esc_char.prems] by simp
qed

lemma strstr_over_entry:
  assumes l: "lang_ok l" and k: "lang_ok k" "k \<noteq> l" and e: "escaped e"
    and x: "x \<notin> set l" "x \<noteq> QUOTE" "x \<noteq> CHR '':''"
  shows "strstr (quoted k @ '':'' @ quoted e @ x # r) (key_pat l) = strstr (x # r) (key_pat l)"
proof -
  have kq: "QUOTE \<notin> set k" using lang_chars [OF k(1)] by blast
  let ?t = "QUOTE # e @ QUOTE # x # r"
  have a: "\<not> starts_with (key_pat l) (QUOTE # k @ QUOTE # CHR '':'' # ?t)"
  proof
    assume "starts_with (key_pat l) (QUOTE # k @ QUOTE # CHR '':'' # ?t)"
    from key_at [OF l this] takeWhile_key [OF kq, of "CHR '':'' # ?t"] k(2) show False by auto
  qed
  have "CHR '':'' \<notin> set l" using lang_chars [OF l] by blast
  then have b: "\<not> starts_with (key_pat l) (QUOTE # CHR '':'' # ?t)"
    by (rule no_key_at_end [OF l]) (simp add: QUOTE_def)
  have c: "strstr (CHR '':'' # ?t) (key_pat l) = strstr ?t (key_pat l)"
    using strstr_no_quote [OF l, of "'':''" ?t] by (simp add: QUOTE_def)
  have "strstr (QUOTE # k @ QUOTE # CHR '':'' # ?t) (key_pat l) = strstr (k @ QUOTE # CHR '':'' # ?t) (key_pat l)"
    using strstr_no [OF a] by simp
  also have "\<dots> = strstr (QUOTE # CHR '':'' # ?t) (key_pat l)" by (rule strstr_no_quote [OF l kq])
  also have "\<dots> = strstr ?t (key_pat l)" using strstr_no [OF b] c by simp
  also have "\<dots> = strstr (e @ QUOTE # x # r) (key_pat l)" using strstr_no [OF no_key_in_title [OF l e x(3)]] by simp
  also have "\<dots> = strstr (x # r) (key_pat l)" by (rule strstr_over_title [OF e l x])
  finally show ?thesis by (simp add: quoted_def)
qed

section \<open>Reading a title back\<close>

lemma val_text_escaped:
  "n + 2 * length t \<le> 511 \<Longrightarrow> length t \<le> m \<Longrightarrow> val_text m (esc_title n t @ QUOTE # r) = t"
proof (induction t arbitrary: n m)
  case Nil
  then show ?case by (cases m) simp_all
next
  case (Cons c t)
  then obtain m' where m: "m = Suc m'" by (cases m) simp_all
  show ?case
  proof (cases "c = QUOTE \<or> c = BACKSLASH")
    case True
    then show ?thesis using Cons.prems Cons.IH [of "n + 2" m'] m by auto
  next
    case False
    then show ?thesis using Cons.prems Cons.IH [of "n + 1" m'] m by auto
  qed
qed

text \<open>The object without a limit of its size.\<close>

fun loc_tail :: "(string \<times> string) list \<Rightarrow> string" where
  "loc_tail [] = ''}''"
| "loc_tail (e # es) = '','' @ loc_entry e @ loc_tail es"

fun loc_text :: "(string \<times> string) list \<Rightarrow> string" where
  "loc_text [] = ''{}''"
| "loc_text (e # es) = ''{'' @ loc_entry e @ loc_tail es"

lemma loc_entries_fit:
  "length out + length (loc_tail es) < mx \<Longrightarrow> loc_entries mx False out es @ ''}'' = out @ loc_tail es"
  by (induction es arbitrary: out) auto

lemma loc_json_fit:
  assumes "length (loc_text es) < mx"
  shows "loc_json mx es = loc_text es"
proof -
  have "loc_entries mx True ''{'' es @ ''}'' = loc_text es"
  proof (cases es)
    case (Cons e es')
    then show ?thesis using assms loc_entries_fit [of "''{'' @ loc_entry e" es' mx] by (auto simp: Let_def)
  qed simp
  moreover have "length (loc_entries mx True ''{'' es) < mx - 1"
    using arg_cong [OF calculation, of length] assms by simp
  ultimately show ?thesis by (simp add: loc_json_def Let_def)
qed

lemma loc_tail_head: "\<exists>x r. loc_tail es = x # r \<and> (x = CHR '','' \<or> x = CHR ''}'')"
  by (cases es) auto

lemma strstr_entry_tail:
  assumes "lang_ok l" "\<forall>e\<in>set (e # es). lang_ok (fst e)" "map_of (e # es) l = Some t"
  shows "\<exists>r. strstr (loc_entry e @ loc_tail es) (key_pat l) = Some (key_pat l @ esc_title 0 t @ QUOTE # r)"
  using assms(2,3)
proof (induction es arbitrary: e)
  case Nil
  then have "fst e = l" "snd e = t" by (auto split: if_splits)
  then have s: "loc_entry e @ loc_tail [] = key_pat l @ esc_title 0 t @ QUOTE # ''}''"
    by (simp add: loc_entry_def key_pat_def quoted_def)
  then show ?case using starts_with_append [of "key_pat l" "esc_title 0 t @ QUOTE # ''}''"]
    by (auto simp: key_pat_def quoted_def)
next
  case (Cons d es)
  show ?case
  proof (cases "fst e = l")
    case True
    then have "snd e = t" using Cons.prems(2) by simp
    then have s: "loc_entry e @ loc_tail (d # es) = key_pat l @ esc_title 0 t @ QUOTE # loc_tail (d # es)"
      using True by (simp add: loc_entry_def key_pat_def quoted_def)
    then show ?thesis using starts_with_append [of "key_pat l" "esc_title 0 t @ QUOTE # loc_tail (d # es)"]
      by (auto simp: key_pat_def quoted_def)
  next
    case False
    have x: "CHR '','' \<notin> set l" "CHR '','' \<noteq> QUOTE" "CHR '','' \<noteq> CHR '':''"
      using lang_chars [OF assms(1)] by (auto simp: QUOTE_def)
    have k: "lang_ok (fst e)" using Cons.prems(1) by simp
    have "strstr (loc_entry e @ loc_tail (d # es)) (key_pat l) = strstr ('','' @ loc_entry d @ loc_tail es) (key_pat l)"
      using strstr_over_entry [OF assms(1) k False escaped_esc_title [of 0 "snd e"] x, of "loc_entry d @ loc_tail es"]
      by (simp add: loc_entry_def)
    also have "\<dots> = strstr (loc_entry d @ loc_tail es) (key_pat l)"
      by (rule strstr_no_quote [OF assms(1)]) (simp add: QUOTE_def)
    finally show ?thesis using Cons.IH [of d] Cons.prems False by auto
  qed
qed

lemma extract_loc_text:
  assumes "lang_ok l" "\<forall>e\<in>set es. lang_ok (fst e)" "map_of es l = Some t" "length t \<le> 255" "length t < mx"
  shows "extract_val_for_key (loc_text es) l mx = Some t"
proof -
  obtain e es' where es: "es = e # es'" using assms(3) by (cases es) auto
  have "strstr (loc_text es) (key_pat l) = strstr (loc_entry e @ loc_tail es') (key_pat l)"
    using strstr_no_quote [OF assms(1), of "''{''" "loc_entry e @ loc_tail es'"] es by (simp add: QUOTE_def)
  with strstr_entry_tail [OF assms(1) assms(2,3) [unfolded es]]
  obtain r where "strstr (loc_text es) (key_pat l) = Some (key_pat l @ esc_title 0 t @ QUOTE # r)" by auto
  moreover have "val_text (mx - 1) (esc_title 0 t @ QUOTE # r) = t"
    by (rule val_text_escaped) (use assms(4,5) in auto)
  ultimately show ?thesis
    unfolding extract_val_for_key_def Let_def key_pat_def [symmetric] by simp
qed

section \<open>Requested languages\<close>

lemma rtrim_lang: "lang_ok l \<Longrightarrow> rtrim l = l"
proof -
  assume l: "lang_ok l"
  then have "hd (rev l) \<in> set l" by (metis hd_in_set lang_ok_def rev_is_Nil_conv set_rev)
  then have "\<not> c_isspace (hd (rev l))" using lang_chars [OF l] by blast
  then show ?thesis using l by (cases "rev l") (auto simp: rtrim_def lang_ok_def rev_swap)
qed

text \<open>C23. Localized titles are found again: the object written for a list of
  languages and titles (any titles, with quotes and backslashes, of at most 255
  bytes) gives back, for a request whose first language is one of them, the first
  title that was stored for it, and so do both title resolvers.\<close>

theorem localized_titles_roundtrip:
  assumes "lang_ok l" "\<forall>e\<in>set es. lang_ok (fst e)" "map_of es l = Some t" "t \<noteq> []" "length t \<le> 255"
    and "length l < 32" "length (loc_text es) < 2048" "more = [] \<or> hd more \<in> {CHR '','', CHR '';''}"
  shows "match_accept_language (loc_json 2048 es) (l @ more) 256 = Some t \<and>
    pkg_parser_resolve_localized_title (loc_json 2048 es) lang (l @ more) 256 = Some t \<and>
    pkg_parser_resolve_sfo_title (loc_json 2048 es) (l @ more) title 256 = Some t"
proof -
  have x: "extract_val_for_key (loc_text es) l 256 = Some t"
    by (rule extract_loc_text [OF assms(1-3,5)]) (use assms(5) in simp)
  have tag: "takeWhile (\<lambda>c. c \<noteq> CHR '','' \<and> c \<noteq> CHR '';'') (l @ more) = l"
  proof -
    have "takeWhile (\<lambda>c. c \<noteq> CHR '','' \<and> c \<noteq> CHR '';'') more = []" using assms(8) by (cases more) auto
    moreover have "\<forall>c\<in>set l. c \<noteq> CHR '','' \<and> c \<noteq> CHR '';''" using lang_chars [OF assms(1)] by blast
    ultimately show ?thesis by (simp add: takeWhile_append2)
  qed
  have sep: "dropWhile is_tag_sep (l @ more) = l @ more"
  proof -
    obtain c l' where c: "l = c # l'" using assms(1) by (cases l) (auto simp: lang_ok_def)
    have t: "c_isspace (CHR 0x09)" by code_simp
    have "c \<in> set l" using c by simp
    from lang_chars [OF assms(1) this] t have "\<not> is_tag_sep c" unfolding is_tag_sep_def by metis
    with c show ?thesis by simp
  qed
  have "match_tag (loc_text es) l 256 = Some t" using x assms(4) by (simp add: match_tag_def nonempty_val_def)
  then have m: "match_accept_language (loc_text es) (l @ more) 256 = Some t"
  proof -
    have "rtrim l = l" "l \<noteq> []" using assms(1) rtrim_lang by (auto simp: lang_ok_def)
    with \<open>match_tag (loc_text es) l 256 = Some t\<close> show ?thesis
      using assms(6) match_accept_language.simps [of "loc_text es" "l @ more" 256]
      by (simp only: sep tag Let_def) simp
  qed
  have h: "loc_text es \<noteq> []" "hd (loc_text es) = CHR ''{''" by (cases es; simp)+
  show ?thesis
    using m h assms(5) loc_json_fit [OF assms(7)]
    by (simp add: pkg_parser_resolve_localized_title_def pkg_parser_resolve_sfo_title_def first_of_def cstr_trunc_id)
qed

theorem localized_titles_roundtrip_witness:
  "match_accept_language (loc_json 2048 [(''en-US'', ''A''), (''ja-JP'', [QUOTE, CHR ''B'', BACKSLASH])]) ''ja-JP,en;q=0.5'' 256 =
     Some [QUOTE, CHR ''B'', BACKSLASH]"
proof -
  have "lang_ok ''ja-JP''" "lang_ok ''en-US''" by code_simp+
  moreover have "length (loc_text [(''en-US'', ''A''), (''ja-JP'', [QUOTE, CHR ''B'', BACKSLASH])]) < 2048" by code_simp
  ultimately show ?thesis
    using localized_titles_roundtrip [of "''ja-JP''" "[(''en-US'', ''A''), (''ja-JP'', [QUOTE, CHR ''B'', BACKSLASH])]"
        "[QUOTE, CHR ''B'', BACKSLASH]" "'',en;q=0.5''"] by simp
qed

end
