(* ===== verification/ParamJson.thy ===== *)
theory ParamJson
  imports JsonText
begin

text \<open>
  \<open>pkg_parser_parse_param_json\<close> of \<open>src/pkg_parser.c\<close>: the metadata of a PS5
  package. The buffer is a list of characters that may hold NULs, with a NUL behind
  it; the results go into buffers of the sizes every parser passes (title id 32,
  title 256, category 16, version 32, localized titles 2048, language 32).
\<close>

section \<open>Numbers of a version\<close>

text \<open>\<open>%d\<close> of \<open>sscanf\<close>: a saturating \<open>long\<close> stored in an \<open>int\<close>.\<close>

definition int32 :: "int \<Rightarrow> int" where
  "int32 v = (v + 2 ^ 31) mod 2 ^ 32 - 2 ^ 31"

definition scan_int :: "string \<Rightarrow> (int \<times> string) option" where
  "scan_int s =
     (let t = dropWhile c_isspace s;
          neg = (t \<noteq> [] \<and> hd t = CHR ''-'');
          u = (if t \<noteq> [] \<and> (hd t = CHR ''-'' \<or> hd t = CHR ''+'') then tl t else t);
          v = int (digits_value 0 (takeWhile c_isdigit u))
      in if takeWhile c_isdigit u = [] then None
         else Some (int32 (if neg then max (- (2 ^ 63)) (- v) else min (2 ^ 63 - 1) v), dropWhile c_isdigit u))"

definition scan_dot_int :: "string \<Rightarrow> (int \<times> string) option" where
  "scan_dot_int s = (if s \<noteq> [] \<and> hd s = CHR ''.'' then scan_int (tl s) else None)"

text \<open>\<open>sscanf(s, "%d.%d.%d", ...) == 3\<close>.\<close>

definition scan_version3 :: "string \<Rightarrow> (int \<times> int \<times> int) option" where
  "scan_version3 s =
     (case scan_int s of
        None \<Rightarrow> None
      | Some (a, r) \<Rightarrow>
          (case scan_dot_int r of
             None \<Rightarrow> None
           | Some (b, r2) \<Rightarrow> (case scan_dot_int r2 of None \<Rightarrow> None | Some (c, _) \<Rightarrow> Some (a, b, c))))"

definition int_str :: "int \<Rightarrow> string" where
  "int_str n = (if n < 0 then ''-'' @ dec_str (nat (- n)) else dec_str (nat n))"

text \<open>\<open>%02d\<close>.\<close>

definition int_str02 :: "int \<Rightarrow> string" where
  "int_str02 n = (if length (int_str n) < 2 then ''0'' @ int_str n else int_str n)"

definition param_version :: "string \<Rightarrow> string" where
  "param_version ver =
     cstr_trunc 32
       (case scan_version3 ver of
          Some (maj, mn, patch) \<Rightarrow>
            (if mn = 0 \<and> patch > 0 then ''v'' @ int_str maj @ ''.'' @ int_str02 patch
             else if patch = 0 then ''v'' @ int_str maj @ ''.'' @ int_str02 mn
             else ''v'' @ int_str maj @ ''.'' @ int_str mn @ ''.'' @ int_str patch)
        | None \<Rightarrow>
            if hd ver \<noteq> CHR ''v'' \<and> hd ver \<noteq> CHR ''V'' then ''v'' @ take 29 ver else ver)"

text \<open>The version of a \<open>param.json\<close>, if it has one.\<close>

definition json_version :: "string \<Rightarrow> nat \<Rightarrow> string option" where
  "json_version m len =
     (case first_of (json_extract_key m len ''contentVersion'' 32)
        (first_of (json_extract_key m len ''appVersion'' 32) (json_extract_key m len ''version'' 32)) of
        None \<Rightarrow> None
      | Some ver \<Rightarrow> if ver = [] then None else Some (param_version ver))"

section \<open>Objects\<close>

text \<open>The end of the object that opens at \<open>p\<close>.\<close>

function match_brace :: "string \<Rightarrow> nat \<Rightarrow> nat \<Rightarrow> int \<Rightarrow> bool \<Rightarrow> nat option" where
  "match_brace m p e depth in_str =
     (if p \<ge> e then None
      else if m ! p = BACKSLASH \<and> in_str \<and> p + 1 < e then match_brace m (p + 2) e depth in_str
      else if m ! p = QUOTE then match_brace m (p + 1) e depth (\<not> in_str)
      else if in_str then match_brace m (p + 1) e depth in_str
      else if m ! p = CHR ''{'' then match_brace m (p + 1) e (depth + 1) in_str
      else if m ! p = CHR ''}'' then
        (if depth - 1 = 0 then Some p else match_brace m (p + 1) e (depth - 1) in_str)
      else match_brace m (p + 1) e depth in_str)"
  by pat_completeness auto
termination
  by (relation "measure (\<lambda>(m, p, e, depth, in_str). e - p)") auto

declare match_brace.simps [simp del]

lemma match_brace_bounds: "match_brace m p e depth in_str = Some q \<Longrightarrow> p \<le> q \<and> q < e"
proof (induction m p e depth in_str rule: match_brace.induct)
  case (1 m p e depth in_str)
  show ?case
    using 1 by (subst (asm) (7) match_brace.simps) (auto split: if_splits)
qed

text \<open>The \<open>localizedParameters\<close> object.\<close>

definition localized_block :: "string \<Rightarrow> (nat \<times> nat) option" where
  "localized_block m =
     (let e = length m in
      case find_from m 0 (quoted ''localizedParameters'') of
        None \<Rightarrow> None
      | Some lp \<Rightarrow>
          (case chr_from m (lp + 21) (CHR '':'') of
             None \<Rightarrow> None
           | Some colon \<Rightarrow>
               if lp \<ge> e \<or> colon \<ge> e then None
               else
               (case chr_from m (colon + 1) (CHR ''{'') of
                  None \<Rightarrow> None
                | Some brace \<Rightarrow>
                    if brace \<ge> e then None
                    else (case match_brace m brace e 0 False of None \<Rightarrow> None | Some q \<Rightarrow> Some (brace, q)))))"

text \<open>A title outside of it.\<close>

function global_title_from :: "string \<Rightarrow> (nat \<times> nat) option \<Rightarrow> string \<Rightarrow> nat \<Rightarrow> string option" where
  "global_title_from m block pat cu =
     (if cu \<ge> length m \<or> pat = [] then None
      else
      case find_from m cu pat of
        None \<Rightarrow> None
      | Some f \<Rightarrow>
          if f \<ge> length m then None
          else
          let v = (if (case block of None \<Rightarrow> True | Some (a, b) \<Rightarrow> f < a \<or> f > b) then
                     (case chr_from m (f + length pat) (CHR '':'') of
                        None \<Rightarrow> None
                      | Some c \<Rightarrow> if c < length m then literal_after m (c + 1) (length m) 256 else None)
                   else None)
          in (case v of Some t \<Rightarrow> Some t | None \<Rightarrow> global_title_from m block pat (f + length pat)))"
  by pat_completeness auto
termination
  by (relation "measure (\<lambda>(m, block, pat, cu). length m - cu)")
    (auto simp: length_greater_0_conv [symmetric] simp del: length_greater_0_conv dest!: find_from_ge)

declare global_title_from.simps [simp del]

definition global_title :: "string \<Rightarrow> (nat \<times> nat) option \<Rightarrow> string" where
  "global_title m block =
     (case global_title_from m block (quoted ''titleName'') 0 of
        Some t \<Rightarrow> if t \<noteq> [] then t
                  else (case global_title_from m block (quoted ''title'') 0 of Some u \<Rightarrow> u | None \<Rightarrow> [])
      | None \<Rightarrow> (case global_title_from m block (quoted ''title'') 0 of Some u \<Rightarrow> u | None \<Rightarrow> []))"

definition default_language :: "string \<Rightarrow> nat \<Rightarrow> nat \<Rightarrow> string" where
  "default_language m a b =
     (case find_from m a (quoted ''defaultLanguage'') of
        None \<Rightarrow> []
      | Some dl \<Rightarrow>
          if dl \<ge> b then []
          else
          (case chr_from m (dl + 17) (CHR '':'') of
             None \<Rightarrow> []
           | Some c \<Rightarrow>
               if c \<ge> b then []
               else (case literal_after m (c + 1) b 32 of Some v \<Rightarrow> v | None \<Rightarrow> [])))"

section \<open>The localized titles\<close>

definition quote_from :: "string \<Rightarrow> nat \<Rightarrow> nat \<Rightarrow> nat" where
  "quote_from m p e = p + length (takeWhile (\<lambda>c. c \<noteq> QUOTE) (take (e - p) (drop p m)))"

lemma quote_from_ge: "p \<le> quote_from m p e"
  by (simp add: quote_from_def)

lemma skip_space_ge: "p \<le> skip_space m p e"
  by (simp add: skip_space_def)

text \<open>The index of the closing quote of a literal.\<close>

function skip_lit :: "string \<Rightarrow> nat \<Rightarrow> nat \<Rightarrow> nat" where
  "skip_lit m q e =
     (if q \<ge> e \<or> m ! q = QUOTE then q
      else skip_lit m ((if m ! q = BACKSLASH \<and> q + 1 < e then q + 1 else q) + 1) e)"
  by pat_completeness auto
termination
  by (relation "measure (\<lambda>(m, q, e). e - q)") auto

declare skip_lit.simps [simp del]

lemma skip_lit_ge: "q \<le> skip_lit m q e"
proof (induction m q e rule: skip_lit.induct)
  case (1 m q e)
  show ?case
  proof (cases "q \<ge> e \<or> m ! q = QUOTE")
    case True
    then show ?thesis by (subst skip_lit.simps) simp
  next
    case False
    then show ?thesis using 1 by (subst skip_lit.simps) (auto split: if_splits)
  qed
qed

definition object_title :: "string \<Rightarrow> nat \<Rightarrow> nat \<Rightarrow> string" where
  "object_title m a b =
     (case find_from m a (quoted ''titleName'') of
        None \<Rightarrow> []
      | Some tn \<Rightarrow>
          if tn \<ge> b then []
          else
          (case chr_from m (tn + 11) (CHR '':'') of
             None \<Rightarrow> []
           | Some c \<Rightarrow>
               if c \<ge> b then []
               else (case literal_after m (c + 1) b 256 of Some v \<Rightarrow> v | None \<Rightarrow> [])))"

definition add_entry :: "string \<Rightarrow> string \<Rightarrow> (string \<times> string) list \<Rightarrow> (string \<times> string) list" where
  "add_entry key title es = (if title \<noteq> [] \<and> key \<noteq> [] then es @ [(cstr_trunc 32 key, title)] else es)"

function lang_entries :: "string \<Rightarrow> nat \<Rightarrow> nat \<Rightarrow> (string \<times> string) list \<Rightarrow> (string \<times> string) list" where
  "lang_entries m p e es =
     (if p \<ge> e \<or> length es \<ge> 64 then es
      else
      let p1 = quote_from m p e in
      if p1 \<ge> e then es
      else
      let p2 = quote_from m (p1 + 1) e;
          key = up_to_nul (take 63 (take (p2 - (p1 + 1)) (drop (p1 + 1) m))) in
      if p2 \<ge> e then es
      else
      let p4 = skip_space m (p2 + 1) e in
      if p4 \<ge> e \<or> m ! p4 \<noteq> CHR '':'' then lang_entries m p4 e es
      else
      let p6 = skip_space m (p4 + 1) e in
      if p6 \<ge> e then es
      else if m ! p6 = QUOTE then
        (let p7 = skip_lit m (p6 + 1) e in lang_entries m (if p7 < e then p7 + 1 else p7) e es)
      else if m ! p6 = CHR ''{'' then
        (case match_brace m p6 e 0 False of
           None \<Rightarrow> es
         | Some q \<Rightarrow> lang_entries m (q + 1) e (add_entry key (object_title m p6 q) es))
      else lang_entries m p6 e es)"
  by pat_completeness auto
termination
proof (relation "measure (\<lambda>(m, p, e, es). e - p)", goal_cases)
  case 1
  show ?case by simp
next
  case (2 m p e es p1 p2 key p4)
  have "p \<le> p1" "p1 + 1 \<le> p2" "p2 + 1 \<le> p4" using 2 quote_from_ge skip_space_ge by simp_all
  moreover have "p < e" using 2(1) by simp
  ultimately show ?case by auto
next
  case (3 m p e es p1 p2 key p4 p6 p7)
  have "p \<le> p1" "p1 + 1 \<le> p2" "p2 + 1 \<le> p4" "p4 + 1 \<le> p6" "p6 + 1 \<le> p7"
    using 3 quote_from_ge skip_space_ge skip_lit_ge by simp_all
  moreover have "p < e" using 3(1) by simp
  ultimately show ?case by auto
next
  case (4 m p e es p1 p2 key p4 p6 q)
  have "p \<le> p1" "p1 + 1 \<le> p2" "p2 + 1 \<le> p4" "p4 + 1 \<le> p6" using 4 quote_from_ge skip_space_ge by simp_all
  moreover have "p6 \<le> q" using match_brace_bounds [OF 4(13)] by simp
  moreover have "p < e" using 4(1) by simp
  ultimately show ?case by auto
next
  case (5 m p e es p1 p2 key p4 p6)
  have "p \<le> p1" "p1 + 1 \<le> p2" "p2 + 1 \<le> p4" "p4 + 1 \<le> p6"
    using 5 quote_from_ge skip_space_ge by simp_all
  moreover have "p < e" using 5(1) by simp
  ultimately show ?case by auto
qed

declare lang_entries.simps [simp del]

section \<open>The parser\<close>

record param_out =
  po_title_id :: string
  po_title :: string
  po_category :: string
  po_version :: string
  po_localized :: string
  po_lang :: string

definition lang_title :: "(string \<Rightarrow> bool) \<Rightarrow> (string \<times> string) list \<Rightarrow> string" where
  "lang_title P es = (case find (\<lambda>e. P (fst e)) es of Some e \<Rightarrow> snd e | None \<Rightarrow> [])"

definition or_else :: "string \<Rightarrow> string \<Rightarrow> string" where
  "or_else a b = (if a = [] then b else a)"

definition default_title :: "string \<Rightarrow> string \<Rightarrow> (string \<times> string) list \<Rightarrow> string" where
  "default_title glob lang es =
     or_else (if glob \<noteq> [] then glob else if lang \<noteq> [] then lang_title (\<lambda>l. l = lang) es else [])
       (or_else (lang_title (starts_with ''en'') es) (if es \<noteq> [] then snd (hd es) else []))"

definition opt_str :: "string option \<Rightarrow> string" where
  "opt_str v = (case v of Some s \<Rightarrow> s | None \<Rightarrow> [])"

definition pkg_parser_parse_param_json :: "string \<Rightarrow> param_out \<Rightarrow> param_out" where
  "pkg_parser_parse_param_json m out =
     (if m = [] then out
      else
      let n = length m;
          block = localized_block m;
          glob = global_title m block;
          out1 = out\<lparr> po_title_id := or_else (po_title_id out) (opt_str (json_extract_key m n ''titleId'' 32)),
                      po_category := or_else (po_category out) (opt_str (json_extract_key m n ''category'' 16)),
                      po_version := or_else (po_version out) (opt_str (json_version m n)) \<rparr>
      in (case block of
            None \<Rightarrow> out1\<lparr> po_title := or_else (po_title out) glob, po_localized := [], po_lang := [] \<rparr>
          | Some (a, b) \<Rightarrow>
              let lang = default_language m a b;
                  es = lang_entries m (a + 1) b []
              in out1\<lparr> po_title := or_else (po_title out) (default_title glob lang es),
                       po_localized := (if es = [] then [] else loc_json 2048 es), po_lang := lang \<rparr>))"

end
