(* ===== verification/PkgBytes.thy ===== *)
theory PkgBytes
  imports CString
begin

text \<open>
  Big- and little-endian numbers in byte lists, as the parsers read and as their
  reference encoders write them, and exact reads of a slice.
\<close>

fun be_num :: "nat \<Rightarrow> byte list \<Rightarrow> nat" where
  "be_num acc [] = acc"
| "be_num acc (b # bs) = be_num (256 * acc + unat b) bs"

fun le_num :: "byte list \<Rightarrow> nat" where
  "le_num [] = 0"
| "le_num (b # bs) = unat b + 256 * le_num bs"

definition read_be32 :: "byte list \<Rightarrow> nat" where "read_be32 p = be_num 0 (take 4 p)"
definition read_le16 :: "byte list \<Rightarrow> nat" where "read_le16 p = le_num (take 2 p)"
definition read_le32 :: "byte list \<Rightarrow> nat" where "read_le32 p = le_num (take 4 p)"
definition read_le64 :: "byte list \<Rightarrow> nat" where "read_le64 p = le_num (take 8 p)"

text \<open>The little-endian encoding of a number in \<open>n\<close> bytes.\<close>

fun le_bytes :: "nat \<Rightarrow> nat \<Rightarrow> byte list" where
  "le_bytes 0 v = []"
| "le_bytes (Suc n) v = of_nat (v mod 256) # le_bytes n (v div 256)"

lemma unat_byte: "unat (of_nat (v mod 256) :: byte) = v mod 256"
  by (simp add: unat_of_nat)

lemma length_le_bytes [simp]: "length (le_bytes n v) = n"
  by (induction n arbitrary: v) simp_all

lemma le_num_le_bytes: "v < 256 ^ n \<Longrightarrow> le_num (le_bytes n v) = v"
proof (induction n arbitrary: v)
  case (Suc n)
  then have "v div 256 < 256 ^ n" by (simp add: less_mult_imp_div_less mult.commute)
  then show ?case using Suc by (simp add: unat_byte)
qed simp

lemma le_num_less: "le_num bs < 256 ^ length bs"
proof (induction bs)
  case (Cons b bs)
  have "unat b < 256" using unsigned_less [of b] by simp
  then show ?case using Cons by (simp add: algebra_simps)
qed simp

lemma read_le_append:
  "v < 2 ^ 16 \<Longrightarrow> read_le16 (le_bytes 2 v @ r) = v"
  "v < 2 ^ 32 \<Longrightarrow> read_le32 (le_bytes 4 v @ r) = v"
  "v < 2 ^ 64 \<Longrightarrow> read_le64 (le_bytes 8 v @ r) = v"
  unfolding read_le16_def read_le32_def read_le64_def
  by (simp_all add: le_num_le_bytes)

text \<open>\<open>[off, off + n)\<close> of a list, if it lies inside.\<close>

definition full_slice :: "nat \<Rightarrow> nat \<Rightarrow> 'a list \<Rightarrow> 'a list option" where
  "full_slice off n xs = (if off + n \<le> length xs then Some (bslice off n xs) else None)"

lemma full_slice_length: "full_slice off n xs = Some s \<Longrightarrow> length s = n"
  by (auto simp: full_slice_def length_bslice split: if_splits)

lemma full_slice_take: "full_slice off n (take k xs) = Some s \<Longrightarrow> full_slice off n xs = Some s"
  by (auto simp: full_slice_def bslice_take split: if_splits)

end
