(* ===== verification/ParamSfo.thy ===== *)
theory ParamSfo
  imports ParamJson PkgBytes
begin

text \<open>
  \<open>pkg_parser_parse_param_sfo\<close> of \<open>src/pkg_parser.c\<close>: the metadata table of a PS4
  package. A header gives the offsets of a key table and a data table; each entry
  names a key and its data.
\<close>

section \<open>Texts\<close>

text \<open>Entry data copied as text into a buffer of \<open>mx\<close> bytes.\<close>

definition sfo_text :: "nat \<Rightarrow> byte list \<Rightarrow> string" where
  "sfo_text mx d =
     cstr_of_bytes (rev (dropWhile (\<lambda>b. b = 0) (rev (take (if length d < mx then length d else mx - 1) d))))"

definition s_sfo_lang_map :: "string list" where
  "s_sfo_lang_map =
    [''ja-JP'', ''en-US'', ''fr-FR'', ''es-ES'', ''de-DE'', ''it-IT'', ''nl-NL'', ''pt-PT'',
     ''ru-RU'', ''ko-KR'', ''zh-Hant'', ''zh-Hans'', ''fi-FI'', ''sv-SE'', ''da-DK'', ''no-NO'',
     ''pl-PL'', ''pt-BR'', ''en-GB'', ''tr-TR'', ''es-419'', ''ar-AE'', ''fr-CA'', ''cs-CZ'',
     ''hu-HU'', ''el-GR'', ''ro-RO'', ''th-TH'', ''vi-VN'', ''id-ID'']"

text \<open>The language of \<open>TITLE_<digits>\<close>; \<open>atoi\<close> keeps the low 32 bits of a saturated
  \<open>long\<close>.\<close>

definition sfo_lang :: "string \<Rightarrow> string option" where
  "sfo_lang suffix =
     (if suffix = [] \<or> \<not> list_all c_isdigit suffix then None
      else let i = int32 (strtol10 suffix)
           in if 0 \<le> i \<and> i < 30 then Some (s_sfo_lang_map ! nat i) else None)"

section \<open>Entries\<close>

record sfo =
  sf_title :: string
  sf_title_id :: string
  sf_category :: string
  sf_app_ver :: string
  sf_version :: string
  sf_loc :: "(string \<times> string) list"

definition sfo_zero :: sfo where
  "sfo_zero = \<lparr> sf_title = [], sf_title_id = [], sf_category = [], sf_app_ver = [], sf_version = [], sf_loc = [] \<rparr>"

definition sfo_note :: "string \<times> byte list \<Rightarrow> sfo \<Rightarrow> sfo" where
  "sfo_note e s =
     (let key = fst e; d = snd e in
      if key = ''TITLE'' \<and> sf_title s = [] then s\<lparr>sf_title := sfo_text 256 d\<rparr>
      else if key = ''TITLE_ID'' \<and> sf_title_id s = [] then s\<lparr>sf_title_id := sfo_text 32 d\<rparr>
      else if starts_with ''TITLE_'' key \<and> length (sf_loc s) < 32 then
        (case sfo_lang (drop 6 key) of
           None \<Rightarrow> s
         | Some l \<Rightarrow> s\<lparr>sf_loc := sf_loc s @ [(l, sfo_text 256 d)]\<rparr>)
      else if key = ''CATEGORY'' \<and> sf_category s = [] then s\<lparr>sf_category := sfo_text 16 d\<rparr>
      else if key = ''APP_VER'' \<and> sf_app_ver s = [] then s\<lparr>sf_app_ver := sfo_text 32 d\<rparr>
      else if key = ''VERSION'' \<and> sf_version s = [] then s\<lparr>sf_version := sfo_text 32 d\<rparr>
      else s)"

text \<open>Entry \<open>i\<close>: its key and its data, if both lie in the buffer.\<close>

definition sfo_entry :: "byte list \<Rightarrow> nat \<Rightarrow> nat \<Rightarrow> nat \<Rightarrow> (string \<times> byte list) option" where
  "sfo_entry b keys datas i =
     (let e = drop (20 + i * 16) b;
          key_off = read_le16 e; data_len = read_le32 (drop 4 e); data_off = read_le32 (drop 12 e);
          k = keys + key_off
      in if k \<ge> length b then None
         else if 0 \<notin> set (drop k b) then None
         else if data_off > length b \<or> data_len > length b \<or> datas + data_off + data_len > length b then None
         else Some (cstr_of_bytes (drop k b), bslice (datas + data_off) data_len b))"

fun sfo_scan :: "byte list \<Rightarrow> nat \<Rightarrow> nat \<Rightarrow> nat \<Rightarrow> nat list \<Rightarrow> sfo \<Rightarrow> sfo" where
  "sfo_scan b keys datas n [] s = s"
| "sfo_scan b keys datas n (i # is) s =
     (if 20 + (i + 1) * 16 > length b then s
      else sfo_scan b keys datas n is
        (case sfo_entry b keys datas i of None \<Rightarrow> s | Some e \<Rightarrow> sfo_note e s))"

section \<open>The parser\<close>

definition sfo_title :: "sfo \<Rightarrow> string" where
  "sfo_title s =
     (if sf_title s \<noteq> [] \<or> sf_loc s = [] then sf_title s
      else case find (\<lambda>e. fst e = ''en-US'') (sf_loc s) of Some e \<Rightarrow> snd e | None \<Rightarrow> snd (hd (sf_loc s)))"

definition sfo_version :: "sfo \<Rightarrow> string" where
  "sfo_version s =
     (let best = (if sf_app_ver s \<noteq> [] then sf_app_ver s else sf_version s)
      in if best = [] then []
         else if hd best \<noteq> CHR ''v'' \<and> hd best \<noteq> CHR ''V'' then cstr_trunc 32 (''v'' @ best) else best)"

text \<open>The results for empty output buffers of the usual sizes, but what the buffers of
  the localized titles and of the language hold already.\<close>

definition sfo_out :: "sfo \<Rightarrow> string \<Rightarrow> string \<Rightarrow> param_out" where
  "sfo_out s loc lang =
     \<lparr> po_title_id = sf_title_id s, po_title = sfo_title s, po_category = sf_category s,
       po_version = sfo_version s,
       po_localized = (if sf_loc s = [] then loc else loc_json 2048 (sf_loc s)),
       po_lang = (if sf_loc s = [] then lang else or_else lang ''en-US'') \<rparr>"

definition SFO_MAGIC :: "byte list" where "SFO_MAGIC = [0x00, 0x50, 0x53, 0x46]"

definition sfo_table :: "byte list \<Rightarrow> sfo option" where
  "sfo_table b =
     (if length b < 20 \<or> take 4 b \<noteq> SFO_MAGIC then None
      else
      let keys = read_le32 (drop 8 b); datas = read_le32 (drop 12 b); n = read_le32 (drop 16 b)
      in if keys \<ge> length b \<or> datas \<ge> length b \<or> n > 1024 then None
         else Some (sfo_scan b keys datas n [0..<n] sfo_zero))"

definition pkg_parser_parse_param_sfo :: "byte list \<Rightarrow> string \<Rightarrow> string \<Rightarrow> param_out" where
  "pkg_parser_parse_param_sfo b loc lang =
     (case sfo_table b of
        None \<Rightarrow> \<lparr> po_title_id = [], po_title = [], po_category = [], po_version = [],
                 po_localized = loc, po_lang = lang \<rparr>
      | Some s \<Rightarrow> sfo_out s loc lang)"

end
