(* ===== verification/PkgContainer.thy ===== *)
theory PkgContainer
  imports ParamSfo PkgPlatform
begin

text \<open>
  The package container as all four parsers read it: a CNT header, found directly or
  through the table of a PS5 FIH header, its entry table, the entries that hold
  metadata, and the classification of the package. What the four copies of this code
  share line by line is defined once, for an exact read \<open>get offset count\<close>; where they
  differ they have definitions of their own (\<open>PkgParse\<close>). Offsets add up exactly: the
  sums of 64 bits could wrap only for a container beyond the end of a source of unknown
  size, where no read succeeds.
\<close>

type_synonym exact_get = "nat \<Rightarrow> nat \<Rightarrow> byte list option"

section \<open>Finding the container\<close>

definition CNT_MAGIC :: "byte list" where "CNT_MAGIC = [0x7F, 0x43, 0x4E, 0x54]"
definition FIH_MAGIC :: "byte list" where "FIH_MAGIC = [0x7F, 0x46, 0x49, 0x48]"

definition cnt_at :: "exact_get \<Rightarrow> nat \<Rightarrow> bool" where
  "cnt_at get cand \<longleftrightarrow> get cand 4 = Some CNT_MAGIC"

text \<open>The offsets \<open>0x10, 0x18, ...\<close> of the FIH header, up to its end.\<close>

definition fih_offsets :: "byte list \<Rightarrow> nat list" where
  "fih_offsets hdr = map (\<lambda>i. 0x10 + i * 8) [0..<(length hdr - 0x10) div 8]"

definition fih_scan :: "(nat \<Rightarrow> bool) \<Rightarrow> exact_get \<Rightarrow> byte list \<Rightarrow> nat option" where
  "fih_scan inside get hdr =
     find (\<lambda>cand. cand \<ge> 0x10000 \<and> inside cand \<and> cand mod 0x1000 = 0 \<and> cnt_at get cand)
       (map (\<lambda>off. read_le64 (drop off hdr)) (fih_offsets hdr))"

definition find_cnt :: "(nat \<Rightarrow> bool) \<Rightarrow> exact_get \<Rightarrow> byte list \<Rightarrow> nat option" where
  "find_cnt inside get hdr =
     (if take 4 hdr = CNT_MAGIC then Some 0
      else if take 4 hdr = FIH_MAGIC then
        (let cand = read_le64 (drop 0x58 hdr)
         in if cand > 0 \<and> inside cand \<and> cnt_at get cand then Some cand else fih_scan inside get hdr)
      else None)"

section \<open>Header and entry table\<close>

definition cnt_content_id :: "byte list \<Rightarrow> string" where
  "cnt_content_id h =
     map char_of_byte (takeWhile (\<lambda>b. 32 \<le> unat b \<and> unat b \<le> 126) (take 48 (drop 0x40 h)))"

record cnt_table =
  ct_offset :: nat
  ct_magic :: nat
  ct_content_id :: string
  ct_rows :: "byte list list"

definition table_rows :: "byte list \<Rightarrow> nat \<Rightarrow> byte list list" where
  "table_rows tbl n = map (\<lambda>i. bslice (i * 32) 32 tbl) [0..<n]"

text \<open>\<open>Inl\<close> is the stage at which it fails: 3 the header, 5 its numbers, 6 the table.\<close>

definition read_table :: "exact_get \<Rightarrow> nat \<Rightarrow> nat + cnt_table" where
  "read_table get cnt =
     (case get cnt 0x80 of
        None \<Rightarrow> Inl 3
      | Some h \<Rightarrow>
          if take 4 h \<noteq> CNT_MAGIC then Inl 3
          else
          let n = read_be32 (drop 0x10 h); off = read_be32 (drop 0x18 h) in
          if n = 0 \<or> n > 2048 \<or> off > 0x200000 then Inl 5
          else
          case get (cnt + off) (n * 32) of
            None \<Rightarrow> Inl 6
          | Some tbl \<Rightarrow>
              Inr \<lparr> ct_offset = cnt, ct_magic = read_be32 (drop 4 h),
                    ct_content_id = cnt_content_id h, ct_rows = table_rows tbl n \<rparr>)"

definition row_type :: "byte list \<Rightarrow> nat" where "row_type e = read_be32 e"
definition row_name_off :: "byte list \<Rightarrow> nat" where "row_name_off e = read_be32 (drop 4 e)"
definition row_off :: "byte list \<Rightarrow> nat" where "row_off e = read_be32 (drop 16 e)"
definition row_size :: "byte list \<Rightarrow> nat" where "row_size e = read_be32 (drop 20 e)"

definition string_table :: "exact_get \<Rightarrow> cnt_table \<Rightarrow> byte list option" where
  "string_table get t =
     (case find (\<lambda>e. row_type e = 0x200) (ct_rows t) of
        None \<Rightarrow> None
      | Some e \<Rightarrow>
          if row_size e > 0 \<and> row_size e < 65536 then get (ct_offset t + row_off e) (row_size e) else None)"

definition row_name :: "byte list option \<Rightarrow> byte list \<Rightarrow> string" where
  "row_name strs e =
     (case strs of
        None \<Rightarrow> []
      | Some s \<Rightarrow> if row_name_off e < length s then cstr_of_bytes (drop (row_name_off e) s) else [])"

section \<open>What the entries say\<close>

record flags =
  fl_playgo_patch :: bool
  fl_delta_patch :: bool
  fl_base_meta :: bool
  fl_sfo_category :: bool

definition flags_zero :: flags where
  "flags_zero = \<lparr> fl_playgo_patch = False, fl_delta_patch = False, fl_base_meta = False, fl_sfo_category = False \<rparr>"

definition note_patch :: "nat \<Rightarrow> string \<Rightarrow> flags \<Rightarrow> flags" where
  "note_patch ty name fl =
     fl\<lparr> fl_playgo_patch := fl_playgo_patch fl \<or> ty = 0x1008 \<or> name = ''app/playgo-chunk.dat'',
         fl_delta_patch := fl_delta_patch fl \<or> ty = 0x407 \<or> ty = 0x408 \<or>
           name = ''target-deltainfo.dat'' \<or> name = ''origin-deltainfo.dat'' \<rparr>"

definition is_json_row :: "nat \<Rightarrow> string \<Rightarrow> nat \<Rightarrow> bool" where
  "is_json_row ty name sz \<longleftrightarrow> (ty = 0x2000 \<or> name = ''param.json'') \<and> 0 < sz \<and> sz < 262144"

definition is_sfo_row :: "nat \<Rightarrow> string \<Rightarrow> nat \<Rightarrow> bool" where
  "is_sfo_row ty name sz \<longleftrightarrow> (ty = 0x1000 \<or> name = ''param.sfo'') \<and> 0 < sz \<and> sz < 262144"

definition base_markers :: "string list" where
  "base_markers = [''applicationDrmType'', ''applicationCategoryType'', ''contentBadgeType'']"

definition detail_params :: "pkg_detail \<Rightarrow> param_out" where
  "detail_params d =
     \<lparr> po_title_id = pd_title_id d, po_title = pd_title_name d, po_category = pd_category d,
       po_version = pd_app_version d, po_localized = pd_localized d, po_lang = pd_default_lang d \<rparr>"

definition set_params :: "param_out \<Rightarrow> pkg_detail \<Rightarrow> pkg_detail" where
  "set_params p d =
     d\<lparr> pd_title_id := po_title_id p, pd_title_name := po_title p, pd_category := po_category p,
        pd_app_version := po_version p, pd_localized := po_localized p, pd_default_lang := po_lang p \<rparr>"

text \<open>\<open>has_key\<close> is the search for a marker, which the parsers do differently.\<close>

definition note_json :: "(string \<Rightarrow> string \<Rightarrow> bool) \<Rightarrow> byte list \<Rightarrow> pkg_detail \<times> flags \<Rightarrow> pkg_detail \<times> flags" where
  "note_json has_key jb st =
     (let m = map char_of_byte jb; d = pkg_platform_note_param_json (fst st); fl = snd st
      in (set_params (pkg_parser_parse_param_json m (detail_params d)) d,
          fl\<lparr>fl_base_meta := fl_base_meta fl \<or> list_ex (has_key m) base_markers\<rparr>))"

text \<open>A \<open>param.sfo\<close> fills what is still empty.\<close>

definition merge_sfo :: "param_out \<Rightarrow> pkg_detail \<times> flags \<Rightarrow> pkg_detail \<times> flags" where
  "merge_sfo p st =
     (let d = fst st; fl = snd st; cat = (po_category p \<noteq> [] \<and> pd_category d = [])
      in (d\<lparr> pd_category := (if cat then po_category p else pd_category d),
             pd_title_id := or_else (pd_title_id d) (po_title_id p),
             pd_title_name := or_else (pd_title_name d) (po_title p),
             pd_app_version := or_else (pd_app_version d) (po_version p) \<rparr>,
          if cat then fl\<lparr>fl_sfo_category := True\<rparr> else fl))"

definition note_sfo :: "byte list \<Rightarrow> pkg_detail \<times> flags \<Rightarrow> pkg_detail \<times> flags" where
  "note_sfo sb st =
     (let d = pkg_platform_note_param_sfo (fst st);
          p = pkg_parser_parse_param_sfo sb (pd_localized d) (pd_default_lang d)
      in merge_sfo p (d\<lparr>pd_localized := po_localized p, pd_default_lang := po_lang p\<rparr>, snd st))"

definition note_icon :: "nat \<Rightarrow> nat \<Rightarrow> nat \<Rightarrow> pkg_detail \<Rightarrow> pkg_detail" where
  "note_icon cnt off sz d = d\<lparr> pd_icon_offset := cnt + off, pd_icon_size := sz, pd_has_icon := True \<rparr>"

text \<open>The part of an entry that is read with \<open>get\<close>, if its row is of the kind.\<close>

definition with_data :: "bool \<Rightarrow> exact_get \<Rightarrow> nat \<Rightarrow> nat \<Rightarrow> (byte list \<Rightarrow> 'a \<Rightarrow> 'a) \<Rightarrow> 'a \<Rightarrow> 'a" where
  "with_data c get off sz f st = (if c then (case get off sz of None \<Rightarrow> st | Some b \<Rightarrow> f b st) else st)"

section \<open>Classification\<close>

definition is_base_category :: "string \<Rightarrow> bool" where
  "is_base_category c \<longleftrightarrow>
     starts_with ''gd'' c \<or> starts_with ''bd'' c \<or> starts_with ''gc'' c \<or> starts_with ''wt'' c"

definition is_delta_type :: "nat \<Rightarrow> bool" where
  "is_delta_type magic \<longleftrightarrow> magic mod 256 = 0x1E \<or> magic div 2 ^ 24 = 0x41"

definition classify :: "nat \<Rightarrow> flags \<Rightarrow> string \<Rightarrow> pkg_type" where
  "classify magic fl cat =
     (if fl_playgo_patch fl \<or> fl_delta_patch fl \<or> is_delta_type magic \<or> starts_with ''gp'' cat then PKG_TYPE_UPDATE
      else if starts_with ''ac'' cat \<or> starts_with ''al'' cat \<or> cat = ''addcont'' then PKG_TYPE_DLC
      else if fl_sfo_category fl \<and> is_base_category cat then PKG_TYPE_BASE
      else if magic mod 256 = 1 \<and> \<not> fl_base_meta fl then PKG_TYPE_DLC
      else PKG_TYPE_BASE)"

definition type_str :: "pkg_type \<Rightarrow> string" where
  "type_str t =
     (case t of PKG_TYPE_BASE \<Rightarrow> ''base'' | PKG_TYPE_UPDATE \<Rightarrow> ''update'' | PKG_TYPE_DLC \<Rightarrow> ''dlc''
      | PKG_TYPE_UNKNOWN \<Rightarrow> ''unknown'')"

definition set_type :: "pkg_type \<Rightarrow> pkg_detail \<Rightarrow> pkg_detail" where
  "set_type t d = d\<lparr> pd_pkg_type := t, pd_type_str := type_str t \<rparr>"

text \<open>The title id inside a content id \<open>XX0000-TITLEID_00-...\<close>.\<close>

definition content_title_id :: "string \<Rightarrow> string" where
  "content_title_id cid =
     (case strchr cid (CHR ''-'') of
        None \<Rightarrow> []
      | Some r \<Rightarrow>
          (case strchr (tl r) (CHR ''_'') of
             None \<Rightarrow> []
           | Some us \<Rightarrow>
               let len = length (tl r) - length us
               in if len < 32 then take len (tl r) else []))"

definition title_fallbacks :: "pkg_detail \<Rightarrow> pkg_detail" where
  "title_fallbacks d =
     (let d1 = (if pd_title_id d = [] then d\<lparr>pd_title_id := content_title_id (pd_content_id d)\<rparr> else d)
      in d1\<lparr> pd_title_name := or_else (pd_title_name d1)
               (if pd_title_id d1 \<noteq> [] then pd_title_id d1 else ''Unknown Package''), pd_is_valid := True \<rparr>)"

definition finish :: "cnt_table \<Rightarrow> pkg_detail \<times> flags \<Rightarrow> pkg_detail" where
  "finish t st = title_fallbacks (set_type (classify (ct_magic t) (snd st) (pd_category (fst st))) (fst st))"

end
