(* ===== verification/PkgParse.thy ===== *)
theory PkgParse
  imports PkgContainer Multipart
begin

text \<open>
  The four package parsers: of a local file (\<open>pkg_parser_parse\<close>), of the prefix of a
  live upload (\<open>pkg_parser_parse_mem\<close>), over a read callback for HTTP sources
  (\<open>pkg_parse_reader\<close>) and over an SMB session (\<open>smb_client_parse_pkg\<close>). The
  callback and the session are parameters. Allocations succeed; the modification
  time is left out.
\<close>

section \<open>Local files\<close>

text \<open>\<open>pread\<close> of exactly \<open>n\<close> bytes.\<close>

definition file_get :: "byte list \<Rightarrow> exact_get" where
  "file_get f off n = full_slice off n f"

definition new_detail :: "string \<Rightarrow> string \<Rightarrow> nat \<Rightarrow> pkg_detail" where
  "new_detail path name sz =
     pkg_detail_zero\<lparr> pd_path := cstr_trunc 512 path, pd_filename := cstr_trunc 256 name,
       pd_file_size := sz, pd_total_size := sz \<rparr>"

text \<open>A fixed field of a multi-part header, its last byte forced to NUL.\<close>

definition mp_text :: "nat \<Rightarrow> nat \<Rightarrow> byte list \<Rightarrow> string" where
  "mp_text off n b = cstr_of_bytes (take (n - 1) (bslice off n b))"

definition multipart_type :: "string \<Rightarrow> pkg_type" where
  "multipart_type s =
     (if s = ''update'' then PKG_TYPE_UPDATE else if s = ''dlc'' then PKG_TYPE_DLC else PKG_TYPE_BASE)"

definition multipart_detail :: "byte list \<Rightarrow> pkg_detail \<Rightarrow> pkg_detail" where
  "multipart_detail b d =
     (let h = header_of b; tid = or_else (mp_text 312 32 b) ''UNKNOWN'';
          icon = (mh_icon_offset h > 0 \<and> mh_icon_size h > 0 \<and> mh_icon_size h < 10 * 1024 * 1024)
      in (set_type (multipart_type (mp_text 720 16 b)) d)
           \<lparr> pd_is_multipart := True, pd_part_index := mh_part_index h, pd_total_parts := mh_total_parts h,
             pd_title_id := tid, pd_title_name := or_else (mp_text 344 256 b) tid,
             pd_app_version := mp_text 688 32 b, pd_content_id := mp_text 600 64 b,
             pd_total_size := (if mh_total_pkg_size h > 0 then mh_total_pkg_size h else pd_file_size d),
             pd_icon_offset := (if icon then mh_icon_offset h else 0),
             pd_icon_size := (if icon then mh_icon_size h else 0), pd_has_icon := icon, pd_is_valid := True \<rparr>)"

definition is_icon_row :: "nat \<Rightarrow> string \<Rightarrow> bool" where
  "is_icon_row ty name \<longleftrightarrow> ty = 0x1200 \<or> name = ''icon0.png''"

definition has_marker :: "string \<Rightarrow> string \<Rightarrow> bool" where
  "has_marker m k = json_has_key m (length m) k"

definition file_entry ::
  "exact_get \<Rightarrow> nat \<Rightarrow> nat \<Rightarrow> byte list option \<Rightarrow> byte list \<Rightarrow> pkg_detail \<times> flags \<Rightarrow> pkg_detail \<times> flags" where
  "file_entry get fsize cnt strs e st =
     (let ty = row_type e; name = row_name strs e; off = row_off e; sz = row_size e;
          st1 = (fst st, note_patch ty name (snd st));
          st2 = with_data (is_json_row ty name sz) get (cnt + off) sz (note_json has_marker) st1;
          st3 = with_data (is_sfo_row ty name sz) get (cnt + off) sz note_sfo st2
      in if is_icon_row ty name \<and> 0 < sz \<and> sz < 10 * 1024 * 1024 \<and> (fsize = 0 \<or> cnt + off + sz \<le> fsize)
         then (note_icon cnt off sz (fst st3), snd st3) else st3)"

definition pkg_parser_parse_file :: "string \<Rightarrow> byte list option \<Rightarrow> pkg_detail option" where
  "pkg_parser_parse_file path file =
     (case file of
        None \<Rightarrow> None
      | Some f \<Rightarrow>
          let d = new_detail path (c_basename path) (length f); get = file_get f; hdr = take 0x200 f in
          if length f < 0x80 then None
          else if take 8 hdr = MULTIPART_MAGIC \<and> length f \<ge> MULTIPART_HEADER_SIZE \<and>
                  multipart_is_valid_header (header_of f)
          then Some (multipart_detail f d)
          else
          (case find_cnt (\<lambda>c. c < length f) get hdr of
             None \<Rightarrow> None
           | Some cnt \<Rightarrow>
               (case read_table get cnt of
                  Inl _ \<Rightarrow> None
                | Inr t \<Rightarrow>
                    Some (finish t
                      (fold (file_entry get (length f) cnt (string_table get t)) (ct_rows t)
                        ((pkg_platform_note_header hdr d)\<lparr>pd_content_id := ct_content_id t\<rparr>, flags_zero))))))"

text \<open>The icon of a local package.\<close>

definition pkg_parser_get_icon_file :: "byte list option \<Rightarrow> nat \<Rightarrow> nat \<Rightarrow> byte list option" where
  "pkg_parser_get_icon_file file off fsize =
     (if off = 0 \<or> fsize = 0 \<or> fsize \<ge> 10 * 1024 * 1024 then None
      else
      case file of
        None \<Rightarrow> None
      | Some f \<Rightarrow>
          if length f = 0 \<or> off \<ge> length f \<or> fsize > length f - off then None else file_get f off fsize)"

section \<open>The prefix of a live upload\<close>

definition mem_slice :: "byte list \<Rightarrow> exact_get" where
  "mem_slice data off sz =
     (if sz = 0 \<or> off > length data then None
      else if sz > length data \<or> off > length data - sz then None
      else Some (bslice off sz data))"

text \<open>The JSON scan starts at the entry, but what follows the entry in memory is seen
  by the string searches.\<close>

definition mem_json :: "byte list \<Rightarrow> nat \<Rightarrow> nat \<Rightarrow> pkg_detail \<times> flags \<Rightarrow> pkg_detail \<times> flags" where
  "mem_json data off sz st =
     (let m = map char_of_byte (drop off data); d = pkg_platform_note_param_json (fst st); fl = snd st;
          tid = json_extract_key m sz ''titleId'' 32; tname = json_extract_key m sz ''titleName'' 256;
          cat = json_extract_key m sz ''category'' 16; ver = json_version m sz
      in (d\<lparr> pd_title_id := (case tid of Some v \<Rightarrow> v | None \<Rightarrow> pd_title_id d),
             pd_title_name := (case tname of Some v \<Rightarrow> v | None \<Rightarrow> pd_title_name d),
             pd_category := or_else (pd_category d) (opt_str cat),
             pd_app_version := (case ver of Some v \<Rightarrow> v | None \<Rightarrow> pd_app_version d) \<rparr>,
          fl\<lparr>fl_base_meta := fl_base_meta fl \<or> list_ex (json_has_key m sz) base_markers\<rparr>))"

definition mem_sfo :: "byte list \<Rightarrow> pkg_detail \<times> flags \<Rightarrow> pkg_detail \<times> flags" where
  "mem_sfo sb st =
     (let d = pkg_platform_note_param_sfo (fst st);
          p = pkg_parser_parse_param_sfo sb [] [];
          r = merge_sfo p (d, snd st)
      in ((fst r)\<lparr> pd_localized := or_else (pd_localized d) (po_localized p),
                   pd_default_lang := or_else (pd_default_lang d) (po_lang p) \<rparr>, snd r))"

definition mem_name :: "byte list option \<Rightarrow> byte list \<Rightarrow> string" where
  "mem_name strs e = (let n = row_name strs e in if length n < 128 then n else [])"

definition mem_entry ::
  "byte list \<Rightarrow> nat \<Rightarrow> byte list option \<Rightarrow> byte list \<Rightarrow> pkg_detail \<times> flags \<Rightarrow> pkg_detail \<times> flags" where
  "mem_entry data cnt strs e st =
     (let ty = row_type e; name = mem_name strs e; off = row_off e; sz = row_size e;
          st1 = (fst st, note_patch ty name (snd st));
          st2 = with_data (is_json_row ty name sz) (mem_slice data) (cnt + off) sz
                  (\<lambda>_. mem_json data (cnt + off) sz) st1
      in with_data (is_sfo_row ty name sz) (mem_slice data) (cnt + off) sz mem_sfo st2)"

definition mem_new_detail :: "string \<Rightarrow> nat \<Rightarrow> pkg_detail" where
  "mem_new_detail name total_size =
     (let base = (case strchr name (CHR ''/'') of Some r \<Rightarrow> tl r | None \<Rightarrow> name);
          live = starts_with ''live:'' base
      in pkg_detail_zero\<lparr>
           pd_path := cstr_trunc 512 (if live then base else name),
           pd_filename := cstr_trunc 256 (if name = [] then [] else if live then take 200 base @ ''.pkg'' else base),
           pd_file_size := total_size, pd_total_size := total_size \<rparr>)"

definition mem_multipart :: "byte list \<Rightarrow> pkg_detail \<Rightarrow> pkg_detail" where
  "mem_multipart b d =
     (let h = header_of b; tid = or_else (mp_text 312 32 b) ''UNKNOWN''
      in (set_type (multipart_type (mp_text 720 16 b)) d)
           \<lparr> pd_is_multipart := True, pd_part_index := mh_part_index h, pd_total_parts := mh_total_parts h,
             pd_title_id := tid, pd_title_name := or_else (mp_text 344 256 b) tid,
             pd_app_version := mp_text 688 32 b, pd_content_id := mp_text 600 64 b,
             pd_total_size := (if mh_total_pkg_size h > 0 then mh_total_pkg_size h else pd_total_size d),
             pd_has_icon := False, pd_is_valid := True \<rparr>)"

text \<open>\<open>Inl\<close> is the failure with its stage, where the code gives one.\<close>

definition pkg_parser_parse_mem :: "byte list \<Rightarrow> nat \<Rightarrow> string \<Rightarrow> nat option + pkg_detail" where
  "pkg_parser_parse_mem data total_size name =
     (let d = mem_new_detail name total_size; get = mem_slice data in
      if length data < 0x80 then Inl (Some 1)
      else if take 8 data = MULTIPART_MAGIC then
        (if length data < MULTIPART_HEADER_SIZE \<or> \<not> multipart_is_valid_header (header_of data) then Inl None
         else Inr (mem_multipart data d))
      else
      case find_cnt (\<lambda>c. total_size = 0 \<or> c < total_size) get (take 0x200 data) of
        None \<Rightarrow> Inl (Some 2)
      | Some cnt \<Rightarrow>
          (case read_table get cnt of
             Inl stage \<Rightarrow> Inl (Some stage)
           | Inr t \<Rightarrow>
               Inr (finish t
                 (fold (mem_entry data cnt (string_table get t)) (ct_rows t)
                   ((pkg_platform_note_header (take 0x80 data) d)\<lparr>pd_content_id := ct_content_id t\<rparr>, flags_zero)))))"

section \<open>A read callback\<close>

text \<open>\<open>rd count offset\<close>: up to \<open>count\<close> bytes, or an error.\<close>

type_synonym callback = "nat \<Rightarrow> nat \<Rightarrow> byte list option"

definition rd_call :: "callback \<Rightarrow> nat \<Rightarrow> nat \<Rightarrow> byte list" where
  "rd_call rd count off = (case rd count off of None \<Rightarrow> [] | Some b \<Rightarrow> take count b)"

function reader_loop :: "callback \<Rightarrow> nat \<Rightarrow> nat \<Rightarrow> byte list \<Rightarrow> byte list option" where
  "reader_loop rd count off acc =
     (if length acc \<ge> count then Some acc
      else
      let b = rd_call rd (count - length acc) (off + length acc)
      in if b = [] then None else reader_loop rd count off (acc @ b))"
  by pat_completeness auto
termination
  by (relation "measure (\<lambda>(rd, count, off, acc). count - length acc)")
    (auto simp: length_greater_0_conv [symmetric] simp del: length_greater_0_conv)

declare reader_loop.simps [simp del]

function reader_prefix :: "callback \<Rightarrow> nat \<Rightarrow> byte list \<Rightarrow> byte list" where
  "reader_prefix rd want acc =
     (if length acc \<ge> want then acc
      else
      let b = rd_call rd (want - length acc) (length acc)
      in if b = [] then acc else reader_prefix rd want (acc @ b))"
  by pat_completeness auto
termination
  by (relation "measure (\<lambda>(rd, want, acc). want - length acc)")
    (auto simp: length_greater_0_conv [symmetric] simp del: length_greater_0_conv)

declare reader_prefix.simps [simp del]

definition reader_get :: "callback \<Rightarrow> nat \<Rightarrow> byte list \<Rightarrow> exact_get" where
  "reader_get rd file_size prefix off count =
     (if count = 0 then Some []
      else if file_size > 0 \<and> (off > file_size \<or> count > file_size - off) then None
      else if off < length prefix \<and> count \<le> length prefix - off then Some (bslice off count prefix)
      else reader_loop rd count off [])"

definition c_marker :: "string \<Rightarrow> string \<Rightarrow> bool" where
  "c_marker m k \<longleftrightarrow> strstr (str_at m 0) (quoted k) \<noteq> None"

definition reader_entry ::
  "exact_get \<Rightarrow> nat \<Rightarrow> nat \<Rightarrow> byte list option \<Rightarrow> byte list \<Rightarrow> pkg_detail \<times> flags \<Rightarrow> pkg_detail \<times> flags" where
  "reader_entry get fsize cnt strs e st =
     (let ty = row_type e; name = row_name strs e; off = row_off e; sz = row_size e;
          st1 = (fst st, note_patch ty name (snd st));
          st2 = with_data (is_json_row ty name sz) get (cnt + off) sz (note_json c_marker) st1;
          st3 = with_data (is_sfo_row ty name sz) get (cnt + off) sz note_sfo st2
      in if is_icon_row ty name \<and> 0 < sz \<and> sz < 10 * 1024 * 1024 \<and> (fsize = 0 \<or> cnt + off + sz \<le> fsize)
         then (note_icon cnt off sz (fst st3), snd st3) else st3)"

definition base_or_path :: "string \<Rightarrow> string" where
  "base_or_path path = (if c_basename path \<noteq> [] then c_basename path else path)"

definition PKG_PARSE_READER_PREFIX :: nat where "PKG_PARSE_READER_PREFIX = 262144"

definition pkg_parse_reader :: "callback \<Rightarrow> nat \<Rightarrow> string \<Rightarrow> int + pkg_detail" where
  "pkg_parse_reader rd file_size path =
     (let d = new_detail path (base_or_path path) file_size;
          want = (if file_size > 0 \<and> file_size < PKG_PARSE_READER_PREFIX then file_size else PKG_PARSE_READER_PREFIX);
          prefix = reader_prefix rd want [];
          get = reader_get rd file_size prefix; hdr = take 0x200 prefix in
      if length prefix < 0x80 then Inl (-1)
      else if take 8 hdr = MULTIPART_MAGIC then Inl (-2)
      else
      case find_cnt (\<lambda>c. file_size = 0 \<or> c < file_size) get hdr of
        None \<Rightarrow> Inl (-1)
      | Some cnt \<Rightarrow>
          (case read_table get cnt of
             Inl _ \<Rightarrow> Inl (-1)
           | Inr t \<Rightarrow>
               Inr (finish t
                 (fold (reader_entry get file_size cnt (string_table get t)) (ct_rows t)
                   ((pkg_platform_note_header hdr d)\<lparr>pd_content_id := ct_content_id t\<rparr>, flags_zero)))))"

section \<open>An SMB session\<close>

text \<open>A session: the size of the file, and what a read returns (fewer bytes at the end
  or after an error).\<close>

definition smb_get :: "callback \<Rightarrow> exact_get" where
  "smb_get rd off n = (let b = rd_call rd n off in if length b = n then Some b else None)"

definition smb_entry ::
  "exact_get \<Rightarrow> nat \<Rightarrow> byte list option \<Rightarrow> byte list \<Rightarrow> pkg_detail \<times> flags \<Rightarrow> pkg_detail \<times> flags" where
  "smb_entry get cnt strs e st =
     (let ty = row_type e; name = row_name strs e; off = row_off e; sz = row_size e;
          st1 = (fst st, note_patch ty name (snd st));
          st2 = with_data (is_json_row ty name sz) get (cnt + off) sz (note_json c_marker) st1;
          st3 = with_data (is_sfo_row ty name sz) get (cnt + off) sz note_sfo st2
      in if is_icon_row ty name \<and> 0 < sz then (note_icon cnt off sz (fst st3), snd st3) else st3)"

definition smb_client_parse_pkg :: "(nat \<times> callback) option \<Rightarrow> string \<Rightarrow> pkg_detail option" where
  "smb_client_parse_pkg sess url =
     (case sess of
        None \<Rightarrow> None
      | Some (fsize, rd) \<Rightarrow>
          let d = new_detail url (base_or_path url) fsize; get = smb_get rd; hdr = rd_call rd 0x200 0 in
          if length hdr < 0x80 then None
          else if take 8 hdr = MULTIPART_MAGIC then None
          else
          (case find_cnt (\<lambda>c. c < fsize) get hdr of
             None \<Rightarrow> None
           | Some cnt \<Rightarrow>
               (case read_table get cnt of
                  Inl _ \<Rightarrow> None
                | Inr t \<Rightarrow>
                    Some (finish t
                      (fold (smb_entry get cnt (string_table get t)) (ct_rows t)
                        ((pkg_platform_note_header hdr d)\<lparr>pd_content_id := ct_content_id t\<rparr>, flags_zero))))))"

text \<open>The icon read through a session.\<close>

definition smb_client_get_icon :: "(nat \<times> callback) option \<Rightarrow> string \<Rightarrow> byte list option" where
  "smb_client_get_icon sess url =
     (case (sess, smb_client_parse_pkg sess url) of
        (Some (fsize, rd), Some d) \<Rightarrow>
          if pd_has_icon d \<and> pd_icon_size d > 0 then smb_get rd (pd_icon_offset d) (pd_icon_size d) else None
      | _ \<Rightarrow> None)"

end
