(* ===== verification/PkgParseMem.thy ===== *)
theory PkgParseMem
  imports PkgParseProps
begin

text \<open>
  The parser of a live prefix against the parser of the whole file, for packages
  without a \<open>param.json\<close> (those of a PS4): what it compares, and the simulation of
  one parse by the other.
\<close>

section \<open>What is compared\<close>

text \<open>All fields but the names, the localized texts and the icon, which the live parser
  leaves out or fills differently.\<close>

definition meta :: "pkg_detail \<Rightarrow> pkg_detail" where
  "meta d = d\<lparr> pd_path := [], pd_filename := [], pd_localized := [], pd_default_lang := [],
     pd_icon_offset := 0, pd_icon_size := 0, pd_has_icon := False \<rparr>"

text \<open>The prefix of \<open>n\<close> bytes holds the header, the table, the string table and every
  \<open>param.sfo\<close>.\<close>

definition in_prefix :: "nat \<Rightarrow> nat \<Rightarrow> byte list \<Rightarrow> bool" where
  "in_prefix n cnt e \<longleftrightarrow> cnt + row_off e + row_size e \<le> n"

definition covered :: "nat \<Rightarrow> byte list \<Rightarrow> bool" where
  "covered n f \<longleftrightarrow> 0x200 \<le> n \<and>
     on_table f (\<lambda>cnt t. read_table (mem_slice (take n f)) cnt = Inr t \<and>
       list_all (\<lambda>e. if row_type e = 0x200 \<or> is_sfo_row (row_type e) (row_name (string_table (file_get f) t) e) (row_size e)
          then in_prefix n cnt e else True) (ct_rows t))"

definition no_json :: "byte list \<Rightarrow> bool" where
  "no_json f \<longleftrightarrow>
     on_table f (\<lambda>cnt t. list_all (\<lambda>e. \<not> is_json_row (row_type e) (row_name (string_table (file_get f) t) e) (row_size e))
       (ct_rows t))"

section \<open>Reads in the prefix\<close>

lemma prefix_read: "mem_slice (take n f) off k = Some b \<Longrightarrow> file_get f off k = Some b"
  using mem_slice_full [of k "take n f" off] full_slice_take [of off k n f b]
  by (cases "k = 0") (simp_all add: mem_slice_def file_get_def)

lemma prefix_read_same: "0 < k \<Longrightarrow> off + k \<le> n \<Longrightarrow> mem_slice (take n f) off k = file_get f off k"
  by (auto simp: mem_slice_full file_get_def full_slice_def bslice_take)

lemma prefix_cnt: "cnt_at (mem_slice (take n f)) c \<Longrightarrow> cnt_at (file_get f) c"
  by (simp add: cnt_at_def prefix_read)

lemma prefix_table: "read_table (mem_slice (take n f)) cnt = Inr t \<Longrightarrow> read_table (file_get f) cnt = Inr t"
  using prefix_read [of n f cnt 0x80] prefix_read [of n f]
  by (auto simp: read_table_def Let_def split: option.splits if_splits)

lemma table_cnt:
  assumes "read_table (mem_slice (take n f)) cnt = Inr t"
  shows "cnt_at (mem_slice (take n f)) cnt"
proof -
  obtain h where h: "mem_slice (take n f) cnt 0x80 = Some h" "take 4 h = CNT_MAGIC"
    using assms by (auto simp: read_table_def split: option.splits if_splits)
  have s: "full_slice cnt 0x80 (take n f) = Some h" using h(1) by (simp add: mem_slice_full)
  then have "full_slice cnt 4 (take n f) = Some (take 4 h)" by (auto simp: full_slice_def bslice_def split: if_splits)
  then show ?thesis using h(2) by (simp add: cnt_at_def mem_slice_full)
qed

lemma find_sub:
  assumes "find P xs = Some x" "Q x" "\<And>y. Q y \<Longrightarrow> P y"
  shows "find Q xs = Some x"
  using assms(1)
proof (induction xs)
  case (Cons y xs)
  then show ?case using assms(2,3) by (cases "P y") (auto split: if_splits)
qed simp

lemma find_sub_None: "find P xs = None \<Longrightarrow> (\<And>y. Q y \<Longrightarrow> P y) \<Longrightarrow> find Q xs = None"
  by (auto simp: find_None_iff)

lemma prefix_find:
  assumes "find_cnt inside (file_get f) hdr = Some cnt" "cnt_at (mem_slice (take n f)) cnt"
  shows "find_cnt inside (mem_slice (take n f)) hdr = Some cnt"
proof -
  let ?P = "\<lambda>g cand. cand \<ge> 0x10000 \<and> inside cand \<and> cand mod 0x1000 = 0 \<and> cnt_at g cand"
  let ?xs = "map (\<lambda>off. read_le64 (drop off hdr)) (fih_offsets hdr)"
  have scan: "fih_scan inside (mem_slice (take n f)) hdr = Some cnt" if "fih_scan inside (file_get f) hdr = Some cnt"
    unfolding fih_scan_def
  proof (rule find_sub)
    show "find (?P (file_get f)) ?xs = Some cnt" using that by (simp add: fih_scan_def)
    then show "?P (mem_slice (take n f)) cnt" using find_Some_D assms(2) by fastforce
  qed (use prefix_cnt in auto)
  show ?thesis using assms scan prefix_cnt by (auto simp: find_cnt_def Let_def split: if_splits)
qed

lemma prefix_find_None:
  "find_cnt inside (file_get f) hdr = None \<Longrightarrow> find_cnt inside (mem_slice (take n f)) hdr = None"
  using prefix_cnt [of n f]
  by (auto simp: find_cnt_def fih_scan_def Let_def split: if_splits intro: find_sub_None)

section \<open>Entries\<close>

lemma mem_name_eq: "x \<noteq> [] \<Longrightarrow> length x < 128 \<Longrightarrow> mem_name strs e = x \<longleftrightarrow> row_name strs e = x"
  by (auto simp: mem_name_def Let_def)

lemma sfo_independent:
  "po_title_id (pkg_parser_parse_param_sfo b l g) = po_title_id (pkg_parser_parse_param_sfo b l' g')"
  "po_title (pkg_parser_parse_param_sfo b l g) = po_title (pkg_parser_parse_param_sfo b l' g')"
  "po_category (pkg_parser_parse_param_sfo b l g) = po_category (pkg_parser_parse_param_sfo b l' g')"
  "po_version (pkg_parser_parse_param_sfo b l g) = po_version (pkg_parser_parse_param_sfo b l' g')"
  by (simp_all add: pkg_parser_parse_param_sfo_def sfo_out_def split: option.split)

lemma meta_fields:
  assumes "meta d = meta d'"
  shows "pd_title_id d = pd_title_id d'" "pd_title_name d = pd_title_name d'" "pd_category d = pd_category d'"
    "pd_app_version d = pd_app_version d'" "pd_platform d = pd_platform d'" "pd_content_id d = pd_content_id d'"
  using arg_cong [OF assms, of pd_title_id] arg_cong [OF assms, of pd_title_name] arg_cong [OF assms, of pd_category]
    arg_cong [OF assms, of pd_app_version] arg_cong [OF assms, of pd_platform] arg_cong [OF assms, of pd_content_id]
  by (simp_all add: meta_def)

lemma merge_sfo_meta:
  assumes "meta d = meta d'"
    and "po_title_id p = po_title_id q" "po_title p = po_title q" "po_category p = po_category q" "po_version p = po_version q"
  shows "meta (fst (merge_sfo p (d, fl))) = meta (fst (merge_sfo q (d', fl)))"
    "snd (merge_sfo p (d, fl)) = snd (merge_sfo q (d', fl))"
proof -
  note F = meta_fields [OF assms(1)]
  have M: "meta (e\<lparr>pd_category := c, pd_title_id := i, pd_title_name := n, pd_app_version := v\<rparr>) =
      (meta e)\<lparr>pd_category := c, pd_title_id := i, pd_title_name := n, pd_app_version := v\<rparr>" for e c i n v
    by (simp add: meta_def)
  show "meta (fst (merge_sfo p (d, fl))) = meta (fst (merge_sfo q (d', fl)))"
    by (simp add: merge_sfo_def Let_def M F assms)
  show "snd (merge_sfo p (d, fl)) = snd (merge_sfo q (d', fl))"
    by (simp add: merge_sfo_def Let_def F assms)
qed

lemma sfo_meta:
  assumes "meta (fst s) = meta (fst s')" "snd s = snd s'"
  shows "meta (fst (mem_sfo b s)) = meta (fst (note_sfo b s')) \<and> snd (mem_sfo b s) = snd (note_sfo b s')"
proof -
  let ?d = "pkg_platform_note_param_sfo (fst s)" and ?d' = "pkg_platform_note_param_sfo (fst s')"
  have U: "meta (e\<lparr>pd_platform := x\<rparr>) = (meta e)\<lparr>pd_platform := x\<rparr>" for e x by (simp add: meta_def)
  have "meta ?d = meta ?d'"
    using assms(1) meta_fields(5) [OF assms(1)] by (simp add: pkg_platform_note_param_sfo_def U)
  moreover have L: "meta (e\<lparr>pd_localized := x, pd_default_lang := y\<rparr>) = meta e" for e x y by (simp add: meta_def)
  ultimately have "meta ?d = meta (?d'\<lparr>pd_localized := x, pd_default_lang := y\<rparr>)" for x y by simp
  from merge_sfo_meta [OF this sfo_independent] show ?thesis
    by (simp add: mem_sfo_def note_sfo_def L assms(2) Let_def)
qed

lemma mem_entry_sim:
  assumes nj: "\<not> is_json_row (row_type e) (row_name strs e) (row_size e)"
    and cov: "is_sfo_row (row_type e) (row_name strs e) (row_size e) \<Longrightarrow> in_prefix n cnt e"
    and s: "meta (fst s) = meta (fst s')" "snd s = snd s'"
  shows "meta (fst (mem_entry (take n f) cnt strs e s)) = meta (fst (file_entry (file_get f) k cnt strs e s')) \<and>
    snd (mem_entry (take n f) cnt strs e s) = snd (file_entry (file_get f) k cnt strs e s')"
proof -
  let ?ty = "row_type e" and ?n = "row_name strs e" and ?m = "mem_name strs e"
  let ?off = "cnt + row_off e" and ?sz = "row_size e"
  have same: "is_json_row ?ty ?m ?sz = is_json_row ?ty ?n ?sz" "is_sfo_row ?ty ?m ?sz = is_sfo_row ?ty ?n ?sz"
    "note_patch ?ty ?m fl = note_patch ?ty ?n fl" for fl
    by (simp_all add: is_json_row_def is_sfo_row_def note_patch_def mem_name_eq)
  have read: "mem_slice (take n f) ?off ?sz = file_get f ?off ?sz" if "is_sfo_row ?ty ?n ?sz"
    using that cov prefix_read_same sfo_row_size by (simp add: in_prefix_def)
  define a where "a = (fst s, note_patch ?ty ?n (snd s))"
  define a' where "a' = (fst s', note_patch ?ty ?n (snd s'))"
  define w where "w = with_data (is_sfo_row ?ty ?n ?sz) (mem_slice (take n f)) ?off ?sz mem_sfo a"
  define w' where "w' = with_data (is_sfo_row ?ty ?n ?sz) (file_get f) ?off ?sz note_sfo a'"
  have "meta (fst a) = meta (fst a')" "snd a = snd a'" using s by (simp_all add: a_def a'_def)
  then have W: "meta (fst w) = meta (fst w') \<and> snd w = snd w'"
    using sfo_meta [of a a'] read by (simp add: w_def w'_def with_data_def split: option.split)
  have "mem_entry (take n f) cnt strs e s = w"
    using nj unfolding mem_entry_def Let_def same a_def w_def by (simp add: with_data_def [of False])
  moreover have "file_entry (file_get f) k cnt strs e s' =
      (if is_icon_row ?ty ?n \<and> 0 < ?sz \<and> ?sz < 10 * 1024 * 1024 \<and> (k = 0 \<or> ?off + ?sz \<le> k)
       then (note_icon cnt (row_off e) ?sz (fst w'), snd w') else w')"
  proof -
    have "is_json_row ?ty ?n ?sz = False" and "with_data False g o1 k1 F x = x" for g o1 k1 F and x :: "pkg_detail \<times> flags"
      using nj by (simp_all add: with_data_def)
    then show ?thesis unfolding file_entry_def Let_def w'_def a'_def by (simp only:)
  qed
  moreover have "meta (note_icon x y z d) = meta d" for x y z d by (simp add: note_icon_def meta_def)
  ultimately show ?thesis using W by simp
qed

lemma finish_meta:
  assumes "meta (fst s) = meta (fst s')" "snd s = snd s'"
  shows "meta (finish t s) = meta (finish t s')"
proof -
  have "meta (finish t (d, fl)) = meta (finish t (meta d, fl))" for d fl
    by (simp add: finish_def title_fallbacks_def set_type_def meta_def Let_def)
  moreover obtain d d' fl where "s = (d, fl)" "s' = (d', fl)" using assms(2) by (cases s; cases s') simp
  ultimately show ?thesis using assms(1) by (metis fst_conv)
qed

end
