(* ===== verification/PkgParseTypes.thy ===== *)
theory PkgParseTypes
  imports PkgParse
begin

text \<open>
  The type of a parse result: every text fits into its field of \<open>pkg_detail_t\<close>, the kind
  of the package is known and printed, and there is a title to show.
\<close>

section \<open>Texts within their buffers\<close>

definition texts_ok :: "pkg_detail \<Rightarrow> bool" where
  "texts_ok d \<longleftrightarrow> length (pd_path d) < 512 \<and> length (pd_filename d) < 256 \<and> length (pd_title_id d) < 32 \<and>
     length (pd_title_name d) < 256 \<and> length (pd_content_id d) < 64 \<and> length (pd_app_version d) < 32 \<and>
     length (pd_category d) < 16 \<and> length (pd_platform d) < 8 \<and> length (pd_localized d) < 2048 \<and>
     length (pd_default_lang d) < 32"

definition params_ok :: "param_out \<Rightarrow> bool" where
  "params_ok p \<longleftrightarrow> length (po_title_id p) < 32 \<and> length (po_title p) < 256 \<and> length (po_category p) < 16 \<and>
     length (po_version p) < 32 \<and> length (po_localized p) < 2048 \<and> length (po_lang p) < 32"

lemma up_to_nul_length: "length (up_to_nul s) \<le> length s"
  by (simp add: up_to_nul_def length_takeWhile_le)

lemma cstr_of_bytes_length: "length (cstr_of_bytes b) \<le> length b"
  by (simp add: cstr_of_bytes_def length_takeWhile_le)

lemma or_else_length: "length a < n \<Longrightarrow> length b < n \<Longrightarrow> length (or_else a b) < n"
  by (simp add: or_else_def)

lemma read_lit_length: "length acc < mx \<Longrightarrow> length (read_lit m q e mx acc) < mx"
proof (induction m q e mx acc rule: read_lit.induct)
  case (1 m q e mx acc)
  show ?case
  proof (cases "q \<ge> e \<or> m ! q = QUOTE")
    case True
    then show ?thesis using 1(2) by (subst read_lit.simps) simp
  next
    case False
    define q1 where "q1 = (if m ! q = BACKSLASH \<and> q + 1 < e then q + 1 else q)"
    have "read_lit m q e mx acc =
        read_lit m (q1 + 1) e mx (if length acc + 1 < mx then acc @ [m ! q1] else acc)"
      using False by (subst read_lit.simps) (simp add: q1_def Let_def)
    moreover have "length (if length acc + 1 < mx then acc @ [m ! q1] else acc) < mx" using 1(2) by simp
    ultimately show ?thesis using 1(1) [OF False q1_def] by simp
  qed
qed

lemma literal_length: "0 < mx \<Longrightarrow> literal_after m i e mx = Some v \<Longrightarrow> length v < mx"
  using read_lit_length [of "[]" mx m] up_to_nul_length
  by (auto simp: literal_after_def Let_def split: if_splits intro: le_less_trans)

lemma json_extract_length: "0 < mx \<Longrightarrow> json_extract_key m len key mx = Some v \<Longrightarrow> length v < mx"
proof -
  have "json_extract_from m len key mx p = Some v \<Longrightarrow> length v < mx" if "0 < mx" for p
    using that
  proof (induction m len key mx p rule: json_extract_from.induct)
    case (1 m len key mx p)
    note U = json_extract_from.simps [of m len key mx p]
    show ?case
    proof (cases "literal_after m (the (chr_from m (the (find_from m p (quoted key)) + length (quoted key)) (CHR '':'')) + 1) len mx")
      case None
      then show ?thesis using 1 U by (auto split: if_splits option.splits)
    next
      case (Some w)
      then show ?thesis using 1 U literal_length [OF 1(3) Some] by (auto split: if_splits option.splits)
    qed
  qed
  then show "0 < mx \<Longrightarrow> json_extract_key m len key mx = Some v \<Longrightarrow> length v < mx" by (simp add: json_extract_key_def)
qed

lemma cstr_trunc_less: "0 < n \<Longrightarrow> length (cstr_trunc n s) < n"
  by (rule length_cstr_trunc)

lemma json_version_length: "json_version m len = Some v \<Longrightarrow> length v < 32"
  by (auto simp: json_version_def param_version_def intro: cstr_trunc_less split: option.splits if_splits)

section \<open>Localized titles\<close>

lemma loc_entries_length: "length out < mx \<Longrightarrow> length (loc_entries mx first out es) < mx"
  by (induction es arbitrary: first out) (auto simp: Let_def)

lemma loc_json_length: "2 \<le> mx \<Longrightarrow> length (loc_json mx es) < mx"
  using loc_entries_length [of "''{''" mx True es] by (auto simp: loc_json_def Let_def)

definition titles_ok :: "(string \<times> string) list \<Rightarrow> bool" where
  "titles_ok es \<longleftrightarrow> (\<forall>e\<in>set es. length (snd e) < 256)"

lemma lang_title_length: "titles_ok es \<Longrightarrow> length (lang_title P es) < 256"
  using find_Some_D [of "\<lambda>e. P (fst e)" es] by (auto simp: lang_title_def titles_ok_def split: option.split)

lemma object_title_length: "length (object_title m a b) < 256"
  using literal_length [of 256 m] by (auto simp: object_title_def split: option.split)

lemma lang_entries_ok: "titles_ok es \<Longrightarrow> titles_ok (lang_entries m p e es)"
proof (induction m p e es rule: lang_entries.induct)
  case (1 m p e es)
  have add: "titles_ok (add_entry k (object_title m a b) es)" for k a b
    using 1(5) object_title_length [of m a b] by (auto simp: titles_ok_def add_entry_def)
  show ?case
    using 1 add by (subst lang_entries.simps) (auto simp: Let_def split: option.split)
qed

lemma global_title_from_length: "global_title_from m block pat cu = Some t \<Longrightarrow> length t < 256"
proof (induction m block pat cu rule: global_title_from.induct)
  case (1 m block pat cu)
  show ?case
    using 1(2) 1(1) literal_length [of 256 m]
    by (subst (asm) global_title_from.simps) (auto simp: Let_def split: if_splits option.splits)
qed

lemma global_title_length: "length (global_title m block) < 256"
  using global_title_from_length [of m block] by (auto simp: global_title_def split: option.split)

lemma default_title_length:
  "length g < 256 \<Longrightarrow> titles_ok es \<Longrightarrow> length (default_title g lang es) < 256"
  by (auto simp: default_title_def lang_title_length titles_ok_def intro!: or_else_length)

lemma default_language_length: "length (default_language m a b) < 32"
  using literal_length [of 32 m] by (auto simp: default_language_def split: option.split)

section \<open>The metadata parsers\<close>

lemma opt_length: "0 < mx \<Longrightarrow> length (opt_str (json_extract_key m len key mx)) < mx"
  using json_extract_length [of mx m len key] by (simp add: opt_str_def split: option.split)

lemma params_set1:
  "params_ok p \<Longrightarrow> length a < 32 \<Longrightarrow> length b < 16 \<Longrightarrow> length c < 32 \<Longrightarrow>
     params_ok (p\<lparr> po_title_id := or_else (po_title_id p) a, po_category := or_else (po_category p) b,
       po_version := or_else (po_version p) c \<rparr>)"
  by (simp add: params_ok_def or_else_length)

lemma params_set2:
  "params_ok p \<Longrightarrow> length t < 256 \<Longrightarrow> length l < 2048 \<Longrightarrow> length g < 32 \<Longrightarrow>
     params_ok (p\<lparr> po_title := t, po_localized := l, po_lang := g \<rparr>)"
  by (simp add: params_ok_def)

lemma param_json_ok:
  assumes p: "params_ok p"
  shows "params_ok (pkg_parser_parse_param_json m p)"
proof (cases "m = []")
  case True
  then show ?thesis using p by (simp add: pkg_parser_parse_param_json_def)
next
  case False
  have v: "length (opt_str (json_version m n)) < 32" for n
    using json_version_length by (simp add: opt_str_def split: option.split)
  have t: "length (po_title p) < 256" using p by (simp add: params_ok_def)
  note o1 = params_set1 [OF p opt_length [of 32 m "length m" "''titleId''"] opt_length [of 16 m "length m" "''category''"] v]
  show ?thesis
  proof (cases "localized_block m")
    case None
    show ?thesis unfolding pkg_parser_parse_param_json_def Let_def None option.case if_not_P [OF False]
      by (intro params_set2 o1) (simp_all add: or_else_length t global_title_length)
  next
    case (Some ab)
    then obtain a b where ab: "localized_block m = Some (a, b)" by (cases ab) simp
    have e: "titles_ok (lang_entries m (a + 1) b [])" by (rule lang_entries_ok) (simp add: titles_ok_def)
    have l: "length (if lang_entries m (a + 1) b [] = [] then [] else loc_json 2048 (lang_entries m (a + 1) b [])) < 2048"
      using loc_json_length [of 2048] by simp
    have d: "length (default_title g lang (lang_entries m (a + 1) b [])) < 256" if "length g < 256" for g lang
      by (rule default_title_length [OF that e])
    show ?thesis unfolding pkg_parser_parse_param_json_def Let_def ab option.case prod.case if_not_P [OF False]
      by (intro params_set2 o1 l or_else_length t d global_title_length default_language_length) simp_all
  qed
qed

lemma sfo_text_length:
  assumes "0 < mx"
  shows "length (sfo_text mx d) < mx"
proof -
  let ?t = "take (if length d < mx then length d else mx - 1) d"
  have "length (sfo_text mx d) \<le> length (dropWhile (\<lambda>b. b = 0) (rev ?t))"
    unfolding sfo_text_def using cstr_of_bytes_length [of "rev (dropWhile (\<lambda>b. b = 0) (rev ?t))"] by simp
  also have "\<dots> \<le> length ?t" using length_dropWhile_le [of "\<lambda>b. b = 0" "rev ?t"] by simp
  also have "\<dots> < mx" using assms by simp
  finally show ?thesis .
qed

definition sfo_ok_state :: "sfo \<Rightarrow> bool" where
  "sfo_ok_state s \<longleftrightarrow> length (sf_title s) < 256 \<and> length (sf_title_id s) < 32 \<and> length (sf_category s) < 16 \<and>
     length (sf_app_ver s) < 32 \<and> length (sf_version s) < 32 \<and> titles_ok (sf_loc s)"

lemma sfo_note_ok: "sfo_ok_state s \<Longrightarrow> sfo_ok_state (sfo_note e s)"
  using sfo_text_length
  by (auto simp: sfo_ok_state_def sfo_note_def titles_ok_def Let_def split: option.splits)

lemma sfo_scan_ok: "sfo_ok_state s \<Longrightarrow> sfo_ok_state (sfo_scan b keys datas n is s)"
  by (induction "is" arbitrary: s) (auto simp: sfo_note_ok split: option.split)

lemma param_sfo_ok:
  assumes "length loc < 2048" "length lang < 32"
  shows "params_ok (pkg_parser_parse_param_sfo b loc lang)"
proof (cases "sfo_table b")
  case None
  then show ?thesis using assms by (simp add: pkg_parser_parse_param_sfo_def params_ok_def)
next
  case (Some s)
  have "sfo_ok_state s"
  proof -
    have "sfo_ok_state sfo_zero" by (simp add: sfo_ok_state_def sfo_zero_def titles_ok_def)
    then show ?thesis using Some sfo_scan_ok unfolding sfo_table_def Let_def by (auto split: if_splits)
  qed
  moreover have "length (sfo_title s) < 256" if "sfo_ok_state s"
    using that find_Some_D [of "\<lambda>e. fst e = ''en-US''" "sf_loc s"] hd_in_set [of "sf_loc s"]
    by (auto simp: sfo_title_def sfo_ok_state_def titles_ok_def split: option.split)
  ultimately show ?thesis
    using Some assms loc_json_length [of 2048 "sf_loc s"]
    by (auto simp: pkg_parser_parse_param_sfo_def params_ok_def sfo_out_def sfo_ok_state_def sfo_version_def Let_def
        or_else_def cstr_trunc_less)
qed

section \<open>Entries\<close>

lemma texts_params: "texts_ok d \<Longrightarrow> params_ok (detail_params d)"
  by (simp add: texts_ok_def params_ok_def detail_params_def)

lemma set_params_ok: "texts_ok d \<Longrightarrow> params_ok p \<Longrightarrow> texts_ok (set_params p d)"
  by (simp add: texts_ok_def params_ok_def set_params_def)

lemma platform_ok:
  "texts_ok d \<Longrightarrow> texts_ok (pkg_platform_note_param_json d)"
  "texts_ok d \<Longrightarrow> texts_ok (pkg_platform_note_param_sfo d)"
  "texts_ok d \<Longrightarrow> texts_ok (pkg_platform_note_header hdr d)"
  by (simp_all add: texts_ok_def pkg_platform_note_param_json_def pkg_platform_note_param_sfo_def
      pkg_platform_note_header_def)

lemma note_json_ok: "texts_ok (fst st) \<Longrightarrow> texts_ok (fst (note_json k b st))"
  by (simp add: note_json_def Let_def set_params_ok param_json_ok texts_params platform_ok)

lemma merge_sfo_ok: "texts_ok (fst st) \<Longrightarrow> params_ok p \<Longrightarrow> texts_ok (fst (merge_sfo p st))"
  by (simp add: merge_sfo_def texts_ok_def params_ok_def or_else_length Let_def)

lemma note_sfo_ok: "texts_ok (fst st) \<Longrightarrow> texts_ok (fst (note_sfo b st))"
proof -
  assume "texts_ok (fst st)"
  then have d: "texts_ok (pkg_platform_note_param_sfo (fst st))" by (rule platform_ok)
  define p where "p = pkg_parser_parse_param_sfo b (pd_localized (pkg_platform_note_param_sfo (fst st)))
      (pd_default_lang (pkg_platform_note_param_sfo (fst st)))"
  have p: "params_ok p" unfolding p_def by (rule param_sfo_ok) (use d in \<open>simp_all add: texts_ok_def\<close>)
  have "texts_ok ((pkg_platform_note_param_sfo (fst st))\<lparr>pd_localized := po_localized p, pd_default_lang := po_lang p\<rparr>)"
    using d p by (simp add: texts_ok_def params_ok_def)
  then show ?thesis unfolding note_sfo_def Let_def p_def [symmetric] by (intro merge_sfo_ok p) simp
qed

lemma mem_sfo_ok: "texts_ok (fst st) \<Longrightarrow> texts_ok (fst (mem_sfo b st))"
proof -
  assume "texts_ok (fst st)"
  then have d: "texts_ok (pkg_platform_note_param_sfo (fst st))" by (rule platform_ok)
  define p where "p = pkg_parser_parse_param_sfo b [] []"
  have p: "params_ok p" unfolding p_def by (rule param_sfo_ok) simp_all
  have "texts_ok (fst (merge_sfo p (pkg_platform_note_param_sfo (fst st), snd st)))" by (intro merge_sfo_ok p) (use d in simp)
  then show ?thesis using d p unfolding mem_sfo_def Let_def p_def [symmetric]
    by (simp add: texts_ok_def params_ok_def or_else_length)
qed

lemma mem_json_ok: "texts_ok (fst st) \<Longrightarrow> texts_ok (fst (mem_json data off k st))"
proof -
  assume "texts_ok (fst st)"
  then have d: "texts_ok (pkg_platform_note_param_json (fst st))" by (rule platform_ok)
  let ?m = "map char_of_byte (drop off data)"
  note J = json_extract_length [of 32 ?m k "''titleId''"] json_extract_length [of 256 ?m k "''titleName''"]
    json_version_length [of ?m k] opt_length [of 16 ?m k "''category''"]
  show ?thesis using d J unfolding mem_json_def Let_def texts_ok_def
    by (simp add: or_else_length split: option.split)
qed

lemma with_data_ok:
  "texts_ok (fst st) \<Longrightarrow> (\<And>b. texts_ok (fst (F b st))) \<Longrightarrow> texts_ok (fst (with_data c g off n F st))"
  by (simp add: with_data_def split: option.split)

lemma note_icon_ok: "texts_ok d \<Longrightarrow> texts_ok (note_icon cnt off n d)"
  by (simp add: texts_ok_def note_icon_def)

lemma entry_ok:
  "texts_ok (fst st) \<Longrightarrow> texts_ok (fst (file_entry g n cnt strs e st))"
  "texts_ok (fst st) \<Longrightarrow> texts_ok (fst (reader_entry g n cnt strs e st))"
  "texts_ok (fst st) \<Longrightarrow> texts_ok (fst (smb_entry g cnt strs e st))"
  "texts_ok (fst st) \<Longrightarrow> texts_ok (fst (mem_entry data cnt strs e st))"
proof -
  assume o: "texts_ok (fst st)"
  let ?a = "(fst st, note_patch (row_type e) x (snd st))"
  have j: "texts_ok (fst (with_data c g off k (note_json K) (fst st, fl)))" for c off k K fl
    by (intro with_data_ok note_json_ok) (use o in simp_all)
  have s: "texts_ok (fst (with_data c h off k note_sfo x))" if "texts_ok (fst x)" for c h off k x
    by (intro with_data_ok note_sfo_ok that)
  have mj: "texts_ok (fst (with_data c h off k (\<lambda>_. mem_json data o1 k1) (fst st, fl)))" for c h off k o1 k1 fl
    by (intro with_data_ok mem_json_ok) (use o in simp_all)
  have ms: "texts_ok (fst (with_data c h off k mem_sfo x))" if "texts_ok (fst x)" for c h off k x
    by (intro with_data_ok mem_sfo_ok that)
  show "texts_ok (fst (file_entry g n cnt strs e st))"
    unfolding file_entry_def Let_def by (simp add: s j note_icon_ok)
  show "texts_ok (fst (reader_entry g n cnt strs e st))"
    unfolding reader_entry_def Let_def by (simp add: s j note_icon_ok)
  show "texts_ok (fst (smb_entry g cnt strs e st))"
    unfolding smb_entry_def Let_def by (simp add: s j note_icon_ok)
  show "texts_ok (fst (mem_entry data cnt strs e st))"
    unfolding mem_entry_def Let_def by (simp add: ms mj)
qed

lemma fold_ok: "texts_ok (fst st) \<Longrightarrow> (\<And>e s. texts_ok (fst s) \<Longrightarrow> texts_ok (fst (F e s))) \<Longrightarrow> texts_ok (fst (fold F es st))"
  by (induction es arbitrary: st) simp_all

section \<open>Results\<close>

text \<open>The type of a result.\<close>

definition detail_ok :: "pkg_detail \<Rightarrow> bool" where
  "detail_ok d \<longleftrightarrow> texts_ok d \<and> pd_pkg_type d \<noteq> PKG_TYPE_UNKNOWN \<and> pd_type_str d = type_str (pd_pkg_type d) \<and>
     pd_title_name d \<noteq> [] \<and> pd_is_valid d"

lemma classify_known: "classify magic fl cat \<noteq> PKG_TYPE_UNKNOWN"
  by (simp add: classify_def)

lemma content_title_id_length: "length (content_title_id cid) < 32"
  by (auto simp: content_title_id_def Let_def split: option.split)

lemma finish_ok:
  assumes "texts_ok (fst st)"
  shows "detail_ok (finish t st)"
proof -
  let ?d = "set_type (classify (ct_magic t) (snd st) (pd_category (fst st))) (fst st)"
  have d: "texts_ok ?d" using assms by (simp add: texts_ok_def set_type_def)
  have "texts_ok (title_fallbacks ?d)"
    using d content_title_id_length [of "pd_content_id ?d"]
    by (auto simp: texts_ok_def title_fallbacks_def or_else_def Let_def intro: less_trans)
  then show ?thesis
    by (simp add: finish_def detail_ok_def title_fallbacks_def set_type_def classify_known or_else_def Let_def)
qed

lemma cnt_content_id_length: "length (cnt_content_id h) < 64"
proof -
  have "length (cnt_content_id h) \<le> length (take 48 (drop 0x40 h))"
    unfolding cnt_content_id_def length_map by (rule length_takeWhile_le)
  then show ?thesis by simp
qed

lemma table_content_id: "read_table g cnt = Inr t \<Longrightarrow> length (ct_content_id t) < 64"
  by (auto simp: read_table_def Let_def cnt_content_id_length split: option.splits if_splits)

lemma new_detail_ok: "texts_ok (new_detail path name n)"
  by (simp add: texts_ok_def new_detail_def pkg_detail_zero_def length_cstr_trunc)

lemma mem_new_detail_ok: "texts_ok (mem_new_detail name n)"
  by (simp add: texts_ok_def mem_new_detail_def pkg_detail_zero_def length_cstr_trunc Let_def)

lemma mp_text_length: "0 < n \<Longrightarrow> length (mp_text off n b) < n"
  using cstr_of_bytes_length [of "take (n - 1) (bslice off n b)"] by (auto simp: mp_text_def)

lemma multipart_ok:
  assumes "texts_ok d"
  shows "detail_ok (multipart_detail b d)" "detail_ok (mem_multipart b d)"
  using assms mp_text_length [of 32 312 b] mp_text_length [of 256 344 b] mp_text_length [of 32 688 b]
    mp_text_length [of 64 600 b]
  by (auto simp: detail_ok_def texts_ok_def multipart_detail_def mem_multipart_def set_type_def multipart_type_def
      or_else_def Let_def)

lemma start_ok: "texts_ok d \<Longrightarrow> length c < 64 \<Longrightarrow> texts_ok (d\<lparr>pd_content_id := c\<rparr>)"
  by (simp add: texts_ok_def)

lemma parsed_ok:
  "pkg_parser_parse_file path file = Some d \<Longrightarrow> detail_ok d"
  "pkg_parser_parse_mem data total_size name = Inr d \<Longrightarrow> detail_ok d"
  "pkg_parse_reader rd n path = Inr d \<Longrightarrow> detail_ok d"
  "smb_client_parse_pkg sess url = Some d \<Longrightarrow> detail_ok d"
proof -
  have F: "detail_ok (finish t (fold E es ((pkg_platform_note_header hdr d0)\<lparr>pd_content_id := ct_content_id t\<rparr>, flags_zero)))"
    if "read_table g cnt = Inr t" "texts_ok d0" "\<And>e s. texts_ok (fst s) \<Longrightarrow> texts_ok (fst (E e s))" for t E es hdr d0 g cnt
    by (intro finish_ok fold_ok that(3)) (simp_all add: start_ok platform_ok that(2) table_content_id [OF that(1)])
  have E: "texts_ok d0 \<Longrightarrow> read_table g cnt = Inr t \<Longrightarrow>
      detail_ok (finish t (fold E es ((pkg_platform_note_header hdr d0)\<lparr>pd_content_id := ct_content_id t\<rparr>, flags_zero)))"
    if "E = file_entry g' n c s \<or> E = reader_entry g' n c s \<or> E = smb_entry g' c s \<or> E = mem_entry b c s"
    for t E es hdr d0 g cnt g' n c s b
    by (rule F) (use that in \<open>auto simp: entry_ok\<close>)
  show "pkg_parser_parse_file path file = Some d \<Longrightarrow> detail_ok d"
    using multipart_ok(1) [OF new_detail_ok] E [OF disjI1 [OF refl] new_detail_ok]
    by (auto simp: pkg_parser_parse_file_def Let_def split: option.splits if_splits sum.splits)
  show "pkg_parser_parse_mem data total_size name = Inr d \<Longrightarrow> detail_ok d"
    using multipart_ok(2) [OF mem_new_detail_ok] E [OF disjI2 [OF disjI2 [OF disjI2 [OF refl]]] mem_new_detail_ok]
    by (auto simp: pkg_parser_parse_mem_def Let_def split: option.splits if_splits sum.splits)
  show "pkg_parse_reader rd n path = Inr d \<Longrightarrow> detail_ok d"
    using E [OF disjI2 [OF disjI1 [OF refl]] new_detail_ok]
    by (auto simp: pkg_parse_reader_def Let_def split: option.splits if_splits sum.splits)
  show "smb_client_parse_pkg sess url = Some d \<Longrightarrow> detail_ok d"
    using E [OF disjI2 [OF disjI2 [OF disjI1 [OF refl]]] new_detail_ok]
    by (auto simp: smb_client_parse_pkg_def Let_def split: option.splits if_splits sum.splits prod.splits)
qed

end
