(* ===== verification/ParamSfoProps.thy ===== *)
theory ParamSfoProps
  imports ParamSfo
begin

text \<open>
  The parser of \<open>param.sfo\<close> reads every table that the reference encoder writes, key
  by key, and returns the values of the keys the manager uses.
\<close>

section \<open>A reference encoder\<close>

definition sfo_key :: "string \<times> byte list \<Rightarrow> byte list" where
  "sfo_key e = map byte_of_char (fst e) @ [0]"

definition key_blob :: "(string \<times> byte list) list \<Rightarrow> byte list" where
  "key_blob es = concat (map sfo_key es)"

definition data_blob :: "(string \<times> byte list) list \<Rightarrow> byte list" where
  "data_blob es = concat (map snd es)"

definition sfo_row :: "(string \<times> byte list) list \<Rightarrow> nat \<Rightarrow> byte list" where
  "sfo_row es i =
     le_bytes 2 (length (key_blob (take i es))) @ [4, 2] @ le_bytes 4 (length (snd (es ! i))) @
     le_bytes 4 (length (snd (es ! i))) @ le_bytes 4 (length (data_blob (take i es)))"

definition sfo_header :: "(string \<times> byte list) list \<Rightarrow> byte list" where
  "sfo_header es =
     SFO_MAGIC @ [1, 1, 0, 0] @ le_bytes 4 (20 + 16 * length es) @
     le_bytes 4 (20 + 16 * length es + length (key_blob es)) @ le_bytes 4 (length es)"

definition sfo_encode :: "(string \<times> byte list) list \<Rightarrow> byte list" where
  "sfo_encode es = sfo_header es @ concat (map (sfo_row es) [0..<length es]) @ key_blob es @ data_blob es"

definition sfo_ok :: "(string \<times> byte list) list \<Rightarrow> bool" where
  "sfo_ok es \<longleftrightarrow> length es \<le> 1024 \<and> length (key_blob es) < 2 ^ 16 \<and> length (data_blob es) < 2 ^ 31 \<and>
     data_blob es \<noteq> [] \<and> list_all (\<lambda>e. NUL \<notin> set (fst e)) es"

section \<open>Layout\<close>

lemma length_sfo_row [simp]: "length (sfo_row es i) = 16"
  by (simp add: sfo_row_def)

lemma length_sfo_header [simp]: "length (sfo_header es) = 20"
  by (simp add: sfo_header_def SFO_MAGIC_def)

lemma length_rows: "length (concat (map (sfo_row es) is)) = 16 * length is"
  by (induction "is") simp_all

lemma drop_rows: "drop (16 * i) (concat (map (sfo_row es) is)) = concat (map (sfo_row es) (drop i is))"
proof (induction i arbitrary: "is")
  case (Suc i)
  show ?case
  proof (cases "is")
    case (Cons j js)
    then have "drop (16 * Suc i) (concat (map (sfo_row es) is)) = drop (16 * i) (concat (map (sfo_row es) js))" by simp
    then show ?thesis using Suc.IH Cons by simp
  qed simp
qed simp

lemma drop_key_blob: "drop (length (key_blob (take i es))) (key_blob es) = key_blob (drop i es)"
proof -
  have "key_blob es = key_blob (take i es) @ key_blob (drop i es)"
    unfolding key_blob_def concat_append [symmetric] map_append [symmetric] by simp
  then show ?thesis by simp
qed

lemma drop_data_blob: "drop (length (data_blob (take i es))) (data_blob es) = data_blob (drop i es)"
proof -
  have "data_blob es = data_blob (take i es) @ data_blob (drop i es)"
    unfolding data_blob_def concat_append [symmetric] map_append [symmetric] by simp
  then show ?thesis by simp
qed

lemma blob_parts:
  "length (key_blob es) = length (key_blob (take i es)) + length (key_blob (drop i es))"
  "length (data_blob es) = length (data_blob (take i es)) + length (data_blob (drop i es))"
  unfolding key_blob_def data_blob_def length_append [symmetric] concat_append [symmetric] map_append [symmetric]
  by simp_all

lemma length_sfo_encode:
  "length (sfo_encode es) = 20 + 16 * length es + length (key_blob es) + length (data_blob es)"
  by (simp add: sfo_encode_def length_rows)

lemma drop_encode_row:
  assumes "i < length es"
  shows "\<exists>r. drop (20 + i * 16) (sfo_encode es) = sfo_row es i @ r"
proof -
  have "drop i [0..<length es] = i # [Suc i..<length es]" using assms by (simp add: upt_conv_Cons)
  then have "drop (16 * i) (concat (map (sfo_row es) [0..<length es])) =
      sfo_row es i @ concat (map (sfo_row es) [Suc i..<length es])" by (simp add: drop_rows)
  moreover have "16 * i \<le> length (concat (map (sfo_row es) [0..<length es]))" using assms by (simp add: length_rows)
  ultimately show ?thesis by (simp add: sfo_encode_def mult.commute)
qed

lemma drop_encode_key:
  "drop (20 + 16 * length es + k) (sfo_encode es) = drop k (key_blob es @ data_blob es)"
proof -
  have "length (sfo_header es @ concat (map (sfo_row es) [0..<length es])) = 20 + 16 * length es"
    by (simp add: length_rows)
  moreover have "sfo_encode es = (sfo_header es @ concat (map (sfo_row es) [0..<length es])) @ key_blob es @ data_blob es"
    by (simp add: sfo_encode_def)
  ultimately show ?thesis by simp
qed

lemma header_fields:
  assumes "sfo_ok es"
  shows "take 4 (sfo_encode es) = SFO_MAGIC" "read_le32 (drop 8 (sfo_encode es)) = 20 + 16 * length es"
    "read_le32 (drop 12 (sfo_encode es)) = 20 + 16 * length es + length (key_blob es)"
    "read_le32 (drop 16 (sfo_encode es)) = length es"
  using assms by (simp_all add: sfo_ok_def sfo_encode_def sfo_header_def SFO_MAGIC_def read_le_append)

section \<open>Entries\<close>

lemma code_NUL: "char_of_byte 0 = NUL"
  by code_simp

lemma byte_not_zero: "c \<noteq> NUL \<Longrightarrow> byte_of_char c \<noteq> 0"
  using char_of_byte_of_char [of c] code_NUL by metis

lemma byte_zero_iff [simp]: "byte_of_char c = 0 \<longleftrightarrow> c = NUL"
proof -
  have "byte_of_char NUL = 0" by code_simp
  then show ?thesis using byte_not_zero by blast
qed

lemma text_no_zero: "NUL \<notin> set k \<Longrightarrow> \<forall>b\<in>set (map byte_of_char k). b \<noteq> 0"
  by auto

lemma cstr_key: "NUL \<notin> set k \<Longrightarrow> cstr_of_bytes (map byte_of_char k @ 0 # r) = k"
proof -
  assume "NUL \<notin> set k"
  from text_no_zero [OF this] have "takeWhile (\<lambda>b. b \<noteq> 0) (map byte_of_char k @ 0 # r) = map byte_of_char k"
    by (subst takeWhile_append2) auto
  then show ?thesis by (simp add: cstr_of_bytes_def comp_def)
qed

lemma sfo_entry_encode:
  assumes ok: "sfo_ok es" and i: "i < length es"
  shows "sfo_entry (sfo_encode es) (20 + 16 * length es) (20 + 16 * length es + length (key_blob es)) i = Some (es ! i)"
proof -
  let ?b = "sfo_encode es" and ?ko = "length (key_blob (take i es))" and ?do = "length (data_blob (take i es))"
  obtain r where r: "drop (20 + i * 16) ?b = sfo_row es i @ r" using drop_encode_row [OF i] by blast
  have e: "drop i es = es ! i # drop (Suc i) es" using i by (simp add: Cons_nth_drop_Suc)
  have kb: "key_blob (drop i es) = sfo_key (es ! i) @ key_blob (drop (Suc i) es)" by (simp add: e key_blob_def)
  have db: "data_blob (drop i es) = snd (es ! i) @ data_blob (drop (Suc i) es)" by (simp add: e data_blob_def)
  have lim: "?ko < 2 ^ 16" "?do < 2 ^ 32" "length (snd (es ! i)) < 2 ^ 32"
    using ok blob_parts [of es i] db by (auto simp: sfo_ok_def)
  have f: "read_le16 (drop (20 + i * 16) ?b) = ?ko" "read_le32 (drop 4 (drop (20 + i * 16) ?b)) = length (snd (es ! i))"
    "read_le32 (drop 12 (drop (20 + i * 16) ?b)) = ?do"
    unfolding r using lim by (simp_all add: sfo_row_def read_le_append)
  have k: "drop (20 + 16 * length es + ?ko) ?b = sfo_key (es ! i) @ key_blob (drop (Suc i) es) @ data_blob es"
    using drop_key_blob [of i es] kb blob_parts(1) [of es i] by (simp add: drop_encode_key)
  have kin: "20 + 16 * length es + ?ko < length ?b"
    using arg_cong [OF k, of length] by (simp add: sfo_key_def)
  have "NUL \<notin> set (fst (es ! i))" using ok i by (simp add: sfo_ok_def list_all_length)
  then have key: "cstr_of_bytes (drop (20 + 16 * length es + ?ko) ?b) = fst (es ! i)"
    unfolding k by (simp add: sfo_key_def cstr_key)
  have z: "0 \<in> set (drop (20 + 16 * length es + ?ko) ?b)" unfolding k by (simp add: sfo_key_def)
  have "drop (20 + 16 * length es + length (key_blob es) + ?do) ?b = snd (es ! i) @ data_blob (drop (Suc i) es)"
    using drop_encode_key [of es "length (key_blob es) + ?do"] drop_data_blob [of i es] db by (simp add: add.assoc)
  then have d: "bslice (20 + 16 * length es + length (key_blob es) + ?do) (length (snd (es ! i))) ?b = snd (es ! i)"
    by (simp add: bslice_def)
  have din: "20 + 16 * length es + length (key_blob es) + ?do + length (snd (es ! i)) \<le> length ?b"
    using blob_parts(2) [of es i] db by (simp add: length_sfo_encode)
  show ?thesis
    using kin z din by (simp add: sfo_entry_def Let_def f key d del: drop_drop)
qed

lemma sfo_scan_encode:
  assumes "sfo_ok es" "n \<le> length es"
  shows "sfo_scan (sfo_encode es) (20 + 16 * length es) (20 + 16 * length es + length (key_blob es)) m [n..<length es] s =
    fold sfo_note (drop n es) s"
  using assms(2)
proof (induction "length es - n" arbitrary: n s)
  case 0
  then show ?case by simp
next
  case (Suc k)
  then have n: "n < length es" by simp
  have e: "drop n es = es ! n # drop (Suc n) es" using n by (simp add: Cons_nth_drop_Suc)
  have "20 + (n + 1) * 16 \<le> length (sfo_encode es)" using n by (simp add: length_sfo_encode)
  then show ?case using Suc.hyps(1) [of "Suc n"] Suc.hyps(2) n e sfo_entry_encode [OF assms(1) n]
    by (simp add: upt_conv_Cons)
qed

lemma sfo_table_encode: "sfo_ok es \<Longrightarrow> sfo_table (sfo_encode es) = Some (fold sfo_note es sfo_zero)"
proof -
  assume ok: "sfo_ok es"
  have d: "0 < length (data_blob es)" using ok by (simp add: sfo_ok_def)
  have "sfo_scan (sfo_encode es) (20 + 16 * length es) (20 + 16 * length es + length (key_blob es)) (length es)
      [0..<length es] sfo_zero = fold sfo_note es sfo_zero"
    using sfo_scan_encode [OF ok, of 0] by simp
  then show ?thesis using ok d by (simp add: sfo_table_def header_fields length_sfo_encode sfo_ok_def Let_def)
qed

section \<open>Values\<close>

text \<open>A text value as the tools store it: with its NUL.\<close>

definition text_data :: "string \<Rightarrow> byte list" where
  "text_data v = map byte_of_char v @ [0]"

lemma dropWhile_zero: "NUL \<notin> set v \<Longrightarrow>
    rev (dropWhile (\<lambda>b. b = 0) (rev (map byte_of_char v @ [0]))) = map byte_of_char v"
proof (cases v rule: rev_exhaust)
  case (snoc u c)
  assume "NUL \<notin> set v"
  then have "c \<noteq> NUL" using snoc by auto
  from byte_not_zero [OF this] show ?thesis using snoc by simp
qed simp

lemma sfo_text_data: "NUL \<notin> set v \<Longrightarrow> length v + 1 < n \<Longrightarrow> sfo_text n (text_data v) = v"
proof -
  assume v: "NUL \<notin> set v" and n: "length v + 1 < n"
  have "sfo_text n (text_data v) = cstr_of_bytes (map byte_of_char v)"
    using n dropWhile_zero [OF v] by (simp add: sfo_text_def text_data_def del: rev_append)
  moreover have "takeWhile (\<lambda>b. b \<noteq> 0) (map byte_of_char v) = map byte_of_char v"
    using text_no_zero [OF v] by (simp add: takeWhile_eq_all_conv)
  ultimately show ?thesis by (simp add: cstr_of_bytes_def comp_def)
qed

text \<open>Later entries do not replace a value that is set.\<close>

lemma sfo_note_keeps:
  "sf_title_id s \<noteq> [] \<Longrightarrow> sf_title_id (sfo_note e s) = sf_title_id s"
  "sf_title s \<noteq> [] \<Longrightarrow> sf_title (sfo_note e s) = sf_title s"
  "sf_category s \<noteq> [] \<Longrightarrow> sf_category (sfo_note e s) = sf_category s"
  "sf_app_ver s \<noteq> [] \<Longrightarrow> sf_app_ver (sfo_note e s) = sf_app_ver s"
  by (simp_all add: sfo_note_def Let_def split: option.splits)

lemma sfo_note_other:
  "fst e \<noteq> ''TITLE_ID'' \<Longrightarrow> sf_title_id (sfo_note e s) = sf_title_id s"
  "fst e \<noteq> ''TITLE'' \<Longrightarrow> sf_title (sfo_note e s) = sf_title s"
  "fst e \<noteq> ''CATEGORY'' \<Longrightarrow> sf_category (sfo_note e s) = sf_category s"
  "fst e \<noteq> ''APP_VER'' \<Longrightarrow> sf_app_ver (sfo_note e s) = sf_app_ver s"
  by (simp_all add: sfo_note_def Let_def split: option.splits)

lemma sfo_note_sets:
  "sf_title_id s = [] \<Longrightarrow> sf_title_id (sfo_note (''TITLE_ID'', d) s) = sfo_text 32 d"
  "sf_title s = [] \<Longrightarrow> sf_title (sfo_note (''TITLE'', d) s) = sfo_text 256 d"
  "sf_category s = [] \<Longrightarrow> sf_category (sfo_note (''CATEGORY'', d) s) = sfo_text 16 d"
  "sf_app_ver s = [] \<Longrightarrow> sf_app_ver (sfo_note (''APP_VER'', d) s) = sfo_text 32 d"
  by (simp_all add: sfo_note_def Let_def)

text \<open>One field of the table is the value of its first entry.\<close>

lemma fold_field:
  assumes keeps: "\<And>e s. g s \<noteq> [] \<Longrightarrow> g (sfo_note e s) = g s"
    and other: "\<And>e s. fst e \<noteq> key \<Longrightarrow> g (sfo_note e s) = g s"
    and sets: "\<And>d s. g s = [] \<Longrightarrow> g (sfo_note (key, d) s) = sfo_text n d"
    and first: "map_of es key = Some (text_data v)" "NUL \<notin> set v" "v \<noteq> []" "length v + 1 < n" "g s = []"
  shows "g (fold sfo_note es s) = v"
proof -
  have keep: "g s \<noteq> [] \<Longrightarrow> g (fold sfo_note es s) = g s" for es s
    by (induction es arbitrary: s) (simp_all add: keeps)
  show ?thesis using first(1,5)
  proof (induction es arbitrary: s)
    case (Cons e es)
    show ?case
    proof (cases "fst e = key")
      case True
      then have "e = (key, text_data v)" using Cons.prems(1) by (cases e) simp
      then have "g (sfo_note e s) = v" using sets Cons.prems(2) sfo_text_data [OF first(2,4)] by simp
      then show ?thesis using keep [of "sfo_note e s"] first(3) by simp
    next
      case False
      then show ?thesis using Cons other by (cases e) simp
    qed
  qed simp
qed

lemma sfo_fields:
  assumes "map_of es key = Some (text_data v)" "NUL \<notin> set v" "v \<noteq> []"
  shows "key = ''TITLE_ID'' \<Longrightarrow> length v + 1 < 32 \<Longrightarrow> sf_title_id (fold sfo_note es sfo_zero) = v"
    "key = ''TITLE'' \<Longrightarrow> length v + 1 < 256 \<Longrightarrow> sf_title (fold sfo_note es sfo_zero) = v"
    "key = ''CATEGORY'' \<Longrightarrow> length v + 1 < 16 \<Longrightarrow> sf_category (fold sfo_note es sfo_zero) = v"
    "key = ''APP_VER'' \<Longrightarrow> length v + 1 < 32 \<Longrightarrow> sf_app_ver (fold sfo_note es sfo_zero) = v"
  using fold_field [of sf_title_id key 32 es v sfo_zero] fold_field [of sf_title key 256 es v sfo_zero]
    fold_field [of sf_category key 16 es v sfo_zero] fold_field [of sf_app_ver key 32 es v sfo_zero]
    sfo_note_keeps sfo_note_other sfo_note_sets assms
  by (simp_all add: sfo_zero_def)

text \<open>What a table says: the first values of the four keys, as texts of at most the
  length that their fields hold.\<close>

definition sfo_says :: "(string \<times> byte list) list \<Rightarrow> string \<Rightarrow> nat \<Rightarrow> string \<Rightarrow> bool" where
  "sfo_says es key n v \<longleftrightarrow>
     map_of es key = Some (text_data v) \<and> NUL \<notin> set v \<and> v \<noteq> [] \<and> length v + 1 < n"

definition game_sfo :: "(string \<times> byte list) list \<Rightarrow> string \<Rightarrow> string \<Rightarrow> string \<Rightarrow> string \<Rightarrow> bool" where
  "game_sfo es tid title cat ver \<longleftrightarrow> sfo_ok es \<and> sfo_says es ''TITLE_ID'' 32 tid \<and> sfo_says es ''TITLE'' 256 title \<and>
     sfo_says es ''CATEGORY'' 16 cat \<and> sfo_says es ''APP_VER'' 32 ver \<and> c_isdigit (hd ver)"

lemma encoded_sfo:
  assumes "sfo_ok es"
  shows "pkg_parser_parse_param_sfo (sfo_encode es) loc lang = sfo_out (fold sfo_note es sfo_zero) loc lang"
  by (simp add: pkg_parser_parse_param_sfo_def sfo_table_encode [OF assms])

lemma game_sfo_out:
  assumes "game_sfo es tid title cat ver"
  shows "po_title_id (sfo_out (fold sfo_note es sfo_zero) loc lang) = tid"
    "po_title (sfo_out (fold sfo_note es sfo_zero) loc lang) = title"
    "po_category (sfo_out (fold sfo_note es sfo_zero) loc lang) = cat"
    "po_version (sfo_out (fold sfo_note es sfo_zero) loc lang) = ''v'' @ ver"
proof -
  let ?s = "fold sfo_note es sfo_zero"
  note G = assms [unfolded game_sfo_def sfo_says_def]
  have f: "sf_title_id ?s = tid" "sf_title ?s = title" "sf_category ?s = cat" "sf_app_ver ?s = ver"
    using G sfo_fields(1) [of es "''TITLE_ID''" tid] sfo_fields(2) [of es "''TITLE''" title]
      sfo_fields(3) [of es "''CATEGORY''" cat] sfo_fields(4) [of es "''APP_VER''" ver] by simp_all
  have "hd ver \<noteq> CHR ''v''" "hd ver \<noteq> CHR ''V''" using G by (auto simp: c_isdigit_def)
  then show "po_title_id (sfo_out ?s loc lang) = tid" "po_title (sfo_out ?s loc lang) = title"
    "po_category (sfo_out ?s loc lang) = cat" "po_version (sfo_out ?s loc lang) = ''v'' @ ver"
    using f G by (simp_all add: sfo_out_def sfo_title_def sfo_version_def Let_def cstr_trunc_id)
qed

text \<open>C24. A \<open>param.sfo\<close> written by the reference encoder is read back: whatever other
  entries there are and in whatever order, the title id, the title, the category and
  the version are the values of the first entries with their keys (the version with a
  \<open>v\<close> in front), the table is scanned to its end and no entry is lost.\<close>

theorem param_sfo_roundtrip:
  assumes "game_sfo es tid title cat ver"
  shows "pkg_parser_parse_param_sfo (sfo_encode es) loc lang = sfo_out (fold sfo_note es sfo_zero) loc lang \<and>
    po_title_id (pkg_parser_parse_param_sfo (sfo_encode es) loc lang) = tid \<and>
    po_title (pkg_parser_parse_param_sfo (sfo_encode es) loc lang) = title \<and>
    po_category (pkg_parser_parse_param_sfo (sfo_encode es) loc lang) = cat \<and>
    po_version (pkg_parser_parse_param_sfo (sfo_encode es) loc lang) = ''v'' @ ver"
proof -
  have "sfo_ok es" using assms by (simp add: game_sfo_def)
  then show ?thesis by (simp add: encoded_sfo game_sfo_out [OF assms])
qed

definition demo_sfo :: "(string \<times> byte list) list" where
  "demo_sfo = [(''APP_VER'', text_data ''01.02''), (''CATEGORY'', text_data ''gd''), (''TITLE'', text_data ''Game''),
     (''TITLE_00'', text_data ''Spiel''), (''TITLE_ID'', text_data ''CUSA00001'')]"

lemma demo_game: "game_sfo demo_sfo ''CUSA00001'' ''Game'' ''gd'' ''01.02''"
proof -
  have "sfo_ok demo_sfo" "c_isdigit (hd ''01.02'')"
    by (simp_all add: sfo_ok_def demo_sfo_def key_blob_def data_blob_def sfo_key_def text_data_def NUL_def c_isdigit_def)
  moreover have "sfo_says demo_sfo ''TITLE_ID'' 32 ''CUSA00001''" "sfo_says demo_sfo ''TITLE'' 256 ''Game''"
    "sfo_says demo_sfo ''CATEGORY'' 16 ''gd''" "sfo_says demo_sfo ''APP_VER'' 32 ''01.02''"
    by (simp_all add: demo_sfo_def sfo_says_def NUL_def)
  ultimately show ?thesis by (simp add: game_sfo_def)
qed

theorem param_sfo_roundtrip_witness:
  "pkg_parser_parse_param_sfo (sfo_encode demo_sfo) [] [] = sfo_out (fold sfo_note demo_sfo sfo_zero) [] [] \<and>
   po_title_id (sfo_out (fold sfo_note demo_sfo sfo_zero) [] []) = ''CUSA00001'' \<and>
   po_version (sfo_out (fold sfo_note demo_sfo sfo_zero) [] []) = ''v01.02''"
  using param_sfo_roundtrip [OF demo_game, of "[]" "[]"] by auto

end
