(* ===== verification/PkgEncode.thy ===== *)
theory PkgEncode
  imports PkgParseProps ParamSfoProps
begin

text \<open>
  A reference writer of PS4 packages: a CNT header, one table row, a
  \<open>param.sfo\<close> and the payload; and what the parser of local files makes of such a package.
\<close>

fun be_enc :: "nat \<Rightarrow> nat \<Rightarrow> byte list" where
  "be_enc 0 v = []"
| "be_enc (Suc n) v = be_enc n (v div 256) @ [of_nat (v mod 256)]"

lemma length_be_enc [simp]: "length (be_enc n v) = n"
  by (induction n arbitrary: v) simp_all

lemma be_num_append: "be_num acc (xs @ ys) = be_num (be_num acc xs) ys"
  by (induction xs arbitrary: acc) simp_all

lemma be_num_be_enc: "v < 256 ^ n \<Longrightarrow> be_num acc (be_enc n v) = acc * 256 ^ n + v"
proof (induction n arbitrary: v)
  case (Suc n)
  then have "v div 256 < 256 ^ n" by (simp add: less_mult_imp_div_less mult.commute)
  then have "be_num acc (be_enc (Suc n) v) = 256 * (acc * 256 ^ n + v div 256) + v mod 256"
    using Suc.IH by (simp add: be_num_append unat_byte)
  also have "\<dots> = acc * 256 ^ Suc n + (256 * (v div 256) + v mod 256)" by (simp add: algebra_simps)
  finally show ?case by simp
qed simp

lemma read_be_append: "v < 2 ^ 32 \<Longrightarrow> read_be32 (be_enc 4 v @ r) = v"
  by (simp add: read_be32_def be_num_be_enc)

definition pkg_row :: "nat \<Rightarrow> nat \<Rightarrow> nat \<Rightarrow> byte list" where
  "pkg_row ty off n = be_enc 4 ty @ replicate 12 0 @ be_enc 4 off @ be_enc 4 n @ replicate 8 0"

definition pkg_header :: "nat \<Rightarrow> string \<Rightarrow> byte list" where
  "pkg_header magic cid =
     CNT_MAGIC @ be_enc 4 magic @ replicate 8 0 @ be_enc 4 1 @ replicate 4 0 @ be_enc 4 0x80 @
     replicate 36 0 @ map byte_of_char cid @ replicate (48 - length cid) 0 @ replicate 16 0"

definition ps4_package :: "nat \<Rightarrow> string \<Rightarrow> byte list \<Rightarrow> byte list \<Rightarrow> byte list" where
  "ps4_package magic cid b pay = pkg_header magic cid @ pkg_row 0x1000 0xA0 (length b) @ b @ pay"

definition cid_ok :: "string \<Rightarrow> bool" where
  "cid_ok cid \<longleftrightarrow> length cid < 48 \<and> list_all (\<lambda>c. 32 \<le> unat (byte_of_char c) \<and> unat (byte_of_char c) \<le> 126) cid"

lemma length_pkg_header: "length cid < 48 \<Longrightarrow> length (pkg_header magic cid) = 0x80"
  by (simp add: pkg_header_def CNT_MAGIC_def)

lemma length_pkg_row [simp]: "length (pkg_row ty off n) = 32"
  by (simp add: pkg_row_def)

lemma row_fields:
  assumes "ty < 2 ^ 32" "off < 2 ^ 32" "n < 2 ^ 32"
  shows "row_type (pkg_row ty off n) = ty" "row_off (pkg_row ty off n) = off" "row_size (pkg_row ty off n) = n"
  using assms by (simp_all add: row_type_def row_off_def row_size_def pkg_row_def read_be_append)

lemma header_numbers:
  assumes "magic < 2 ^ 32" "cid_ok cid"
  shows "take 4 (pkg_header magic cid) = CNT_MAGIC" "read_be32 (drop 4 (pkg_header magic cid)) = magic"
    "read_be32 (drop 0x10 (pkg_header magic cid)) = 1" "read_be32 (drop 0x18 (pkg_header magic cid)) = 0x80"
    "cnt_content_id (pkg_header magic cid) = cid"
proof -
  show "take 4 (pkg_header magic cid) = CNT_MAGIC" "read_be32 (drop 4 (pkg_header magic cid)) = magic"
    "read_be32 (drop 0x10 (pkg_header magic cid)) = 1" "read_be32 (drop 0x18 (pkg_header magic cid)) = 0x80"
    using assms by (simp_all add: pkg_header_def CNT_MAGIC_def read_be_append)
  have d: "drop 0x40 (pkg_header magic cid) = map byte_of_char cid @ replicate (48 - length cid) 0 @ replicate 16 0"
    by (simp add: pkg_header_def CNT_MAGIC_def)
  have l: "length cid < 48" using assms(2) by (simp add: cid_ok_def)
  then have "48 - length cid = Suc (47 - length cid)" by simp
  then have t: "take 48 (drop 0x40 (pkg_header magic cid)) = map byte_of_char cid @ 0 # replicate (47 - length cid) 0"
    using l by (simp add: d)
  have "\<forall>b\<in>set (map byte_of_char cid). 32 \<le> unat b \<and> unat b \<le> 126"
    using assms(2) by (auto simp: cid_ok_def list_all_iff)
  then have "takeWhile (\<lambda>b. 32 \<le> unat b \<and> unat b \<le> 126) (take 48 (drop 0x40 (pkg_header magic cid))) = map byte_of_char cid"
    unfolding t by (subst takeWhile_append2) auto
  then show "cnt_content_id (pkg_header magic cid) = cid" by (simp add: cnt_content_id_def comp_def)
qed

definition demo_table :: "nat \<Rightarrow> string \<Rightarrow> nat \<Rightarrow> cnt_table" where
  "demo_table magic cid n =
     \<lparr> ct_offset = 0, ct_magic = magic, ct_content_id = cid, ct_rows = [pkg_row 0x1000 0xA0 n] \<rparr>"

lemma package_table:
  assumes "magic < 2 ^ 32" "cid_ok cid"
  shows "find_cnt inside g (take 0x200 (ps4_package magic cid b pay)) = Some 0"
    "0xA0 \<le> k \<Longrightarrow> read_table (file_get (take k (ps4_package magic cid b pay))) 0 = Inr (demo_table magic cid (length b))"
    "read_table (file_get (ps4_package magic cid b pay)) 0 = Inr (demo_table magic cid (length b))"
proof -
  let ?p = "ps4_package magic cid b pay"
  have l: "length (pkg_header magic cid) = 0x80" using assms(2) length_pkg_header by (simp add: cid_ok_def)
  note H = header_numbers [OF assms]
  have "take 4 (take 0x200 ?p) = CNT_MAGIC" using H(1) l by (simp add: ps4_package_def)
  then show "find_cnt inside g (take 0x200 ?p) = Some 0" by (simp add: find_cnt_def)
  have R: "read_table (file_get f) 0 = Inr (demo_table magic cid (length b))"
    if f: "f = pkg_header magic cid @ pkg_row 0x1000 0xA0 (length b) @ r" for f r
  proof -
    have "file_get f 0 0x80 = Some (pkg_header magic cid)" "file_get f 0x80 32 = Some (pkg_row 0x1000 0xA0 (length b))"
      unfolding f using l by (simp_all add: file_get_def full_slice_def bslice_def)
    moreover have "table_rows (pkg_row 0x1000 0xA0 (length b)) 1 = [pkg_row 0x1000 0xA0 (length b)]"
      by (simp add: table_rows_def bslice_def)
    ultimately show ?thesis unfolding read_table_def
      by (simp add: H Let_def demo_table_def)
  qed
  show "read_table (file_get ?p) 0 = Inr (demo_table magic cid (length b))" by (rule R) (simp add: ps4_package_def)
  show "0xA0 \<le> k \<Longrightarrow> read_table (file_get (take k ?p)) 0 = Inr (demo_table magic cid (length b))"
    by (rule R [of _ "take (k - 0xA0) (b @ pay)"]) (use l in \<open>simp add: ps4_package_def take_append\<close>)
qed

lemma package_sfo: "length cid < 48 \<Longrightarrow> file_get (ps4_package magic cid b pay) 0xA0 (length b) = Some b"
  using length_pkg_header [of cid magic] by (simp add: file_get_def full_slice_def ps4_package_def bslice_def)

lemma no_strings: "n < 2 ^ 32 \<Longrightarrow> string_table g (demo_table magic cid n) = None"
  by (simp add: string_table_def demo_table_def row_fields)

text \<open>Properties of the one table.\<close>

lemma package_on_table:
  "magic < 2 ^ 32 \<Longrightarrow> cid_ok cid \<Longrightarrow>
     on_table (ps4_package magic cid b pay) P = P 0 (demo_table magic cid (length b))"
  by (simp add: on_table_def package_table)

lemma package_length: "length cid < 48 \<Longrightarrow> length (ps4_package magic cid b pay) = 0xA0 + length b + length pay"
  by (simp add: ps4_package_def length_pkg_header)

lemma package_not_multi:
  assumes "magic < 2 ^ 32" "cid_ok cid"
  shows "take 8 (ps4_package magic cid b pay) \<noteq> MULTIPART_MAGIC"
proof
  assume a: "take 8 (ps4_package magic cid b pay) = MULTIPART_MAGIC"
  have "take 4 (ps4_package magic cid b pay) = CNT_MAGIC"
    using header_numbers(1) [OF assms] length_pkg_header [of cid magic] assms(2) by (simp add: ps4_package_def cid_ok_def)
  moreover have "take 4 (ps4_package magic cid b pay) = take 4 (take 8 (ps4_package magic cid b pay))" by simp
  ultimately have "take 4 MULTIPART_MAGIC = CNT_MAGIC" using a by simp
  moreover have "take 4 MULTIPART_MAGIC \<noteq> CNT_MAGIC" by code_simp
  ultimately show False by simp
qed

section \<open>Reading it\<close>

definition sfo_type :: "nat \<Rightarrow> string \<Rightarrow> pkg_type" where
  "sfo_type magic cat =
     (if is_delta_type magic \<or> starts_with ''gp'' cat then PKG_TYPE_UPDATE
      else if starts_with ''ac'' cat \<or> starts_with ''al'' cat \<or> cat = ''addcont'' then PKG_TYPE_DLC
      else if is_base_category cat \<or> magic mod 256 \<noteq> 1 then PKG_TYPE_BASE else PKG_TYPE_DLC)"

lemma package_entry:
  assumes "0 < length b" "length b < 262144" "length cid < 48"
  shows "file_entry (file_get (ps4_package magic cid b pay)) k 0 None (pkg_row 0x1000 0xA0 (length b)) (d, flags_zero) =
    note_sfo b (d, flags_zero)"
proof -
  have r: "row_type (pkg_row 0x1000 0xA0 (length b)) = 0x1000" "row_off (pkg_row 0x1000 0xA0 (length b)) = 0xA0"
    "row_size (pkg_row 0x1000 0xA0 (length b)) = length b" using assms(2) by (simp_all add: row_fields)
  have "note_patch 0x1000 [] flags_zero = flags_zero" by (simp add: note_patch_def flags_zero_def)
  moreover have "is_json_row 0x1000 [] (length b) = False" "is_sfo_row 0x1000 [] (length b) = True"
    "is_icon_row 0x1000 [] = False"
    using assms by (simp_all add: is_json_row_def is_sfo_row_def is_icon_row_def)
  ultimately show ?thesis
    by (simp add: file_entry_def r row_name_def with_data_def package_sfo [OF assms(3)])
qed

lemma finish_sfo:
  assumes "po_title_id p \<noteq> []" "po_title p \<noteq> []" "po_category p \<noteq> []"
    and "pd_title_id d = []" "pd_title_name d = []" "pd_category d = []" "pd_app_version d = []" "ct_magic t = magic"
  shows "finish t (merge_sfo p (d, flags_zero)) =
    d\<lparr> pd_category := po_category p, pd_title_id := po_title_id p, pd_title_name := po_title p,
       pd_app_version := po_version p, pd_pkg_type := sfo_type magic (po_category p),
       pd_type_str := type_str (sfo_type magic (po_category p)), pd_is_valid := True \<rparr>"
proof -
  have "classify magic (flags_zero\<lparr>fl_sfo_category := True\<rparr>) c = sfo_type magic c" for c
    by (auto simp: classify_def sfo_type_def flags_zero_def)
  then show ?thesis using assms
    by (simp add: finish_def merge_sfo_def set_type_def title_fallbacks_def or_else_def Let_def)
qed

lemma package_parsed:
  assumes "magic < 2 ^ 32" "cid_ok cid" "0 < length b" "length b < 262144"
    and p: "pkg_parser_parse_param_sfo b [] [] = p" "po_title_id p \<noteq> []" "po_title p \<noteq> []" "po_category p \<noteq> []"
  shows "pkg_parser_parse_file path (Some (ps4_package magic cid b pay)) =
    Some ((new_detail path (c_basename path) (0xA0 + length b + length pay))
      \<lparr> pd_content_id := cid, pd_platform := ''ps4'', pd_localized := po_localized p, pd_default_lang := po_lang p,
        pd_category := po_category p, pd_title_id := po_title_id p, pd_title_name := po_title p,
        pd_app_version := po_version p, pd_pkg_type := sfo_type magic (po_category p),
        pd_type_str := type_str (sfo_type magic (po_category p)), pd_is_valid := True \<rparr>)"
proof -
  let ?f = "ps4_package magic cid b pay"
  have cid: "length cid < 48" using assms(2) by (simp add: cid_ok_def)
  have len: "0x80 \<le> length ?f" "length b < 2 ^ 32" using assms(4) by (simp_all add: package_length [OF cid])
  define d where "d = new_detail path (c_basename path) (0xA0 + length b + length pay)"
  have "take 4 (take 0x200 ?f) = CNT_MAGIC"
    using header_numbers(1) [OF assms(1,2)] length_pkg_header [OF cid, of magic] by (simp add: ps4_package_def)
  then have "take 4 (take 0x200 ?f) \<noteq> [0x7F, 0x46, 0x49, 0x48]" by (simp add: CNT_MAGIC_def)
  then have s: "start_detail path ?f (length ?f) = d"
    unfolding start_detail_def pkg_platform_note_header_def package_length [OF cid] d_def by simp
  have t: "ct_rows (demo_table magic cid (length b)) = [pkg_row 0x1000 0xA0 (length b)]"
    "ct_content_id (demo_table magic cid (length b)) = cid" "ct_magic (demo_table magic cid (length b)) = magic"
    by (simp_all add: demo_table_def)
  have z: "pd_platform d = []" "pd_localized d = []" "pd_default_lang d = []" "pd_title_id d = []" "pd_title_name d = []"
    "pd_category d = []" "pd_app_version d = []" by (simp_all add: d_def new_detail_def pkg_detail_zero_def)
  have n: "note_sfo b (d\<lparr>pd_content_id := cid\<rparr>, flags_zero) =
      merge_sfo p (d\<lparr>pd_content_id := cid, pd_platform := ''ps4'', pd_localized := po_localized p,
        pd_default_lang := po_lang p\<rparr>, flags_zero)"
    using p(1) z by (simp add: note_sfo_def pkg_platform_note_param_sfo_def Let_def)
  show ?thesis
    unfolding parse_file_shape [OF len(1) package_not_multi [OF assms(1,2)]] s
    using package_entry [OF assms(3,4) cid] z
    by (simp add: package_table [OF assms(1,2)] no_strings [OF len(2)] t n finish_sfo [OF p(2-4)] d_def [symmetric])
qed

end
