(* ===== verification/PkgClaims.thy ===== *)
theory PkgClaims
  imports PkgParseMem PkgParseTypes PkgEncode
begin

text \<open>
  The package parsers as a whole: they agree with each other, their results have the
  type that \<open>pkg_detail_t\<close> promises, and a package that is written is read back.
\<close>

section \<open>Example: a small package, delivered in pieces\<close>

definition demo_package :: "byte list" where
  "demo_package = ps4_package 1 ''EP0001-CUSA00001_00-GAME000000000001'' (sfo_encode demo_sfo) (replicate 400 7)"

definition pieces :: "nat \<Rightarrow> byte list \<Rightarrow> callback" where
  "pieces k f count off = Some (bslice off (min count k) f)"

lemma bslice_past: "length f \<le> off \<Longrightarrow> bslice off n f = []"
  by (simp add: bslice_def)

lemma pieces_faithful: "0 < k \<Longrightarrow> faithful (pieces k f) f"
  unfolding faithful_def
proof (intro allI impI)
  fix count off :: nat
  assume "0 < k" "0 < count"
  then show "if off < length f then \<exists>n. 0 < n \<and> n \<le> count \<and> pieces k f count off = Some (bslice off n f)
      else rd_call (pieces k f) count off = []"
    by (auto simp: pieces_def rd_call_def bslice_past intro!: exI [of _ "min count k"])
qed

lemma demo_cid: "cid_ok ''EP0001-CUSA00001_00-GAME000000000001''"
  unfolding cid_ok_def by code_simp

lemma demo_sfo_length: "length (sfo_encode demo_sfo) = 171"
  by code_simp

lemma demo_length: "length demo_package = 0xA0 + 171 + 400"
  using package_length [of "''EP0001-CUSA00001_00-GAME000000000001''" 1 "sfo_encode demo_sfo" "replicate 400 7"] demo_cid
  by (simp add: demo_package_def cid_ok_def demo_sfo_length)

lemma demo_not_multi: "take 8 demo_package \<noteq> MULTIPART_MAGIC"
  unfolding demo_package_def by (rule package_not_multi) (simp_all add: demo_cid)

lemma demo_on_table:
  "on_table demo_package P = P 0 (demo_table 1 ''EP0001-CUSA00001_00-GAME000000000001'' 171)"
  using package_on_table [of 1 "''EP0001-CUSA00001_00-GAME000000000001''"] demo_cid
  unfolding demo_package_def demo_sfo_length [symmetric] by simp

lemma demo_rows:
  "ct_rows (demo_table m c n) = [pkg_row 0x1000 0xA0 n]"
  by (simp add: demo_table_def)

lemma demo_strings: "string_table g (demo_table m c 171) = None"
  by (rule no_strings) simp

lemma demo_row: "row_type (pkg_row 0x1000 0xA0 171) = 0x1000" "row_size (pkg_row 0x1000 0xA0 171) = 171"
  "row_off (pkg_row 0x1000 0xA0 171) = 0xA0"
  by (simp_all add: row_fields)

lemma demo_clean: "clean_json demo_package"
  by (simp add: clean_json_def demo_on_table demo_rows demo_strings clean_row_def demo_row row_name_def is_json_row_def)


section \<open>One package, one result\<close>

lemma reader_like_file:
  assumes "same_reads g (file_get f)" "clean_json f"
    and "find_cnt (\<lambda>c. c < length f) (file_get f) (take 0x200 f) = Some cnt" "read_table (file_get f) cnt = Inr t"
  shows "fold (reader_entry g (length f) cnt (string_table (file_get f) t)) (ct_rows t) s =
    fold (file_entry (file_get f) (length f) cnt (string_table (file_get f) t)) (ct_rows t) s"
proof -
  have "list_all (clean_row (file_get f) cnt (string_table (file_get f) t)) (ct_rows t)"
    using assms(2-) by (simp add: clean_json_def on_table_def)
  then show ?thesis by (intro fold_entries entries_same [OF assms(1)]) (simp add: list_all_iff)
qed

text \<open>C25. One package, one result: over a callback that delivers the package (in
  pieces of any size) the reader parser gives exactly what the parser of local files
  gives for its bytes: the same details, field by field, or a failure in both. The
  path must not end in a slash, and no \<open>param.json\<close> may hold a NUL byte, where the
  two search for the base-game markers differently.\<close>

theorem reader_parses_like_file:
  assumes "faithful rd f" "0x80 \<le> length f" "take 8 f \<noteq> MULTIPART_MAGIC" "c_basename path \<noteq> []" "clean_json f"
  shows "pkg_parse_reader rd (length f) path =
    (case pkg_parser_parse_file path (Some f) of Some d \<Rightarrow> Inr d | None \<Rightarrow> Inl (-1))"
proof -
  obtain g where g: "same_reads g (file_get f)" and R: "pkg_parse_reader rd (length f) path =
      (case find_cnt (\<lambda>c. c < length f) (file_get f) (take 0x200 f) of
         None \<Rightarrow> Inl (-1)
       | Some cnt \<Rightarrow> (case read_table (file_get f) cnt of Inl _ \<Rightarrow> Inl (-1)
         | Inr t \<Rightarrow> Inr (finish t (fold (reader_entry g (length f) cnt (string_table (file_get f) t)) (ct_rows t)
             ((start_detail path f (length f))\<lparr>pd_content_id := ct_content_id t\<rparr>, flags_zero)))))"
    using reader_shape [OF assms(1-4)] by blast
  show ?thesis
    unfolding R parse_file_shape [OF assms(2,3)]
    using reader_like_file [OF g assms(5)] by (simp split: option.split sum.split)
qed

theorem reader_parses_like_file_witness:
  "pkg_parse_reader (pieces 7 demo_package) (length demo_package) ''/data/pkg/game.pkg'' =
    (case pkg_parser_parse_file ''/data/pkg/game.pkg'' (Some demo_package) of Some d \<Rightarrow> Inr d | None \<Rightarrow> Inl (-1))"
proof (rule reader_parses_like_file)
  show "c_basename ''/data/pkg/game.pkg'' \<noteq> []" by code_simp
qed (simp_all add: pieces_faithful demo_length demo_not_multi demo_clean)

section \<open>A session over SMB\<close>

text \<open>A session whose reads deliver what the file holds.\<close>

definition exact_session :: "callback \<Rightarrow> byte list \<Rightarrow> bool" where
  "exact_session rd f \<longleftrightarrow> (\<forall>n off. 0 < n \<longrightarrow> rd n off = Some (bslice off n f))"

lemma exact_call: "exact_session rd f \<Longrightarrow> 0 < n \<Longrightarrow> rd_call rd n off = bslice off n f"
  using length_bslice [of off n f] by (simp add: exact_session_def rd_call_def)

lemma exact_reads: "exact_session rd f \<Longrightarrow> same_reads (smb_get rd) (file_get f)"
  by (auto simp: same_reads_def smb_get_def exact_call file_get_def full_slice_def length_bslice Let_def)

lemma smb_shape:
  assumes "exact_session rd f" "0x80 \<le> length f" "take 8 f \<noteq> MULTIPART_MAGIC" "c_basename url \<noteq> []"
  shows "smb_client_parse_pkg (Some (length f, rd)) url =
      (case find_cnt (\<lambda>c. c < length f) (file_get f) (take 0x200 f) of
         None \<Rightarrow> None
       | Some cnt \<Rightarrow> (case read_table (file_get f) cnt of Inl _ \<Rightarrow> None
         | Inr t \<Rightarrow> Some (finish t (fold (smb_entry (smb_get rd) cnt (string_table (file_get f) t)) (ct_rows t)
             ((start_detail url f (length f))\<lparr>pd_content_id := ct_content_id t\<rparr>, flags_zero)))))"
proof -
  note same = exact_reads [OF assms(1)]
  have hdr: "rd_call rd 0x200 0 = take 0x200 f" using exact_call [OF assms(1)] by (simp add: bslice_def)
  have m: "take 8 (take 0x200 f) \<noteq> MULTIPART_MAGIC" "\<not> length (take 0x200 f) < 0x80" using assms(2,3) by simp_all
  have name: "base_or_path url = c_basename url" using assms(4) by (simp add: base_or_path_def)
  note F = find_cnt_same [OF same refl, of "\<lambda>c. c < length f"]
  show ?thesis
    unfolding smb_client_parse_pkg_def Let_def option.case prod.case hdr name start_detail_def
      read_table_same [OF same] string_table_same [OF same] F if_not_P [OF m(1)] if_not_P [OF m(2)] ..
qed

text \<open>A package read over SMB has the details of the same package as a local
  file, all but the position of the icon: the parser for SMB fails exactly when the
  parser of local files does, and its result differs at most in the icon fields, which
  it fills without checking that the icon lies in the file.\<close>

theorem smb_parses_like_file:
  assumes "exact_session rd f" "0x80 \<le> length f" "take 8 f \<noteq> MULTIPART_MAGIC" "c_basename url \<noteq> []" "clean_json f"
  shows "map_option no_icon (smb_client_parse_pkg (Some (length f, rd)) url) =
    map_option no_icon (pkg_parser_parse_file url (Some f))"
proof -
  have E: "no_icon (fst (fold (smb_entry (smb_get rd) cnt (string_table (file_get f) t)) (ct_rows t) s)) =
        no_icon (fst (fold (file_entry (file_get f) (length f) cnt (string_table (file_get f) t)) (ct_rows t) s)) \<and>
      snd (fold (smb_entry (smb_get rd) cnt (string_table (file_get f) t)) (ct_rows t) s) =
        snd (fold (file_entry (file_get f) (length f) cnt (string_table (file_get f) t)) (ct_rows t) s)"
    if "find_cnt (\<lambda>c. c < length f) (file_get f) (take 0x200 f) = Some cnt" "read_table (file_get f) cnt = Inr t" for cnt t s
  proof -
    have c: "\<forall>e\<in>set (ct_rows t). clean_row (file_get f) cnt (string_table (file_get f) t) e"
      using assms(5) that by (simp add: clean_json_def on_table_def list_all_iff)
    show ?thesis
    proof (rule fold_sim [where P = "\<lambda>s s'. no_icon (fst s) = no_icon (fst s') \<and> snd s = snd s'"])
      fix e and s s' :: "pkg_detail \<times> flags"
      assume "e \<in> set (ct_rows t)" "no_icon (fst s) = no_icon (fst s') \<and> snd s = snd s'"
      then show "no_icon (fst (smb_entry (smb_get rd) cnt (string_table (file_get f) t) e s)) =
            no_icon (fst (file_entry (file_get f) (length f) cnt (string_table (file_get f) t) e s')) \<and>
          snd (smb_entry (smb_get rd) cnt (string_table (file_get f) t) e s) =
            snd (file_entry (file_get f) (length f) cnt (string_table (file_get f) t) e s')"
        using c by (intro smb_entry_same [OF exact_reads [OF assms(1)]]) simp_all
    qed simp
  qed
  show ?thesis unfolding smb_shape [OF assms(1-4)] parse_file_shape [OF assms(2,3)]
    using E by (auto split: option.split sum.split intro!: finish_icon)
qed

theorem smb_parses_like_file_witness:
  "map_option no_icon (smb_client_parse_pkg (Some (length demo_package, \<lambda>n off. Some (bslice off n demo_package)))
      ''smb://nas/share/game.pkg'') =
    map_option no_icon (pkg_parser_parse_file ''smb://nas/share/game.pkg'' (Some demo_package))"
proof (rule smb_parses_like_file)
  show "c_basename ''smb://nas/share/game.pkg'' \<noteq> []" by code_simp
qed (simp_all add: exact_session_def demo_length demo_not_multi demo_clean)

section \<open>A live upload\<close>









section \<open>The type of a result\<close>

text \<open>C27. Whatever the bytes, a parser that reports a package reports a well-typed one:
  every text fits into its field of the record with its end marker, the kind is one of
  base, update and add-on with the matching text, and there is a title to show. This
  holds for local files, live prefixes, HTTP sources and SMB sessions alike.\<close>

theorem parse_results_typed:
  "(case pkg_parser_parse_file path file of Some d \<Rightarrow> detail_ok d | None \<Rightarrow> True) \<and>
   (case pkg_parser_parse_mem data total_size name of Inr d \<Rightarrow> detail_ok d | Inl e \<Rightarrow> True) \<and>
   (case pkg_parse_reader rd n path of Inr d \<Rightarrow> detail_ok d | Inl e \<Rightarrow> True) \<and>
   (case smb_client_parse_pkg sess path of Some d \<Rightarrow> detail_ok d | None \<Rightarrow> True)"
  using parsed_ok by (auto split: option.split sum.split)

section \<open>Writing and reading\<close>

text \<open>C28. A package that is written is read back, end to end: header, table and
  \<open>param.sfo\<close>. Whatever the payload, the parser of local files gives the title id, the
  title, the category, the version and the content id that the package was written
  with, knows its platform, and classifies it by its content type and category.\<close>

theorem ps4_package_roundtrip:
  assumes "magic < 2 ^ 32" "cid_ok cid" "game_sfo es tid title cat ver"
    and "0 < length (sfo_encode es)" "length (sfo_encode es) < 262144"
  shows "\<exists>d. pkg_parser_parse_file path (Some (ps4_package magic cid (sfo_encode es) pay)) = Some d \<and>
    pd_title_id d = tid \<and> pd_title_name d = title \<and> pd_category d = cat \<and> pd_app_version d = ''v'' @ ver \<and>
    pd_content_id d = cid \<and> pd_platform d = ''ps4'' \<and> pd_pkg_type d = sfo_type magic cat \<and>
    pd_file_size d = length (ps4_package magic cid (sfo_encode es) pay) \<and> pd_is_valid d"
proof -
  have ok: "sfo_ok es" and ne: "tid \<noteq> []" "title \<noteq> []" "cat \<noteq> []"
    using assms(3) by (simp_all add: game_sfo_def sfo_says_def)
  define p where "p = sfo_out (fold sfo_note es sfo_zero) [] []"
  note out = game_sfo_out [OF assms(3), of "[]" "[]", folded p_def]
  have q: "pkg_parser_parse_param_sfo (sfo_encode es) [] [] = p" by (simp add: encoded_sfo [OF ok] p_def)
  have "po_title_id p \<noteq> []" "po_title p \<noteq> []" "po_category p \<noteq> []" using out ne by simp_all
  from package_parsed [OF assms(1,2,4,5) q this, of path pay] show ?thesis
    using out package_length [of cid magic "sfo_encode es" pay] assms(2)
    by (simp add: new_detail_def cid_ok_def)
qed

theorem ps4_package_roundtrip_witness:
  "\<exists>d. pkg_parser_parse_file ''/data/pkg/game.pkg'' (Some (ps4_package 1 ''EP0001-CUSA00001_00-GAME000000000001''
      (sfo_encode demo_sfo) [1, 2, 3])) = Some d \<and>
    pd_title_id d = ''CUSA00001'' \<and> pd_title_name d = ''Game'' \<and> pd_category d = ''gd'' \<and>
    pd_app_version d = ''v01.02'' \<and> pd_content_id d = ''EP0001-CUSA00001_00-GAME000000000001'' \<and>
    pd_pkg_type d = PKG_TYPE_BASE"
proof -
  have l: "0 < length (sfo_encode demo_sfo)" "length (sfo_encode demo_sfo) < 262144" by (simp_all add: demo_sfo_length)
  have t: "sfo_type 1 ''gd'' = PKG_TYPE_BASE"
    by (simp add: sfo_type_def is_delta_type_def is_base_category_def)
  have m: "(1 :: nat) < 2 ^ 32" by simp
  obtain d where "pkg_parser_parse_file ''/data/pkg/game.pkg'' (Some (ps4_package 1 ''EP0001-CUSA00001_00-GAME000000000001''
        (sfo_encode demo_sfo) [1, 2, 3])) = Some d"
      "pd_title_id d = ''CUSA00001''" "pd_title_name d = ''Game''" "pd_category d = ''gd''" "pd_app_version d = ''v'' @ ''01.02''"
      "pd_content_id d = ''EP0001-CUSA00001_00-GAME000000000001''" "pd_pkg_type d = sfo_type 1 ''gd''"
    using ps4_package_roundtrip [OF m demo_cid demo_game l, of "''/data/pkg/game.pkg''" "[1, 2, 3]"] by metis
  then show ?thesis by (intro exI [of _ d]) (simp add: t [simplified])
qed

end
