(* ===== verification/AppVersion.thy ===== *)
theory AppVersion
  imports ParamJson
begin

text \<open>
  Versions of installed titles, from \<open>src/app_info.c\<close>: normalising, splitting into
  three numbers, comparing; and the order on versions that comparing implements.
\<close>

section \<open>Numbers\<close>

lemma c_isdigit_zero: "c_isdigit (CHR ''0'')" "digit_val (CHR ''0'') = 0"
  by (simp_all add: c_isdigit_def digit_val_def)

lemma length_dec_str: "0 < k \<Longrightarrow> n < 10 ^ k \<Longrightarrow> length (dec_str n) \<le> k"
proof (induction n arbitrary: k rule: dec_str.induct)
  case (1 n)
  show ?case
  proof (cases "n < 10")
    case True
    then show ?thesis using 1 by (simp add: dec_str.simps [of n])
  next
    case False
    then obtain j where k: "k = Suc j" "0 < j" using 1(2,3) by (cases k; cases "k - 1") auto
    have "n div 10 < 10 ^ j" using 1(3) k(1) by (simp add: less_mult_imp_div_less mult.commute)
    then show ?thesis using 1(1) [OF False k(2)] False k(1) by (simp add: dec_str.simps [of n])
  qed
qed

lemma int32_id: "- (2 ^ 31) \<le> v \<Longrightarrow> v < 2 ^ 31 \<Longrightarrow> int32 v = v"
  by (simp add: int32_def)

lemma int32_range: "- (2 ^ 31) \<le> int32 v" "int32 v < 2 ^ 31"
proof -
  have "0 \<le> (v + 2 ^ 31) mod 2 ^ 32" "(v + 2 ^ 31) mod 2 ^ 32 < 2 * 2 ^ 31" by simp_all
  then show "- (2 ^ 31) \<le> int32 v" "int32 v < 2 ^ 31" unfolding int32_def by linarith+
qed

text \<open>Reading back what \<open>%d\<close> and \<open>%02d\<close> print.\<close>

lemma scan_digits:
  assumes "ds \<noteq> []" "list_all c_isdigit ds" "rest = [] \<or> \<not> c_isdigit (hd rest)"
  shows "scan_int (ds @ rest) = Some (int32 (min (2 ^ 63 - 1) (int (digits_value 0 ds))), rest)"
    "scan_int (CHR ''-'' # ds @ rest) = Some (int32 (max (- (2 ^ 63)) (- int (digits_value 0 ds))), rest)"
proof -
  obtain c cs where c: "ds = c # cs" "c_isdigit c" using assms(1,2) by (cases ds) auto
  then have s: "\<not> c_isspace c" "c \<noteq> CHR ''-''" "c \<noteq> CHR ''+''"
    using c_isdigit_not_space by (auto simp: c_isdigit_def)
  have r: "takeWhile c_isdigit rest = []" "dropWhile c_isdigit rest = rest" using assms(3) by (cases rest; simp)+
  have tw: "takeWhile c_isdigit (ds @ rest) = ds" and dw: "dropWhile c_isdigit (ds @ rest) = rest"
    using assms(2) r by (simp_all add: list_all_iff takeWhile_append2 dropWhile_append2)
  have sp: "dropWhile c_isspace (ds @ rest) = ds @ rest" "ds @ rest \<noteq> []" "hd (ds @ rest) = c" using c s by simp_all
  show "scan_int (ds @ rest) = Some (int32 (min (2 ^ 63 - 1) (int (digits_value 0 ds))), rest)"
    unfolding scan_int_def sp(1) Let_def using sp(2,3) s tw dw assms(1) by simp
  have m: "\<not> c_isspace (CHR ''-'')" by (simp add: c_isspace_def)
  show "scan_int (CHR ''-'' # ds @ rest) = Some (int32 (max (- (2 ^ 63)) (- int (digits_value 0 ds))), rest)"
    unfolding scan_int_def Let_def using m tw dw assms(1) by simp
qed

lemma scan_int_str:
  assumes "- (2 ^ 31) \<le> n" "n < 2 ^ 31" "rest = [] \<or> \<not> c_isdigit (hd rest)"
  shows "scan_int (int_str n @ rest) = Some (n, rest)" "scan_int (int_str02 n @ rest) = Some (n, rest)"
proof -
  show i: "scan_int (int_str n @ rest) = Some (n, rest)"
    using assms scan_digits [OF dec_str_nonempty dec_str_digits assms(3)]
    by (simp add: int_str_def digits_value_dec_str int32_id)
  show "scan_int (int_str02 n @ rest) = Some (n, rest)"
  proof (cases "length (int_str n) < 2")
    case True
    then have "\<not> n < 0"
      using dec_str_nonempty [of "nat (- n)"] by (cases "dec_str (nat (- n))") (auto simp: int_str_def)
    then have p: "int_str02 n = CHR ''0'' # dec_str (nat n)" using True by (simp add: int_str02_def int_str_def)
    have "list_all c_isdigit (CHR ''0'' # dec_str (nat n))" using dec_str_digits c_isdigit_zero(1) by simp
    moreover have "digits_value 0 (CHR ''0'' # dec_str (nat n)) = nat n"
      using digits_value_dec_str c_isdigit_zero(2) by simp
    ultimately show ?thesis
      using scan_digits(1) [of "CHR ''0'' # dec_str (nat n)" rest] assms \<open>\<not> n < 0\<close> by (simp add: p int32_id)
  next
    case False
    then show ?thesis using i by (simp add: int_str02_def)
  qed
qed

lemma length_int_str:
  assumes "- (2 ^ 31) \<le> n" "n < 2 ^ 31"
  shows "length (int_str n) \<le> 11" "length (int_str02 n) \<le> 11"
proof -
  have b: "(2 :: int) ^ 31 < 10 ^ 10" by simp
  have "n < 10 ^ 10" "- n < 10 ^ 10" using assms b by linarith+
  then have "nat n < 10 ^ 10" "nat (- n) < 10 ^ 10" by (simp_all only: nat_less_numeral_power_cancel_iff)
  then have "length (dec_str (nat n)) \<le> 10" "length (dec_str (nat (- n))) \<le> 10" using length_dec_str [of 10] by simp_all
  then show "length (int_str n) \<le> 11" "length (int_str02 n) \<le> 11" by (simp_all add: int_str02_def int_str_def)
qed

section \<open>Normalising and splitting\<close>

text \<open>The numbers that \<open>sscanf(s, "%d.%d.%d", ...)\<close> assigns, as many as it matches.\<close>

definition scan_version :: "string \<Rightarrow> int list" where
  "scan_version s =
     (case scan_int s of
        None \<Rightarrow> []
      | Some (a, r) \<Rightarrow>
          a # (case scan_dot_int r of
                 None \<Rightarrow> []
               | Some (b, r2) \<Rightarrow> b # (case scan_dot_int r2 of None \<Rightarrow> [] | Some (c, _) \<Rightarrow> [c])))"

definition is_version_lead :: "char \<Rightarrow> bool" where
  "is_version_lead c \<longleftrightarrow> c = CHR ''v'' \<or> c = CHR ''V'' \<or> c_isspace c"

definition skip_lead :: "string \<Rightarrow> string" where
  "skip_lead s = dropWhile is_version_lead s"

text \<open>\<open>in[0] == '0' || (in[1] != '.' && in[1] != '\0' && in[2] == '.')\<close>: two digits before
  the dot.\<close>

definition wide_major :: "string \<Rightarrow> bool" where
  "wide_major t \<longleftrightarrow> hd t = CHR ''0'' \<or> (length t > 2 \<and> t ! 1 \<noteq> CHR ''.'' \<and> t ! 2 = CHR ''.'')"

text \<open>What is left in a buffer of \<open>max_out\<close> bytes.\<close>

definition app_info_normalize_version :: "nat \<Rightarrow> string \<Rightarrow> string" where
  "app_info_normalize_version max_out s =
     (if max_out = 0 \<or> s = [] then []
      else
      let t = skip_lead s in
      cstr_trunc max_out
        (if t = [] then ''v1.00''
         else case scan_version t of
            [maj, mn, patch] \<Rightarrow>
              (if mn = 0 \<and> patch > 0 then ''v'' @ int_str maj @ ''.'' @ int_str02 patch
               else if patch = 0 then ''v'' @ int_str maj @ ''.'' @ int_str02 mn
               else ''v'' @ int_str maj @ ''.'' @ int_str mn @ ''.'' @ int_str patch)
          | [maj, mn] \<Rightarrow>
              (if wide_major t then ''v'' @ int_str02 maj @ ''.'' @ int_str02 mn
               else ''v'' @ int_str maj @ ''.'' @ int_str02 mn)
          | [maj] \<Rightarrow> ''v'' @ int_str maj @ ''.00''
          | _ \<Rightarrow> ''v'' @ t))"

datatype version = Version (v_major: int) (v_minor: int) (v_patch: int)

definition parse_version_parts :: "string \<Rightarrow> version" where
  "parse_version_parts s =
     (case scan_version (skip_lead s) of
        [a, b, c] \<Rightarrow> (if b = 0 \<and> c > 0 then Version a c 0 else Version a b c)
      | [a, b] \<Rightarrow> Version a b 0
      | [a] \<Rightarrow> Version a 0 0
      | _ \<Rightarrow> Version 0 0 0)"

text \<open>The differences are those of \<open>int\<close>, wrapping where C leaves an overflow open.\<close>

definition app_info_compare_versions :: "string \<Rightarrow> string \<Rightarrow> int" where
  "app_info_compare_versions va vb =
     (let a = parse_version_parts va; b = parse_version_parts vb in
      if v_major a \<noteq> v_major b then int32 (v_major a - v_major b)
      else if v_minor a \<noteq> v_minor b then int32 (v_minor a - v_minor b)
      else int32 (v_patch a - v_patch b))"

section \<open>The order of versions\<close>

instantiation version :: linorder
begin

definition less_version_def:
  "a < b \<longleftrightarrow> v_major a < v_major b \<or> v_major a = v_major b \<and>
     (v_minor a < v_minor b \<or> v_minor a = v_minor b \<and> v_patch a < v_patch b)"

definition less_eq_version_def: "(a :: version) \<le> b \<longleftrightarrow> a < b \<or> a = b"

instance
proof
  fix x y z :: version
  show "x < y \<longleftrightarrow> x \<le> y \<and> \<not> y \<le> x" by (auto simp: less_eq_version_def less_version_def)
  show "x \<le> x" by (simp add: less_eq_version_def)
  show "x \<le> y \<Longrightarrow> y \<le> z \<Longrightarrow> x \<le> z" by (auto simp: less_eq_version_def less_version_def)
  show "x \<le> y \<Longrightarrow> y \<le> x \<Longrightarrow> x = y" by (auto simp: less_eq_version_def less_version_def)
  show "x \<le> y \<or> y \<le> x" by (cases x; cases y) (auto simp: less_eq_version_def less_version_def)
qed

end

text \<open>Versions with numbers as packages have them: not negative.\<close>

definition plain :: "version \<Rightarrow> bool" where
  "plain v \<longleftrightarrow> 0 \<le> v_major v \<and> 0 \<le> v_minor v \<and> 0 \<le> v_patch v"

section \<open>Facts\<close>

lemma scan_int_range: "scan_int s = Some (n, r) \<Longrightarrow> - (2 ^ 31) \<le> n \<and> n < 2 ^ 31"
  using int32_range by (auto simp: scan_int_def Let_def split: if_splits)

lemma scan_dot_int_range: "scan_dot_int s = Some (n, r) \<Longrightarrow> - (2 ^ 31) \<le> n \<and> n < 2 ^ 31"
  using scan_int_range by (auto simp: scan_dot_int_def split: if_splits)

lemma scan_version_range: "n \<in> set (scan_version s) \<Longrightarrow> - (2 ^ 31) \<le> n \<and> n < 2 ^ 31"
  by (auto simp: scan_version_def dest: scan_int_range [OF sym] scan_dot_int_range [OF sym] split: option.splits)

lemma length_scan_version: "length (scan_version s) \<le> 3"
  by (simp add: scan_version_def split: option.split)

lemma parts_range:
  "v_major (parse_version_parts s) < 2 ^ 31" "v_minor (parse_version_parts s) < 2 ^ 31"
  "v_patch (parse_version_parts s) < 2 ^ 31"
  using scan_version_range [of _ "skip_lead s"]
  by (auto simp: parse_version_parts_def split: list.split)

lemma difference_sign:
  assumes "0 \<le> a" "a < 2 ^ 31" "0 \<le> b" "b < 2 ^ 31"
  shows "int32 (a - b) = a - b"
  by (rule int32_id) (use assms in linarith)+

lemma compare_order:
  assumes "plain (parse_version_parts va)" "plain (parse_version_parts vb)"
  shows "app_info_compare_versions va vb < 0 \<longleftrightarrow> parse_version_parts va < parse_version_parts vb"
    "app_info_compare_versions va vb = 0 \<longleftrightarrow> parse_version_parts va = parse_version_parts vb"
    "app_info_compare_versions va vb > 0 \<longleftrightarrow> parse_version_parts vb < parse_version_parts va"
proof -
  let ?a = "parse_version_parts va" and ?b = "parse_version_parts vb"
  have d: "int32 (v_major ?a - v_major ?b) = v_major ?a - v_major ?b"
      "int32 (v_minor ?a - v_minor ?b) = v_minor ?a - v_minor ?b"
      "int32 (v_patch ?a - v_patch ?b) = v_patch ?a - v_patch ?b"
    using assms parts_range [of va] parts_range [of vb] by (simp_all add: difference_sign plain_def)
  show "app_info_compare_versions va vb < 0 \<longleftrightarrow> ?a < ?b" "app_info_compare_versions va vb > 0 \<longleftrightarrow> ?b < ?a"
    by (auto simp: app_info_compare_versions_def less_version_def d Let_def)
  show "app_info_compare_versions va vb = 0 \<longleftrightarrow> ?a = ?b"
    by (auto simp: app_info_compare_versions_def d Let_def intro: version.expand)
qed

section \<open>Normalising keeps the version\<close>

text \<open>A number as \<open>int\<close> holds it, and the two ways it is printed.\<close>

definition int_ok :: "int \<Rightarrow> bool" where
  "int_ok n \<longleftrightarrow> - (2 ^ 31) \<le> n \<and> n < 2 ^ 31"

definition prints :: "string \<Rightarrow> int \<Rightarrow> bool" where
  "prints s n \<longleftrightarrow> int_ok n \<and> (s = int_str n \<or> s = int_str02 n)"

lemma prints_scan: "prints s n \<Longrightarrow> rest = [] \<or> \<not> c_isdigit (hd rest) \<Longrightarrow> scan_int (s @ rest) = Some (n, rest)"
  using scan_int_str [of n rest] by (auto simp: prints_def int_ok_def)

lemma prints_length: "prints s n \<Longrightarrow> length s \<le> 11"
  using length_int_str [of n] by (auto simp: prints_def int_ok_def)

lemma prints_zero: "prints ''00'' 0"
proof -
  have "int_str02 0 = ''00''" by code_simp
  then show ?thesis by (simp add: prints_def int_ok_def)
qed

lemma dot: "\<not> c_isdigit (CHR ''.'')"
  by (simp add: c_isdigit_def)

lemma scan_printed:
  assumes "prints a m" "prints b n"
  shows "scan_version (a @ CHR ''.'' # b) = [m, n]"
    "prints c p \<Longrightarrow> scan_version (a @ CHR ''.'' # b @ CHR ''.'' # c) = [m, n, p]"
proof -
  have a: "scan_int (a @ CHR ''.'' # r) = Some (m, CHR ''.'' # r)" for r by (rule prints_scan [OF assms(1)]) (simp add: dot)
  have e: "scan_int s = Some (k, [])" if "prints s k" for s k using prints_scan [OF that, of "[]"] by simp
  have b: "scan_int (b @ CHR ''.'' # r) = Some (n, CHR ''.'' # r)" for r by (rule prints_scan [OF assms(2)]) (simp add: dot)
  show "scan_version (a @ CHR ''.'' # b) = [m, n]"
    by (simp add: scan_version_def a scan_dot_int_def e [OF assms(2)])
  show "prints c p \<Longrightarrow> scan_version (a @ CHR ''.'' # b @ CHR ''.'' # c) = [m, n, p]"
    by (simp add: scan_version_def a scan_dot_int_def b e)
qed

lemma digit_no_lead: "c_isdigit c \<Longrightarrow> \<not> is_version_lead c"
  using c_isdigit_not_space by (auto simp: is_version_lead_def c_isdigit_def)

lemma prints_skip: "prints s n \<Longrightarrow> skip_lead (CHR ''v'' # s @ r) = s @ r"
proof -
  assume "prints s n"
  then have s: "s = int_str n \<or> s = int_str02 n" by (simp add: prints_def)
  have d: "dec_str k \<noteq> [] \<and> \<not> is_version_lead (hd (dec_str k))" for k
    using dec_str_digits [of k] dec_str_nonempty [of k] digit_no_lead by (cases "dec_str k") auto
  have "\<not> is_version_lead (CHR ''-'')" "\<not> is_version_lead (CHR ''0'')" by (simp_all add: is_version_lead_def c_isspace_def)
  then have "s \<noteq> [] \<and> \<not> is_version_lead (hd s)" using s d by (auto simp: int_str_def int_str02_def split: if_splits)
  then obtain c cs where "s = c # cs" "\<not> is_version_lead c" by (cases s) auto
  then show ?thesis by (simp add: skip_lead_def) (simp add: is_version_lead_def)
qed

lemma parts_of_printed:
  assumes "prints a m" "prints b n"
  shows "parse_version_parts (CHR ''v'' # a @ CHR ''.'' # b) = Version m n 0"
    "prints c p \<Longrightarrow> n \<noteq> 0 \<or> \<not> p > 0 \<Longrightarrow>
       parse_version_parts (CHR ''v'' # a @ CHR ''.'' # b @ CHR ''.'' # c) = Version m n p"
  using prints_skip [OF assms(1)] scan_printed [OF assms] by (auto simp: parse_version_parts_def)

lemma skip_lead_v: "skip_lead (CHR ''v'' # skip_lead s) = skip_lead s"
proof -
  have "dropWhile is_version_lead (dropWhile is_version_lead s) = dropWhile is_version_lead s"
    by (induction s) auto
  then show ?thesis by (simp add: skip_lead_def) (simp add: is_version_lead_def)
qed

lemma scan_version_cases:
  obtains "scan_version t = []" | a where "scan_version t = [a]" | a b where "scan_version t = [a, b]"
    | a b c where "scan_version t = [a, b, c]"
proof -
  have "\<And>a b c d r. scan_version t \<noteq> a # b # c # d # r" using length_scan_version [of t] by auto
  then show ?thesis using that by (metis neq_Nil_conv)
qed

lemma normalize_untruncated:
  assumes "64 \<le> n" "length s + 1 < n" "skip_lead s \<noteq> []"
  shows "app_info_normalize_version n s =
    (case scan_version (skip_lead s) of
       [maj, mn, patch] \<Rightarrow>
         (if mn = 0 \<and> patch > 0 then ''v'' @ int_str maj @ ''.'' @ int_str02 patch
          else if patch = 0 then ''v'' @ int_str maj @ ''.'' @ int_str02 mn
          else ''v'' @ int_str maj @ ''.'' @ int_str mn @ ''.'' @ int_str patch)
     | [maj, mn] \<Rightarrow>
         (if wide_major (skip_lead s) then ''v'' @ int_str02 maj @ ''.'' @ int_str02 mn
          else ''v'' @ int_str maj @ ''.'' @ int_str02 mn)
     | [maj] \<Rightarrow> ''v'' @ int_str maj @ ''.00''
     | _ \<Rightarrow> ''v'' @ skip_lead s)" (is "_ = ?t")
proof -
  have l: "length (int_str k) \<le> 11" "length (int_str02 k) \<le> 11" if "k \<in> set (scan_version (skip_lead s))" for k
    using scan_version_range [OF that] length_int_str by simp_all
  have "length (skip_lead s) \<le> length s" by (simp add: skip_lead_def length_dropWhile_le)
  then have "length ?t < n"
  proof (cases rule: scan_version_cases [of "skip_lead s"])
    case 1
    then show ?thesis using assms(2) \<open>length (skip_lead s) \<le> length s\<close> by simp
  next
    case (2 a)
    then show ?thesis using l [of a] assms(1) by simp
  next
    case (3 a b)
    then show ?thesis using l [of a] l [of b] assms(1) by simp
  next
    case (4 a b c)
    then show ?thesis using l [of a] l [of b] l [of c] assms(1) by simp
  qed
  moreover have "s \<noteq> []" using assms(3) by (auto simp: skip_lead_def)
  ultimately show ?thesis using assms by (simp add: app_info_normalize_version_def cstr_trunc_id Let_def)
qed

lemma normalize_keeps:
  assumes "64 \<le> n" "length s + 1 < n" "skip_lead s \<noteq> []"
  shows "parse_version_parts (app_info_normalize_version n s) = parse_version_parts s"
proof -
  have p: "prints (int_str k) k" "prints (int_str02 k) k" if "k \<in> set (scan_version (skip_lead s))" for k
    using scan_version_range [OF that] by (simp_all add: prints_def int_ok_def)
  show ?thesis
  proof (cases rule: scan_version_cases [of "skip_lead s"])
    case 1
    then show ?thesis using normalize_untruncated [OF assms] by (simp add: parse_version_parts_def skip_lead_v)
  next
    case (2 a)
    then show ?thesis using normalize_untruncated [OF assms] p parts_of_printed(1) [OF _ prints_zero, of "int_str a" a]
      by (simp add: parse_version_parts_def [of s])
  next
    case 3
    then show ?thesis using normalize_untruncated [OF assms] p parts_of_printed(1)
      by (auto simp: parse_version_parts_def [of s])
  next
    case 4
    then show ?thesis using normalize_untruncated [OF assms] p parts_of_printed
      by (auto simp: parse_version_parts_def [of s])
  qed
qed

end
