(* ===== verification/AppInfo.thy ===== *)
theory AppInfo
  imports AppVersion ParamSfo
begin

text \<open>
  What the console has installed, from \<open>src/app_info.c\<close>. The console is a parameter:
  the files, the directory listings, the answers of the app database to each query, the
  environment, and the native add-on query of a PS5. An unreadable file, a query that
  cannot be prepared and a column that is missing or NULL are \<open>None\<close>. Callers that pass
  no version buffer use only the first component of a result, which does not depend on it.
\<close>

section \<open>The console\<close>

text \<open>A row of \<open>tbl_contentinfo\<close>.\<close>

record ci_row =
  ci_json :: "string option"
  ci_meta :: "string option"
  ci_install :: "int option"
  ci_content :: "int option"
  ci_size :: "int option"

text \<open>The queries, by what they ask for.\<close>

record app_db =
  db_content :: "(string \<Rightarrow> ci_row option) option"
  db_content_version :: "(string \<Rightarrow> string option option) option"
  db_content_title :: "(string \<Rightarrow> bool) option"
  db_keyed :: "(string \<Rightarrow> string option option) option"
  db_wide :: "(string \<Rightarrow> (string \<times> string option) list option) option"
  db_content_dlc :: "(string \<Rightarrow> bool) option"
  db_addcont_dlc :: "(string \<Rightarrow> bool) option"

record console =
  cs_env :: "string \<Rightarrow> string option"
  cs_read :: "string \<Rightarrow> byte list option"
  cs_exists :: "string \<Rightarrow> bool"
  cs_list :: "string \<Rightarrow> string list option"
  cs_db :: "string \<Rightarrow> app_db option"
  cs_native_dlc :: "string \<Rightarrow> bool"

definition env_or :: "console \<Rightarrow> string \<Rightarrow> string \<Rightarrow> string" where
  "env_or c var dflt = (case cs_env c var of Some v \<Rightarrow> v | None \<Rightarrow> dflt)"

text \<open>\<open>snprintf(path, 512, "%s/...")\<close>\<close>

definition path512 :: "string list \<Rightarrow> string" where
  "path512 parts = cstr_trunc 512 (concat parts)"

definition path_exists :: "console \<Rightarrow> string \<Rightarrow> bool" where
  "path_exists c p \<longleftrightarrow> p \<noteq> [] \<and> cs_exists c p"

definition file_head :: "console \<Rightarrow> nat \<Rightarrow> string \<Rightarrow> byte list option" where
  "file_head c n p = map_option (take n) (cs_read c p)"

section \<open>Versions and content ids of metadata files\<close>

text \<open>The same loop as \<open>json_extract_key\<close> of \<open>src/pkg_parser.c\<close>.\<close>

definition extract_json_str :: "string \<Rightarrow> string \<Rightarrow> nat \<Rightarrow> string option" where
  "extract_json_str m key mx = json_extract_key m (length m) key mx"

fun first_some :: "('a \<Rightarrow> 'b option) \<Rightarrow> 'a list \<Rightarrow> 'b option" where
  "first_some f [] = None"
| "first_some f (x # xs) = (case f x of Some y \<Rightarrow> Some y | None \<Rightarrow> first_some f xs)"

definition read_param_json_version :: "console \<Rightarrow> string \<Rightarrow> nat \<Rightarrow> string option" where
  "read_param_json_version c p mx =
     (case file_head c 16383 p of
        None \<Rightarrow> None
      | Some b \<Rightarrow>
          if b = [] then None
          else
          case first_some (\<lambda>k. extract_json_str (map char_of_byte b) k 64) [''contentVersion'', ''appVersion'', ''version''] of
            None \<Rightarrow> None
          | Some v \<Rightarrow> if v \<noteq> [] then Some (app_info_normalize_version mx v) else None)"

text \<open>The table of a \<open>param.sfo\<close>, entry by entry up to the end of the file; \<open>None\<close> if it is
  no such file.\<close>

definition sfo_entries :: "byte list \<Rightarrow> (string \<times> byte list) list option" where
  "sfo_entries b =
     (let keys = read_le32 (drop 0x08 b); datas = read_le32 (drop 0x0C b); n = read_le32 (drop 0x10 b) in
      if length b < 20 \<or> take 4 b \<noteq> SFO_MAGIC then None
      else if keys \<ge> length b \<or> datas \<ge> length b \<or> n > 1024 then None
      else Some (List.map_filter (sfo_entry b keys datas) (takeWhile (\<lambda>i. 20 + (i + 1) * 16 \<le> length b) [0..<n])))"

text \<open>The first non-empty value of a key.\<close>

definition sfo_first :: "string \<Rightarrow> nat \<Rightarrow> (string \<times> byte list) list \<Rightarrow> string" where
  "sfo_first key n es = fold (\<lambda>e v. if fst e = key \<and> v = [] then sfo_text n (snd e) else v) es []"

definition read_param_sfo_version :: "console \<Rightarrow> string \<Rightarrow> nat \<Rightarrow> string option" where
  "read_param_sfo_version c p mx =
     (case file_head c 16384 p of
        None \<Rightarrow> None
      | Some b \<Rightarrow>
          (case sfo_entries b of
             None \<Rightarrow> None
           | Some es \<Rightarrow>
               let app = sfo_first ''APP_VER'' 32 es;
                   best = (if app \<noteq> [] then app else sfo_first ''VERSION'' 32 es)
               in if best \<noteq> [] then Some (app_info_normalize_version mx best) else None))"

definition sfo_has_content_id :: "console \<Rightarrow> string \<Rightarrow> string \<Rightarrow> bool" where
  "sfo_has_content_id c p cid =
     (case file_head c 16384 p of
        None \<Rightarrow> False
      | Some b \<Rightarrow>
          (case sfo_entries b of
             None \<Rightarrow> False
           | Some es \<Rightarrow> list_ex (\<lambda>e. fst e = ''CONTENT_ID'' \<and> sfo_text 64 (snd e) = cid) es))"

definition json_has_content_id :: "console \<Rightarrow> string \<Rightarrow> string \<Rightarrow> bool" where
  "json_has_content_id c p cid =
     (case file_head c 16383 p of
        None \<Rightarrow> False
      | Some b \<Rightarrow> b \<noteq> [] \<and> extract_json_str (map char_of_byte b) ''contentId'' 64 = Some cid)"

section \<open>The key-value objects of \<open>AppInfoJson\<close>\<close>

text \<open>The object \<open>{...}\<close> around position \<open>f\<close>.\<close>

definition object_start :: "string \<Rightarrow> nat \<Rightarrow> nat" where
  "object_start m f = (case find (\<lambda>i. m ! i = CHR ''{'') (rev [0..<f + 1]) of Some i \<Rightarrow> i | None \<Rightarrow> 0)"

definition object_end :: "string \<Rightarrow> nat \<Rightarrow> nat" where
  "object_end m f = (case find (\<lambda>i. m ! i = CHR ''}'') [f..<length m] of Some i \<Rightarrow> i | None \<Rightarrow> length m)"

text \<open>A string literal that stops at a full buffer, and a run of digits and dots.\<close>

function lit_within :: "string \<Rightarrow> nat \<Rightarrow> nat \<Rightarrow> nat \<Rightarrow> string \<Rightarrow> string" where
  "lit_within m q e mx acc =
     (if q \<ge> e \<or> m ! q = QUOTE \<or> length acc + 1 \<ge> mx then acc
      else
      let q1 = (if m ! q = BACKSLASH \<and> q + 1 < e then q + 1 else q)
      in lit_within m (q1 + 1) e mx (acc @ [m ! q1]))"
  by pat_completeness auto
termination
  by (relation "measure (\<lambda>(m, q, e, mx, acc). e - q)") auto

declare lit_within.simps [simp del]

definition is_number_char :: "char \<Rightarrow> bool" where
  "is_number_char c \<longleftrightarrow> c_isdigit c \<or> c = CHR ''.''"

definition data_value :: "string \<Rightarrow> nat \<Rightarrow> nat \<Rightarrow> nat \<Rightarrow> string option" where
  "data_value m d e mx =
     (let q = skip_space m (d + 7) e in
      if q < e \<and> m ! q = QUOTE then Some (lit_within m (q + 1) e mx [])
      else if q < e \<and> is_number_char (m ! q)
      then Some (take (mx - 1) (takeWhile is_number_char (take (e - q) (drop q m))))
      else None)"

definition object_data :: "string \<Rightarrow> nat \<Rightarrow> nat \<Rightarrow> string option" where
  "object_data m f mx =
     (let s = object_start m f; e = object_end m f in
      if m ! s = CHR ''{'' \<and> e < length m
      then (case find_from m s (quoted ''data'' @ '':'') of
              Some d \<Rightarrow> if d < e then data_value m d e mx else None
            | None \<Rightarrow> None)
      else None)"

definition key_target :: "string \<Rightarrow> string" where
  "key_target key = quoted ''key'' @ '':'' @ quoted key"

function appinfo_from :: "string \<Rightarrow> string \<Rightarrow> nat \<Rightarrow> nat \<Rightarrow> string option" where
  "appinfo_from m key mx p =
     (if p \<ge> length m then None
      else
      case find_from m p (key_target key) of
        None \<Rightarrow> None
      | Some f \<Rightarrow>
          if f \<ge> length m then None
          else
          case object_data m f mx of
            Some v \<Rightarrow> Some v
          | None \<Rightarrow> appinfo_from m key mx (f + length (key_target key)))"
  by pat_completeness auto
termination
  by (relation "measure (\<lambda>(m, key, mx, p). length m - p)")
    (auto simp: key_target_def quoted_def dest!: find_from_ge)

declare appinfo_from.simps [simp del]

definition extract_appinfo_json_key :: "string \<Rightarrow> string \<Rightarrow> nat \<Rightarrow> string option" where
  "extract_appinfo_json_key m key mx = appinfo_from m key mx 0"

definition atoi :: "string \<Rightarrow> int" where
  "atoi s = int32 (strtol10 s)"

section \<open>The app database\<close>

text \<open>A candidate replaces an older version.\<close>

definition keep_newer :: "nat \<Rightarrow> string option \<Rightarrow> string \<Rightarrow> string" where
  "keep_newer mx cand out =
     (case cand of
        None \<Rightarrow> out
      | Some v \<Rightarrow> if v \<noteq> [] \<and> (out = [] \<or> app_info_compare_versions v out > 0) then cstr_trunc mx v else out)"

definition sub_status :: "int \<Rightarrow> ci_row \<Rightarrow> int" where
  "sub_status dflt r =
     (case ci_json r of
        None \<Rightarrow> dflt
      | Some j \<Rightarrow>
          (case extract_appinfo_json_key j ''_install_sub_status'' 32 of Some v \<Rightarrow> atoi v | None \<Rightarrow> dflt))"

definition row_partial :: "int \<Rightarrow> ci_row \<Rightarrow> bool" where
  "row_partial dflt r \<longleftrightarrow>
     (case ci_content r of Some v \<Rightarrow> v \<noteq> 0 | None \<Rightarrow> False) \<or> ci_size r = Some 0 \<or> sub_status dflt r = 2"

definition json_row_version :: "nat \<Rightarrow> ci_row \<Rightarrow> string" where
  "json_row_version mx r =
     (case ci_json r of
        None \<Rightarrow> []
      | Some j \<Rightarrow>
          (case first_some (\<lambda>k. extract_appinfo_json_key j k 64) [''APP_VER'', ''contentVersion'', ''appVersion'', ''VERSION''] of
             Some v \<Rightarrow> if v \<noteq> [] then app_info_normalize_version mx v else []
           | None \<Rightarrow> []))"

definition content_row :: "console \<Rightarrow> nat \<Rightarrow> ci_row \<Rightarrow> bool \<times> string" where
  "content_row c mx r =
     (if (case ci_install r of Some v \<Rightarrow> v | None \<Rightarrow> 0) = 0 \<and> \<not> row_partial 1 r
      then
        (let out = json_row_version mx r in
         (True,
          case ci_meta r of
            None \<Rightarrow> out
          | Some p \<Rightarrow>
              if p = [] then out
              else keep_newer mx (read_param_json_version c (path512 [p, ''/param.json'']) 64)
                     (keep_newer mx (read_param_sfo_version c (path512 [p, ''/param.sfo'']) 64) out)))
      else (False, []))"

definition text_version :: "nat \<Rightarrow> string option \<Rightarrow> string \<Rightarrow> string" where
  "text_version mx v out =
     (case v of Some t \<Rightarrow> if t \<noteq> [] \<and> out = [] then app_info_normalize_version mx t else out | None \<Rightarrow> out)"

definition version_columns :: "string list" where
  "version_columns = [''appVer'', ''app_ver'', ''version'', ''contentVersion'']"

definition wide_version :: "(string \<times> string option) list \<Rightarrow> string option" where
  "wide_version cols =
     first_some (\<lambda>(name, v). if list_ex (strcasecmp_eq name) version_columns \<and> v \<noteq> None \<and> v \<noteq> Some [] then v else None) cols"

text \<open>The table of a PS4, consulted only where there is no \<open>tbl_contentinfo\<close>.\<close>

definition legacy_title :: "app_db \<Rightarrow> nat \<Rightarrow> string \<Rightarrow> bool \<times> string" where
  "legacy_title db mx tid =
     (let (found, out) =
            (case db_keyed db of
               None \<Rightarrow> (False, [])
             | Some q \<Rightarrow> (case q tid of None \<Rightarrow> (False, []) | Some v \<Rightarrow> (True, text_version mx v [])))
      in case db_wide db of
           None \<Rightarrow> (found, out)
         | Some q \<Rightarrow> (case q tid of None \<Rightarrow> (found, out) | Some cols \<Rightarrow> (True, text_version mx (wide_version cols) out)))"

definition check_app_db_for_title :: "console \<Rightarrow> string \<Rightarrow> nat \<Rightarrow> string \<Rightarrow> bool \<times> string" where
  "check_app_db_for_title c path mx tid =
     (if tid = [] then (False, [])
      else
      case cs_db c path of
        None \<Rightarrow> (False, [])
      | Some db \<Rightarrow>
          (case db_content db of
             Some q \<Rightarrow> (case q tid of None \<Rightarrow> (False, []) | Some r \<Rightarrow> content_row c mx r)
           | None \<Rightarrow>
               (case db_content_version db of
                  Some q \<Rightarrow> (case q tid of None \<Rightarrow> (False, []) | Some v \<Rightarrow> (True, text_version mx v []))
                | None \<Rightarrow>
                    (case db_content_title db of
                       Some q \<Rightarrow> (q tid, [])
                     | None \<Rightarrow> legacy_title db mx tid))))"

definition check_app_db_for_dlc :: "console \<Rightarrow> string \<Rightarrow> string \<Rightarrow> bool" where
  "check_app_db_for_dlc c path cid =
     (if cid = [] then False
      else
      case cs_db c path of
        None \<Rightarrow> False
      | Some db \<Rightarrow>
          (case db_content_dlc db of Some q \<Rightarrow> q cid | None \<Rightarrow> False) \<or>
          (case db_addcont_dlc db of Some q \<Rightarrow> q cid | None \<Rightarrow> False))"

definition app_db_path :: "console \<Rightarrow> string" where
  "app_db_path c = env_or c ''PKG_APP_DB_PATH'' ''/system_data/priv/mms/app.db''"

definition app_info_check_partially_installed :: "console \<Rightarrow> string \<Rightarrow> bool" where
  "app_info_check_partially_installed c tid =
     (if tid = [] then False
      else
      case cs_db c (app_db_path c) of
        None \<Rightarrow> False
      | Some db \<Rightarrow>
          (case db_content db of
             None \<Rightarrow> False
           | Some q \<Rightarrow> (case q tid of None \<Rightarrow> False | Some r \<Rightarrow> row_partial 0 r)))"

section \<open>Installed titles\<close>

text \<open>Title ids that can be part of a path.\<close>

definition title_char :: "char \<Rightarrow> bool" where
  "title_char ch \<longleftrightarrow>
     (let n = (of_char ch :: nat) in
      0x41 \<le> n \<and> n \<le> 0x5A \<or> 0x61 \<le> n \<and> n \<le> 0x7A \<or> 0x30 \<le> n \<and> n \<le> 0x39 \<or> ch = CHR ''_'' \<or> ch = CHR ''-'')"

definition valid_title_id :: "string \<Rightarrow> bool" where
  "valid_title_id tid \<longleftrightarrow>
     9 \<le> length tid \<and> length tid \<le> 16 \<and> list_all title_char tid \<and>
     strchr tid (CHR ''/'') = None \<and> strstr tid ''..'' = None"

definition base_paths :: "console \<Rightarrow> string \<Rightarrow> string list" where
  "base_paths c tid =
     (let app = env_or c ''PKG_USER_APP_DIR'' ''/user/app'' in map path512
        [[app, ''/'', tid, ''/sce_sys/param.sfo''], [app, ''/'', tid, ''/sce_sys/param.json''], [app, ''/'', tid, ''/eboot.bin''],
         [''/system_ex/app/'', tid, ''/sce_sys/param.json''], [''/system_ex/app/'', tid, ''/sce_sys/param.sfo''],
         [''/system_ex/app/'', tid, ''/eboot.bin''],
         [''/mnt/ext0/user/app/'', tid, ''/sce_sys/param.sfo''], [''/mnt/ext0/user/app/'', tid, ''/sce_sys/param.json''],
         [''/mnt/ext1/user/app/'', tid, ''/sce_sys/param.sfo''], [''/mnt/ext1/user/app/'', tid, ''/sce_sys/param.json'']])"

definition patch_paths :: "console \<Rightarrow> string \<Rightarrow> string list" where
  "patch_paths c tid =
     (let patch = env_or c ''PKG_USER_PATCH_DIR'' ''/user/patch'';
          meta = env_or c ''PKG_APPMETA_DIR'' ''/system_data/priv/appmeta'';
          umeta = env_or c ''PKG_USER_APPMETA_DIR'' ''/user/appmeta''
      in map path512
        [[patch, ''/'', tid, ''/sce_sys/param.sfo''], [patch, ''/'', tid, ''/sce_sys/param.json''],
         [patch, ''/'', tid, ''/param.sfo''], [patch, ''/'', tid, ''/param.json''],
         [''/user/patch0/'', tid, ''/sce_sys/param.sfo''], [''/user/patch0/'', tid, ''/sce_sys/param.json''],
         [meta, ''/'', tid, ''/param.sfo''], [meta, ''/'', tid, ''/param.json''],
         [meta, ''/'', tid, ''/patch/param.sfo''], [meta, ''/'', tid, ''/patch/param.json''],
         [meta, ''/external/'', tid, ''/param.sfo''], [meta, ''/external/'', tid, ''/param.json''],
         [umeta, ''/'', tid, ''/param.sfo''], [umeta, ''/'', tid, ''/param.json''],
         [umeta, ''/'', tid, ''/patch/param.sfo''], [umeta, ''/'', tid, ''/patch/param.json'']])"

definition path_has :: "string \<Rightarrow> string \<Rightarrow> bool" where
  "path_has pat p \<longleftrightarrow> strstr p pat \<noteq> None"

definition metadata_version :: "console \<Rightarrow> string \<Rightarrow> string option" where
  "metadata_version c p =
     (if path_has ''.sfo'' p then read_param_sfo_version c p 64
      else if path_has ''.json'' p then read_param_json_version c p 64 else None)"

definition base_step :: "console \<Rightarrow> nat \<Rightarrow> string \<Rightarrow> bool \<times> string \<Rightarrow> bool \<times> string" where
  "base_step c mx p st =
     (if path_has ''eboot.bin'' p then (fst st \<or> path_exists c p, snd st)
      else
      case metadata_version c p of
        None \<Rightarrow> st
      | Some v \<Rightarrow> (True, keep_newer mx (Some v) (snd st)))"

definition patch_step :: "console \<Rightarrow> nat \<Rightarrow> string \<Rightarrow> string \<Rightarrow> string" where
  "patch_step c mx p out = keep_newer mx (metadata_version c p) out"

definition app_info_check_installed :: "console \<Rightarrow> string \<Rightarrow> nat \<Rightarrow> bool \<times> string" where
  "app_info_check_installed c tid mx =
     (if tid = [] \<or> \<not> valid_title_id tid \<or> app_info_check_partially_installed c tid then (False, [])
      else
      let (found, out) = fold (base_step c mx) (base_paths c tid) (check_app_db_for_title c (app_db_path c) mx tid) in
      if \<not> found then (False, out)
      else
      let v = fold (patch_step c mx) (patch_paths c tid) out
      in (True, if v = [] then cstr_trunc mx ''v1.00'' else v))"

section \<open>Add-ons and leftovers\<close>

definition dlc_label :: "string \<Rightarrow> string option" where
  "dlc_label cid =
     (if CHR ''-'' \<in> set cid
      then (let l = rev (takeWhile (\<lambda>ch. ch \<noteq> CHR ''-'') (rev cid)) in if length l \<ge> 4 then Some l else None)
      else None)"

definition dlc_entry :: "console \<Rightarrow> string \<Rightarrow> string \<Rightarrow> string \<Rightarrow> string \<Rightarrow> bool" where
  "dlc_entry c base tid cid name \<longleftrightarrow>
     \<not> starts_with ''.'' name \<and>
     (name = cid \<or> dlc_label cid = Some name \<or>
      sfo_has_content_id c (path512 [base, ''/'', tid, ''/'', name, ''/sce_sys/param.sfo'']) cid \<or>
      sfo_has_content_id c (path512 [base, ''/'', tid, ''/'', name, ''/param.sfo'']) cid \<or>
      json_has_content_id c (path512 [base, ''/'', tid, ''/'', name, ''/sce_sys/param.json'']) cid \<or>
      json_has_content_id c (path512 [base, ''/'', tid, ''/'', name, ''/param.json'']) cid)"

definition app_info_check_dlc_installed :: "console \<Rightarrow> string \<Rightarrow> string \<Rightarrow> bool" where
  "app_info_check_dlc_installed c tid cid \<longleftrightarrow>
     tid \<noteq> [] \<and> cid \<noteq> [] \<and>
     (let base = env_or c ''PKG_ADDCONT_DIR'' ''/user/addcont''; app = env_or c ''PKG_USER_APP_DIR'' ''/user/app'' in
      cs_native_dlc c cid \<or> check_app_db_for_dlc c (app_db_path c) cid \<or>
      (cs_env c ''PKG_APP_DB_PATH'' = None \<and> check_app_db_for_dlc c ''/system_data/priv/mms/addcont.db'' cid) \<or>
      path_exists c (path512 [base, ''/'', tid, ''/'', cid]) \<or>
      path_exists c (path512 [app, ''/'', tid, ''/addcont/'', cid]) \<or>
      (case cs_list c (path512 [base, ''/'', tid]) of None \<Rightarrow> False | Some es \<Rightarrow> list_ex (dlc_entry c base tid cid) es))"

text \<open>What is left of a title without its base: the text shown, or nothing.\<close>

definition leftover_text :: "nat \<Rightarrow> string \<Rightarrow> string option \<Rightarrow> string \<Rightarrow> string" where
  "leftover_text mx what ver rest =
     cstr_trunc mx (''Leftover '' @ what @ (case ver of Some v \<Rightarrow> if v \<noteq> [] then '' '' @ v else [] | None \<Rightarrow> []) @ rest)"

definition or_version :: "string option \<Rightarrow> string option \<Rightarrow> string option" where
  "or_version a b = (case a of Some v \<Rightarrow> Some v | None \<Rightarrow> b)"

definition app_info_check_has_leftover :: "console \<Rightarrow> string \<Rightarrow> nat \<Rightarrow> string option" where
  "app_info_check_has_leftover c tid mx =
     (if tid = [] \<or> fst (app_info_check_installed c tid 0) then None
      else
      let meta = env_or c ''PKG_APPMETA_DIR'' ''/system_data/priv/appmeta'';
          patch = env_or c ''PKG_USER_PATCH_DIR'' ''/user/patch'';
          addcont = env_or c ''PKG_ADDCONT_DIR'' ''/user/addcont'';
          sfo = path512 [meta, ''/'', tid, ''/patch/param.sfo'']; json = path512 [meta, ''/'', tid, ''/patch/param.json'']
      in if path_exists c (path512 [patch, ''/'', tid])
         then (let v = or_version (read_param_sfo_version c (path512 [patch, ''/'', tid, ''/sce_sys/param.sfo'']) 32)
                     (read_param_sfo_version c (path512 [patch, ''/'', tid, ''/param.sfo'']) 32)
               in Some (leftover_text mx ''update'' v '' on console (missing base)''))
         else if path_exists c (path512 [''/user/patch0/'', tid])
         then Some (leftover_text mx ''update'' None '' in /user/patch0 (missing base)'')
         else if path_exists c sfo
         then Some (leftover_text mx ''update metadata'' (read_param_sfo_version c sfo 32) '' (missing base)'')
         else if path_exists c json
         then Some (leftover_text mx ''update metadata'' (read_param_json_version c json 32) '' (missing base)'')
         else if path_exists c (path512 [addcont, ''/'', tid])
         then Some (leftover_text mx ''DLC'' None '' on console (missing base)'')
         else None)"

end
