(* ===== verification/Catalog.thy ===== *)
theory Catalog
  imports Multipart PkgPlatform AppInfo
begin

text \<open>
  The catalogue of packages, \<open>src/pkg_scanner.c\<close>: which files are packages, whether one
  may be installed, the full and the quick scan of the sources, and the search for a
  part of a multi-part package. Parameters are the files, directories and mounts, the
  environment, the metadata cache, the parser of a package (modelled in \<open>PkgParse\<close>),
  the listings of the network sources and \<open>qsort\<close>. Allocations succeed. Of a package
  the catalogue keeps its details and modification time; the blur hash of its icon
  and the texts of the scan status are left out.
\<close>

section \<open>Whether a package may be installed\<close>

datatype reason =
  Platform refusal | Source_unavailable | Multipart_network | Leftovers | Same_or_newer
| Already_installed | Base_aborted | Base_missing | Dlc_installed

record eligibility =
  el_can :: bool
  el_reason :: "reason option"
  el_installed :: bool
  el_version :: string

definition on_network :: "string \<Rightarrow> bool" where
  "on_network p \<longleftrightarrow> starts_with ''smb://'' p \<or> is_http_path p"

definition not_newer :: "string \<Rightarrow> string \<Rightarrow> bool" where
  "not_newer inst pkg \<longleftrightarrow> app_info_compare_versions inst pkg \<ge> 0"

definition eligibility_reason ::
  "refusal option \<Rightarrow> bool \<Rightarrow> pkg_detail \<Rightarrow> bool \<Rightarrow> string \<Rightarrow> bool \<Rightarrow> bool \<Rightarrow> bool \<Rightarrow> reason option" where
  "eligibility_reason platform unavailable p inst ver dlc leftover partial =
     (case platform of
        Some r \<Rightarrow> Some (Platform r)
      | None \<Rightarrow>
          if is_http_path (pd_path p) \<and> unavailable then Some Source_unavailable
          else if pd_is_multipart p \<and> on_network (pd_path p) then Some Multipart_network
          else if leftover then Some Leftovers
          else if pd_pkg_type p = PKG_TYPE_BASE \<or> pd_pkg_type p = PKG_TYPE_UNKNOWN then
            (if \<not> inst then None
             else if ver \<noteq> [] \<and> pd_app_version p \<noteq> []
             then (if not_newer ver (pd_app_version p) then Some Same_or_newer else None)
             else Some Already_installed)
          else if \<not> inst then Some (if partial then Base_aborted else Base_missing)
          else if pd_pkg_type p = PKG_TYPE_UPDATE \<and> ver \<noteq> [] \<and> pd_app_version p \<noteq> [] \<and>
                  not_newer ver (pd_app_version p) then Some Same_or_newer
          else if pd_pkg_type p = PKG_TYPE_DLC \<and> dlc then Some Dlc_installed
          else None)"

definition evaluate_install_eligibility ::
  "refusal option \<Rightarrow> bool \<Rightarrow> pkg_detail \<Rightarrow> bool \<Rightarrow> string \<Rightarrow> bool \<Rightarrow> bool \<Rightarrow> bool \<Rightarrow> eligibility" where
  "evaluate_install_eligibility platform unavailable p inst ver dlc leftover partial =
     (let r = eligibility_reason platform unavailable p inst ver dlc leftover partial
      in \<lparr> el_can = (r = None), el_reason = r, el_installed = inst, el_version = cstr_trunc 32 ver \<rparr>)"

text \<open>\<open>platform\<close> is what the rule of the console says, \<open>unavailable\<close> what is known of the
  HTTP source.\<close>

definition pkg_scanner_check_install_eligibility ::
  "console \<Rightarrow> refusal option \<Rightarrow> bool \<Rightarrow> pkg_detail \<Rightarrow> eligibility" where
  "pkg_scanner_check_install_eligibility c platform unavailable p =
     (let (inst, ver) = app_info_check_installed c (pd_title_id p) 32;
          dlc = (pd_pkg_type p = PKG_TYPE_DLC \<and> pd_content_id p \<noteq> [] \<and>
                 app_info_check_dlc_installed c (pd_title_id p) (pd_content_id p));
          leftover = (\<not> inst \<and> app_info_check_has_leftover c (pd_title_id p) 0 \<noteq> None);
          partial = (\<not> inst \<and> app_info_check_partially_installed c (pd_title_id p))
      in evaluate_install_eligibility platform unavailable p inst ver dlc leftover partial)"

section \<open>The state\<close>

definition MAX_PACKAGES :: nat where "MAX_PACKAGES = 4096"
definition MAX_DRIVES :: nat where "MAX_DRIVES = 16"

record cat_entry =
  ce_pkg :: pkg_detail
  ce_mtime :: nat

record drive =
  dr_id :: string
  dr_label :: string
  dr_path :: string
  dr_type :: string
  dr_mounted :: bool
  dr_count :: nat
  dr_clickable :: bool

record scanned =
  sn_path :: string
  sn_size :: nat
  sn_mtime :: nat

record scanner =
  ca_pkgs :: "cat_entry list"
  ca_drives :: "drive list"
  ca_files :: "scanned list"
  ca_active :: bool
  ca_scanning :: bool
  ca_failed :: nat
  ca_total :: nat
  ca_done :: nat

definition scan_claim :: "scanner \<Rightarrow> bool \<times> scanner" where
  "scan_claim s =
     (if ca_active s then (False, s)
      else (True, s\<lparr> ca_active := True, ca_scanning := True, ca_failed := 0, ca_total := 0, ca_done := 0 \<rparr>))"

definition scan_release :: "scanner \<Rightarrow> scanner" where
  "scan_release s = s\<lparr> ca_scanning := False, ca_active := False \<rparr>"

text \<open>A record of a file that was seen; a known path is updated.\<close>

definition add_scanned_file :: "string \<Rightarrow> nat \<Rightarrow> nat \<Rightarrow> scanned list \<Rightarrow> scanned list" where
  "add_scanned_file path n t fs =
     (if path = [] then fs
      else if list_ex (\<lambda>f. sn_path f = path) fs
      then (let i = length (takeWhile (\<lambda>f. sn_path f \<noteq> path) fs) in fs[i := (fs ! i)\<lparr> sn_size := n, sn_mtime := t \<rparr>])
      else fs @ [\<lparr> sn_path = cstr_trunc 512 path, sn_size = n, sn_mtime = t \<rparr>])"

definition pkg_matches_drive_path :: "string \<Rightarrow> string \<Rightarrow> bool" where
  "pkg_matches_drive_path p d \<longleftrightarrow>
     d \<noteq> [] \<and> starts_with d p \<and> (last d = CHR ''/'' \<or> length p = length d \<or> p ! length d = CHR ''/'')"

definition remove_scanned_files_for_drive :: "string \<Rightarrow> scanned list \<Rightarrow> scanned list" where
  "remove_scanned_files_for_drive d fs = filter (\<lambda>f. \<not> pkg_matches_drive_path (sn_path f) d) fs"

definition add_drive_entry :: "string \<Rightarrow> string \<Rightarrow> string \<Rightarrow> string \<Rightarrow> bool \<Rightarrow> nat \<Rightarrow> drive list \<Rightarrow> drive list" where
  "add_drive_entry i label path ty mounted n ds =
     (if length ds \<ge> MAX_DRIVES then ds
      else ds @ [\<lparr> dr_id = cstr_trunc 32 i, dr_label = cstr_trunc 64 label, dr_path = cstr_trunc 256 path,
                   dr_type = cstr_trunc 16 ty, dr_mounted = mounted, dr_count = n,
                   dr_clickable = (n > 0 \<or> ty = ''smb'') \<rparr>])"

section \<open>Files\<close>

datatype node = Directory | Regular nat nat | Other_node

record scan_world =
  sw_env :: "string \<Rightarrow> string option"
  sw_list :: "string \<Rightarrow> string list option"
  sw_stat :: "string \<Rightarrow> node option"
  sw_mount :: "string \<Rightarrow> bool"
  sw_header :: "string \<Rightarrow> byte list option"
  sw_cache :: "string \<Rightarrow> pkg_detail option"
  sw_parse :: "string \<Rightarrow> (pkg_detail \<times> nat) option"
  sw_sort :: "cat_entry list \<Rightarrow> cat_entry list"

text \<open>The suffix from the last dot on.\<close>

definition last_dot :: "string \<Rightarrow> string option" where
  "last_dot name =
     (if CHR ''.'' \<in> set name then Some (CHR ''.'' # rev (takeWhile (\<lambda>c. c \<noteq> CHR ''.'') (rev name))) else None)"

definition is_package_file :: "string \<Rightarrow> bool" where
  "is_package_file name \<longleftrightarrow>
     \<not> starts_with ''.'' name \<and>
     (case multipart_is_part_filename name 0 of
        (True, Some n) \<Rightarrow> n = 1
      | _ \<Rightarrow>
          (case last_dot name of
             None \<Rightarrow> False
           | Some ext \<Rightarrow> strcasecmp_eq ext ''.pkg'' \<or> strcasecmp_eq ext ''.001''))"

definition is_scan_subdir :: "string \<Rightarrow> bool" where
  "is_scan_subdir name \<longleftrightarrow>
     \<not> starts_with ''.'' name \<and> (strcasecmp_eq name ''pkg'' \<or> pkg_platform_folder_name name \<noteq> [])"

definition path1024 :: "string \<Rightarrow> string \<Rightarrow> string" where
  "path1024 dir name = cstr_trunc 1024 (dir @ ''/'' @ name)"

text \<open>A console build also asks whether the file system is mounted there, unless the
  environment names the directories to scan.\<close>

definition is_drive_mounted :: "scan_world \<Rightarrow> string \<Rightarrow> bool" where
  "is_drive_mounted w p \<longleftrightarrow>
     p \<noteq> [] \<and> sw_stat w p = Some Directory \<and>
     (sw_env w ''PKG_USB_PREFIX'' \<noteq> None \<or> sw_env w ''PKG_DISC_DIR'' \<noteq> None \<or> sw_env w ''PKG_SCAN_DIR'' \<noteq> None \<or>
      sw_mount w p)"

text \<open>The entries of a directory with what they are, hidden ones left out.\<close>

definition dir_nodes :: "scan_world \<Rightarrow> string \<Rightarrow> (string \<times> string \<times> node) list option" where
  "dir_nodes w dir =
     (case sw_list w dir of
        None \<Rightarrow> None
      | Some names \<Rightarrow>
          Some (List.map_filter
            (\<lambda>n. if starts_with ''.'' n then None
                 else map_option (\<lambda>k. (path1024 dir n, n, k)) (sw_stat w (path1024 dir n))) names))"

function count_pkg_files :: "scan_world \<Rightarrow> string \<Rightarrow> bool \<Rightarrow> nat \<Rightarrow> nat" where
  "count_pkg_files w dir recursive depth =
     (if depth > 5 then 0
      else
      case dir_nodes w dir of
        None \<Rightarrow> 0
      | Some es \<Rightarrow>
          sum_list (map (\<lambda>(p, n, k).
            (case k of
               Regular _ _ \<Rightarrow> if is_package_file n then 1 else 0
             | Directory \<Rightarrow> if recursive then count_pkg_files w p True (depth + 1) else 0
             | Other_node \<Rightarrow> 0)) es))"
  by pat_completeness auto
termination
  by (relation "measure (\<lambda>(w, dir, r, depth). 6 - depth)") auto

declare count_pkg_files.simps [simp del]

text \<open>The scan folders directly below a root.\<close>

definition scan_subdirs :: "scan_world \<Rightarrow> string \<Rightarrow> string list" where
  "scan_subdirs w root =
     (case sw_list w root of
        None \<Rightarrow> []
      | Some names \<Rightarrow>
          filter (\<lambda>p. sw_stat w p = Some Directory) (map (path1024 root) (filter is_scan_subdir names)))"

definition count_scan_subdirs :: "scan_world \<Rightarrow> string \<Rightarrow> nat" where
  "count_scan_subdirs w root = sum_list (map (\<lambda>d. count_pkg_files w d True 0) (scan_subdirs w root))"

section \<open>One package\<close>

definition parse_pkg_entry :: "scan_world \<Rightarrow> string \<Rightarrow> string \<Rightarrow> nat \<Rightarrow> nat \<Rightarrow> bool \<times> cat_entry" where
  "parse_pkg_entry w path name n t =
     (let total = (\<lambda>d. if pd_total_size d = 0 then d\<lparr>pd_total_size := pd_file_size d\<rparr> else d);
          (d, m) =
            (case sw_cache w path of
               Some d \<Rightarrow>
                 (total (d\<lparr> pd_path := cstr_trunc 512 path, pd_filename := cstr_trunc 256 name, pd_file_size := n \<rparr>), t)
             | None \<Rightarrow>
                 (case sw_parse w path of
                    Some (d, m) \<Rightarrow>
                      (total (if pd_file_size d = 0 then d\<lparr>pd_file_size := n\<rparr> else d), if m = 0 then t else m)
                  | None \<Rightarrow>
                      (pkg_detail_zero\<lparr> pd_path := cstr_trunc 512 path, pd_filename := cstr_trunc 256 name,
                         pd_title_id := ''UNKNOWN'', pd_title_name := ''Unknown Package'',
                         pd_file_size := n, pd_total_size := n, pd_is_valid := True \<rparr>, t)));
          f = pkg_platform_finalize d
      in (\<not> pd_is_multipart f \<or> pd_part_index f = 1, \<lparr> ce_pkg = f, ce_mtime = m \<rparr>))"

definition process_pkg_file :: "scan_world \<Rightarrow> string \<Rightarrow> string \<Rightarrow> nat \<Rightarrow> nat \<Rightarrow> scanner \<Rightarrow> scanner" where
  "process_pkg_file w path name n t s =
     (let s1 = s\<lparr> ca_files := add_scanned_file path n t (ca_files s), ca_done := ca_done s + 1 \<rparr> in
      if length (ca_pkgs s) \<ge> MAX_PACKAGES then s1
      else
      let (listed, e) = parse_pkg_entry w path name n t in
      if listed then s1\<lparr> ca_pkgs := ca_pkgs s @ [e] \<rparr> else s1)"

section \<open>Scanning directories\<close>

definition scan_dir_root :: "scan_world \<Rightarrow> string \<Rightarrow> scanner \<Rightarrow> scanner" where
  "scan_dir_root w dir s =
     (case dir_nodes w dir of
        None \<Rightarrow> s
      | Some es \<Rightarrow>
          fold (\<lambda>(p, n, k) s. case k of
                  Regular sz t \<Rightarrow> if is_package_file n then process_pkg_file w p n sz t s else s
                | _ \<Rightarrow> s) es s)"

function scan_dir_recursive :: "scan_world \<Rightarrow> string \<Rightarrow> nat \<Rightarrow> scanner \<Rightarrow> scanner" where
  "scan_dir_recursive w dir depth s =
     (if depth > 5 then s
      else
      case dir_nodes w dir of
        None \<Rightarrow> s
      | Some es \<Rightarrow>
          fold (\<lambda>(p, n, k) s. case k of
                  Directory \<Rightarrow> scan_dir_recursive w p (depth + 1) s
                | Regular sz t \<Rightarrow> if is_package_file n then process_pkg_file w p n sz t s else s
                | Other_node \<Rightarrow> s) es s)"
  by pat_completeness auto
termination
  by (relation "measure (\<lambda>(w, dir, depth, s). 6 - depth)") auto

declare scan_dir_recursive.simps [simp del]

definition scan_scan_subdirs :: "scan_world \<Rightarrow> string \<Rightarrow> scanner \<Rightarrow> scanner" where
  "scan_scan_subdirs w root s = fold (\<lambda>d. scan_dir_recursive w d 0) (scan_subdirs w root) s"

end
