(* ===== verification/CatalogScan.thy ===== *)
theory CatalogScan
  imports Catalog
begin

text \<open>
  The full scan of all sources and the quick scan that updates them one by one.
  The configured network sources come with what their listing gives: for SMB the files
  found or a failure, for HTTP the files found and whether the listing was complete.
\<close>

section \<open>Sources\<close>

record file_rec =
  fr_path :: string
  fr_name :: string
  fr_size :: nat
  fr_mtime :: nat

type_synonym listing = "(string \<times> string \<times> nat \<times> nat) list"

record smb_source =
  sb_enabled :: bool
  sb_browse :: bool
  sb_id :: string
  sb_label :: string
  sb_server :: string
  sb_port :: nat
  sb_share :: string
  sb_dir :: string
  sb_count :: int
  sb_files :: "listing option"

record http_source =
  hs_enabled :: bool
  hs_id :: string
  hs_label :: string
  hs_url :: string
  hs_due :: bool
  hs_count :: int
  hs_ok :: bool
  hs_files :: listing

definition network_file :: "string \<times> string \<times> nat \<times> nat \<Rightarrow> file_rec" where
  "network_file e = (case e of (p, n, sz, t) \<Rightarrow>
     \<lparr> fr_path = cstr_trunc 512 p, fr_name = cstr_trunc 256 n, fr_size = sz, fr_mtime = t \<rparr>)"

text \<open>\<open>None\<close>: a path does not fit into its field.\<close>

definition quick_network_files :: "listing \<Rightarrow> file_rec list option" where
  "quick_network_files l =
     (let ps = filter (\<lambda>(p, n, sz, t). is_package_file n) l in
      if list_ex (\<lambda>(p, n, sz, t). length p \<ge> 512) ps then None else Some (map network_file ps))"

definition source_id :: "nat \<Rightarrow> smb_source \<Rightarrow> string" where
  "source_id i c = (if sb_id c \<noteq> [] then cstr_trunc 32 (sb_id c) else cstr_trunc 32 (''smb'' @ dec_str i))"

definition source_label :: "smb_source \<Rightarrow> string" where
  "source_label c =
     (if sb_label c \<noteq> [] then cstr_trunc 64 (sb_label c) else cstr_trunc 64 (''SMB: '' @ take 58 (sb_share c)))"

definition share_root :: "smb_source \<Rightarrow> string" where
  "share_root c =
     cstr_trunc 512
       (if sb_port c \<noteq> 0 \<and> sb_port c \<noteq> 445
        then ''smb://'' @ sb_server c @ '':'' @ dec_str (sb_port c) @ ''/'' @ sb_share c
        else ''smb://'' @ sb_server c @ ''/'' @ sb_share c)"

definition smb_usable :: "smb_source \<Rightarrow> bool" where
  "smb_usable c \<longleftrightarrow> sb_enabled c \<and> sb_server c \<noteq> [] \<and> sb_share c \<noteq> []"

section \<open>The full scan\<close>

text \<open>A value of the environment that is set and not empty.\<close>

definition env_set :: "scan_world \<Rightarrow> string \<Rightarrow> string option" where
  "env_set w var = (case sw_env w var of Some v \<Rightarrow> if v \<noteq> [] then Some v else None | None \<Rightarrow> None)"

definition env_default :: "scan_world \<Rightarrow> string \<Rightarrow> string \<Rightarrow> string" where
  "env_default w var dflt = (case env_set w var of Some v \<Rightarrow> v | None \<Rightarrow> dflt)"

definition usb_path :: "scan_world \<Rightarrow> nat \<Rightarrow> string" where
  "usb_path w i = cstr_trunc 64 (env_default w ''PKG_USB_PREFIX'' ''/mnt/usb'' @ dec_str i)"

definition disc_path :: "scan_world \<Rightarrow> string" where
  "disc_path w = env_default w ''PKG_DISC_DIR'' ''/mnt/disc''"

text \<open>The local sources: id, label, path, type, and whether everything below the path is
  scanned or only the root and the scan folders.\<close>

definition local_sources :: "scan_world \<Rightarrow> (string \<times> string \<times> string \<times> string \<times> bool) list" where
  "local_sources w =
     (case env_set w ''PKG_SCAN_DIR'' of
        Some dir \<Rightarrow>
          (''usb0'', ''USB Drive 0'', dir, ''usb'', True) #
          (case env_set w ''PKG_DISC_DIR'' of
             Some disc \<Rightarrow> if is_drive_mounted w disc then [(''disc'', ''Blu-ray Disc'', disc, ''disc'', True)] else []
           | None \<Rightarrow> [])
      | None \<Rightarrow>
          map (\<lambda>i. (''usb'' @ dec_str i, ''USB Drive '' @ dec_str i, usb_path w i, ''usb'', False))
            (filter (\<lambda>i. is_drive_mounted w (usb_path w i)) [0..<8]) @
          (if is_drive_mounted w (disc_path w) then [(''disc'', ''Blu-ray Disc'', disc_path w, ''disc'', False)] else []))"

definition count_source :: "scan_world \<Rightarrow> string \<Rightarrow> bool \<Rightarrow> nat" where
  "count_source w path everything =
     (if everything then count_pkg_files w path True 0
      else count_pkg_files w path False 0 + count_scan_subdirs w path)"

definition scan_source :: "scan_world \<Rightarrow> string \<Rightarrow> bool \<Rightarrow> scanner \<Rightarrow> scanner" where
  "scan_source w path everything s =
     (if everything then scan_dir_recursive w path 0 s else scan_scan_subdirs w path (scan_dir_root w path s))"

definition scan_local :: "scan_world \<Rightarrow> string \<times> string \<times> string \<times> string \<times> bool \<Rightarrow> scanner \<Rightarrow> scanner" where
  "scan_local w src s =
     (case src of (i, label, path, ty, everything) \<Rightarrow>
        let s1 = scan_source w path everything s
        in s1\<lparr> ca_drives := add_drive_entry i label path ty True (length (ca_pkgs s1) - length (ca_pkgs s)) (ca_drives s1) \<rparr>)"

text \<open>A file of a network source: the total grows with files that were not counted before.\<close>

definition smb_pkg_scan_cb :: "scan_world \<Rightarrow> string \<Rightarrow> string \<Rightarrow> nat \<Rightarrow> nat \<Rightarrow> scanner \<Rightarrow> scanner" where
  "smb_pkg_scan_cb w url name n t s =
     (let total = (if ca_total s = 0 then 1 else if ca_done s \<ge> ca_total s then ca_done s + 1 else ca_total s)
      in process_pkg_file w url name n t (s\<lparr> ca_total := total \<rparr>))"

definition full_smb :: "scan_world \<Rightarrow> nat \<times> smb_source \<Rightarrow> scanner \<Rightarrow> scanner" where
  "full_smb w ic s =
     (case ic of (i, c) \<Rightarrow>
        if \<not> smb_usable c then s
        else if sb_browse c
        then s\<lparr> ca_drives := add_drive_entry (source_id i c) (source_label c) (share_root c) ''smb'' True 0 (ca_drives s) \<rparr>
        else
        case Option.bind (sb_files c) quick_network_files of
          None \<Rightarrow> s\<lparr> ca_failed := ca_failed s + 1,
                    ca_drives := add_drive_entry (source_id i c) (source_label c) (share_root c) ''smb'' False 0 (ca_drives s) \<rparr>
        | Some fs \<Rightarrow>
            let s1 = fold (\<lambda>f. smb_pkg_scan_cb w (fr_path f) (fr_name f) (fr_size f) (fr_mtime f)) fs s
            in s1\<lparr> ca_drives := add_drive_entry (source_id i c) (source_label c) (share_root c) ''smb'' True
                      (length (ca_pkgs s1) - length (ca_pkgs s)) (ca_drives s1) \<rparr>)"

definition full_http :: "scan_world \<Rightarrow> http_source \<Rightarrow> scanner \<Rightarrow> scanner" where
  "full_http w h s =
     (if \<not> hs_enabled h then s
      else
      let s1 = fold (\<lambda>(p, n, sz, t). smb_pkg_scan_cb w p n sz t) (hs_files h) s;
          s2 = (if hs_ok h then s1 else s1\<lparr> ca_failed := ca_failed s1 + 1 \<rparr>)
      in s2\<lparr> ca_drives := add_drive_entry (hs_id h) (hs_label h) (hs_url h) ''http'' (hs_ok h)
                (if hs_ok h then length (ca_pkgs s1) - length (ca_pkgs s) else 0) (ca_drives s2) \<rparr>)"

definition positive :: "int \<Rightarrow> nat" where
  "positive v = (if v > 0 then nat v else 0)"

definition expected_files :: "scan_world \<Rightarrow> smb_source list \<Rightarrow> http_source list \<Rightarrow> nat" where
  "expected_files w smbs https =
     sum_list (map (\<lambda>(i, label, path, ty, everything). count_source w path everything) (local_sources w)) +
     sum_list (map (\<lambda>c. positive (sb_count c)) (filter (\<lambda>c. smb_usable c \<and> \<not> sb_browse c) smbs)) +
     sum_list (map (\<lambda>h. positive (hs_count h)) (filter hs_enabled https))"

text \<open>Everything but the saving of the manifest; the caller holds the claim.\<close>

definition sort_packages :: "scan_world \<Rightarrow> scanner \<Rightarrow> scanner" where
  "sort_packages w s = (if length (ca_pkgs s) > 1 then s\<lparr> ca_pkgs := sw_sort w (ca_pkgs s) \<rparr> else s)"

definition scan_full_owned :: "scan_world \<Rightarrow> smb_source list \<Rightarrow> http_source list \<Rightarrow> scanner \<Rightarrow> nat \<times> scanner" where
  "scan_full_owned w smbs https s =
     (let s0 = s\<lparr> ca_pkgs := [], ca_drives := [], ca_files := [], ca_scanning := True, ca_failed := 0,
                  ca_total := expected_files w smbs https, ca_done := 0 \<rparr>;
          s1 = fold (scan_local w) (local_sources w) s0;
          s2 = fold (full_smb w) (enumerate 0 smbs) s1;
          s3 = fold (full_http w) https s2;
          s4 = sort_packages w s3
      in (length (ca_pkgs s4), scan_release s4))"

definition pkg_scanner_scan :: "scan_world \<Rightarrow> smb_source list \<Rightarrow> http_source list \<Rightarrow> scanner \<Rightarrow> nat \<times> scanner" where
  "pkg_scanner_scan w smbs https s =
     (case scan_claim s of
        (False, _) \<Rightarrow> (length (ca_pkgs s), s)
      | (True, s1) \<Rightarrow> scan_full_owned w smbs https s1)"

section \<open>The quick scan of one source\<close>

function collect_local_files_quick :: "scan_world \<Rightarrow> string \<Rightarrow> bool \<Rightarrow> nat \<Rightarrow> file_rec list" where
  "collect_local_files_quick w dir recursive depth =
     (if depth > 5 then []
      else
      case dir_nodes w dir of
        None \<Rightarrow> []
      | Some es \<Rightarrow>
          concat (map (\<lambda>(p, n, k).
            (case k of
               Directory \<Rightarrow> if recursive then collect_local_files_quick w p True (depth + 1) else []
             | Regular sz t \<Rightarrow> if is_package_file n then [network_file (p, n, sz, t)] else []
             | Other_node \<Rightarrow> [])) es))"
  by pat_completeness auto
termination
  by (relation "measure (\<lambda>(w, dir, r, depth). 6 - depth)") auto

declare collect_local_files_quick.simps [simp del]

definition quick_local_files :: "scan_world \<Rightarrow> string \<Rightarrow> file_rec list" where
  "quick_local_files w path =
     (if sw_env w ''PKG_SCAN_DIR'' = Some path then collect_local_files_quick w path True 0
      else collect_local_files_quick w path False 0 @
           concat (map (\<lambda>d. collect_local_files_quick w d True 0) (scan_subdirs w path)))"

definition on_drive :: "string \<Rightarrow> cat_entry \<Rightarrow> bool" where
  "on_drive d e \<longleftrightarrow> pkg_matches_drive_path (pd_path (ce_pkg e)) d"

text \<open>Times that are at most two seconds apart.\<close>

definition mtime_near :: "nat \<Rightarrow> nat \<Rightarrow> bool" where
  "mtime_near a b \<longleftrightarrow> a \<le> b + 2 \<and> b \<le> a + 2"

definition entry_current :: "file_rec list \<Rightarrow> cat_entry \<Rightarrow> bool" where
  "entry_current fs e \<longleftrightarrow>
     ce_mtime e \<noteq> 0 \<and>
     list_ex (\<lambda>f. fr_path f = pd_path (ce_pkg e) \<and> fr_size f = pd_file_size (ce_pkg e) \<and>
       (mtime_near (fr_mtime f) (ce_mtime e) \<or> fr_mtime f = 0)) fs"

definition file_recorded :: "string \<Rightarrow> scanned list \<Rightarrow> cat_entry list \<Rightarrow> file_rec \<Rightarrow> bool" where
  "file_recorded d seen pkgs f \<longleftrightarrow>
     list_ex (\<lambda>r. pkg_matches_drive_path (sn_path r) d \<and> fr_path f = sn_path r \<and> fr_size f = sn_size r \<and>
       (mtime_near (fr_mtime f) (sn_mtime r) \<or> fr_mtime f = 0 \<or> sn_mtime r = 0)) seen \<and>
     (list_ex (\<lambda>e. on_drive d e \<and> fr_path f = pd_path (ce_pkg e)) pkgs \<or>
      (case multipart_is_part_filename (fr_path f) 0 of (True, Some n) \<Rightarrow> n > 1 | _ \<Rightarrow> False))"

definition is_drive :: "string \<Rightarrow> string \<Rightarrow> drive \<Rightarrow> bool" where
  "is_drive i d r \<longleftrightarrow> dr_path r = d \<or> dr_id r = i"

definition source_identical :: "string \<Rightarrow> string \<Rightarrow> file_rec list \<Rightarrow> scanner \<Rightarrow> bool" where
  "source_identical i d fs s \<longleftrightarrow>
     (let mine = filter (on_drive d) (ca_pkgs s);
          was_mounted = (case find (is_drive i d) (ca_drives s) of Some r \<Rightarrow> dr_mounted r | None \<Rightarrow> False)
      in length fs = length (filter (\<lambda>r. pkg_matches_drive_path (sn_path r) d) (ca_files s)) \<and>
         (if fs = [] then was_mounted \<and> mine = []
          else mine \<noteq> [] \<and> length mine \<le> length fs \<and> list_all (entry_current fs) mine \<and>
               list_all (file_recorded d (ca_files s) (ca_pkgs s)) fs))"

text \<open>The first drive with the path or the id.\<close>

fun update_drive :: "string \<Rightarrow> string \<Rightarrow> (drive \<Rightarrow> drive) \<Rightarrow> drive list \<Rightarrow> drive list" where
  "update_drive i d f [] = []"
| "update_drive i d f (r # rs) = (if is_drive i d r then f r # rs else r # update_drive i d f rs)"

definition note_drive :: "string \<Rightarrow> string \<Rightarrow> string \<Rightarrow> string \<Rightarrow> nat \<Rightarrow> nat \<Rightarrow> drive list \<Rightarrow> drive list" where
  "note_drive i label d ty n n_new ds =
     (if list_ex (is_drive i d) ds
      then update_drive i d (\<lambda>r. r\<lparr> dr_mounted := True, dr_count := n, dr_clickable := n > 0 \<rparr>) ds
      else add_drive_entry i label d ty True n_new ds)"

text \<open>A source that is no longer mounted leaves the catalogue.\<close>

definition source_unmounted :: "string \<Rightarrow> string \<Rightarrow> scanner \<Rightarrow> nat \<times> scanner" where
  "source_unmounted i d s =
     (let had = list_ex (on_drive d) (ca_pkgs s);
          was_mounted = (case find (is_drive i d) (ca_drives s) of Some r \<Rightarrow> dr_mounted r | None \<Rightarrow> False)
      in (if had \<or> was_mounted then 1 else 0,
          s\<lparr> ca_pkgs := filter (\<lambda>e. \<not> on_drive d e) (ca_pkgs s),
             ca_files := remove_scanned_files_for_drive d (ca_files s),
             ca_drives := update_drive i d (\<lambda>r. r\<lparr> dr_mounted := False, dr_count := 0, dr_clickable := False \<rparr>) (ca_drives s) \<rparr>))"

section \<open>Updating a source that has changed\<close>

definition entry_matches :: "string \<Rightarrow> file_rec \<Rightarrow> cat_entry \<Rightarrow> bool" where
  "entry_matches d f e \<longleftrightarrow>
     on_drive d e \<and> fr_path f = pd_path (ce_pkg e) \<and> fr_size f = pd_file_size (ce_pkg e) \<and>
     (fr_mtime f = 0 \<or> ce_mtime e = 0 \<or> mtime_near (fr_mtime f) (ce_mtime e))"

text \<open>Entries of files that have not changed are taken over, with the time if it was missing;
  the other files are to be parsed.\<close>

definition match_file ::
  "string \<Rightarrow> file_rec \<Rightarrow> cat_entry list \<times> cat_entry list \<times> file_rec list \<Rightarrow> cat_entry list \<times> cat_entry list \<times> file_rec list" where
  "match_file d f st =
     (case st of (pkgs, upd, todo) \<Rightarrow>
        if list_ex (entry_matches d f) pkgs
        then
          (let i = length (takeWhile (\<lambda>e. \<not> entry_matches d f e) pkgs);
               e = (pkgs ! i)\<lparr> ce_mtime := (if ce_mtime (pkgs ! i) = 0 then fr_mtime f else ce_mtime (pkgs ! i)) \<rparr>
           in (pkgs[i := e], upd @ [e], todo))
        else (pkgs, upd, todo @ [f]))"

definition is_provisional_package :: "pkg_detail \<Rightarrow> bool" where
  "is_provisional_package p \<longleftrightarrow> pd_title_id p = ''UNKNOWN'' \<and> pd_title_name p = ''Unknown Package''"

definition parse_todo :: "scan_world \<Rightarrow> file_rec \<Rightarrow> cat_entry list \<times> bool \<Rightarrow> cat_entry list \<times> bool" where
  "parse_todo w f st =
     (case parse_pkg_entry w (fr_path f) (fr_name f) (fr_size f) (fr_mtime f) of
        (False, _) \<Rightarrow> st
      | (True, e) \<Rightarrow> (fst st @ [e], snd st \<or> is_provisional_package (ce_pkg e)))"

definition keep_entry :: "string \<Rightarrow> bool \<Rightarrow> file_rec list \<Rightarrow> cat_entry list \<Rightarrow> cat_entry \<Rightarrow> bool" where
  "keep_entry d provisional fs upd e \<longleftrightarrow>
     \<not> on_drive d e \<or>
     (provisional \<and> \<not> list_ex (\<lambda>f. fr_path f = pd_path (ce_pkg e)) fs \<and>
      \<not> list_ex (\<lambda>u. pd_path (ce_pkg u) = pd_path (ce_pkg e)) upd)"

definition update_source :: "scan_world \<Rightarrow> string \<Rightarrow> string \<Rightarrow> string \<Rightarrow> string \<Rightarrow> file_rec list \<Rightarrow> scanner \<Rightarrow> scanner" where
  "update_source w i label d ty fs s =
     (let (pkgs, upd, todo) = fold (match_file d) fs (ca_pkgs s, [], []);
          (new, provisional) = fold (parse_todo w) todo (upd, False);
          kept = filter (keep_entry d provisional fs new) pkgs;
          cat = kept @ take (MAX_PACKAGES - length kept) new;
          seen = (if provisional then ca_files s else remove_scanned_files_for_drive d (ca_files s))
      in s\<lparr> ca_pkgs := cat,
            ca_files := fold (\<lambda>f. add_scanned_file (fr_path f) (fr_size f) (fr_mtime f)) fs seen,
            ca_drives := note_drive i label d ty (length (filter (on_drive d) cat)) (length new) (ca_drives s) \<rparr>)"

definition quick_source :: "scan_world \<Rightarrow> string \<Rightarrow> string \<Rightarrow> string \<Rightarrow> string \<Rightarrow> file_rec list \<Rightarrow> scanner \<Rightarrow> nat \<times> scanner" where
  "quick_source w i label d ty fs s =
     (if source_identical i d fs s
      then (let n = length (filter (on_drive d) (ca_pkgs s))
            in (0, s\<lparr> ca_drives := note_drive i label d ty n n (ca_drives s) \<rparr>))
      else (1, update_source w i label d ty fs s))"

definition quick_local :: "scan_world \<Rightarrow> string \<Rightarrow> string \<Rightarrow> string \<Rightarrow> string \<Rightarrow> scanner \<Rightarrow> nat \<times> scanner" where
  "quick_local w i label d ty s =
     (if \<not> is_drive_mounted w d then source_unmounted i d s
      else quick_source w i label d ty (quick_local_files w d) s)"

text \<open>A network source that cannot be listed keeps what the catalogue has.\<close>

definition quick_network :: "scan_world \<Rightarrow> string \<Rightarrow> string \<Rightarrow> string \<Rightarrow> string \<Rightarrow> listing option \<Rightarrow> scanner \<Rightarrow> nat \<times> scanner" where
  "quick_network w i label d ty l s =
     (case Option.bind l quick_network_files of
        None \<Rightarrow> (0, s)
      | Some fs \<Rightarrow> quick_source w i label d ty fs s)"

end
