(* ===== verification/CatalogQuick.thy ===== *)
theory CatalogQuick
  imports CatalogScan
begin

text \<open>
  The quick scan over the chosen sources, the look-ups in the catalogue, and the search
  of the drives for a part of a multi-part package.
\<close>

section \<open>Choosing sources\<close>

text \<open>No choice, \<open>__all__\<close>, or the id or path of a source.\<close>

definition chosen :: "string option \<Rightarrow> string list \<Rightarrow> bool" where
  "chosen sel keys \<longleftrightarrow> (case sel of None \<Rightarrow> True | Some v \<Rightarrow> v = [] \<or> v = ''__all__'' \<or> v \<in> set keys)"

definition chosen_below :: "string option \<Rightarrow> string \<Rightarrow> bool" where
  "chosen_below sel root \<longleftrightarrow> (case sel of None \<Rightarrow> False | Some v \<Rightarrow> pkg_matches_drive_path v root)"

text \<open>One step of the scan: what changed is added up.\<close>

definition add_changes :: "(scanner \<Rightarrow> nat \<times> scanner) \<Rightarrow> nat \<times> scanner \<Rightarrow> nat \<times> scanner" where
  "add_changes f st = (case f (snd st) of (n, s) \<Rightarrow> (fst st + n, s))"

definition quick_local_sources :: "scan_world \<Rightarrow> string option \<Rightarrow> (string \<times> string \<times> string \<times> string) list" where
  "quick_local_sources w sel =
     filter (\<lambda>(i, label, path, ty). chosen sel [i, path])
       (case env_set w ''PKG_SCAN_DIR'' of
          Some dir \<Rightarrow>
            (''usb0'', ''USB Drive 0'', dir, ''usb'') #
            (case env_set w ''PKG_DISC_DIR'' of
               Some disc \<Rightarrow> if is_drive_mounted w disc then [(''disc'', ''Blu-ray Disc'', disc, ''disc'')] else []
             | None \<Rightarrow> [])
        | None \<Rightarrow>
            map (\<lambda>i. (''usb'' @ dec_str i, ''USB Drive '' @ dec_str i, usb_path w i, ''usb'')) [0..<8] @
            [(''disc'', ''Blu-ray Disc'', disc_path w, ''disc'')])"

text \<open>A share that is only browsed has no packages in the catalogue.\<close>

definition quick_browse :: "string \<Rightarrow> string \<Rightarrow> string \<Rightarrow> string \<Rightarrow> scanner \<Rightarrow> nat \<times> scanner" where
  "quick_browse i label root dir s =
     (let src = cstr_trunc 1024 (root @ (if dir \<noteq> [] then ''/'' else []) @ dir);
          gone = length (filter (on_drive src) (ca_pkgs s));
          mine = filter (\<lambda>r. dr_id r = i) (ca_drives s);
          stale = length (filter (\<lambda>r. \<not> dr_clickable r \<or> \<not> dr_mounted r \<or> dr_count r \<noteq> 0) mine);
          ds = map (\<lambda>r. if dr_id r = i then r\<lparr> dr_mounted := True, dr_clickable := True, dr_count := 0 \<rparr> else r) (ca_drives s)
      in (gone + (if mine = [] then 1 else stale),
          s\<lparr> ca_pkgs := filter (\<lambda>e. \<not> on_drive src e) (ca_pkgs s),
             ca_files := remove_scanned_files_for_drive src (ca_files s),
             ca_drives := (if mine = [] then add_drive_entry i label root ''smb'' True 0 ds else ds) \<rparr>))"

definition quick_smb :: "scan_world \<Rightarrow> string option \<Rightarrow> nat \<times> smb_source \<Rightarrow> scanner \<Rightarrow> nat \<times> scanner" where
  "quick_smb w sel ic s =
     (case ic of (i, c) \<Rightarrow>
        let sid = source_id i c; root = share_root c in
        if \<not> smb_usable c \<or> \<not> (chosen sel [sid, root] \<or> chosen_below sel root) then (0, s)
        else if sb_browse c then quick_browse sid (source_label c) root (sb_dir c) s
        else quick_network w sid (source_label c) root ''smb'' (sb_files c) s)"

definition quick_http :: "scan_world \<Rightarrow> string option \<Rightarrow> http_source \<Rightarrow> scanner \<Rightarrow> nat \<times> scanner" where
  "quick_http w sel h s =
     (if hs_enabled h \<and> (chosen sel [hs_id h, hs_url h] \<or> chosen_below sel (hs_url h)) \<and> hs_due h
      then quick_network w (hs_id h) (hs_label h) (hs_url h) ''http'' (if hs_ok h then Some (hs_files h) else None) s
      else (0, s))"

definition pkg_scanner_scan_quick ::
  "scan_world \<Rightarrow> smb_source list \<Rightarrow> http_source list \<Rightarrow> string option \<Rightarrow> scanner \<Rightarrow> nat \<times> bool \<times> scanner" where
  "pkg_scanner_scan_quick w smbs https sel s =
     (case scan_claim s of
        (False, _) \<Rightarrow> (length (ca_pkgs s), False, s)
      | (True, s0) \<Rightarrow>
          let a = fold (\<lambda>(i, label, path, ty). add_changes (quick_local w i label path ty)) (quick_local_sources w sel) (0, s0);
              b = fold (\<lambda>ic. add_changes (quick_smb w sel ic)) (enumerate 0 smbs) a;
              (n, s1) = fold (\<lambda>h. add_changes (quick_http w sel h)) https b;
              s2 = scan_release (if n > 0 then sort_packages w s1 else s1)
          in (length (ca_pkgs s2), n > 0, s2))"

section \<open>Look-ups\<close>

definition pkg_scanner_get_at :: "scanner \<Rightarrow> nat \<Rightarrow> cat_entry option" where
  "pkg_scanner_get_at s i = (if i \<ge> length (ca_pkgs s) then None else Some (ca_pkgs s ! i))"

definition pkg_scanner_get_drive_at :: "scanner \<Rightarrow> nat \<Rightarrow> drive option" where
  "pkg_scanner_get_drive_at s i = (if i \<ge> length (ca_drives s) then None else Some (ca_drives s ! i))"

definition pkg_scanner_find_by_path :: "scanner \<Rightarrow> string \<Rightarrow> cat_entry option" where
  "pkg_scanner_find_by_path s path = find (\<lambda>e. pd_path (ce_pkg e) = path) (ca_pkgs s)"

section \<open>Finding a part\<close>

definition part_matches :: "byte list option \<Rightarrow> string option \<Rightarrow> mp_header \<Rightarrow> bool" where
  "part_matches uuid fname h \<longleftrightarrow>
     (let name = (case fname of Some v \<Rightarrow> v | None \<Rightarrow> []) in
      uuid = Some (mh_uuid h) \<or> (name \<noteq> [] \<and> strcasecmp_eq (cstr_of_bytes (mh_pkg_filename h)) name) \<or>
      (uuid = None \<and> name = []))"

text \<open>The state of the search: the file found, and another part of the same package seen
  before it (0: none).\<close>

definition check_part_file ::
  "scan_world \<Rightarrow> byte list option \<Rightarrow> string option \<Rightarrow> nat \<Rightarrow> string \<Rightarrow> string option \<times> nat \<Rightarrow> string option \<times> nat" where
  "check_part_file w uuid fname idx path st =
     (if \<not> fst (multipart_is_part_filename path 0) then st
      else
      case multipart_read_header (sw_header w) path of
        Inl _ \<Rightarrow> st
      | Inr h \<Rightarrow>
          if \<not> part_matches uuid fname h then st
          else if mh_part_index h = idx then (Some path, snd st)
          else (fst st, if snd st = 0 then mh_part_index h else snd st))"

function scan_find_part_recursive ::
  "scan_world \<Rightarrow> byte list option \<Rightarrow> string option \<Rightarrow> nat \<Rightarrow> string \<Rightarrow> nat \<Rightarrow> string option \<times> nat \<Rightarrow> string option \<times> nat" where
  "scan_find_part_recursive w uuid fname idx dir depth st =
     (if depth > 5 then st
      else
      case dir_nodes w dir of
        None \<Rightarrow> st
      | Some es \<Rightarrow>
          fold (\<lambda>(p, n, k) st.
            if fst st \<noteq> None then st
            else
            case k of
              Directory \<Rightarrow> scan_find_part_recursive w uuid fname idx p (depth + 1) st
            | Regular _ _ \<Rightarrow> check_part_file w uuid fname idx p st
            | Other_node \<Rightarrow> st) es st)"
  by pat_completeness auto
termination
  by (relation "measure (\<lambda>(w, u, f, i, dir, depth, st). 6 - depth)") auto

declare scan_find_part_recursive.simps [simp del]

definition scan_find_part_in_location ::
  "scan_world \<Rightarrow> byte list option \<Rightarrow> string option \<Rightarrow> nat \<Rightarrow> string \<Rightarrow> string option \<times> nat \<Rightarrow> string option \<times> nat" where
  "scan_find_part_in_location w uuid fname idx dir st =
     (case dir_nodes w dir of
        None \<Rightarrow> st
      | Some es \<Rightarrow>
          fold (\<lambda>(p, n, k) st.
            if fst st \<noteq> None then st
            else
            case k of
              Regular _ _ \<Rightarrow> check_part_file w uuid fname idx p st
            | Directory \<Rightarrow> if is_scan_subdir n then scan_find_part_recursive w uuid fname idx p 0 st else st
            | Other_node \<Rightarrow> st) es st)"

text \<open>The directories searched, in order; a disc first, then the drives that are mounted.\<close>

definition part_locations :: "scan_world \<Rightarrow> string list" where
  "part_locations w =
     (case env_set w ''PKG_SCAN_DIR'' of
        Some dir \<Rightarrow> dir # (case env_set w ''PKG_DISC_DIR'' of Some disc \<Rightarrow> [disc] | None \<Rightarrow> [])
      | None \<Rightarrow> []) @
     ''/mnt/disc'' # filter (is_drive_mounted w) (map (\<lambda>i. ''/mnt/usb'' @ dec_str i) [0..<8])"

definition pkg_scanner_find_part_ex ::
  "scan_world \<Rightarrow> byte list option \<Rightarrow> string option \<Rightarrow> nat \<Rightarrow> nat \<Rightarrow> string option \<times> nat" where
  "pkg_scanner_find_part_ex w uuid fname idx out_max =
     (if out_max = 0 then (None, 0)
      else
      case fold (\<lambda>dir st. if fst st \<noteq> None then st else scan_find_part_in_location w uuid fname idx dir st)
             (part_locations w) (None, 0) of
        (found, other) \<Rightarrow> (map_option (cstr_trunc out_max) found, other))"

end
