(* ===== verification/CatalogWalk.thy ===== *)
theory CatalogWalk
  imports CatalogQuick
begin

text \<open>
  The traversals of directories in one form: counting, full scan and quick scan visit the
  same files in the same order, so that they agree with each other.
\<close>

section \<open>The files of a directory\<close>

function walk :: "scan_world \<Rightarrow> string \<Rightarrow> bool \<Rightarrow> nat \<Rightarrow> listing" where
  "walk w dir recursive depth =
     (if depth > 5 then []
      else
      case dir_nodes w dir of
        None \<Rightarrow> []
      | Some es \<Rightarrow>
          concat (map (\<lambda>(p, n, k).
            (case k of
               Directory \<Rightarrow> if recursive then walk w p True (depth + 1) else []
             | Regular sz t \<Rightarrow> if is_package_file n then [(p, n, sz, t)] else []
             | Other_node \<Rightarrow> [])) es))"
  by pat_completeness auto
termination
  by (relation "measure (\<lambda>(w, dir, r, depth). 6 - depth)") auto

declare walk.simps [simp del]

definition process_listed :: "scan_world \<Rightarrow> string \<times> string \<times> nat \<times> nat \<Rightarrow> scanner \<Rightarrow> scanner" where
  "process_listed w e s = (case e of (p, n, sz, t) \<Rightarrow> process_pkg_file w p n sz t s)"

lemma process_listed_simp [simp]: "process_listed w (p, n, sz, t) s = process_pkg_file w p n sz t s"
  by (simp add: process_listed_def)

lemma fold_concat_map: "fold f (concat (map g xs)) s = fold (\<lambda>x. fold f (g x)) xs s"
  by (induction xs arbitrary: s) simp_all

lemma fold_same: "(\<And>x s. x \<in> set xs \<Longrightarrow> f x s = g x s) \<Longrightarrow> fold f xs s = fold g xs s"
  by (rule fold_cong [OF refl refl]) (simp add: fun_eq_iff)

lemma count_walk: "count_pkg_files w dir r depth = length (walk w dir r depth)"
proof (induction w dir r depth rule: count_pkg_files.induct)
  case (1 w dir r depth)
  show ?case
  proof (cases "depth > 5")
    case True
    then show ?thesis by (simp add: count_pkg_files.simps [of w] walk.simps [of w])
  next
    case False
    show ?thesis
    proof (cases "dir_nodes w dir")
      case None
      then show ?thesis by (simp add: count_pkg_files.simps [of w] walk.simps [of w])
    next
      case (Some es)
      have "(case k of Regular a b \<Rightarrow> if is_package_file n then 1 else 0
              | Directory \<Rightarrow> if r then count_pkg_files w p True (depth + 1) else 0 | Other_node \<Rightarrow> 0) =
            length (case k of Directory \<Rightarrow> if r then walk w p True (depth + 1) else []
              | Regular sz t \<Rightarrow> if is_package_file n then [(p, n, sz, t)] else [] | Other_node \<Rightarrow> [])"
        if "(p, n, k) \<in> set es" for p n k
        using 1 [OF False Some that refl refl] by (cases k) simp_all
      then have eq: "map (\<lambda>(p, n, k). case k of Regular a b \<Rightarrow> if is_package_file n then 1 else 0
              | Directory \<Rightarrow> if r then count_pkg_files w p True (depth + 1) else 0 | Other_node \<Rightarrow> 0) es =
          map (length \<circ> (\<lambda>(p, n, k). case k of Directory \<Rightarrow> if r then walk w p True (depth + 1) else []
              | Regular sz t \<Rightarrow> if is_package_file n then [(p, n, sz, t)] else [] | Other_node \<Rightarrow> [])) es"
        by (intro map_cong refl) auto
      show ?thesis unfolding count_pkg_files.simps [of w dir] walk.simps [of w dir]
        by (simp only: False if_False Some option.case eq length_concat map_map)
    qed
  qed
qed

lemma collect_walk: "collect_local_files_quick w dir r depth = map network_file (walk w dir r depth)"
proof (induction w dir r depth rule: collect_local_files_quick.induct)
  case (1 w dir r depth)
  show ?case
  proof (cases "depth > 5")
    case True
    then show ?thesis by (simp add: collect_local_files_quick.simps [of w] walk.simps [of w])
  next
    case False
    show ?thesis
    proof (cases "dir_nodes w dir")
      case None
      then show ?thesis by (simp add: collect_local_files_quick.simps [of w] walk.simps [of w])
    next
      case (Some es)
      have "(case k of Directory \<Rightarrow> if r then collect_local_files_quick w p True (depth + 1) else []
              | Regular sz t \<Rightarrow> if is_package_file n then [network_file (p, n, sz, t)] else [] | Other_node \<Rightarrow> []) =
            map network_file (case k of Directory \<Rightarrow> if r then walk w p True (depth + 1) else []
              | Regular sz t \<Rightarrow> if is_package_file n then [(p, n, sz, t)] else [] | Other_node \<Rightarrow> [])"
        if "(p, n, k) \<in> set es" for p n k
        using 1 [OF False Some that refl refl] by (cases k) simp_all
      then have eq: "map (\<lambda>(p, n, k). case k of Directory \<Rightarrow> if r then collect_local_files_quick w p True (depth + 1) else []
              | Regular sz t \<Rightarrow> if is_package_file n then [network_file (p, n, sz, t)] else [] | Other_node \<Rightarrow> []) es =
          map (map network_file \<circ> (\<lambda>(p, n, k). case k of Directory \<Rightarrow> if r then walk w p True (depth + 1) else []
              | Regular sz t \<Rightarrow> if is_package_file n then [(p, n, sz, t)] else [] | Other_node \<Rightarrow> [])) es"
        by (intro map_cong refl) auto
      show ?thesis unfolding collect_local_files_quick.simps [of w dir] walk.simps [of w dir]
        by (simp only: False if_False Some option.case eq map_concat map_map)
    qed
  qed
qed

lemma scan_walk: "scan_dir_recursive w dir depth s = fold (process_listed w) (walk w dir True depth) s"
proof (induction w dir depth s rule: scan_dir_recursive.induct)
  case (1 w dir depth s)
  show ?case
  proof (cases "depth > 5")
    case True
    then show ?thesis by (simp add: scan_dir_recursive.simps [of w] walk.simps [of w])
  next
    case False
    show ?thesis
    proof (cases "dir_nodes w dir")
      case None
      then show ?thesis by (simp add: scan_dir_recursive.simps [of w] walk.simps [of w])
    next
      case (Some es)
      have e: "(case k of Directory \<Rightarrow> scan_dir_recursive w p (Suc depth) s'
              | Regular sz t \<Rightarrow> if is_package_file n then process_pkg_file w p n sz t s' else s' | Other_node \<Rightarrow> s') =
            fold (process_listed w) (case k of Directory \<Rightarrow> walk w p True (Suc depth)
              | Regular sz t \<Rightarrow> if is_package_file n then [(p, n, sz, t)] else [] | Other_node \<Rightarrow> []) s'"
        if "(p, n, k) \<in> set es" for p n k s'
        using 1 [OF False Some that refl refl] by (cases k) simp_all
      show ?thesis unfolding scan_dir_recursive.simps [of w dir] walk.simps [of w dir] Suc_eq_plus1 [symmetric]
        using False Some e by (auto simp: fold_concat_map intro!: fold_same)
    qed
  qed
qed

lemma root_walk: "scan_dir_root w dir s = fold (process_listed w) (walk w dir False 0) s"
proof (cases "dir_nodes w dir")
  case None
  then show ?thesis by (simp add: scan_dir_root_def walk.simps [of w])
next
  case (Some es)
  then show ?thesis
    by (auto simp: scan_dir_root_def walk.simps [of w dir] fold_concat_map split: node.split intro!: fold_same)
qed

section \<open>The files of a source\<close>

definition source_walk :: "scan_world \<Rightarrow> string \<Rightarrow> bool \<Rightarrow> listing" where
  "source_walk w path everything =
     (if everything then walk w path True 0
      else walk w path False 0 @ concat (map (\<lambda>d. walk w d True 0) (scan_subdirs w path)))"

lemma count_source_walk: "count_source w path everything = length (source_walk w path everything)"
  by (simp add: count_source_def source_walk_def count_scan_subdirs_def count_walk length_concat comp_def)

lemma scan_source_walk: "scan_source w path everything s = fold (process_listed w) (source_walk w path everything) s"
proof -
  have "scan_dir_recursive w d 0 = fold (process_listed w) (walk w d True 0)" for d by (simp add: fun_eq_iff scan_walk)
  then show ?thesis by (simp add: scan_source_def source_walk_def scan_scan_subdirs_def root_walk fold_concat_map)
qed

lemma quick_files_walk:
  "quick_local_files w path = map network_file (source_walk w path (sw_env w ''PKG_SCAN_DIR'' = Some path))"
  by (simp add: quick_local_files_def source_walk_def collect_walk map_concat comp_def)

end
