(* ===== verification/CatalogProps.thy ===== *)
theory CatalogProps
  imports CatalogWalk "HOL-Library.Multiset"
begin

text \<open>
  The quick scan against the full scan: what one source contributes is the same, and what
  belongs to other sources is left alone.
\<close>

section \<open>What a listing contributes\<close>

definition fresh :: "scan_world \<Rightarrow> listing \<Rightarrow> cat_entry list" where
  "fresh w l = map snd (filter fst (map (\<lambda>(p, n, sz, t). parse_pkg_entry w p n sz t) l))"

lemma fresh_simps [simp]:
  "fresh w [] = []"
  "fresh w (x # l) = (case x of (p, n, sz, t) \<Rightarrow>
     if fst (parse_pkg_entry w p n sz t) then snd (parse_pkg_entry w p n sz t) # fresh w l else fresh w l)"
  "fresh w (l @ l') = fresh w l @ fresh w l'"
  by (auto simp: fresh_def split: prod.split)

lemma process_fields:
  "ca_done (process_pkg_file w p n sz t s) = ca_done s + 1"
  "ca_total (process_pkg_file w p n sz t s) = ca_total s"
  "ca_drives (process_pkg_file w p n sz t s) = ca_drives s"
  "ca_active (process_pkg_file w p n sz t s) = ca_active s"
  "ca_scanning (process_pkg_file w p n sz t s) = ca_scanning s"
  "ca_pkgs (process_pkg_file w p n sz t s) = ca_pkgs s @ take (MAX_PACKAGES - length (ca_pkgs s)) (fresh w [(p, n, sz, t)])"
  by (auto simp: process_pkg_file_def Let_def split: prod.split)

lemma process_all:
  "ca_done (fold (process_listed w) l s) = ca_done s + length l"
  "ca_total (fold (process_listed w) l s) = ca_total s"
  "ca_drives (fold (process_listed w) l s) = ca_drives s"
  "ca_active (fold (process_listed w) l s) = ca_active s"
  "ca_scanning (fold (process_listed w) l s) = ca_scanning s"
  "ca_pkgs (fold (process_listed w) l s) = ca_pkgs s @ take (MAX_PACKAGES - length (ca_pkgs s)) (fresh w l)"
proof -
  show "ca_done (fold (process_listed w) l s) = ca_done s + length l"
    "ca_total (fold (process_listed w) l s) = ca_total s" "ca_drives (fold (process_listed w) l s) = ca_drives s"
    "ca_active (fold (process_listed w) l s) = ca_active s" "ca_scanning (fold (process_listed w) l s) = ca_scanning s"
    by (induction l arbitrary: s) (auto simp: process_listed_def process_fields split: prod.split)
  show "ca_pkgs (fold (process_listed w) l s) = ca_pkgs s @ take (MAX_PACKAGES - length (ca_pkgs s)) (fresh w l)"
  proof (induction l arbitrary: s)
    case (Cons x l)
    obtain p n sz t where x: "x = (p, n, sz, t)" by (cases x) auto
    have "MAX_PACKAGES - Suc (length (ca_pkgs s)) = MAX_PACKAGES - length (ca_pkgs s) - 1" by simp
    then show ?case
      using Cons [of "process_listed w x s"]
      by (cases "MAX_PACKAGES - length (ca_pkgs s)") (auto simp: x process_fields)
  qed simp
qed

section \<open>Files that have not changed\<close>

definition file_entry_of :: "scan_world \<Rightarrow> file_rec \<Rightarrow> bool \<times> cat_entry" where
  "file_entry_of w f = parse_pkg_entry w (fr_path f) (fr_name f) (fr_size f) (fr_mtime f)"

definition fresh_files :: "scan_world \<Rightarrow> file_rec list \<Rightarrow> cat_entry list" where
  "fresh_files w fs = map snd (filter fst (map (file_entry_of w) fs))"

lemma fresh_files_simps [simp]:
  "fresh_files w [] = []"
  "fresh_files w (f # fs) =
     (if fst (file_entry_of w f) then snd (file_entry_of w f) # fresh_files w fs else fresh_files w fs)"
  by (simp_all add: fresh_files_def)

text \<open>An entry for a file that size and time say is unchanged has the details that
  parsing the file would give.\<close>

definition coherent :: "scan_world \<Rightarrow> string \<Rightarrow> file_rec list \<Rightarrow> cat_entry list \<Rightarrow> bool" where
  "coherent w d fs pkgs \<longleftrightarrow>
     (\<forall>f\<in>set fs. \<forall>e\<in>set pkgs. entry_matches d f e \<longrightarrow> fst (file_entry_of w f) \<and> ce_pkg (snd (file_entry_of w f)) = ce_pkg e)"

text \<open>A parsed package is listed under the path of its file.\<close>

definition honest :: "scan_world \<Rightarrow> bool" where
  "honest w \<longleftrightarrow> (\<forall>p d m. sw_parse w p = Some (d, m) \<longrightarrow> pd_path d = cstr_trunc 512 p)"

lemma finalize_path: "pd_path (pkg_platform_finalize d) = pd_path d"
  by (simp add: pkg_platform_finalize_def Let_def)

lemma parsed_path: "honest w \<Longrightarrow> pd_path (ce_pkg (snd (parse_pkg_entry w p n sz t))) = cstr_trunc 512 p"
  by (auto simp: parse_pkg_entry_def honest_def finalize_path Let_def split: option.split prod.split)

lemma fresh_files_paths: "honest w \<Longrightarrow> e \<in> set (fresh_files w fs) \<Longrightarrow> \<exists>f\<in>set fs. pd_path (ce_pkg e) = cstr_trunc 512 (fr_path f)"
  by (auto simp: fresh_files_def file_entry_of_def parsed_path)

section \<open>Matching files with entries\<close>

lemma takeWhile_index:
  assumes "list_ex P xs"
  shows "length (takeWhile (\<lambda>x. \<not> P x) xs) < length xs" "P (xs ! length (takeWhile (\<lambda>x. \<not> P x) xs))"
proof -
  obtain x where "x \<in> set xs" "P x" using assms by (auto simp: list_ex_iff)
  then have "takeWhile (\<lambda>x. \<not> P x) xs \<noteq> xs" by (metis takeWhile_eq_all_conv)
  then show l: "length (takeWhile (\<lambda>x. \<not> P x) xs) < length xs"
    by (metis le_neq_implies_less length_takeWhile_le takeWhile_eq_take take_all_iff)
  show "P (xs ! length (takeWhile (\<lambda>x. \<not> P x) xs))" using nth_length_takeWhile [OF l] by simp
qed

lemma filter_update: "i < length xs \<Longrightarrow> \<not> P (xs ! i) \<Longrightarrow> \<not> P y \<Longrightarrow> filter P (xs[i := y]) = filter P xs"
  by (simp add: upd_conv_take_nth_drop id_take_nth_drop [symmetric]) (metis filter.simps(2) filter_append id_take_nth_drop)

lemma match_file_cases:
  assumes "match_file d f (pkgs, upd, todo) = (pkgs', upd', todo')"
  obtains (found) i e where "i < length pkgs" "entry_matches d f (pkgs ! i)" "ce_pkg e = ce_pkg (pkgs ! i)"
      "pkgs' = pkgs[i := e]" "upd' = upd @ [e]" "todo' = todo"
    | (fresh) "pkgs' = pkgs" "upd' = upd" "todo' = todo @ [f]"
proof (cases "list_ex (entry_matches d f) pkgs")
  case True
  define i where "i = length (takeWhile (\<lambda>e. \<not> entry_matches d f e) pkgs)"
  define e where "e = (pkgs ! i)\<lparr> ce_mtime := (if ce_mtime (pkgs ! i) = 0 then fr_mtime f else ce_mtime (pkgs ! i)) \<rparr>"
  have "(pkgs', upd', todo') = (pkgs[i := e], upd @ [e], todo)"
    using assms True by (simp add: match_file_def Let_def i_def [symmetric] e_def [symmetric])
  moreover have "ce_pkg e = ce_pkg (pkgs ! i)" by (simp add: e_def)
  ultimately show ?thesis using found [of i e] takeWhile_index [OF True] by (simp add: i_def [symmetric])
next
  case False
  then show ?thesis using fresh assms by (simp add: match_file_def)
qed

lemma entry_matches_drive: "entry_matches d f e \<Longrightarrow> on_drive d e"
  by (simp add: entry_matches_def)

lemma on_drive_same: "ce_pkg e = ce_pkg e' \<Longrightarrow> on_drive d e = on_drive d e'"
  by (simp add: on_drive_def)

lemma match_others:
  assumes "fold (match_file d) fs (pkgs, upd, todo) = (pkgs', upd', todo')"
  shows "filter (\<lambda>e. \<not> on_drive d e) pkgs' = filter (\<lambda>e. \<not> on_drive d e) pkgs \<and> map ce_pkg pkgs' = map ce_pkg pkgs"
  using assms
proof (induction fs arbitrary: pkgs upd todo)
  case (Cons f fs)
  obtain p1 u1 t1 where m: "match_file d f (pkgs, upd, todo) = (p1, u1, t1)" by (metis prod_cases3)
  have "filter (\<lambda>e. \<not> on_drive d e) p1 = filter (\<lambda>e. \<not> on_drive d e) pkgs \<and> map ce_pkg p1 = map ce_pkg pkgs"
    using m
  proof (cases rule: match_file_cases)
    case (found i e)
    have "\<not> \<not> on_drive d (pkgs ! i)" "\<not> \<not> on_drive d e"
      using entry_matches_drive [OF found(2)] on_drive_same [OF found(3)] by simp_all
    then show ?thesis using found filter_update [OF found(1), of "\<lambda>e. \<not> on_drive d e" e]
      by (simp add: map_update) (metis found(1) list_update_id nth_map)
  qed simp
  then show ?case using Cons.IH [of p1 u1 t1] Cons.prems m by simp
qed simp

text \<open>Every file ends up in one of the two lists, with its details.\<close>

definition details :: "cat_entry list \<Rightarrow> pkg_detail multiset" where
  "details es = mset (map ce_pkg es)"

lemma details_simps [simp]:
  "details [] = {#}" "details (e # es) = add_mset (ce_pkg e) (details es)" "details (es @ es') = details es + details es'"
  by (simp_all add: details_def)

lemma match_details:
  assumes "fold (match_file d) fs (pkgs, upd, todo) = (pkgs', upd', todo')"
    and "coherent w d fs pkgs" "distinct (map fr_path fs)"
  shows "details upd' + details (fresh_files w todo') = details upd + details (fresh_files w todo) + details (fresh_files w fs)"
  using assms
proof (induction fs arbitrary: pkgs upd todo)
  case (Cons f fs)
  obtain p1 u1 t1 where m: "match_file d f (pkgs, upd, todo) = (p1, u1, t1)" by (metis prod_cases3)
  have F: "fresh_files w (todo @ [f]) = fresh_files w todo @ fresh_files w [f]" by (simp add: fresh_files_def)
  have step: "details u1 + details (fresh_files w t1) = details upd + details (fresh_files w todo) + details (fresh_files w [f]) \<and>
      coherent w d fs p1"
    using m
  proof (cases rule: match_file_cases)
    case (found i e)
    have c: "fst (file_entry_of w f)" "ce_pkg (snd (file_entry_of w f)) = ce_pkg e"
      using Cons.prems(2) found(1-3) by (auto simp: coherent_def)
    have "\<not> entry_matches d g e" if "g \<in> set fs" for g
    proof -
      have "fr_path f \<notin> fr_path ` set fs" using Cons.prems(3) by simp
      then have "fr_path g \<noteq> fr_path f" using that by (metis image_eqI)
      then show ?thesis using found(2,3) by (auto simp: entry_matches_def)
    qed
    then have "coherent w d fs p1"
      using Cons.prems(2) found(4) set_update_subset_insert [of pkgs i e] unfolding coherent_def by fastforce
    then show ?thesis using c found by simp
  next
    case fresh
    then show ?thesis using Cons.prems(2) F by (auto simp: coherent_def)
  qed
  have "details upd' + details (fresh_files w todo') = details u1 + details (fresh_files w t1) + details (fresh_files w fs)"
    using Cons.IH [of p1 u1 t1] Cons.prems m step by simp
  then show ?case using step by (simp add: add.assoc)
qed simp

section \<open>The files still to be parsed\<close>

lemma parse_todo_all:
  "fst (fold (parse_todo w) fs (new, pr)) = new @ fresh_files w fs"
  "snd (fold (parse_todo w) fs (new, pr)) \<longleftrightarrow> pr \<or> list_ex (\<lambda>e. is_provisional_package (ce_pkg e)) (fresh_files w fs)"
  by (induction fs arbitrary: new pr) (auto simp: parse_todo_def file_entry_of_def split: prod.split bool.split)

lemma match_todo: "fold (match_file d) fs (pkgs, upd, todo) = (pkgs', upd', todo') \<Longrightarrow> set todo' \<subseteq> set todo \<union> set fs"
proof (induction fs arbitrary: pkgs upd todo)
  case (Cons f fs)
  obtain p1 u1 t1 where m: "match_file d f (pkgs, upd, todo) = (p1, u1, t1)" by (metis prod_cases3)
  then have "set t1 \<subseteq> set todo \<union> {f}" by (cases rule: match_file_cases) auto
  moreover have "set todo' \<subseteq> set t1 \<union> set fs" using Cons.IH [of p1 u1 t1] Cons.prems m by simp
  ultimately show ?case by auto
qed simp

lemma match_upd_drive:
  "fold (match_file d) fs (pkgs, upd, todo) = (pkgs', upd', todo') \<Longrightarrow> \<forall>e\<in>set upd. on_drive d e \<Longrightarrow> \<forall>e\<in>set upd'. on_drive d e"
proof (induction fs arbitrary: pkgs upd todo)
  case (Cons f fs)
  obtain p1 u1 t1 where m: "match_file d f (pkgs, upd, todo) = (p1, u1, t1)" by (metis prod_cases3)
  then have "\<forall>e\<in>set u1. on_drive d e"
  proof (cases rule: match_file_cases)
    case (found i e)
    have "on_drive d e" using entry_matches_drive [OF found(2)] on_drive_same [OF found(3)] by simp
    then show ?thesis using Cons.prems(2) found(5) by simp
  qed (use Cons.prems(2) in simp)
  then show ?case using Cons.IH [of p1 u1 t1] Cons.prems(1) m by simp
qed simp

section \<open>One source updated\<close>

text \<open>The files found lie on the source, with paths that fit.\<close>

definition files_on :: "string \<Rightarrow> file_rec list \<Rightarrow> bool" where
  "files_on d fs \<longleftrightarrow> (\<forall>f\<in>set fs. length (fr_path f) < 512 \<and> pkg_matches_drive_path (fr_path f) d)"

lemma fresh_on_drive: "honest w \<Longrightarrow> files_on d fs \<Longrightarrow> e \<in> set (fresh_files w fs) \<Longrightarrow> on_drive d e"
  using fresh_files_paths [of w e fs] by (auto simp: files_on_def on_drive_def cstr_trunc_id)

lemma update_parts:
  obtains pkgs upd todo provisional new where
    "fold (match_file d) fs (ca_pkgs s, [], []) = (pkgs, upd, todo)" "new = upd @ fresh_files w todo"
    "provisional = list_ex (\<lambda>e. is_provisional_package (ce_pkg e)) (fresh_files w todo)"
    "ca_pkgs (update_source w i label d ty fs s) = filter (keep_entry d provisional fs new) pkgs @
       take (MAX_PACKAGES - length (filter (keep_entry d provisional fs new) pkgs)) new"
proof -
  obtain pkgs upd todo where m: "fold (match_file d) fs (ca_pkgs s, [], []) = (pkgs, upd, todo)" by (metis prod_cases3)
  have "fold (parse_todo w) todo (upd, False) =
      (upd @ fresh_files w todo, list_ex (\<lambda>e. is_provisional_package (ce_pkg e)) (fresh_files w todo))"
    using parse_todo_all [of w todo upd False] by (metis prod.collapse)
  then show ?thesis using that [OF m refl refl] by (simp add: update_source_def m Let_def)
qed

lemma new_on_drive:
  assumes "honest w" "files_on d fs" "fold (match_file d) fs (pkgs, [], []) = (pkgs', upd, todo)"
  shows "\<forall>e\<in>set (upd @ fresh_files w todo). on_drive d e"
proof -
  have "files_on d todo" using assms(2) match_todo [OF assms(3)] by (auto simp: files_on_def)
  then show ?thesis using match_upd_drive [OF assms(3)] fresh_on_drive [OF assms(1)] by auto
qed

lemma update_keeps_others:
  assumes "honest w" "files_on d fs"
  shows "filter (\<lambda>e. \<not> on_drive d e) (ca_pkgs (update_source w i label d ty fs s)) = filter (\<lambda>e. \<not> on_drive d e) (ca_pkgs s)"
proof (rule update_parts [of d fs s w i label ty])
  fix pkgs upd todo provisional new
  assume u: "fold (match_file d) fs (ca_pkgs s, [], []) = (pkgs, upd, todo)" "new = upd @ fresh_files w todo"
    "ca_pkgs (update_source w i label d ty fs s) = filter (keep_entry d provisional fs new) pkgs @
       take (MAX_PACKAGES - length (filter (keep_entry d provisional fs new) pkgs)) new"
  have "filter (\<lambda>e. \<not> on_drive d e) (filter (keep_entry d provisional fs new) pkgs) = filter (\<lambda>e. \<not> on_drive d e) pkgs"
    by (auto simp: keep_entry_def intro: filter_cong)
  moreover have "filter (\<lambda>e. \<not> on_drive d e) (take n new) = []" for n
    using new_on_drive [OF assms u(1)] u(2) by (auto simp: filter_empty_conv dest: in_set_takeD)
  ultimately show ?thesis using u(3) match_others [OF u(1)] by simp
qed

lemma update_like_fresh:
  assumes "honest w" "files_on d fs" "coherent w d fs (ca_pkgs s)" "distinct (map fr_path fs)"
    and room: "length (filter (\<lambda>e. \<not> on_drive d e) (ca_pkgs s)) + length fs \<le> MAX_PACKAGES"
    and complete: "\<not> list_ex (\<lambda>e. is_provisional_package (ce_pkg e)) (fresh_files w fs)"
  shows "details (filter (on_drive d) (ca_pkgs (update_source w i label d ty fs s))) = details (fresh_files w fs)"
proof (rule update_parts [of d fs s w i label ty])
  fix pkgs upd todo provisional new
  assume u: "fold (match_file d) fs (ca_pkgs s, [], []) = (pkgs, upd, todo)" "new = upd @ fresh_files w todo"
    "provisional = list_ex (\<lambda>e. is_provisional_package (ce_pkg e)) (fresh_files w todo)"
    "ca_pkgs (update_source w i label d ty fs s) = filter (keep_entry d provisional fs new) pkgs @
       take (MAX_PACKAGES - length (filter (keep_entry d provisional fs new) pkgs)) new"
  have "\<not> provisional" using complete match_todo [OF u(1)] u(3) by (auto simp: list_ex_iff fresh_files_def)
  then have k: "filter (keep_entry d provisional fs new) pkgs = filter (\<lambda>e. \<not> on_drive d e) pkgs"
    by (intro filter_cong refl) (simp add: keep_entry_def)
  have det: "details new = details (fresh_files w fs)" using match_details [OF u(1) assms(3,4)] u(2) by simp
  then have "length new \<le> length fs"
    using length_filter_le [of fst "map (file_entry_of w) fs"] by (metis details_def fresh_files_def length_map size_mset)
  then have "length new \<le> MAX_PACKAGES - length (filter (\<lambda>e. \<not> on_drive d e) pkgs)"
    using room match_others [OF u(1)] by simp
  then have "ca_pkgs (update_source w i label d ty fs s) = filter (\<lambda>e. \<not> on_drive d e) pkgs @ new"
    using u(4) k by simp
  moreover have "filter (on_drive d) new = new" using new_on_drive [OF assms(1,2) u(1)] u(2) by simp
  ultimately show ?thesis using det by (simp add: filter_empty_conv)
qed

end
