(* ===== verification/CatalogEq.thy ===== *)
theory CatalogEq
  imports CatalogProps
begin

text \<open>
  A quick scan of one source gives what a full scan of it gives, whether it finds the
  source unchanged or updates it.
\<close>

section \<open>Where the files of a source lie\<close>

lemma path1024_short: "length (path1024 d n) < 512 \<Longrightarrow> path1024 d n = d @ ''/'' @ n"
  by (auto simp: path1024_def cstr_trunc_def min_def split: if_splits)

lemma dir_nodes_path: "dir_nodes w d = Some es \<Longrightarrow> (p, n, k) \<in> set es \<Longrightarrow> p = path1024 d n"
  by (auto simp: dir_nodes_def map_filter_def split: option.splits if_splits)

lemma walk_below:
  "(p, n, sz, t) \<in> set (walk w dir r depth) \<Longrightarrow> length p < 512 \<Longrightarrow>
     starts_with (dir @ ''/'') p \<and> (\<exists>d. p = d @ ''/'' @ n) \<and> is_package_file n"
proof (induction w dir r depth rule: walk.induct)
  case (1 w dir r depth)
  then have d: "\<not> depth > 5" by (auto simp: walk.simps [of w dir])
  then obtain es where es: "dir_nodes w dir = Some es" using 1(2) by (cases "dir_nodes w dir") (auto simp: walk.simps [of w dir])
  then obtain p' n' k where e: "(p', n', k) \<in> set es"
    "(p, n, sz, t) \<in> set (case k of Directory \<Rightarrow> if r then walk w p' True (depth + 1) else []
       | Regular sz t \<Rightarrow> if is_package_file n' then [(p', n', sz, t)] else [] | Other_node \<Rightarrow> [])"
    using 1(2) d by (auto simp: walk.simps [of w dir])
  have p': "p' = path1024 dir n'" by (rule dir_nodes_path [OF es e(1)])
  show ?case
  proof (cases k)
    case Directory
    then have "r" "(p, n, sz, t) \<in> set (walk w p' True (depth + 1))" using e(2) by (auto split: if_splits)
    then have i: "starts_with (p' @ ''/'') p" "\<exists>d. p = d @ ''/'' @ n" "is_package_file n"
      using 1(1) [OF d es e(1) refl refl Directory] 1(3) by auto
    obtain t where "p = (p' @ ''/'') @ t" using i(1) by (auto simp: starts_with_iff)
    then have "length p = length p' + 1 + length t" by simp
    then have "length p' < 512" using 1(3) by simp
    then show ?thesis using i p' path1024_short [of dir n'] by (auto simp: starts_with_iff)
  next
    case (Regular a b)
    then have "p = p'" "n = n'" "is_package_file n" using e(2) by (auto split: if_splits)
    then show ?thesis using p' path1024_short [of dir n'] 1(3) by (auto simp: starts_with_iff)
  qed (use e(2) in simp)
qed

lemma source_walk_below:
  assumes "(p, n, sz, t) \<in> set (source_walk w dir ev)" "length p < 512"
  shows "starts_with (dir @ ''/'') p \<and> (\<exists>d. p = d @ ''/'' @ n) \<and> is_package_file n"
proof -
  consider (top) r where "(p, n, sz, t) \<in> set (walk w dir r 0)"
    | (sub) d where "d \<in> set (scan_subdirs w dir)" "(p, n, sz, t) \<in> set (walk w d True 0)"
    using assms(1) by (auto simp: source_walk_def split: if_splits)
  then show ?thesis
  proof cases
    case sub
    then have i: "starts_with (d @ ''/'') p" "\<exists>d. p = d @ ''/'' @ n" "is_package_file n" using walk_below assms(2) by blast+
    obtain m where "d = path1024 dir m" using sub(1) by (auto simp: scan_subdirs_def split: option.splits)
    moreover have "length d < 512" using i(1) assms(2) by (auto simp: starts_with_iff)
    ultimately show ?thesis using i path1024_short [of dir m] by (auto simp: starts_with_iff)
  qed (use walk_below assms(2) in blast)
qed

lemma below_matches: "d \<noteq> [] \<Longrightarrow> starts_with (d @ ''/'') p \<Longrightarrow> pkg_matches_drive_path p d"
  by (auto simp: pkg_matches_drive_path_def starts_with_iff nth_append)

text \<open>Paths and names fit into their fields, no path is listed twice and names have no slash.\<close>

definition ordinary :: "listing \<Rightarrow> bool" where
  "ordinary l \<longleftrightarrow>
     distinct (map fst l) \<and> (\<forall>(p, n, sz, t)\<in>set l. length p < 512 \<and> length n < 256 \<and> CHR ''/'' \<notin> set n)"

lemma ordinary_files:
  assumes "ordinary l"
  shows "map fr_path (map network_file l) = map fst l" "fresh_files w (map network_file l) = fresh w l"
proof -
  have f: "network_file (p, n, sz, t) = \<lparr> fr_path = p, fr_name = n, fr_size = sz, fr_mtime = t \<rparr>"
    if "(p, n, sz, t) \<in> set l" for p n sz t
    using assms that by (force simp: ordinary_def network_file_def cstr_trunc_id)
  then show "map fr_path (map network_file l) = map fst l" by auto
  have "map (file_entry_of w) (map network_file l) = map (\<lambda>(p, n, sz, t). parse_pkg_entry w p n sz t) l"
    using f by (auto simp: file_entry_of_def)
  then show "fresh_files w (map network_file l) = fresh w l" by (simp only: fresh_files_def fresh_def)
qed

lemma ordinary_on:
  assumes "ordinary (source_walk w d ev)" "d \<noteq> []"
  shows "files_on d (map network_file (source_walk w d ev))"
  using assms source_walk_below [of _ _ _ _ w d ev] below_matches [OF assms(2)]
  by (fastforce simp: files_on_def ordinary_def network_file_def cstr_trunc_id)

section \<open>A source found unchanged\<close>

lemma last_part_name:
  assumes "CHR ''/'' \<notin> set n" "n \<noteq> []"
  shows "part_number (d @ ''/'' @ n) = part_number n"
proof -
  have n: "takeWhile (\<lambda>c. c \<noteq> CHR ''/'') (rev n) = rev n" using assms(1) by (intro takeWhile_eq_all_conv [THEN iffD2]) auto
  have "takeWhile (\<lambda>c. c \<noteq> CHR ''/'') (rev n @ CHR ''/'' # rev d) = rev n"
    using assms(1) by (subst takeWhile_append2) auto
  then have "c_basename (d @ ''/'' @ n) = n" "c_basename n = n" unfolding c_basename_def n by simp_all
  then show ?thesis using assms(2) by (simp add: part_number_def)
qed

lemma package_file_part: "is_package_file n \<Longrightarrow> part_number n = None \<or> part_number n = Some 1"
  by (auto simp: is_package_file_def multipart_is_part_filename_def split: option.splits if_splits)

lemma package_file_nonempty: "is_package_file n \<Longrightarrow> n \<noteq> []"
  by (auto simp: is_package_file_def multipart_is_part_filename_def part_number_def c_basename_def last_dot_def)

lemma walk_not_later_part:
  assumes "ordinary (source_walk w d ev)" "f \<in> set (map network_file (source_walk w d ev))"
  shows "part_number (fr_path f) = None \<or> part_number (fr_path f) = Some 1"
proof -
  obtain p n sz t where f: "(p, n, sz, t) \<in> set (source_walk w d ev)" "fr_path f = cstr_trunc 512 p"
    using assms(2) by (auto simp: network_file_def)
  then have o: "length p < 512" "CHR ''/'' \<notin> set n" using assms(1) by (auto simp: ordinary_def)
  obtain d' where "p = d' @ ''/'' @ n" "is_package_file n" using source_walk_below [OF f(1) o(1)] by blast
  then show ?thesis
    using last_part_name [OF o(2), of d'] package_file_part package_file_nonempty f(2) o(1) by (metis cstr_trunc_id)
qed

text \<open>Two lists that belong together one to one, by a key that is distinct in both.\<close>

lemma matched_lists:
  assumes "distinct (map a xs)" "distinct (map b ys)" "a ` set xs = b ` set ys"
    and "\<And>x y. x \<in> set xs \<Longrightarrow> y \<in> set ys \<Longrightarrow> a x = b y \<Longrightarrow> g x = h y"
  shows "mset (map g xs) = mset (map h ys)"
proof -
  define v where "v k = h (the_inv_into (set ys) b k)" for k
  have b: "the_inv_into (set ys) b (b y) = y" if "y \<in> set ys" for y
    using assms(2) that by (intro the_inv_into_f_f) (auto simp: distinct_map)
  have "h y = v (b y)" if "y \<in> set ys" for y using b that by (simp add: v_def)
  then have h: "map h ys = map v (map b ys)" by simp
  have "g x = v (a x)" if x: "x \<in> set xs" for x
  proof -
    obtain y where y: "y \<in> set ys" "a x = b y" using assms(3) x by blast
    then show ?thesis using assms(4) [OF x y] b by (simp add: v_def)
  qed
  then have g: "map g xs = map v (map a xs)" by simp
  have "mset (map a xs) = mset (map b ys)"
    using assms(1-3) by (subst set_eq_iff_mset_eq_distinct [symmetric]) simp_all
  then show ?thesis unfolding g h by (metis mset_map)
qed

lemma identical_like_fresh:
  assumes id: "source_identical i d fs s" and "coherent w d fs (ca_pkgs s)" and "distinct (map fr_path fs)"
    and own: "distinct (map (\<lambda>e. pd_path (ce_pkg e)) (ca_pkgs s))"
    and parts: "\<forall>f\<in>set fs. part_number (fr_path f) = None \<or> part_number (fr_path f) = Some 1"
  shows "details (filter (on_drive d) (ca_pkgs s)) = details (fresh_files w fs)"
proof (cases "fs = []")
  case True
  then show ?thesis using id by (simp add: source_identical_def Let_def)
next
  case False
  let ?mine = "filter (on_drive d) (ca_pkgs s)"
  have cur: "list_all (entry_current fs) ?mine" "list_all (file_recorded d (ca_files s) (ca_pkgs s)) fs"
    using id False by (simp_all add: source_identical_def Let_def)
  have rec: "\<exists>e\<in>set ?mine. fr_path f = pd_path (ce_pkg e)" if "f \<in> set fs" for f
    using cur(2) parts that
    by (fastforce simp: list_all_iff file_recorded_def list_ex_iff multipart_is_part_filename_def split: option.splits)
  have m: "fst (file_entry_of w f) \<and> ce_pkg (snd (file_entry_of w f)) = ce_pkg e"
    if fe: "f \<in> set fs" "e \<in> set ?mine" "fr_path f = pd_path (ce_pkg e)" for f e
  proof -
    obtain g where g: "g \<in> set fs" "fr_path g = pd_path (ce_pkg e)" "entry_matches d g e"
      using cur(1) fe(2) by (fastforce simp: list_all_iff entry_current_def list_ex_iff entry_matches_def)
    then have "g = f" using assms(3) fe by (metis (no_types, lifting) distinct_map inj_onD)
    then show ?thesis using assms(2) g fe by (auto simp: coherent_def)
  qed
  have "fst (file_entry_of w f)" if "f \<in> set fs" for f using m [OF that] rec [OF that] by blast
  then have "filter fst (map (file_entry_of w) fs) = map (file_entry_of w) fs" by (intro filter_True) auto
  then have fresh: "map ce_pkg (fresh_files w fs) = map (\<lambda>f. ce_pkg (snd (file_entry_of w f))) fs"
    by (simp add: fresh_files_def)
  have "mset (map ce_pkg ?mine) = mset (map (\<lambda>f. ce_pkg (snd (file_entry_of w f))) fs)"
  proof (rule matched_lists [where a = "\<lambda>e. pd_path (ce_pkg e)" and b = fr_path])
    show "distinct (map (\<lambda>e. pd_path (ce_pkg e)) ?mine)" using own by (simp add: distinct_map_filter)
    show "(\<lambda>e. pd_path (ce_pkg e)) ` set ?mine = fr_path ` set fs"
    proof (intro equalityI subsetI)
      fix k assume "k \<in> (\<lambda>e. pd_path (ce_pkg e)) ` set ?mine"
      then obtain e where e: "k = pd_path (ce_pkg e)" "e \<in> set ?mine" by blast
      then have "entry_current fs e" using cur(1) by (simp add: list_all_iff)
      then obtain f where "f \<in> set fs" "fr_path f = k" using e(1) by (auto simp: entry_current_def list_ex_iff)
      then show "k \<in> fr_path ` set fs" by blast
    next
      fix k assume "k \<in> fr_path ` set fs"
      then obtain f where f: "f \<in> set fs" "k = fr_path f" by blast
      then show "k \<in> (\<lambda>e. pd_path (ce_pkg e)) ` set ?mine" using rec [OF f(1)] by auto
    qed
    show "ce_pkg e = ce_pkg (snd (file_entry_of w f))"
      if "e \<in> set ?mine" "f \<in> set fs" "pd_path (ce_pkg e) = fr_path f" for e f
      by (rule m [OF that(2,1) that(3) [symmetric], THEN conjunct2, symmetric])
  qed (rule assms(3))
  then show ?thesis by (simp add: details_def fresh)
qed

end
