(* ===== verification/CatalogInv.thy ===== *)
theory CatalogInv
  imports CatalogEq
begin

text \<open>
  The catalogue over its lifetime: one scan at a time, bounded tables, only first parts
  listed, and a progress that never passes the total. A scan has two steps, the claim and
  the work; between them other calls may come in.
\<close>

section \<open>Starting a scan\<close>

datatype start_result = Busy | Failed | Started

text \<open>\<open>thread\<close>: the worker thread could be created.\<close>

definition pkg_scanner_start_scan :: "bool \<Rightarrow> scanner \<Rightarrow> start_result \<times> scanner" where
  "pkg_scanner_start_scan thread s =
     (case scan_claim s of
        (False, _) \<Rightarrow> (Busy, s)
      | (True, s1) \<Rightarrow> if thread then (Started, s1) else (Failed, scan_release s1))"

text \<open>The quick scan after its claim.\<close>

definition quick_body :: "scan_world \<Rightarrow> smb_source list \<Rightarrow> http_source list \<Rightarrow> string option \<Rightarrow> scanner \<Rightarrow> nat \<times> scanner" where
  "quick_body w smbs https sel s0 =
     (let a = fold (\<lambda>(i, label, path, ty). add_changes (quick_local w i label path ty)) (quick_local_sources w sel) (0, s0);
          b = fold (\<lambda>ic. add_changes (quick_smb w sel ic)) (enumerate 0 smbs) a;
          (n, s1) = fold (\<lambda>h. add_changes (quick_http w sel h)) https b
      in (n, scan_release (if n > 0 then sort_packages w s1 else s1)))"

lemma quick_claim_body:
  "pkg_scanner_scan_quick w smbs https sel s =
     (case scan_claim s of
        (False, _) \<Rightarrow> (length (ca_pkgs s), False, s)
      | (True, s0) \<Rightarrow> (case quick_body w smbs https sel s0 of (n, s2) \<Rightarrow> (length (ca_pkgs s2), n > 0, s2)))"
  by (simp add: pkg_scanner_scan_quick_def quick_body_def Let_def split: prod.split bool.split)

lemma scan_claim_body:
  "pkg_scanner_scan w smbs https s =
     (case scan_claim s of
        (False, _) \<Rightarrow> (length (ca_pkgs s), s)
      | (True, s1) \<Rightarrow> scan_full_owned w smbs https s1)"
  by (rule pkg_scanner_scan_def)

section \<open>The tables\<close>

definition first_part :: "pkg_detail \<Rightarrow> bool" where
  "first_part p \<longleftrightarrow> \<not> pd_is_multipart p \<or> pd_part_index p = 1"

definition listed_ok :: "cat_entry \<Rightarrow> bool" where
  "listed_ok e \<longleftrightarrow> first_part (ce_pkg e)"

definition tables_ok :: "scanner \<Rightarrow> bool" where
  "tables_ok s \<longleftrightarrow>
     length (ca_pkgs s) \<le> MAX_PACKAGES \<and> length (ca_drives s) \<le> MAX_DRIVES \<and> (\<forall>e\<in>set (ca_pkgs s). listed_ok e)"

text \<open>What every part of a scan keeps: good tables, the claim, and progress up to the total.\<close>

definition during :: "scanner \<Rightarrow> bool" where
  "during s \<longleftrightarrow> tables_ok s \<and> ca_active s \<and> ca_scanning s \<and> ca_done s \<le> ca_total s"

lemma add_drive_length: "length ds \<le> MAX_DRIVES \<Longrightarrow> length (add_drive_entry i l p t m n ds) \<le> MAX_DRIVES"
  by (simp add: add_drive_entry_def)

lemma fresh_listed: "e \<in> set (fresh w l) \<Longrightarrow> listed_ok e"
  by (auto simp: fresh_def listed_ok_def first_part_def parse_pkg_entry_def Let_def split: prod.splits)

lemma fresh_files_listed: "e \<in> set (fresh_files w fs) \<Longrightarrow> listed_ok e"
  by (auto simp: fresh_files_def file_entry_of_def listed_ok_def first_part_def parse_pkg_entry_def Let_def split: prod.splits)

lemma tables_append:
  "tables_ok s \<Longrightarrow> ca_pkgs s' = ca_pkgs s @ take (MAX_PACKAGES - length (ca_pkgs s)) l \<Longrightarrow> (\<And>e. e \<in> set l \<Longrightarrow> listed_ok e) \<Longrightarrow>
     length (ca_drives s') \<le> MAX_DRIVES \<Longrightarrow> tables_ok s'"
  by (auto simp: tables_ok_def dest: in_set_takeD)

lemma during_process_total:
  assumes "tables_ok s"
  shows "tables_ok (process_pkg_file w p n sz t s)"
  by (rule tables_append [OF assms process_fields(6)])
     (use assms in \<open>auto simp add: process_fields(3) tables_ok_def simp del: fresh_simps dest: fresh_listed\<close>)

lemma during_fold: "(\<And>x s. x \<in> set xs \<Longrightarrow> P s \<Longrightarrow> P (f x s)) \<Longrightarrow> P s \<Longrightarrow> P (fold f xs s)"
  by (induction xs arbitrary: s) auto

section \<open>The full scan\<close>

lemma scan_local_fields:
  "scan_local w (i, label, path, ty, ev) s =
     (let s1 = fold (process_listed w) (source_walk w path ev) s
      in s1\<lparr> ca_drives := add_drive_entry i label path ty True (length (ca_pkgs s1) - length (ca_pkgs s)) (ca_drives s1) \<rparr>)"
  by (simp add: scan_local_def scan_source_walk)

lemma scan_local_keeps:
  assumes "tables_ok s"
  shows "tables_ok (scan_local w src s)" "ca_active (scan_local w src s) = ca_active s"
    "ca_scanning (scan_local w src s) = ca_scanning s" "ca_total (scan_local w src s) = ca_total s"
    "ca_done (scan_local w src s) = ca_done s + (case src of (i, label, path, ty, ev) \<Rightarrow> count_source w path ev)"
proof -
  obtain i label path ty ev where src: "src = (i, label, path, ty, ev)" by (cases src) auto
  show "tables_ok (scan_local w src s)"
    using assms fresh_listed
    by (intro tables_append [OF assms, of _ "fresh w (source_walk w path ev)"])
       (simp_all add: src scan_local_fields Let_def process_all tables_ok_def add_drive_length)
  show "ca_active (scan_local w src s) = ca_active s"
    "ca_scanning (scan_local w src s) = ca_scanning s" "ca_total (scan_local w src s) = ca_total s"
    "ca_done (scan_local w src s) = ca_done s + (case src of (i, label, path, ty, ev) \<Rightarrow> count_source w path ev)"
    by (simp_all add: src scan_local_fields Let_def process_all count_source_walk)
qed

lemma scan_locals_keep:
  "tables_ok s \<Longrightarrow>
     tables_ok (fold (scan_local w) l s) \<and> ca_active (fold (scan_local w) l s) = ca_active s \<and>
     ca_scanning (fold (scan_local w) l s) = ca_scanning s \<and> ca_total (fold (scan_local w) l s) = ca_total s \<and>
     ca_done (fold (scan_local w) l s) =
       ca_done s + sum_list (map (\<lambda>(i, label, path, ty, ev). count_source w path ev) l)"
  by (induction l arbitrary: s) (simp_all add: scan_local_keeps)

lemma tables_fields [simp]: "tables_ok (s\<lparr> ca_total := k \<rparr>) = tables_ok s" "tables_ok (s\<lparr> ca_failed := k \<rparr>) = tables_ok s"
  by (simp_all add: tables_ok_def)

lemma during_network: "during s \<Longrightarrow> during (smb_pkg_scan_cb w p n sz t s)"
  by (simp add: during_def smb_pkg_scan_cb_def Let_def process_fields during_process_total)

lemma during_drives: "during s \<Longrightarrow> during (s\<lparr> ca_drives := add_drive_entry i l p t m n (ca_drives s) \<rparr>)"
  by (simp add: during_def tables_ok_def add_drive_length)

lemma during_failed: "during s \<Longrightarrow> during (s\<lparr> ca_failed := k \<rparr>)"
  by (simp add: during_def tables_ok_def)

lemma during_full_smb: "during s \<Longrightarrow> during (full_smb w ic s)"
proof -
  assume d: "during s"
  obtain i c where ic: "ic = (i, c)" by (cases ic) auto
  show "during (full_smb w ic s)"
  proof (cases "Option.bind (sb_files c) quick_network_files")
    case None
    then show ?thesis
      using during_drives [OF d] during_drives [OF during_failed [OF d]] d by (simp add: full_smb_def ic)
  next
    case (Some fs)
    have "during (fold (\<lambda>f. smb_pkg_scan_cb w (fr_path f) (fr_name f) (fr_size f) (fr_mtime f)) fs s)"
      by (rule during_fold) (simp_all add: d during_network)
    from during_drives [OF this] show ?thesis
      using during_drives [OF d] d Some by (simp add: full_smb_def ic Let_def)
  qed
qed

lemma during_full_http: "during s \<Longrightarrow> during (full_http w h s)"
proof -
  assume d: "during s"
  define s1 where "s1 = fold (\<lambda>(p, n, sz, t). smb_pkg_scan_cb w p n sz t) (hs_files h) s"
  have "during s1" unfolding s1_def by (rule during_fold) (auto simp: d during_network)
  then show "during (full_http w h s)"
    using d during_drives [of s1] during_drives [OF during_failed [of s1]]
    by (simp add: full_http_def Let_def s1_def [symmetric])
qed

text \<open>A sort permutes.\<close>

definition sorts :: "scan_world \<Rightarrow> bool" where
  "sorts w \<longleftrightarrow> (\<forall>l. mset (sw_sort w l) = mset l)"

lemma tables_sort: "sorts w \<Longrightarrow> tables_ok s \<Longrightarrow> tables_ok (sort_packages w s)"
proof -
  assume "sorts w" and t: "tables_ok s"
  then have m: "mset (sw_sort w (ca_pkgs s)) = mset (ca_pkgs s)" by (simp add: sorts_def)
  show "tables_ok (sort_packages w s)"
    using t mset_eq_length [OF m] mset_eq_setD [OF m] by (simp add: sort_packages_def tables_ok_def)
qed

lemma sort_fields [simp]:
  "ca_drives (sort_packages w s) = ca_drives s" "ca_active (sort_packages w s) = ca_active s"
  "ca_scanning (sort_packages w s) = ca_scanning s" "ca_total (sort_packages w s) = ca_total s"
  "ca_done (sort_packages w s) = ca_done s"
  by (simp_all add: sort_packages_def)

section \<open>The quick scan\<close>

lemma during_cong:
  "tables_ok s' \<Longrightarrow> ca_active s' = ca_active s \<Longrightarrow> ca_scanning s' = ca_scanning s \<Longrightarrow> ca_done s' = ca_done s \<Longrightarrow>
     ca_total s' = ca_total s \<Longrightarrow> during s \<Longrightarrow> during s'"
  by (simp add: during_def)

lemma update_drive_length [simp]: "length (update_drive i d f ds) = length ds"
  by (induction ds) auto

lemma note_drive_length: "length ds \<le> MAX_DRIVES \<Longrightarrow> length (note_drive i label d ty n m ds) \<le> MAX_DRIVES"
  by (simp add: note_drive_def add_drive_length)

lemma during_shrink:
  assumes "during s" "set (ca_pkgs s') \<subseteq> set (ca_pkgs s)" "length (ca_pkgs s') \<le> length (ca_pkgs s)"
    "length (ca_drives s') \<le> MAX_DRIVES" "ca_active s' = ca_active s" "ca_scanning s' = ca_scanning s"
    "ca_done s' = ca_done s" "ca_total s' = ca_total s"
  shows "during s'"
  using assms by (auto simp: during_def tables_ok_def)

lemma during_unmounted: "during s \<Longrightarrow> during (snd (source_unmounted i d s))"
  by (rule during_shrink [of s]) (auto simp: source_unmounted_def Let_def during_def tables_ok_def)

lemma during_browse: "during s \<Longrightarrow> during (snd (quick_browse i label root dir s))"
  by (rule during_shrink [of s]) (auto simp: quick_browse_def Let_def during_def tables_ok_def add_drive_length)

text \<open>Matching only changes times.\<close>

lemma match_all:
  assumes "fold (match_file d) fs (pkgs, upd, todo) = (pkgs', upd', todo')"
    and "\<forall>e\<in>set pkgs. P (ce_pkg e)" "\<forall>e\<in>set upd. P (ce_pkg e)"
  shows "(\<forall>e\<in>set pkgs'. P (ce_pkg e)) \<and> (\<forall>e\<in>set upd'. P (ce_pkg e))"
  using assms
proof (induction fs arbitrary: pkgs upd todo)
  case (Cons f fs)
  obtain p1 u1 t1 where m: "match_file d f (pkgs, upd, todo) = (p1, u1, t1)" by (metis prod_cases3)
  then have "(\<forall>e\<in>set p1. P (ce_pkg e)) \<and> (\<forall>e\<in>set u1. P (ce_pkg e))"
  proof (cases rule: match_file_cases)
    case (found i e)
    have "P (ce_pkg e)" using Cons.prems(2) found(1,3) by simp
    then show ?thesis using Cons.prems(2,3) found(4,5) set_update_subset_insert [of pkgs i e] by auto
  qed (use Cons.prems in simp)
  then show ?case using Cons.IH [of p1 u1 t1] Cons.prems(1) m by simp
qed simp

lemma update_fields:
  "ca_active (update_source w i label d ty fs s) = ca_active s"
  "ca_scanning (update_source w i label d ty fs s) = ca_scanning s"
  "ca_done (update_source w i label d ty fs s) = ca_done s"
  "ca_total (update_source w i label d ty fs s) = ca_total s"
  by (simp_all add: update_source_def Let_def split: prod.split)

lemma update_drives_length:
  "length (ca_drives s) \<le> MAX_DRIVES \<Longrightarrow> length (ca_drives (update_source w i label d ty fs s)) \<le> MAX_DRIVES"
  by (simp add: update_source_def Let_def note_drive_length split: prod.split)

lemma tables_take:
  assumes "ca_pkgs s = kept @ take (MAX_PACKAGES - length kept) l"
    and "length kept \<le> MAX_PACKAGES" "\<forall>e\<in>set (kept @ l). listed_ok e" "length (ca_drives s) \<le> MAX_DRIVES"
  shows "tables_ok s"
proof -
  have "listed_ok e" if "e \<in> set (ca_pkgs s)" for e
    using that assms(3) unfolding assms(1) by (auto dest: in_set_takeD)
  moreover have "length (ca_pkgs s) \<le> MAX_PACKAGES" using assms(2) unfolding assms(1) by simp
  ultimately show ?thesis using assms(4) by (simp add: tables_ok_def)
qed

lemma during_update:
  assumes "during s"
  shows "during (update_source w i label d ty fs s)"
proof (rule during_cong [OF _ update_fields(1-4) assms], rule update_parts [of d fs s w i label ty])
  fix pkgs upd todo provisional new
  assume u: "fold (match_file d) fs (ca_pkgs s, [], []) = (pkgs, upd, todo)" "new = upd @ fresh_files w todo"
    "ca_pkgs (update_source w i label d ty fs s) = filter (keep_entry d provisional fs new) pkgs @
       take (MAX_PACKAGES - length (filter (keep_entry d provisional fs new) pkgs)) new"
  let ?kept = "filter (keep_entry d provisional fs new) pkgs"
  have t: "tables_ok s" using assms by (simp add: during_def)
  have "\<forall>e\<in>set (ca_pkgs s). first_part (ce_pkg e)" using t by (simp add: tables_ok_def listed_ok_def)
  from match_all [OF u(1) this] have l: "\<forall>e\<in>set pkgs. listed_ok e" "\<forall>e\<in>set upd. listed_ok e"
    unfolding listed_ok_def by (metis empty_iff empty_set)+
  have "length pkgs = length (ca_pkgs s)" using match_others [OF u(1)] by (metis length_map)
  then have "length ?kept \<le> MAX_PACKAGES"
    using t length_filter_le [of "keep_entry d provisional fs new" pkgs] by (simp add: tables_ok_def)
  moreover have "\<forall>e\<in>set (?kept @ new). listed_ok e" using l u(2) fresh_files_listed by auto
  ultimately show "tables_ok (update_source w i label d ty fs s)"
    using tables_take [OF u(3)] update_drives_length [of s w i label d ty fs] t by (simp add: tables_ok_def)
qed

lemma during_quick_source: "during s \<Longrightarrow> during (snd (quick_source w i label d ty fs s))"
proof (cases "source_identical i d fs s")
  case True
  assume "during s"
  then show ?thesis
    by (rule during_shrink) (use \<open>during s\<close> True in \<open>simp_all add: quick_source_def Let_def during_def tables_ok_def note_drive_length\<close>)
qed (simp add: quick_source_def during_update)

lemma during_quick_local: "during s \<Longrightarrow> during (snd (quick_local w i label d ty s))"
  by (simp add: quick_local_def during_unmounted during_quick_source)

lemma during_quick_network: "during s \<Longrightarrow> during (snd (quick_network w i label d ty l s))"
  by (simp add: quick_network_def during_quick_source split: option.split)

lemma during_quick_smb: "during s \<Longrightarrow> during (snd (quick_smb w sel ic s))"
  by (simp add: quick_smb_def Let_def during_browse during_quick_network split: prod.split)

lemma during_quick_http: "during s \<Longrightarrow> during (snd (quick_http w sel h s))"
  by (simp add: quick_http_def during_quick_network)

lemma snd_add_changes [simp]: "snd (add_changes f st) = snd (f (snd st))"
  by (simp add: add_changes_def split: prod.split)

section \<open>The work of a scan\<close>

definition idle_ok :: "scanner \<Rightarrow> bool" where
  "idle_ok s \<longleftrightarrow> tables_ok s \<and> \<not> ca_active s \<and> \<not> ca_scanning s \<and> ca_done s \<le> ca_total s"

lemma released: "during s \<Longrightarrow> idle_ok (scan_release s)"
  by (simp add: during_def idle_ok_def scan_release_def tables_ok_def)

lemma during_sort: "sorts w \<Longrightarrow> during s \<Longrightarrow> during (sort_packages w s)"
  by (simp add: during_def tables_sort)

lemma full_work_keeps:
  assumes "sorts w" "during s"
  shows "idle_ok (snd (scan_full_owned w smbs https s))"
proof -
  define s0 where "s0 = s\<lparr> ca_pkgs := [], ca_drives := [], ca_files := [], ca_scanning := True, ca_failed := 0,
                  ca_total := expected_files w smbs https, ca_done := 0 \<rparr>"
  define s1 where "s1 = fold (scan_local w) (local_sources w) s0"
  have "tables_ok s0" by (simp add: s0_def tables_ok_def)
  note k = scan_locals_keep [OF this, of w "local_sources w", folded s1_def]
  have "ca_active s0" "ca_scanning s0" "ca_done s0 = 0"
    "sum_list (map (\<lambda>(i, label, path, ty, ev). count_source w path ev) (local_sources w)) \<le> ca_total s0"
    using assms(2) by (simp_all add: s0_def expected_files_def during_def)
  then have "during s1" using k by (simp add: during_def)
  then have "during (fold (full_smb w) (enumerate 0 smbs) s1)"
    by (rule during_fold [where P = during, rotated]) (rule during_full_smb)
  then have "during (fold (full_http w) https (fold (full_smb w) (enumerate 0 smbs) s1))"
    by (rule during_fold [where P = during, rotated]) (rule during_full_http)
  from released [OF during_sort [OF assms(1) this]] show ?thesis
    unfolding scan_full_owned_def s0_def [symmetric] by (simp add: Let_def s1_def)
qed

text \<open>With local sources only, every file that was counted is reported as done.\<close>

lemma local_progress_complete:
  "ca_done (snd (scan_full_owned w [] [] s)) = ca_total (snd (scan_full_owned w [] [] s))"
proof -
  define s0 where "s0 = s\<lparr> ca_pkgs := [], ca_drives := [], ca_files := [], ca_scanning := True, ca_failed := 0,
                  ca_total := expected_files w [] [], ca_done := 0 \<rparr>"
  have "tables_ok s0" by (simp add: s0_def tables_ok_def)
  note k = scan_locals_keep [OF this, of w "local_sources w"]
  have "ca_done s0 = 0"
    "ca_total s0 = sum_list (map (\<lambda>(i, label, path, ty, ev). count_source w path ev) (local_sources w))"
    by (simp_all add: s0_def expected_files_def)
  then have "ca_done (fold (scan_local w) (local_sources w) s0) = ca_total (fold (scan_local w) (local_sources w) s0)"
    using k by (simp only:)
  then show ?thesis unfolding scan_full_owned_def s0_def [symmetric] by (simp add: Let_def scan_release_def)
qed

lemma quick_work_keeps:
  assumes "sorts w" "during s"
  shows "idle_ok (snd (quick_body w smbs https sel s))"
proof -
  define a where "a = fold (\<lambda>(i, label, path, ty). add_changes (quick_local w i label path ty)) (quick_local_sources w sel) (0, s)"
  define b where "b = fold (\<lambda>ic. add_changes (quick_smb w sel ic)) (enumerate 0 smbs) a"
  define c where "c = fold (\<lambda>h. add_changes (quick_http w sel h)) https b"
  have "during (snd a)" unfolding a_def
    by (rule during_fold [where P = "\<lambda>st. during (snd st)"]) (auto simp: assms(2) during_quick_local)
  then have "during (snd b)" unfolding b_def
    by (rule during_fold [where P = "\<lambda>st. during (snd st)", rotated]) (simp add: during_quick_smb)
  then have "during (snd c)" unfolding c_def
    by (rule during_fold [where P = "\<lambda>st. during (snd st)", rotated]) (simp add: during_quick_http)
  moreover have "quick_body w smbs https sel s =
      (fst c, scan_release (if fst c > 0 then sort_packages w (snd c) else snd c))"
    by (simp add: quick_body_def Let_def a_def b_def c_def split: prod.split)
  ultimately show ?thesis using released during_sort [OF assms(1)] by simp
qed

section \<open>Reachable states\<close>

datatype job = Full_job | Quick_job "string option"

text \<open>The catalogue and the job that holds the claim. Files and sources may differ from
  step to step.\<close>

inductive cat_step :: "scanner \<times> job option \<Rightarrow> scanner \<times> job option \<Rightarrow> bool" where
  claim: "scan_claim s = (True, s1) \<Longrightarrow> cat_step (s, j) (s1, Some k)"
| refused: "scan_claim s = (False, s1) \<Longrightarrow> cat_step (s, j) (s1, j)"
| start: "pkg_scanner_start_scan thread s = (r, s1) \<Longrightarrow> cat_step (s, j) (s1, if r = Started then Some Full_job else j)"
| full_work: "sorts w \<Longrightarrow> scan_full_owned w smbs https s = (n, s1) \<Longrightarrow> cat_step (s, Some Full_job) (s1, None)"
| quick_work: "sorts w \<Longrightarrow> quick_body w smbs https sel s = (n, s1) \<Longrightarrow> cat_step (s, Some (Quick_job sel)) (s1, None)"

inductive_cases cat_stepE: "cat_step (s, j) (s', j')"

inductive cat_reach :: "scanner \<times> job option \<Rightarrow> bool" where
  init: "idle_ok s \<Longrightarrow> cat_reach (s, None)"
| next_state: "cat_reach st \<Longrightarrow> cat_step st st' \<Longrightarrow> cat_reach st'"

definition cat_inv :: "scanner \<times> job option \<Rightarrow> bool" where
  "cat_inv st \<longleftrightarrow> (case st of (s, None) \<Rightarrow> idle_ok s | (s, Some k) \<Rightarrow> during s)"

lemma scan_claim_result:
  "scan_claim s = (True, s1) \<longleftrightarrow> \<not> ca_active s \<and>
     s1 = s\<lparr> ca_active := True, ca_scanning := True, ca_failed := 0, ca_total := 0, ca_done := 0 \<rparr>"
  "scan_claim s = (False, s1) \<longleftrightarrow> ca_active s \<and> s1 = s"
  by (auto simp: scan_claim_def)

lemma claimed: "scan_claim s = (True, s1) \<Longrightarrow> tables_ok s \<Longrightarrow> during s1"
  by (simp add: scan_claim_result during_def tables_ok_def)

lemma start_cases:
  assumes "pkg_scanner_start_scan thread s = (r, s1)" "cat_inv (s, j)"
  shows "cat_inv (s1, if r = Started then Some Full_job else j)"
proof (cases "ca_active s")
  case True
  then show ?thesis using assms by (auto simp: pkg_scanner_start_scan_def scan_claim_def)
next
  case False
  then obtain c where c: "scan_claim s = (True, c)" by (simp add: scan_claim_def)
  have j: "j = None" "tables_ok s" using assms(2) False by (auto simp: cat_inv_def during_def idle_ok_def split: option.splits)
  then have "during c" using claimed [OF c] by simp
  then show ?thesis
    using assms(1) j released by (auto simp: pkg_scanner_start_scan_def c cat_inv_def split: if_splits)
qed

lemma cat_step_keeps: "cat_step st st' \<Longrightarrow> cat_inv st \<Longrightarrow> cat_inv st'"
proof (induction rule: cat_step.induct)
  case (claim s s1 j k)
  then have "tables_ok s" by (auto simp: cat_inv_def during_def idle_ok_def split: option.splits)
  then show ?case using claimed claim(1) by (simp add: cat_inv_def)
next
  case (refused s s1 j)
  then show ?case by (simp add: scan_claim_result)
next
  case (start thread s r s1 j)
  then show ?case by (rule start_cases)
next
  case (full_work w smbs https s n s1)
  then have "idle_ok (snd (scan_full_owned w smbs https s))" by (intro full_work_keeps) (simp_all add: cat_inv_def)
  then show ?case using full_work by (simp add: cat_inv_def)
next
  case (quick_work w smbs https sel s n s1)
  then have "idle_ok (snd (quick_body w smbs https sel s))" by (intro quick_work_keeps) (simp_all add: cat_inv_def)
  then show ?case using quick_work by (simp add: cat_inv_def)
qed

lemma cat_reach_inv: "cat_reach st \<Longrightarrow> cat_inv st"
  by (induction rule: cat_reach.induct) (auto simp: cat_inv_def [of "(_, None)"] intro: cat_step_keeps)

end
