(* ===== verification/CatalogFind.thy ===== *)
theory CatalogFind
  imports CatalogInv
begin

text \<open>
  The search for a part as a search in one list: the files in the order in which the drives
  and their scan folders are visited, of which the first one that is the part is found.
\<close>

section \<open>The files visited\<close>

function files_below :: "scan_world \<Rightarrow> string \<Rightarrow> nat \<Rightarrow> string list" where
  "files_below w dir depth =
     (if depth > 5 then []
      else
      case dir_nodes w dir of
        None \<Rightarrow> []
      | Some es \<Rightarrow>
          concat (map (\<lambda>(p, n, k).
            (case k of
               Directory \<Rightarrow> files_below w p (depth + 1)
             | Regular _ _ \<Rightarrow> [p]
             | Other_node \<Rightarrow> [])) es))"
  by pat_completeness auto
termination
  by (relation "measure (\<lambda>(w, dir, depth). 6 - depth)") auto

declare files_below.simps [simp del]

definition location_files :: "scan_world \<Rightarrow> string \<Rightarrow> string list" where
  "location_files w dir =
     (case dir_nodes w dir of
        None \<Rightarrow> []
      | Some es \<Rightarrow>
          concat (map (\<lambda>(p, n, k).
            (case k of
               Regular _ _ \<Rightarrow> [p]
             | Directory \<Rightarrow> if is_scan_subdir n then files_below w p 0 else []
             | Other_node \<Rightarrow> [])) es))"

text \<open>A file that is the part wanted: its name is that of a part, its header can be read,
  is of the package, and has the number.\<close>

definition the_part :: "scan_world \<Rightarrow> byte list option \<Rightarrow> string option \<Rightarrow> nat \<Rightarrow> string \<Rightarrow> bool" where
  "the_part w uuid fname idx path \<longleftrightarrow>
     fst (multipart_is_part_filename path 0) \<and>
     (case multipart_read_header (sw_header w) path of
        Inl _ \<Rightarrow> False
      | Inr h \<Rightarrow> part_matches uuid fname h \<and> mh_part_index h = idx)"

definition visit ::
  "scan_world \<Rightarrow> byte list option \<Rightarrow> string option \<Rightarrow> nat \<Rightarrow> string list \<Rightarrow> string option \<times> nat \<Rightarrow> string option \<times> nat" where
  "visit w uuid fname idx ps st = fold (\<lambda>p st. if fst st \<noteq> None then st else check_part_file w uuid fname idx p st) ps st"

lemma visit_found: "fst st \<noteq> None \<Longrightarrow> visit w uuid fname idx ps st = st"
  unfolding visit_def by (induction ps) auto

lemma visit_simps [simp]:
  "visit w uuid fname idx [] st = st"
  "fst st = None \<Longrightarrow> visit w uuid fname idx [p] st = check_part_file w uuid fname idx p st"
  by (simp_all add: visit_def)

lemma visit_concat_map:
  "visit w uuid fname idx (concat (map g xs)) st = fold (\<lambda>x. visit w uuid fname idx (g x)) xs st"
  unfolding visit_def by (rule fold_concat_map)

lemma find_walk:
  "scan_find_part_recursive w uuid fname idx dir depth st = visit w uuid fname idx (files_below w dir depth) st"
proof (induction w uuid fname idx dir depth st rule: scan_find_part_recursive.induct)
  case (1 w uuid fname idx dir depth st)
  show ?case
  proof (cases "depth > 5")
    case True
    then show ?thesis by (simp add: scan_find_part_recursive.simps [of w] files_below.simps [of w])
  next
    case False
    show ?thesis
    proof (cases "dir_nodes w dir")
      case None
      then show ?thesis by (simp add: scan_find_part_recursive.simps [of w] files_below.simps [of w])
    next
      case (Some es)
      have e: "(if fst s \<noteq> None then s
                else case k of Directory \<Rightarrow> scan_find_part_recursive w uuid fname idx p (Suc depth) s
                  | Regular a b \<Rightarrow> check_part_file w uuid fname idx p s | Other_node \<Rightarrow> s) =
               visit w uuid fname idx (case k of Directory \<Rightarrow> files_below w p (Suc depth)
                  | Regular a b \<Rightarrow> [p] | Other_node \<Rightarrow> []) s"
        if "(p, n, k) \<in> set es" for p n k s
        using 1 [OF False Some that refl refl, of s] visit_found [of s] by (cases k) auto
      show ?thesis
        unfolding scan_find_part_recursive.simps [of w uuid fname idx dir] files_below.simps [of w dir] Suc_eq_plus1 [symmetric]
        using False Some e by (auto simp: visit_concat_map intro!: fold_same)
    qed
  qed
qed

lemma location_walk:
  "scan_find_part_in_location w uuid fname idx dir st = visit w uuid fname idx (location_files w dir) st"
proof (cases "dir_nodes w dir")
  case None
  then show ?thesis by (simp add: scan_find_part_in_location_def location_files_def)
next
  case (Some es)
  have e: "(if fst s \<noteq> None then s
            else case k of Regular a b \<Rightarrow> check_part_file w uuid fname idx p s
              | Directory \<Rightarrow> if is_scan_subdir n then scan_find_part_recursive w uuid fname idx p 0 s else s
              | Other_node \<Rightarrow> s) =
           visit w uuid fname idx (case k of Regular a b \<Rightarrow> [p]
              | Directory \<Rightarrow> if is_scan_subdir n then files_below w p 0 else [] | Other_node \<Rightarrow> []) s" for p n k s
    using visit_found [of s] by (cases k) (auto simp: find_walk)
  show ?thesis
    unfolding scan_find_part_in_location_def location_files_def
    using Some e by (auto simp: visit_concat_map intro!: fold_same)
qed

definition part_files :: "scan_world \<Rightarrow> string list" where
  "part_files w = concat (map (location_files w) (part_locations w))"

lemma locations_walk:
  "fold (\<lambda>dir st. if fst st \<noteq> None then st else scan_find_part_in_location w uuid fname idx dir st) (part_locations w) st =
   visit w uuid fname idx (part_files w) st"
  unfolding part_files_def visit_concat_map by (rule fold_same) (simp add: location_walk visit_found)

section \<open>The first of them\<close>

lemma check_the_part:
  "fst (check_part_file w uuid fname idx p st) = (if the_part w uuid fname idx p then Some p else fst st)"
  by (auto simp: check_part_file_def the_part_def split: sum.split)

lemma visit_first: "fst (visit w uuid fname idx ps (None, k)) = find (the_part w uuid fname idx) ps"
proof (induction ps arbitrary: k)
  case (Cons p ps)
  have c: "visit w uuid fname idx (p # ps) (None, k) = visit w uuid fname idx ps (check_part_file w uuid fname idx p (None, k))"
    by (simp add: visit_def)
  show ?case
  proof (cases "the_part w uuid fname idx p")
    case True
    then show ?thesis using c check_the_part [of w uuid fname idx p "(None, k)"] by (simp add: visit_found)
  next
    case False
    then obtain k' where "check_part_file w uuid fname idx p (None, k) = (None, k')"
      using check_the_part [of w uuid fname idx p "(None, k)"] by (metis fst_conv prod.collapse)
    then show ?thesis using c Cons.IH [of k'] False by simp
  qed
qed simp

text \<open>The other part reported is one of the same package with another number.\<close>

definition another_part :: "scan_world \<Rightarrow> byte list option \<Rightarrow> string option \<Rightarrow> nat \<Rightarrow> nat \<Rightarrow> string \<Rightarrow> bool" where
  "another_part w uuid fname idx n path \<longleftrightarrow>
     fst (multipart_is_part_filename path 0) \<and>
     (case multipart_read_header (sw_header w) path of
        Inl _ \<Rightarrow> False
      | Inr h \<Rightarrow> part_matches uuid fname h \<and> mh_part_index h = n \<and> n \<noteq> idx)"

lemma check_other:
  "snd (check_part_file w uuid fname idx p (None, k)) = k \<or>
   k = 0 \<and> another_part w uuid fname idx (snd (check_part_file w uuid fname idx p (None, k))) p"
  by (auto simp: check_part_file_def another_part_def split: sum.split)

lemma visit_other:
  "snd (visit w uuid fname idx ps (None, k)) = k \<or>
   (\<exists>p\<in>set ps. another_part w uuid fname idx (snd (visit w uuid fname idx ps (None, k))) p)"
proof (induction ps arbitrary: k)
  case (Cons p ps)
  obtain f k' where c: "check_part_file w uuid fname idx p (None, k) = (f, k')" by (metis prod.collapse)
  then have v: "visit w uuid fname idx (p # ps) (None, k) = visit w uuid fname idx ps (f, k')" by (simp add: visit_def)
  show ?case
  proof (cases f)
    case None
    then show ?thesis using v check_other [of w uuid fname idx p k] c Cons.IH [of k'] by auto
  next
    case (Some x)
    then have "visit w uuid fname idx ps (f, k') = (f, k')" by (simp add: visit_found)
    then show ?thesis using v check_other [of w uuid fname idx p k] c by auto
  qed
qed simp

end
