(* ===== verification/CatalogOthers.thy ===== *)
theory CatalogOthers
  imports CatalogFind
begin

text \<open>
  A quick scan of some sources leaves the entries of all others alone.
\<close>

section \<open>Sources that are not scanned\<close>

definition scan_roots :: "scan_world \<Rightarrow> smb_source list \<Rightarrow> http_source list \<Rightarrow> string option \<Rightarrow> string list" where
  "scan_roots w smbs https sel =
     map (\<lambda>(i, label, path, ty). path) (quick_local_sources w sel) @
     map (\<lambda>(i, c). share_root c)
       (filter (\<lambda>(i, c). chosen sel [source_id i c, share_root c] \<or> chosen_below sel (share_root c)) (enumerate 0 smbs)) @
     map hs_url (filter (\<lambda>h. chosen sel [hs_id h, hs_url h] \<or> chosen_below sel (hs_url h)) https)"

definition elsewhere :: "string list \<Rightarrow> cat_entry \<Rightarrow> bool" where
  "elsewhere roots e \<longleftrightarrow> list_all (\<lambda>d. \<not> on_drive d e) roots"

text \<open>Every source lists files below its own root.\<close>

definition listed_below :: "scan_world \<Rightarrow> smb_source list \<Rightarrow> http_source list \<Rightarrow> string option \<Rightarrow> bool" where
  "listed_below w smbs https sel \<longleftrightarrow>
     list_all (\<lambda>(i, label, d, ty). ordinary (source_walk w d (sw_env w ''PKG_SCAN_DIR'' = Some d))) (quick_local_sources w sel) \<and>
     list_all (\<lambda>c. case sb_files c of None \<Rightarrow> True
       | Some l \<Rightarrow> list_all (\<lambda>(p, n, sz, t). pkg_matches_drive_path p (share_root c)) l) smbs \<and>
     list_all (\<lambda>h. list_all (\<lambda>(p, n, sz, t). pkg_matches_drive_path p (hs_url h)) (hs_files h)) https"

lemma elsewhere_filter:
  assumes "d \<in> set roots" "filter (\<lambda>e. \<not> on_drive d e) es = filter (\<lambda>e. \<not> on_drive d e) es'"
  shows "filter (elsewhere roots) es = filter (elsewhere roots) es'"
proof -
  have e: "filter (elsewhere roots) l = filter (elsewhere roots) (filter (\<lambda>e. \<not> on_drive d e) l)" for l
    using assms(1) by (auto simp: elsewhere_def list_all_iff intro: filter_cong)
  show ?thesis by (subst (1 2) e) (simp only: assms(2))
qed

lemma quick_source_others:
  "honest w \<Longrightarrow> files_on d fs \<Longrightarrow>
     filter (\<lambda>e. \<not> on_drive d e) (ca_pkgs (snd (quick_source w i label d ty fs s))) = filter (\<lambda>e. \<not> on_drive d e) (ca_pkgs s)"
  by (simp add: quick_source_def Let_def update_keeps_others)

lemma quick_local_others:
  assumes "honest w" "ordinary (source_walk w d (sw_env w ''PKG_SCAN_DIR'' = Some d))"
  shows "filter (\<lambda>e. \<not> on_drive d e) (ca_pkgs (snd (quick_local w i label d ty s))) = filter (\<lambda>e. \<not> on_drive d e) (ca_pkgs s)"
proof (cases "is_drive_mounted w d")
  case True
  then have "d \<noteq> []" by (simp add: is_drive_mounted_def)
  then show ?thesis
    using True quick_source_others [OF assms(1) ordinary_on [OF assms(2)]] by (simp add: quick_local_def quick_files_walk)
qed (simp add: quick_local_def source_unmounted_def Let_def)

lemma quick_network_others:
  assumes "honest w" "case x of None \<Rightarrow> True | Some l \<Rightarrow> list_all (\<lambda>(p, n, sz, t). pkg_matches_drive_path p d) l"
  shows "filter (\<lambda>e. \<not> on_drive d e) (ca_pkgs (snd (quick_network w i label d ty x s))) = filter (\<lambda>e. \<not> on_drive d e) (ca_pkgs s)"
proof (cases "Option.bind x quick_network_files")
  case (Some fs)
  then obtain l where l: "x = Some l" "quick_network_files l = Some fs" by (cases x) auto
  have "files_on d fs"
    using l assms(2)
    by (force simp: quick_network_files_def Let_def files_on_def list_all_iff list_ex_iff network_file_def cstr_trunc_id
        split: if_splits)
  then show ?thesis using Some quick_source_others [OF assms(1)] by (simp add: quick_network_def)
qed (simp add: quick_network_def)

lemma on_drive_below: "length root < 512 \<Longrightarrow> on_drive (cstr_trunc 1024 (root @ (if dir \<noteq> [] then ''/'' else []) @ dir)) e \<Longrightarrow>
   root \<noteq> [] \<Longrightarrow> on_drive root e"
  by (cases "dir = []")
     (auto simp: on_drive_def pkg_matches_drive_path_def cstr_trunc_def starts_with_iff nth_append)

lemma share_root_bounds: "share_root c \<noteq> []" "length (share_root c) < 512"
  by (simp_all add: share_root_def cstr_trunc_def)

lemma quick_smb_others:
  assumes "honest w" "case sb_files c of None \<Rightarrow> True
       | Some l \<Rightarrow> list_all (\<lambda>(p, n, sz, t). pkg_matches_drive_path p (share_root c)) l"
  shows "filter (\<lambda>e. \<not> on_drive (share_root c) e) (ca_pkgs (snd (quick_smb w sel (i, c) s))) =
         filter (\<lambda>e. \<not> on_drive (share_root c) e) (ca_pkgs s)"
proof -
  have b: "filter (\<lambda>e. \<not> on_drive (share_root c) e) (ca_pkgs (snd (quick_browse x label (share_root c) dir s))) =
      filter (\<lambda>e. \<not> on_drive (share_root c) e) (ca_pkgs s)" for x label dir
    using on_drive_below [OF share_root_bounds(2) _ share_root_bounds(1), of c dir]
    by (auto simp: quick_browse_def Let_def intro: filter_cong)
  show ?thesis by (simp add: quick_smb_def Let_def b quick_network_others [OF assms])
qed

lemma elsewhere_fold:
  assumes "\<And>x s. x \<in> set xs \<Longrightarrow> filter (elsewhere roots) (ca_pkgs (snd (f x s))) = filter (elsewhere roots) (ca_pkgs s)"
  shows "filter (elsewhere roots) (ca_pkgs (snd (fold (\<lambda>x. add_changes (f x)) xs st))) = filter (elsewhere roots) (ca_pkgs (snd st))"
  using assms by (induction xs arbitrary: st) simp_all

lemma locals_elsewhere:
  assumes "honest w" "listed_below w smbs https sel" "R = scan_roots w smbs https sel"
  shows "filter (elsewhere R) (ca_pkgs (snd (fold (\<lambda>(i, label, path, ty). add_changes (quick_local w i label path ty))
      (quick_local_sources w sel) st))) = filter (elsewhere R) (ca_pkgs (snd st))"
proof -
  have "filter (elsewhere R) (ca_pkgs (snd (fold (\<lambda>x. add_changes (case x of (i, label, path, ty) \<Rightarrow> quick_local w i label path ty))
      (quick_local_sources w sel) st))) = filter (elsewhere R) (ca_pkgs (snd st))"
  proof (rule elsewhere_fold)
    fix x s assume x: "x \<in> set (quick_local_sources w sel)"
    obtain i label d ty where e: "x = (i, label, d, ty)" by (metis prod_cases4)
    have d: "d \<in> set R" using x by (force simp: assms(3) scan_roots_def e)
    have o: "ordinary (source_walk w d (sw_env w ''PKG_SCAN_DIR'' = Some d))"
      using assms(2) x by (force simp: listed_below_def list_all_iff e)
    show "filter (elsewhere R) (ca_pkgs (snd ((case x of (i, label, path, ty) \<Rightarrow> quick_local w i label path ty) s))) =
        filter (elsewhere R) (ca_pkgs s)"
      unfolding e prod.case by (rule elsewhere_filter [OF d quick_local_others [OF assms(1) o]])
  qed
  moreover have "(\<lambda>(i, label, path, ty). add_changes (quick_local w i label path ty)) =
      (\<lambda>x. add_changes (case x of (i, label, path, ty) \<Rightarrow> quick_local w i label path ty))"
    by (simp add: fun_eq_iff)
  ultimately show ?thesis by simp
qed

lemma smbs_elsewhere:
  assumes "honest w" "listed_below w smbs https sel" "R = scan_roots w smbs https sel"
  shows "filter (elsewhere R) (ca_pkgs (snd (fold (\<lambda>ic. add_changes (quick_smb w sel ic)) (enumerate 0 smbs) st))) =
         filter (elsewhere R) (ca_pkgs (snd st))"
proof (rule elsewhere_fold)
  fix x s assume x: "x \<in> set (enumerate 0 smbs)"
  obtain i c where e: "x = (i, c)" by (cases x)
  show "filter (elsewhere R) (ca_pkgs (snd (quick_smb w sel x s))) = filter (elsewhere R) (ca_pkgs s)"
  proof (cases "chosen sel [source_id i c, share_root c] \<or> chosen_below sel (share_root c)")
    case True
    then have d: "share_root c \<in> set R" using x by (force simp: assms(3) scan_roots_def e)
    have "c \<in> set smbs" using x e by (auto simp: in_set_enumerate_eq)
    then have l: "case sb_files c of None \<Rightarrow> True
       | Some l \<Rightarrow> list_all (\<lambda>(p, n, sz, t). pkg_matches_drive_path p (share_root c)) l"
      using assms(2) by (simp add: listed_below_def list_all_iff)
    show ?thesis unfolding e by (rule elsewhere_filter [OF d quick_smb_others [OF assms(1) l]])
  qed (simp add: e quick_smb_def Let_def)
qed

lemma https_elsewhere:
  assumes "honest w" "listed_below w smbs https sel" "R = scan_roots w smbs https sel"
  shows "filter (elsewhere R) (ca_pkgs (snd (fold (\<lambda>h. add_changes (quick_http w sel h)) https st))) =
         filter (elsewhere R) (ca_pkgs (snd st))"
proof (rule elsewhere_fold)
  fix h s assume h: "h \<in> set https"
  then have l: "case Some (hs_files h) of None \<Rightarrow> True
       | Some l \<Rightarrow> list_all (\<lambda>(p, n, sz, t). pkg_matches_drive_path p (hs_url h)) l"
    using assms(2) by (simp add: listed_below_def list_all_iff)
  show "filter (elsewhere R) (ca_pkgs (snd (quick_http w sel h s))) = filter (elsewhere R) (ca_pkgs s)"
  proof (cases "chosen sel [hs_id h, hs_url h] \<or> chosen_below sel (hs_url h)")
    case True
    then have d: "hs_url h \<in> set R" using h by (auto simp: assms(3) scan_roots_def)
    show ?thesis
      using elsewhere_filter [OF d quick_network_others [OF assms(1) l]]
      by (cases "hs_ok h") (simp_all add: quick_http_def quick_network_def)
  qed (simp add: quick_http_def)
qed

lemma mset_sort: "sorts w \<Longrightarrow> mset (ca_pkgs (sort_packages w s)) = mset (ca_pkgs s)"
  by (simp add: sort_packages_def sorts_def)

lemma quick_body_others:
  assumes "honest w" "sorts w" "listed_below w smbs https sel" "R = scan_roots w smbs https sel"
  shows "mset (filter (elsewhere R) (ca_pkgs (snd (quick_body w smbs https sel s)))) = mset (filter (elsewhere R) (ca_pkgs s))"
proof -
  define a where "a = fold (\<lambda>(i, label, path, ty). add_changes (quick_local w i label path ty)) (quick_local_sources w sel) (0, s)"
  define b where "b = fold (\<lambda>ic. add_changes (quick_smb w sel ic)) (enumerate 0 smbs) a"
  define c where "c = fold (\<lambda>h. add_changes (quick_http w sel h)) https b"
  have f: "filter (elsewhere R) (ca_pkgs (snd c)) = filter (elsewhere R) (ca_pkgs s)"
    unfolding c_def b_def a_def https_elsewhere [OF assms(1,3,4)] smbs_elsewhere [OF assms(1,3,4)]
      locals_elsewhere [OF assms(1,3,4)] by simp
  have "filter_mset (elsewhere R) (mset (ca_pkgs (snd c))) = filter_mset (elsewhere R) (mset (ca_pkgs s))"
    using arg_cong [OF f, of mset] by simp
  moreover have "quick_body w smbs https sel s =
      (fst c, scan_release (if fst c > 0 then sort_packages w (snd c) else snd c))"
    unfolding quick_body_def Let_def a_def [symmetric] b_def [symmetric] c_def [symmetric] by (simp split: prod.split)
  ultimately show ?thesis by (simp add: scan_release_def mset_sort [OF assms(2)])
qed

end
