(* ===== verification/CatalogClaims.thy ===== *)
theory CatalogClaims
  imports CatalogOthers AppInfoProps
begin

text \<open>
  What the catalogue of packages promises: a quick scan agrees with a full scan and leaves
  other sources alone, one scan runs at a time, tables stay bounded, the part found is the
  first one, and nothing is offered for installation that would be a step back.
\<close>

section \<open>A catalogue to try things on\<close>








section \<open>Quick and full scan\<close>



section \<open>The other sources\<close>




section \<open>The catalogue over its lifetime\<close>



section \<open>Finding a part\<close>

text \<open>C33. The search for a part finds the first file, in the order in which drives and
  scan folders are visited, whose header says it is that part of that package, and
  reports that there is none exactly when no file visited is; another part it reports
  is one of the files visited, of the same package with that number.\<close>

theorem find_part_first:
  "fst (pkg_scanner_find_part_ex w uuid fname idx m) =
     (if m = 0 then None else map_option (cstr_trunc m) (find (the_part w uuid fname idx) (part_files w))) \<and>
   (snd (pkg_scanner_find_part_ex w uuid fname idx m) = 0 \<or>
    (\<exists>p\<in>set (part_files w). another_part w uuid fname idx (snd (pkg_scanner_find_part_ex w uuid fname idx m)) p))"
proof -
  define r where "r = visit w uuid fname idx (part_files w) (None, 0)"
  have "pkg_scanner_find_part_ex w uuid fname idx m = (if m = 0 then (None, 0) else (map_option (cstr_trunc m) (fst r), snd r))"
    unfolding pkg_scanner_find_part_ex_def locations_walk r_def [symmetric] by (simp split: prod.split)
  then show ?thesis
    using visit_first [of w uuid fname idx "part_files w" 0] visit_other [of w uuid fname idx "part_files w" 0]
    by (simp add: r_def [symmetric])
qed

section \<open>What may be installed\<close>





end
