(* ===== verification/CatalogOrder.thy ===== *)
theory CatalogOrder
  imports CatalogFind
begin

text \<open>
  The order in which packages are listed and the throttle of the quick scan of HTTP sources.
\<close>

section \<open>The order of the list\<close>

text \<open>\<open>strcmp\<close> and \<open>strcasecmp\<close> by the sign of their result.\<close>

fun c_strcmp :: "string \<Rightarrow> string \<Rightarrow> int" where
  "c_strcmp [] [] = 0"
| "c_strcmp [] (d # ds) = - 1"
| "c_strcmp (c # cs) [] = 1"
| "c_strcmp (c # cs) (d # ds) =
     (if c = d then c_strcmp cs ds else if (of_char c :: nat) < of_char d then - 1 else 1)"

definition c_strcasecmp :: "string \<Rightarrow> string \<Rightarrow> int" where
  "c_strcasecmp a b = c_strcmp (map c_tolower a) (map c_tolower b)"

fun type_number :: "pkg_type \<Rightarrow> int" where
  "type_number PKG_TYPE_UNKNOWN = 0"
| "type_number PKG_TYPE_BASE = 1"
| "type_number PKG_TYPE_UPDATE = 2"
| "type_number PKG_TYPE_DLC = 3"

definition shown_title :: "pkg_detail \<Rightarrow> string" where
  "shown_title p = (if pd_title_name p \<noteq> [] then pd_title_name p else ''Unknown Package'')"

definition compare_pkg_by_title_name :: "pkg_detail \<Rightarrow> pkg_detail \<Rightarrow> int" where
  "compare_pkg_by_title_name a b =
     (let c = c_strcasecmp (shown_title a) (shown_title b) in
      if c \<noteq> 0 then c
      else if pd_pkg_type a \<noteq> pd_pkg_type b then type_number (pd_pkg_type a) - type_number (pd_pkg_type b)
      else
      let v = (if pd_app_version a \<noteq> [] \<and> pd_app_version b \<noteq> []
               then app_info_compare_versions (pd_app_version a) (pd_app_version b) else 0)
      in if v \<noteq> 0 then v else c_strcmp (pd_path a) (pd_path b))"

text \<open>A package without a version is compared by its path, so the comparison has cycles:
  it is not an order, and what \<open>qsort\<close> does with it is undefined.\<close>

definition versioned :: "string \<Rightarrow> string \<Rightarrow> pkg_detail" where
  "versioned v path = pkg_detail_zero\<lparr> pd_title_name := ''A'', pd_app_version := v, pd_path := path \<rparr>"

lemma compare_has_cycle:
  "compare_pkg_by_title_name (versioned ''2.00'' ''a'') (versioned [] ''b'') < 0"
  "compare_pkg_by_title_name (versioned [] ''b'') (versioned ''1.00'' ''c'') < 0"
  "compare_pkg_by_title_name (versioned ''1.00'' ''c'') (versioned ''2.00'' ''a'') < 0"
  by code_simp+

section \<open>The throttle\<close>

record recent =
  rc_id :: string
  rc_last :: int

definition HTTP_QUICK_SCAN_MIN_SEC :: int where "HTTP_QUICK_SCAN_MIN_SEC = 60"

text \<open>The slot of a source: its own, otherwise the one used longest ago.\<close>

function oldest_slot :: "recent list \<Rightarrow> nat \<Rightarrow> nat \<Rightarrow> nat" where
  "oldest_slot rs i best =
     (if i < length rs then oldest_slot rs (Suc i) (if rc_last (rs ! i) < rc_last (rs ! best) then i else best) else best)"
  by pat_completeness auto
termination
  by (relation "measure (\<lambda>(rs, i, best). length rs - i)") auto

declare oldest_slot.simps [simp del]

definition own_slot :: "recent list \<Rightarrow> string \<Rightarrow> nat option" where
  "own_slot rs i = (if list_ex (\<lambda>r. rc_id r = i) rs then Some (length (takeWhile (\<lambda>r. rc_id r \<noteq> i) rs)) else None)"

definition http_quick_scan_due :: "int \<Rightarrow> string \<Rightarrow> recent list \<Rightarrow> bool \<times> recent list" where
  "http_quick_scan_due now i rs =
     (case own_slot rs i of
        Some k \<Rightarrow>
          if now - rc_last (rs ! k) < HTTP_QUICK_SCAN_MIN_SEC then (False, rs)
          else (True, rs[k := (rs ! k)\<lparr> rc_last := now \<rparr>])
      | None \<Rightarrow> (True, rs[oldest_slot rs 0 0 := \<lparr> rc_id = cstr_trunc 32 i, rc_last = now \<rparr>]))"

lemma oldest_slot_bound: "best < length rs \<Longrightarrow> oldest_slot rs i best < length rs"
  by (induction rs i best rule: oldest_slot.induct) (subst oldest_slot.simps, auto)

lemma own_slot_Some: "own_slot rs i = Some k \<Longrightarrow> k < length rs \<and> rc_id (rs ! k) = i"
  using takeWhile_index [of "\<lambda>r. rc_id r = i" rs] by (auto simp: own_slot_def split: if_splits)

lemma own_slot_update:
  assumes "own_slot rs i = None \<or> own_slot rs i = Some k" "k < length rs" "rc_id r = i"
  shows "own_slot (rs[k := r]) i = Some k"
proof -
  have before: "rc_id (rs ! j) \<noteq> i" if "j < k" for j
  proof (cases "own_slot rs i")
    case None
    then show ?thesis using assms(2) that by (auto simp: own_slot_def list_ex_iff split: if_splits)
  next
    case (Some k')
    then have "k = length (takeWhile (\<lambda>r. rc_id r \<noteq> i) rs)" using assms(1) by (auto simp: own_slot_def split: if_splits)
    then have "rs ! j \<in> set (takeWhile (\<lambda>r. rc_id r \<noteq> i) rs)" using that by (metis nth_mem takeWhile_nth)
    then show ?thesis by (auto dest: set_takeWhileD)
  qed
  then have "takeWhile (\<lambda>r. rc_id r \<noteq> i) (rs[k := r]) = take k rs"
    using assms(2,3) by (simp add: upd_conv_take_nth_drop takeWhile_append) (auto simp: in_set_conv_nth)
  moreover have "list_ex (\<lambda>r. rc_id r = i) (rs[k := r])" using assms(2,3) by (auto simp: list_ex_iff set_update_memI)
  ultimately show ?thesis using assms(2) by (simp add: own_slot_def)
qed

text \<open>A source whose id fits is quick-scanned at most once in a minute.\<close>

lemma throttled:
  assumes "http_quick_scan_due t i rs = (True, rs')" "length i < 32" "rs \<noteq> []" "t' - t < 60"
  shows "http_quick_scan_due t' i rs' = (False, rs')"
proof -
  obtain k where k: "k < length rs" "own_slot rs i = None \<or> own_slot rs i = Some k"
    "rs' = rs[k := \<lparr> rc_id = i, rc_last = t \<rparr>]"
  proof (cases "own_slot rs i")
    case None
    then show ?thesis using that [of "oldest_slot rs 0 0"] assms(1-3) oldest_slot_bound [of 0 rs 0]
      by (simp add: http_quick_scan_due_def cstr_trunc_id)
  next
    case (Some k)
    then have e: "(rs ! k)\<lparr> rc_last := t \<rparr> = \<lparr> rc_id = i, rc_last = t \<rparr>" using own_slot_Some [OF Some] by (cases "rs ! k") simp
    have "rs' = rs[k := (rs ! k)\<lparr> rc_last := t \<rparr>]"
      using assms(1) Some by (simp add: http_quick_scan_due_def split: if_splits)
    then show ?thesis using that [of k] own_slot_Some [OF Some] Some unfolding e by blast
  qed
  have "own_slot rs' i = Some k" unfolding k(3) by (rule own_slot_update [OF k(2,1)]) simp
  then show ?thesis using k(1,3) assms(4) by (simp add: http_quick_scan_due_def HTTP_QUICK_SCAN_MIN_SEC_def)
qed

end
