(* ===== verification/HttpUrl.thy ===== *)
theory HttpUrl
  imports ParamJson
begin

text \<open>
  Texts of the HTTP client, \<open>src/http_source.c\<close>: percent and entity coding, base 64, dates,
  the hash of URLs, and taking URLs apart and putting them together.
\<close>

section \<open>Codings\<close>

definition trim :: "string \<Rightarrow> string" where
  "trim s = dropWhile c_isspace (rev (dropWhile c_isspace (rev s)))"

definition ends_with_ci :: "string \<Rightarrow> string \<Rightarrow> bool" where
  "ends_with_ci s suf \<longleftrightarrow> length suf \<le> length s \<and> strcasecmp_eq (drop (length s - length suf) s) suf"

definition src_b64_char :: "nat \<Rightarrow> char" where
  "src_b64_char n = ''ABCDEFGHIJKLMNOPQRSTUVWXYZabcdefghijklmnopqrstuvwxyz0123456789+/'' ! (n mod 64)"

text \<open>\<open>o\<close> is what has been written so far of a buffer of \<open>sz\<close> bytes.\<close>

fun src_b64_encode :: "nat \<Rightarrow> nat \<Rightarrow> nat list \<Rightarrow> string" where
  "src_b64_encode sz p [] = []"
| "src_b64_encode sz p [a] =
     (if p + 5 < sz then (let v = a * 65536 in [src_b64_char (v div 262144), src_b64_char (v div 4096), CHR ''='', CHR ''='']) else [])"
| "src_b64_encode sz p [a, b] =
     (if p + 5 < sz
      then (let v = a * 65536 + b * 256 in [src_b64_char (v div 262144), src_b64_char (v div 4096), src_b64_char (v div 64), CHR ''=''])
      else [])"
| "src_b64_encode sz p (a # b # c # rest) =
     (if p + 5 < sz
      then (let v = a * 65536 + b * 256 + c
            in [src_b64_char (v div 262144), src_b64_char (v div 4096), src_b64_char (v div 64), src_b64_char v] @ src_b64_encode sz (p + 4) rest)
      else [])"

definition hexval :: "char \<Rightarrow> nat option" where
  "hexval c =
     (let n = (of_char c :: nat) in
      if 48 \<le> n \<and> n \<le> 57 then Some (n - 48)
      else if 97 \<le> n \<and> n \<le> 102 then Some (n - 87)
      else if 65 \<le> n \<and> n \<le> 70 then Some (n - 55)
      else None)"

definition hex_pair :: "string \<Rightarrow> nat option" where
  "hex_pair s =
     (case s of
        a # b # _ \<Rightarrow> (case (hexval a, hexval b) of (Some x, Some y) \<Rightarrow> Some (x * 16 + y) | _ \<Rightarrow> None)
      | _ \<Rightarrow> None)"

text \<open>Decoding into a buffer with room for \<open>room\<close> characters; \<open>%00\<close> ends the text.\<close>

function pct_decode_buf :: "nat \<Rightarrow> string \<Rightarrow> string" where
  "pct_decode_buf room s =
     (if s = [] \<or> room = 0 then []
      else
      case (if hd s = CHR ''%'' then hex_pair (tl s) else None) of
        Some v \<Rightarrow> char_of v # pct_decode_buf (room - 1) (drop 3 s)
      | None \<Rightarrow> hd s # pct_decode_buf (room - 1) (tl s))"
  by pat_completeness auto
termination
  by (relation "measure fst") auto

declare pct_decode_buf.simps [simp del]

definition pct_decode :: "nat \<Rightarrow> string \<Rightarrow> string" where
  "pct_decode sz s = up_to_nul (pct_decode_buf (sz - 1) s)"

definition unreserved :: "char \<Rightarrow> bool" where
  "unreserved c \<longleftrightarrow> c_isalnum c \<or> c \<in> set ''-_.~/''"

definition hex_digit_up :: "nat \<Rightarrow> char" where
  "hex_digit_up n = ''0123456789ABCDEF'' ! (n mod 16)"

fun pct_encode_from :: "nat \<Rightarrow> nat \<Rightarrow> string \<Rightarrow> string" where
  "pct_encode_from sz p [] = []"
| "pct_encode_from sz p (c # s) =
     (if p + 4 < sz
      then (if unreserved c then c # pct_encode_from sz (p + 1) s
            else [CHR ''%'', hex_digit_up (of_char c div 16), hex_digit_up (of_char c)] @ pct_encode_from sz (p + 3) s)
      else [])"

definition pct_encode_path :: "nat \<Rightarrow> string \<Rightarrow> string" where
  "pct_encode_path sz s = pct_encode_from sz 0 s"

definition entities :: "(string \<times> char) list" where
  "entities = [(''&amp;'', CHR ''&''), (''&lt;'', CHR ''<''), (''&gt;'', CHR ''>''),
     (''&quot;'', CHR 0x22), (''&#39;'', CHR 0x27), (''&#x27;'', CHR 0x27)]"

definition entity_at :: "string \<Rightarrow> (string \<times> char) option" where
  "entity_at s = find (\<lambda>(e, c). strncasecmp_eq s e (length e)) entities"

lemma entity_length: "entity_at s = Some (e, c) \<Longrightarrow> 0 < length e"
  by (auto simp: entity_at_def entities_def split: if_splits)

function html_unescape :: "string \<Rightarrow> string" where
  "html_unescape s =
     (if s = [] then []
      else
      case entity_at s of
        Some (e, c) \<Rightarrow> c # html_unescape (drop (length e) s)
      | None \<Rightarrow> hd s # html_unescape (tl s))"
  by pat_completeness auto
termination
  by (relation "measure length") (use entity_length in fastforce)+

declare html_unescape.simps [simp del]

section \<open>Dates\<close>

text \<open>Days since 1970 for a year from 1970 on.\<close>

definition days_from_civil :: "int \<Rightarrow> int \<Rightarrow> int \<Rightarrow> int" where
  "days_from_civil y0 m d =
     (let y = (if m \<le> 2 then y0 - 1 else y0);
          era = y div 400;
          yoe = y - era * 400;
          doy = (153 * (m + (if m > 2 then - 3 else 9)) + 2) div 5 + d - 1;
          doe = yoe * 365 + yoe div 4 - yoe div 100 + doy
      in era * 146097 + doe - 719468)"

text \<open>The conversions of \<open>sscanf\<close> beside \<open>%d\<close>: \<open>%3s\<close> and a fixed character, with what is
  left of the text.\<close>

definition scan_word3 :: "string \<Rightarrow> (string \<times> string) option" where
  "scan_word3 s =
     (let t = dropWhile c_isspace s; w = take 3 (takeWhile (\<lambda>c. \<not> c_isspace c) t)
      in if w = [] then None else Some (w, drop (length w) t))"

definition scan_lit :: "char \<Rightarrow> string \<Rightarrow> string option" where
  "scan_lit c s = (case s of x # t \<Rightarrow> if x = c then Some t else None | [] \<Rightarrow> None)"

definition months :: "string list" where
  "months = [''Jan'', ''Feb'', ''Mar'', ''Apr'', ''May'', ''Jun'', ''Jul'', ''Aug'', ''Sep'', ''Oct'', ''Nov'', ''Dec'']"

definition month_number :: "string \<Rightarrow> nat option" where
  "month_number w = (case find (\<lambda>(i, m). strcasecmp_eq w m) (enumerate 1 months) of None \<Rightarrow> None | Some (i, m) \<Rightarrow> Some i)"

definition scan_date :: "string \<Rightarrow> (int \<times> string \<times> int \<times> int \<times> int \<times> int) option" where
  "scan_date s =
     Option.bind (scan_int s) (\<lambda>(d, s1).
     Option.bind (scan_word3 s1) (\<lambda>(mon, s2).
     Option.bind (scan_int s2) (\<lambda>(y, s3).
     Option.bind (scan_int s3) (\<lambda>(hh, s4).
     Option.bind (scan_lit (CHR '':'') s4) (\<lambda>s5.
     Option.bind (scan_int s5) (\<lambda>(mm, s6).
     Option.bind (scan_lit (CHR '':'') s6) (\<lambda>s7.
     map_option (\<lambda>(ss, s8). (d, mon, y, hh, mm, ss)) (scan_int s7))))))))"

definition parse_http_date :: "string \<Rightarrow> nat" where
  "parse_http_date s =
     (let t = (case strchr s (CHR '','') of Some r \<Rightarrow> tl r | None \<Rightarrow> s) in
      case scan_date t of
        None \<Rightarrow> 0
      | Some (d, mon, y, hh, mm, ss) \<Rightarrow>
          (case month_number mon of
             None \<Rightarrow> 0
           | Some m \<Rightarrow>
               if y < 1970 then 0
               else
               let v = days_from_civil y (int m) d * 86400 + hh * 3600 + mm * 60 + ss
               in if v > 0 \<and> v < 0xFFFFFFFF then nat v else 0))"

section \<open>The hash of a URL\<close>

definition fnv1a64 :: "string \<Rightarrow> 64 word" where
  "fnv1a64 s = fold (\<lambda>c h. (xor h (of_nat (of_char c))) * 1099511628211) s 1469598103934665603"

section \<open>URLs\<close>

definition HTTP_URL_MAX :: nat where "HTTP_URL_MAX = 1024"

record http_url =
  hu_https :: bool
  hu_host :: string
  hu_port :: nat
  hu_path :: string

definition url_scheme :: "string \<Rightarrow> (bool \<times> nat \<times> string) option" where
  "url_scheme url =
     (if strncasecmp_eq url ''https://'' 8 then Some (True, 443, drop 8 url)
      else if strncasecmp_eq url ''http://'' 7 then Some (False, 80, drop 7 url)
      else None)"

definition url_stop :: "char \<Rightarrow> bool" where
  "url_stop c \<longleftrightarrow> c \<in> set ''/?#''"

text \<open>The text after the last \<open>@\<close>, or all of it.\<close>

definition after_userinfo :: "string \<Rightarrow> string" where
  "after_userinfo a = rev (takeWhile (\<lambda>c. c \<noteq> CHR ''@'') (rev a))"

text \<open>Host and, when there is a colon, the text of the port.\<close>

definition split_host :: "string \<Rightarrow> (string \<times> string option) option" where
  "split_host a =
     (if a \<noteq> [] \<and> hd a = CHR ''[''
      then (case strchr (tl a) (CHR '']'') of
              None \<Rightarrow> None
            | Some r \<Rightarrow> Some (takeWhile (\<lambda>c. c \<noteq> CHR '']'') (tl a),
                              if length r > 1 \<and> r ! 1 = CHR '':'' then Some (drop 2 r) else None))
      else Some (takeWhile (\<lambda>c. c \<noteq> CHR '':'') a, map_option tl (strchr a (CHR '':''))))"

fun port_digits :: "nat \<Rightarrow> string \<Rightarrow> nat option" where
  "port_digits p [] = Some p"
| "port_digits p (c # s) =
     (if \<not> c_isdigit c then None
      else if p * 10 + digit_val c > 65535 then None else port_digits (p * 10 + digit_val c) s)"

definition url_port :: "nat \<Rightarrow> string option \<Rightarrow> nat option" where
  "url_port dflt s =
     (case s of
        None \<Rightarrow> Some dflt
      | Some t \<Rightarrow> if t = [] then None
          else (case port_digits 0 t of None \<Rightarrow> None | Some p \<Rightarrow> if p = 0 then None else Some p))"

definition url_path :: "string \<Rightarrow> string option" where
  "url_path rest =
     (let p = takeWhile (\<lambda>c. c \<noteq> CHR ''#'') rest in
      if p = [] then Some ''/''
      else if hd rest = CHR ''?'' then (if length p + 2 > HTTP_URL_MAX then None else Some (CHR ''/'' # p))
      else if length p + 1 > HTTP_URL_MAX then None else Some p)"

definition http_url_parse :: "string \<Rightarrow> http_url option" where
  "http_url_parse url =
     Option.bind (url_scheme url) (\<lambda>(https, dflt, p).
       let a = takeWhile (\<lambda>c. \<not> url_stop c) p; rest = dropWhile (\<lambda>c. \<not> url_stop c) p in
       Option.bind (split_host (after_userinfo a)) (\<lambda>(host, port).
         if host = [] \<or> length host \<ge> 256 then None
         else
         Option.bind (url_port dflt port) (\<lambda>n.
           map_option (\<lambda>path. \<lparr> hu_https = https, hu_host = host, hu_port = n, hu_path = path \<rparr>) (url_path rest))))"

definition bracketed :: "string \<Rightarrow> string" where
  "bracketed h = (if CHR '':'' \<in> set h then ''['' @ h @ '']'' else h)"

text \<open>Host and port, without the port that goes without saying.\<close>

definition host_port :: "http_url \<Rightarrow> string" where
  "host_port u =
     bracketed (hu_host u) @ (if hu_port u \<noteq> (if hu_https u then 443 else 80) then '':'' @ dec_str (hu_port u) else [])"

definition url_origin :: "http_url \<Rightarrow> string" where
  "url_origin u = (if hu_https u then ''https'' else ''http'') @ ''://'' @ host_port u"

definition is_absolute :: "string \<Rightarrow> bool" where
  "is_absolute s \<longleftrightarrow> strncasecmp_eq s ''http://'' 7 \<or> strncasecmp_eq s ''https://'' 8"

function skip_dot_slash :: "string \<Rightarrow> string" where
  "skip_dot_slash s = (if starts_with ''./'' s then skip_dot_slash (drop 2 s) else s)"
  by pat_completeness auto
termination
  by (relation "measure length") (auto simp: starts_with_iff)

declare skip_dot_slash.simps [simp del]

text \<open>The path up to its last slash, without a query.\<close>

definition url_dir :: "string \<Rightarrow> string" where
  "url_dir p =
     (let q = takeWhile (\<lambda>c. c \<noteq> CHR ''?'') p
      in if CHR ''/'' \<in> set q then take (length q - length (c_basename q)) q else q)"

definition url_resolve :: "string \<Rightarrow> string \<Rightarrow> nat \<Rightarrow> string option" where
  "url_resolve base href sz =
     (let tmp =
        (if is_absolute href then Some href
         else if starts_with ''//'' href
         then Some ((if strncasecmp_eq base ''https'' 5 then ''https'' else ''http'') @ '':'' @ href)
         else
         map_option
           (\<lambda>b. url_origin b @ (if starts_with ''/'' href then href else url_dir (hu_path b) @ skip_dot_slash href))
           (http_url_parse base))
      in case tmp of
           None \<Rightarrow> None
         | Some t \<Rightarrow>
             let r = takeWhile (\<lambda>c. c \<noteq> CHR ''#'') (cstr_trunc (HTTP_URL_MAX * 2) t)
             in if length r \<ge> sz then None else Some r)"

definition same_endpoint :: "http_url \<Rightarrow> http_url \<Rightarrow> bool" where
  "same_endpoint a b \<longleftrightarrow> hu_https a = hu_https b \<and> hu_port a = hu_port b \<and> strcasecmp_eq (hu_host a) (hu_host b)"

section \<open>Facts\<close>

lemma same_endpoint_refl [simp]: "same_endpoint u u"
  by (simp add: same_endpoint_def strcasecmp_eq_def)

lemma same_endpoint_trans: "same_endpoint a b \<Longrightarrow> same_endpoint b c \<Longrightarrow> same_endpoint a c"
  by (simp add: same_endpoint_def strcasecmp_eq_def)

lemma same_endpoint_sym: "same_endpoint a b \<Longrightarrow> same_endpoint b a"
  by (simp add: same_endpoint_def strcasecmp_eq_def)

text \<open>Decoding undoes encoding.\<close>

lemma hexval_digit: "n < 16 \<Longrightarrow> hexval (hex_digit_up n) = Some n"
proof -
  assume "n < 16"
  then have "n \<in> set [0..<16]" by simp
  moreover have "list_all (\<lambda>n. hexval (hex_digit_up n) = Some n) [0..<16]" by code_simp
  ultimately show ?thesis unfolding list_all_iff by (rule bspec [rotated])
qed

lemma hex_digit_mod: "hex_digit_up (n mod 16) = hex_digit_up n"
  by (simp add: hex_digit_up_def)

lemma hex_pair_digits: "n < 256 \<Longrightarrow> hex_pair (hex_digit_up (n div 16) # hex_digit_up n # s) = Some n"
  using hexval_digit [of "n div 16"] hexval_digit [of "n mod 16"] by (simp add: hex_pair_def hex_digit_mod)

lemma unreserved_not_percent: "unreserved c \<Longrightarrow> c \<noteq> CHR ''%''"
  by (auto simp: unreserved_def c_isalnum_def c_isalpha_def c_isdigit_def)

lemma decode_encoded:
  "p + 3 * length s + 4 \<le> sz \<Longrightarrow> length s \<le> room \<Longrightarrow> pct_decode_buf room (pct_encode_from sz p s) = s"
proof (induction s arbitrary: p room)
  case Nil
  then show ?case by (simp add: pct_decode_buf.simps)
next
  case (Cons c s)
  have room: "0 < room" "length s \<le> room - 1" using Cons.prems by auto
  have l: "p + 4 < sz" using Cons.prems by simp
  show ?case
  proof (cases "unreserved c")
    case True
    then have "pct_decode_buf (room - 1) (pct_encode_from sz (p + 1) s) = s" using Cons.IH [of "p + 1" "room - 1"] Cons.prems by simp
    then show ?thesis using True l room unreserved_not_percent [OF True]
      by (simp add: pct_decode_buf.simps [of room])
  next
    case False
    have "pct_decode_buf (room - 1) (pct_encode_from sz (p + 3) s) = s" using Cons.IH [of "p + 3" "room - 1"] Cons.prems by simp
    moreover have "hex_pair (hex_digit_up (of_char c div 16) # hex_digit_up (of_char c) # x) = Some (of_char c)" for x
      by (rule hex_pair_digits) simp
    ultimately show ?thesis using False l room by (simp add: pct_decode_buf.simps [of room])
  qed
qed

lemma decode_encoded_path:
  assumes "3 * length s + 4 \<le> sz" "length s < n" "CHR 0x00 \<notin> set s"
  shows "pct_decode n (pct_encode_path sz s) = s"
proof -
  have "up_to_nul s = s" using assms(3) by (auto simp: up_to_nul_def NUL_def)
  then show ?thesis using assms decode_encoded [of 0 s sz "n - 1"] by (simp add: pct_decode_def pct_encode_path_def)
qed

section \<open>Taking apart what was put together\<close>

text \<open>An address as parsing delivers it.\<close>

definition wf_url :: "http_url \<Rightarrow> bool" where
  "wf_url u \<longleftrightarrow>
     hu_host u \<noteq> [] \<and> length (hu_host u) < 256 \<and>
     list_all (\<lambda>c. \<not> url_stop c \<and> c \<noteq> CHR ''@'' \<and> c \<noteq> CHR '']'') (hu_host u) \<and>
     hd (hu_host u) \<noteq> CHR ''['' \<and> 0 < hu_port u \<and> hu_port u \<le> 65535 \<and>
     hu_path u \<noteq> [] \<and> hd (hu_path u) = CHR ''/'' \<and> CHR ''#'' \<notin> set (hu_path u) \<and> length (hu_path u) + 1 \<le> HTTP_URL_MAX"

lemma digits_value_mono: "p \<le> digits_value p s"
proof (induction s arbitrary: p)
  case (Cons c s)
  have "p \<le> 10 * p + digit_val c" by simp
  also have "\<dots> \<le> digits_value (10 * p + digit_val c) s" by (rule Cons.IH)
  finally show ?case by simp
qed simp

lemma port_digits_value:
  "list_all c_isdigit s \<Longrightarrow> digits_value p s \<le> 65535 \<Longrightarrow> port_digits p s = Some (digits_value p s)"
proof (induction s arbitrary: p)
  case (Cons c s)
  then show ?case using digits_value_mono [of "10 * p + digit_val c" s] by (simp add: mult.commute)
qed simp

lemma url_port_dec: "0 < n \<Longrightarrow> n \<le> 65535 \<Longrightarrow> url_port d (Some (dec_str n)) = Some n"
  using port_digits_value [OF dec_str_digits, of 0 n] by (simp add: url_port_def digits_value_dec_str)

lemma dec_str_chars: "c \<in> set (dec_str n) \<Longrightarrow> c_isdigit c"
  using dec_str_digits [of n] by (simp add: list_all_iff)

lemma takeWhile_stop: "\<forall>c\<in>set a. P c \<Longrightarrow> b \<noteq> [] \<Longrightarrow> \<not> P (hd b) \<Longrightarrow> takeWhile P (a @ b) = a \<and> dropWhile P (a @ b) = b"
  by (cases b) auto

lemma until_char:
  "c \<notin> set a \<Longrightarrow> takeWhile (\<lambda>x. x \<noteq> c) (a @ c # b) = a" "c \<notin> set a \<Longrightarrow> dropWhile (\<lambda>x. x \<noteq> c) (a @ c # b) = c # b"
  "c \<notin> set a \<Longrightarrow> takeWhile (\<lambda>x. x \<noteq> c) a = a"
  by (induction a) auto

lemma strchr_at: "c \<notin> set a \<Longrightarrow> strchr (a @ c # b) c = Some (c # b)"
  by (simp add: strchr_def until_char)

lemma strchr_none: "c \<notin> set a \<Longrightarrow> strchr a c = None"
  by (auto simp: strchr_def Let_def)

lemma split_host_port:
  assumes "list_all (\<lambda>c. \<not> url_stop c \<and> c \<noteq> CHR ''@'' \<and> c \<noteq> CHR '']'') h" "h \<noteq> []" "hd h \<noteq> CHR ''[''"
  shows "split_host (bracketed h) = Some (h, None)" "split_host (bracketed h @ '':'' @ p) = Some (h, Some p)"
proof -
  have r: "CHR '']'' \<notin> set h" using assms(1) by (auto simp: list_all_iff)
  then have t: "takeWhile (\<lambda>c. c \<noteq> CHR '']'') (h @ CHR '']'' # b) = h" for b
    by (rule until_char(1))
  show "split_host (bracketed h) = Some (h, None)"
    using assms strchr_at [OF r, of "[]"] t [of "[]"] strchr_none [of "CHR '':''" h] r
    by (cases "CHR '':'' \<in> set h") (auto simp: split_host_def bracketed_def takeWhile_eq_all_conv)
  have c: "takeWhile (\<lambda>c. c \<noteq> CHR '':'') (h @ CHR '':'' # p) = h" if "CHR '':'' \<notin> set h"
    using that by (rule until_char(1))
  show "split_host (bracketed h @ '':'' @ p) = Some (h, Some p)"
    using assms strchr_at [OF r, of "CHR '':'' # p"] t [of "CHR '':'' # p"] strchr_at [of "CHR '':''" h p] c
    by (cases "CHR '':'' \<in> set h") (auto simp: split_host_def bracketed_def)
qed

lemma host_port_chars:
  assumes "wf_url u" "c \<in> set (host_port u)"
  shows "\<not> url_stop c \<and> c \<noteq> CHR ''@''"
proof -
  have "\<not> url_stop c \<and> c \<noteq> CHR ''@''" if "c_isdigit c" for c
    using that by (auto simp: c_isdigit_def url_stop_def)
  then have "\<not> url_stop c \<and> c \<noteq> CHR ''@''" if "c \<in> set (dec_str n)" for c n using that dec_str_chars by blast
  moreover have "\<not> url_stop c \<and> c \<noteq> CHR ''@''" if "c \<in> set (hu_host u)" for c
    using assms(1) that by (auto simp: wf_url_def list_all_iff)
  moreover have "\<not> url_stop c \<and> c \<noteq> CHR ''@''" if "c \<in> set ''[]:''" for c
    using that by (auto simp: url_stop_def)
  ultimately show ?thesis using assms(2) by (auto simp: host_port_def bracketed_def split: if_splits)
qed

lemma parse_origin:
  assumes w: "wf_url u"
  shows "http_url_parse (url_origin u @ hu_path u) = Some u"
proof -
  have sch: "url_scheme (url_origin u @ hu_path u) =
      Some (hu_https u, if hu_https u then 443 else 80, host_port u @ hu_path u)"
    by (simp add: url_scheme_def url_origin_def strncasecmp_eq_def c_tolower_def)
  have path: "hu_path u \<noteq> []" "hd (hu_path u) = CHR ''/''" "CHR ''#'' \<notin> set (hu_path u)"
    "length (hu_path u) + 1 \<le> HTTP_URL_MAX"
    using w by (simp_all add: wf_url_def)
  have tw: "takeWhile (\<lambda>c. \<not> url_stop c) (host_port u @ hu_path u) = host_port u"
    "dropWhile (\<lambda>c. \<not> url_stop c) (host_port u @ hu_path u) = hu_path u"
    using takeWhile_stop [of "host_port u" "\<lambda>c. \<not> url_stop c" "hu_path u"] host_port_chars [OF w] path(1,2)
    by (auto simp: url_stop_def)
  have at: "takeWhile (\<lambda>c. c \<noteq> CHR ''@'') (rev (host_port u)) = rev (host_port u)"
    using host_port_chars [OF w] by (intro until_char(3)) auto
  have ui: "after_userinfo (host_port u) = host_port u" unfolding after_userinfo_def at rev_rev_ident ..
  have h: "list_all (\<lambda>c. \<not> url_stop c \<and> c \<noteq> CHR ''@'' \<and> c \<noteq> CHR '']'') (hu_host u)" "hu_host u \<noteq> []" "hd (hu_host u) \<noteq> CHR ''[''"
    "length (hu_host u) < 256" "0 < hu_port u" "hu_port u \<le> 65535"
    using w by (simp_all add: wf_url_def)
  have p: "takeWhile (\<lambda>c. c \<noteq> CHR ''#'') (hu_path u) = hu_path u"
    using path(3) by (rule until_char(3))
  have up: "url_path (hu_path u) = Some (hu_path u)" using path(1,2,4) by (simp add: url_path_def p)
  obtain port where sp: "split_host (host_port u) = Some (hu_host u, port)"
    "url_port (if hu_https u then 443 else 80) port = Some (hu_port u)"
  proof (cases "hu_port u = (if hu_https u then 443 else 80)")
    case True
    then show ?thesis using that [of None] split_host_port(1) [OF h(1-3)] by (simp add: host_port_def url_port_def)
  next
    case False
    then show ?thesis using that [of "Some (dec_str (hu_port u))"] split_host_port(2) [OF h(1-3), of "dec_str (hu_port u)"]
        url_port_dec [OF h(5,6)] by (simp add: host_port_def)
  qed
  show ?thesis using h(2,4) by (simp add: http_url_parse_def sch tw ui sp up)
qed

end
