(* ===== verification/HttpWire.thy ===== *)
theory HttpWire
  imports HttpUrl AppInfo
begin

text \<open>
  A connection of the HTTP client and what is read from it: bytes, lines, the head of a
  response and its body, as in \<open>src/http_source.c\<close>. What the network delivers is a list of
  pieces, one for each \<open>recv\<close> (or TLS read); after the last one the peer has closed or the read
  fails, which the code treats alike.
\<close>

section \<open>Connections\<close>

text \<open>Bytes read and not yet used, pieces still to come, whether the connection may be used
  again, whom it talks to, and the size of the read buffer, which the platform sets.\<close>

record hconn =
  hc_buf :: "byte list"
  hc_net :: "byte list list"
  hc_alive :: bool
  hc_ep :: http_url
  hc_room :: nat

definition conn_pending :: "hconn \<Rightarrow> byte list" where
  "conn_pending c = hc_buf c @ concat (hc_net c)"

definition conn_read_raw :: "nat \<Rightarrow> hconn \<Rightarrow> byte list option \<times> hconn" where
  "conn_read_raw n c =
     (case hc_net c of
        [] \<Rightarrow> (None, c)
      | p # ps \<Rightarrow> if take n p = [] then (None, c)
                   else (Some (take n p), c\<lparr> hc_net := (if length p > n then drop n p # ps else ps) \<rparr>))"

definition conn_getc :: "hconn \<Rightarrow> byte option \<times> hconn" where
  "conn_getc c =
     (case hc_buf c of
        b # bs \<Rightarrow> (Some b, c\<lparr> hc_buf := bs \<rparr>)
      | [] \<Rightarrow>
          (case conn_read_raw (hc_room c) c of
             (Some (b # bs), c') \<Rightarrow> (Some b, c'\<lparr> hc_buf := bs \<rparr>)
           | (_, c') \<Rightarrow> (None, c')))"

lemma conn_getc_pending: "conn_getc c = (Some b, c') \<Longrightarrow> conn_pending c = b # conn_pending c'"
proof (cases "hc_buf c")
  case Nil
  assume g: "conn_getc c = (Some b, c')"
  then obtain p ps where n: "hc_net c = p # ps" using Nil by (cases "hc_net c") (auto simp: conn_getc_def conn_read_raw_def)
  have "take (hc_room c) p @ drop (hc_room c) p = p" by simp
  then show ?thesis
    using g Nil n by (cases "take (hc_room c) p") (auto simp: conn_getc_def conn_read_raw_def conn_pending_def split: if_splits)
next
  case (Cons x xs)
  then show "conn_getc c = (Some b, c') \<Longrightarrow> ?thesis" by (auto simp: conn_getc_def conn_pending_def)
qed

section \<open>Lines\<close>

text \<open>The characters of a line so far, and whether anything was read. A result says
  whether the line came to its end.\<close>

function read_line :: "nat \<Rightarrow> byte list \<Rightarrow> bool \<Rightarrow> hconn \<Rightarrow> (byte list \<times> bool) option \<times> hconn" where
  "read_line mx acc got c =
     (case conn_getc c of
        (None, c') \<Rightarrow> (if got then Some (acc, False) else None, c')
      | (Some ch, c') \<Rightarrow>
          if ch = 10 then (Some (acc, True), c')
          else read_line mx (if ch \<noteq> 13 \<and> length acc + 1 < mx then acc @ [ch] else acc) True c')"
  by pat_completeness auto
termination
  by (relation "measure (\<lambda>(mx, acc, got, c). length (conn_pending c))") (auto dest: conn_getc_pending [OF sym])

declare read_line.simps [simp del]

text \<open>A line goes into a buffer that keeps what it held before behind it. When the
  connection ends within the line, no NUL is written after it.\<close>

definition conn_read_line :: "nat \<Rightarrow> byte list \<Rightarrow> hconn \<Rightarrow> nat option \<times> byte list \<times> hconn" where
  "conn_read_line mx lb c =
     (case read_line mx [] False c of
        (None, c') \<Rightarrow> (None, lb, c')
      | (Some (l, ended), c') \<Rightarrow> (Some (length l), overlay (if ended then l @ [0] else l) lb, c'))"

lemma read_line_less: "read_line mx acc got c = (r, c') \<Longrightarrow> length (conn_pending c') \<le> length (conn_pending c) \<and>
    (r \<noteq> None \<and> \<not> got \<longrightarrow> length (conn_pending c') < length (conn_pending c))"
proof (induction mx acc got c arbitrary: r rule: read_line.induct)
  case (1 mx acc got c)
  obtain o1 c1 where g: "conn_getc c = (o1, c1)" by fastforce
  show ?case
  proof (cases o1)
    case None
    have "length (conn_pending c1) \<le> length (conn_pending c)"
      using g None
      by (auto simp: conn_getc_def conn_read_raw_def conn_pending_def split: list.splits option.splits prod.splits if_splits)
    then show ?thesis using 1(2) g None by (auto simp: read_line.simps [of mx acc got c] split: if_splits)
  next
    case (Some ch)
    then have p: "conn_pending c = ch # conn_pending c1" using conn_getc_pending g by simp
    show ?thesis
    proof (cases "ch = 10")
      case True
      then show ?thesis using 1(2) g Some p by (auto simp: read_line.simps [of mx acc got c])
    next
      case False
      have "length (conn_pending c') \<le> length (conn_pending c1)"
        using 1(1) [OF g [symmetric] Some False] 1(2) g Some False by (simp add: read_line.simps [of mx acc got c])
      then show ?thesis using p by simp
    qed
  qed
qed

lemma conn_read_line_less:
  "conn_read_line mx lb c = (Some n, lb', c') \<Longrightarrow> length (conn_pending c') < length (conn_pending c)"
  "conn_read_line mx lb c = (r, lb', c') \<Longrightarrow> length (conn_pending c') \<le> length (conn_pending c)"
  using read_line_less [of mx "[]" False c] by (auto simp: conn_read_line_def split: prod.splits option.splits)

section \<open>Bytes\<close>

function read_more :: "nat \<Rightarrow> hconn \<Rightarrow> byte list option \<times> hconn" where
  "read_more n c =
     (if n = 0 then (Some [], c)
      else
      case conn_read_raw n c of
        (None, c') \<Rightarrow> (None, c')
      | (Some bs, c') \<Rightarrow>
          if bs = [] then (None, c')
          else (case read_more (n - length bs) c' of (r, c'') \<Rightarrow> (map_option (\<lambda>l. bs @ l) r, c'')))"
  by pat_completeness auto
termination
  by (relation "measure fst") auto

declare read_more.simps [simp del]

definition conn_read_exact :: "nat \<Rightarrow> hconn \<Rightarrow> byte list option \<times> hconn" where
  "conn_read_exact n c =
     (case read_more (n - length (hc_buf c)) (c\<lparr> hc_buf := drop n (hc_buf c) \<rparr>) of
        (r, c') \<Rightarrow> (map_option (\<lambda>l. take n (hc_buf c) @ l) r, c'))"

section \<open>The head of a response\<close>

record http_resp =
  rs_status :: int
  rs_length :: int
  rs_chunked :: bool
  rs_close :: bool
  rs_has_range :: bool
  rs_start :: nat
  rs_end :: nat
  rs_total :: nat
  rs_modified :: nat
  rs_location :: string
  rs_type :: string

definition resp_zero :: http_resp where
  "resp_zero = \<lparr> rs_status = 0, rs_length = - 1, rs_chunked = False, rs_close = False, rs_has_range = False,
     rs_start = 0, rs_end = 0, rs_total = 0, rs_modified = 0, rs_location = [], rs_type = [] \<rparr>"

text \<open>\<open>%llu\<close> of \<open>sscanf\<close>.\<close>

definition scan_ull :: "string \<Rightarrow> (nat \<times> string) option" where
  "scan_ull s = (case strtoul10 s of (v, r) \<Rightarrow> if length r < length s then Some (v, r) else None)"

text \<open>\<open>bytes %llu-%llu/%llu\<close>, and \<open>bytes */%llu\<close>.\<close>

definition content_range :: "string \<Rightarrow> (nat \<times> nat \<times> nat) option" where
  "content_range v =
     (if \<not> starts_with ''bytes'' v then None
      else
      Option.bind (scan_ull (drop 5 v)) (\<lambda>(a, s1).
      Option.bind (scan_lit (CHR ''-'') s1) (\<lambda>s2.
      Option.bind (scan_ull s2) (\<lambda>(b, s3).
      Option.bind (scan_lit (CHR ''/'') s3) (\<lambda>s4.
      map_option (\<lambda>(t, s5). (a, b, t)) (scan_ull s4))))))"

definition content_total :: "string \<Rightarrow> nat option" where
  "content_total v =
     (if \<not> starts_with ''bytes'' v then None
      else
      let s = dropWhile c_isspace (drop 5 v)
      in if starts_with ''*/'' s then map_option fst (scan_ull (drop 2 s)) else None)"

definition apply_header :: "string \<Rightarrow> http_resp \<Rightarrow> http_resp" where
  "apply_header line r =
     (case strchr line (CHR '':'') of
        None \<Rightarrow> r
      | Some rest \<Rightarrow>
          let name = takeWhile (\<lambda>c. c \<noteq> CHR '':'') line;
              v = trim (dropWhile (\<lambda>c. c = CHR '' '' \<or> c = CHR 0x09) (tl rest))
          in if strcasecmp_eq name ''Content-Length'' then r\<lparr> rs_length := strtol10 v \<rparr>
             else if strcasecmp_eq name ''Transfer-Encoding''
             then (if strcasestr v ''chunked'' \<noteq> None then r\<lparr> rs_chunked := True \<rparr> else r)
             else if strcasecmp_eq name ''Connection''
             then (if strcasecmp_eq v ''close'' then r\<lparr> rs_close := True \<rparr>
                   else if strcasecmp_eq v ''keep-alive'' then r\<lparr> rs_close := False \<rparr> else r)
             else if strcasecmp_eq name ''Location'' then r\<lparr> rs_location := cstr_trunc HTTP_URL_MAX v \<rparr>
             else if strcasecmp_eq name ''Content-Type'' then r\<lparr> rs_type := cstr_trunc 96 v \<rparr>
             else if strcasecmp_eq name ''Last-Modified'' then r\<lparr> rs_modified := parse_http_date v \<rparr>
             else if strcasecmp_eq name ''Content-Range''
             then (case content_range v of
                     Some (a, b, t) \<Rightarrow> r\<lparr> rs_has_range := True, rs_start := a, rs_end := b, rs_total := t \<rparr>
                   | None \<Rightarrow> (case content_total v of Some t \<Rightarrow> r\<lparr> rs_total := t \<rparr> | None \<Rightarrow> r))
             else r)"

definition HEAD_LINE :: nat where "HEAD_LINE = 4096"

text \<open>The rest of an interim response: lines up to an empty one.\<close>

function skip_lines :: "nat \<Rightarrow> byte list \<Rightarrow> hconn \<Rightarrow> bool \<times> byte list \<times> hconn" where
  "skip_lines mx lb c =
     (case conn_read_line mx lb c of
        (None, lb', c') \<Rightarrow> (False, lb', c')
      | (Some n, lb', c') \<Rightarrow> if n = 0 then (True, lb', c') else skip_lines mx lb' c')"
  by pat_completeness auto
termination
  by (relation "measure (\<lambda>(mx, lb, c). length (conn_pending c))") (auto dest!: conn_read_line_less(1) [OF sym])

declare skip_lines.simps [simp del]

lemma skip_lines_less: "skip_lines mx lb c = (r, lb', c') \<Longrightarrow> length (conn_pending c') \<le> length (conn_pending c)"
proof (induction mx lb c rule: skip_lines.induct)
  case (1 mx lb c)
  obtain o1 lb1 c1 where l: "conn_read_line mx lb c = (o1, lb1, c1)" by (metis prod_cases3)
  have le: "length (conn_pending c1) \<le> length (conn_pending c)" by (rule conn_read_line_less(2) [OF l])
  show ?case
  proof (cases o1)
    case None
    then show ?thesis using 1(2) l le by (simp add: skip_lines.simps [of mx lb c])
  next
    case (Some n)
    show ?thesis
    proof (cases "n = 0")
      case True
      then show ?thesis using 1(2) l le Some by (simp add: skip_lines.simps [of mx lb c])
    next
      case False
      then have "length (conn_pending c') \<le> length (conn_pending c1)"
        using 1(1) [OF l [symmetric] Some refl False] 1(2) l Some by (simp add: skip_lines.simps [of mx lb c])
      then show ?thesis using le by simp
    qed
  qed
qed

text \<open>Status and whether the protocol is HTTP/1.0; interim responses are skipped.\<close>

function read_status :: "byte list \<Rightarrow> hconn \<Rightarrow> (int \<times> bool) option \<times> byte list \<times> hconn" where
  "read_status lb c =
     (case conn_read_line HEAD_LINE lb c of
        (None, lb', c') \<Rightarrow> (None, lb', c')
      | (Some n, lb', c') \<Rightarrow>
          let line = cstr_of_bytes lb' in
          if n = 0 \<or> \<not> starts_with ''HTTP/1.'' line \<or> length line < 12 then (None, lb', c')
          else if atoi (drop 9 line) \<ge> 200 then (Some (atoi (drop 9 line), line ! 7 = CHR ''0''), lb', c')
          else
          (case skip_lines HEAD_LINE lb' c' of
             (False, lb'', c'') \<Rightarrow> (None, lb'', c'')
           | (True, lb'', c'') \<Rightarrow> read_status lb'' c''))"
  by pat_completeness auto
termination
  by (relation "measure (\<lambda>(lb, c). length (conn_pending c))")
     (auto dest!: conn_read_line_less(1) [OF sym] skip_lines_less [OF sym])

declare read_status.simps [simp del]

fun read_headers :: "nat \<Rightarrow> byte list \<Rightarrow> http_resp \<Rightarrow> hconn \<Rightarrow> http_resp option \<times> hconn" where
  "read_headers 0 lb r c = (None, c)"
| "read_headers (Suc k) lb r c =
     (case conn_read_line HEAD_LINE lb c of
        (None, lb', c') \<Rightarrow> (None, c')
      | (Some n, lb', c') \<Rightarrow> if n = 0 then (Some r, c') else read_headers k lb' (apply_header (cstr_of_bytes lb') r) c')"

text \<open>\<open>junk\<close> is what the line buffer on the stack holds at first.\<close>

definition http_read_response :: "byte list \<Rightarrow> hconn \<Rightarrow> http_resp option \<times> hconn" where
  "http_read_response junk c =
     (case read_status junk c of
        (None, lb, c') \<Rightarrow> (None, c')
      | (Some (st, close), lb, c') \<Rightarrow> read_headers 128 lb (resp_zero\<lparr> rs_status := st, rs_close := close \<rparr>) c')"

end
