(* ===== verification/HttpBody.thy ===== *)
theory HttpBody
  imports HttpWire
begin

text \<open>
  The body of a response: in chunks, of a stated length, or up to the end of the connection.
  Memory is always there; a body that is wanted comes back, another is counted only.
\<close>

section \<open>Chunk sizes\<close>

definition is_hex :: "char \<Rightarrow> bool" where
  "is_hex c \<longleftrightarrow> hexval c \<noteq> None"

definition hex_of :: "char \<Rightarrow> nat" where
  "hex_of c = (case hexval c of Some v \<Rightarrow> v | None \<Rightarrow> 0)"

text \<open>\<open>strtoull(s, NULL, 16)\<close>.\<close>

definition strtoull16 :: "string \<Rightarrow> nat" where
  "strtoull16 s =
     (let t = dropWhile c_isspace s;
          neg = (t \<noteq> [] \<and> hd t = CHR ''-'');
          u = (if t \<noteq> [] \<and> (hd t = CHR ''-'' \<or> hd t = CHR ''+'') then tl t else t);
          d = (if strncasecmp_eq u ''0x'' 2 \<and> length u > 2 \<and> is_hex (u ! 2) then drop 2 u else u);
          v = fold (\<lambda>c n. n * 16 + hex_of c) (takeWhile is_hex d) 0
      in if v > ULONG_MAX then ULONG_MAX else if neg then sub64 0 v else v)"

section \<open>The three kinds of body\<close>

datatype body_end = Complete | Too_big | Lost

text \<open>In chunks. The sum of what was read and the next size is that of 64-bit numbers.\<close>

function read_chunks :: "nat \<Rightarrow> byte list \<Rightarrow> byte list \<Rightarrow> hconn \<Rightarrow> body_end \<times> byte list \<times> hconn" where
  "read_chunks mx lb acc c =
     (case conn_read_line 128 lb c of
        (None, lb1, c1) \<Rightarrow> (Lost, acc, c1)
      | (Some n, lb1, c1) \<Rightarrow>
          let chunk = strtoull16 (cstr_of_bytes lb1) in
          if chunk = 0 then (Complete, acc, snd (snd (skip_lines 128 lb1 c1)))
          else if (length acc + chunk) mod 2 ^ 64 > mx then (Too_big, acc, c1)
          else
          (case conn_read_exact chunk c1 of
             (None, c2) \<Rightarrow> (Lost, acc, c2)
           | (Some bs, c2) \<Rightarrow>
               (case conn_read_line 128 lb1 c2 of
                  (None, lb3, c3) \<Rightarrow> (Lost, acc, c3)
                | (Some n, lb3, c3) \<Rightarrow> read_chunks mx lb3 (acc @ bs) c3)))"
  by pat_completeness auto

lemma read_more_less: "read_more n c = (r, c') \<Longrightarrow> length (conn_pending c') \<le> length (conn_pending c)"
proof (induction n c arbitrary: r rule: read_more.induct)
  case (1 n c)
  obtain o1 c1 where g: "conn_read_raw n c = (o1, c1)" by fastforce
  have le: "length (conn_pending c1) \<le> length (conn_pending c)"
    using g by (auto simp: conn_read_raw_def conn_pending_def split: list.splits if_splits)
  show ?case
  proof (cases "n = 0 \<or> o1 = None \<or> o1 = Some []")
    case True
    then show ?thesis using 1(2) g le by (auto simp: read_more.simps [of n c] split: if_splits)
  next
    case False
    then obtain bs where bs: "o1 = Some bs" "bs \<noteq> []" by auto
    obtain r' where "read_more (n - length bs) c1 = (r', c')"
      using 1(2) g bs False by (auto simp: read_more.simps [of n c] split: prod.splits)
    from 1(1) [OF _ g [symmetric] bs this] show ?thesis using le False by simp
  qed
qed

lemma conn_read_exact_less: "conn_read_exact n c = (r, c') \<Longrightarrow> length (conn_pending c') \<le> length (conn_pending c)"
  using read_more_less [of "n - length (hc_buf c)" "c\<lparr> hc_buf := drop n (hc_buf c) \<rparr>"]
  by (auto simp: conn_read_exact_def conn_pending_def split: prod.splits)

termination read_chunks
  by (relation "measure (\<lambda>(mx, lb, acc, c). length (conn_pending c))")
     (auto dest!: conn_read_line_less(1) [OF sym] conn_read_exact_less [OF sym])

declare read_chunks.simps [simp del]

text \<open>Up to the end of the connection.\<close>

function read_to_end :: "nat \<Rightarrow> byte list \<Rightarrow> hconn \<Rightarrow> body_end \<times> byte list \<times> hconn" where
  "read_to_end mx acc c =
     (if hc_buf c \<noteq> []
      then (if length acc + length (hc_buf c) > mx then (Too_big, acc, c)
            else read_to_end mx (acc @ hc_buf c) (c\<lparr> hc_buf := [] \<rparr>))
      else
      case conn_read_raw (hc_room c) c of
        (None, c') \<Rightarrow> (Complete, acc, c')
      | (Some bs, c') \<Rightarrow> if bs = [] then (Complete, acc, c') else read_to_end mx acc (c'\<lparr> hc_buf := bs \<rparr>))"
  by pat_completeness auto

lemma conn_read_raw_pending:
  "conn_read_raw n c = (Some bs, c') \<Longrightarrow>
     bs \<noteq> [] \<and> length bs \<le> n \<and> concat (hc_net c) = bs @ concat (hc_net c') \<and> hc_buf c' = hc_buf c \<and>
     hc_alive c' = hc_alive c \<and> hc_ep c' = hc_ep c \<and> hc_room c' = hc_room c"
  by (auto simp: conn_read_raw_def split: list.splits if_splits)

termination read_to_end
  by (relation "measures [\<lambda>(mx, acc, c). length (conn_pending c), \<lambda>(mx, acc, c). length (concat (hc_net c))]")
     (auto simp: conn_pending_def dest!: conn_read_raw_pending [OF sym])

declare read_to_end.simps [simp del]

text \<open>Result as in the code (0, -1, or -2 for a wanted body that is too big), body and connection.\<close>

definition http_read_body ::
  "bool \<Rightarrow> nat \<Rightarrow> byte list \<Rightarrow> http_resp \<Rightarrow> bool \<Rightarrow> hconn \<Rightarrow> int \<times> byte list \<times> hconn" where
  "http_read_body want mx junk r is_head c =
     (if is_head \<or> rs_status r = 204 \<or> rs_status r = 304 then (0, [], c)
      else
      let (e, body, c1) =
            (if rs_chunked r then read_chunks mx junk [] c
             else if rs_length r \<ge> 0 then
               (if nat (rs_length r) > mx then (Too_big, [], c)
                else case conn_read_exact (nat (rs_length r)) c of
                       (None, c') \<Rightarrow> (Lost, [], c') | (Some b, c') \<Rightarrow> (Complete, b, c'))
             else (case read_to_end mx [] c of (e, b, c') \<Rightarrow> (e, b, c'\<lparr> hc_alive := False \<rparr>)))
      in case e of
           Complete \<Rightarrow> (0, body, if rs_close r then c1\<lparr> hc_alive := False \<rparr> else c1)
         | Too_big \<Rightarrow> (if want then - 2 else 0, [], c1\<lparr> hc_alive := False \<rparr>)
         | Lost \<Rightarrow> (- 1, [], c1\<lparr> hc_alive := False \<rparr>))"

section \<open>The limit on a body\<close>

text \<open>The check of the limit adds in 64 bits, and a size close to \<open>2 ^ 64\<close> passes it.\<close>

lemma chunk_sum_wraps: "(length [a] + strtoull16 ''ffffffffffffffff'') mod 2 ^ 64 \<le> 0"
proof -
  have "strtoull16 ''ffffffffffffffff'' = 2 ^ 64 - 1"
    by (simp add: strtoull16_def strncasecmp_eq_def c_isspace_def is_hex_def hexval_def hex_of_def c_tolower_def ULONG_MAX_def)
  then show ?thesis by simp
qed

text \<open>A body that is complete still respects the limit, since no connection delivers that much.\<close>

lemma read_line_same_net: "conn_read_line mx lb c = (r, lb', c') \<Longrightarrow> length (conn_pending c') \<le> length (conn_pending c)"
  by (rule conn_read_line_less(2))

lemma read_more_amount: "read_more n c = (Some bs, c') \<Longrightarrow> length bs = n \<and> concat (hc_net c) = bs @ concat (hc_net c')"
proof (induction n c arbitrary: bs rule: read_more.induct)
  case (1 n c)
  show ?case
  proof (cases "n = 0")
    case True
    then show ?thesis using 1(2) by (auto simp: read_more.simps [of 0])
  next
    case False
    then obtain b1 c1 where g: "conn_read_raw n c = (Some b1, c1)" "b1 \<noteq> []"
      using 1(2) by (auto simp: read_more.simps [of n c] split: prod.splits option.splits if_splits)
    then obtain b2 where m: "read_more (n - length b1) c1 = (Some b2, c')" "bs = b1 @ b2"
      using 1(2) False by (auto simp: read_more.simps [of n c] split: prod.splits option.splits)
    show ?thesis using 1(1) [OF False g(1) [symmetric] refl g(2) m(1)] conn_read_raw_pending [OF g(1)] m(2) by simp
  qed
qed

lemma conn_read_exact_amount: "conn_read_exact n c = (Some bs, c') \<Longrightarrow> length bs = n \<and> conn_pending c = bs @ conn_pending c'"
proof -
  assume "conn_read_exact n c = (Some bs, c')"
  then obtain l where l: "read_more (n - length (hc_buf c)) (c\<lparr> hc_buf := drop n (hc_buf c) \<rparr>) = (Some l, c')"
      "bs = take n (hc_buf c) @ l"
    by (auto simp: conn_read_exact_def split: prod.splits)
  have keep: "hc_buf c' = hc_buf d" if "read_more n d = (Some x, c')" for n d x
    using that
  proof (induction n d arbitrary: x rule: read_more.induct)
    case (1 n d)
    show ?case
    proof (cases "n = 0")
      case True
      then show ?thesis using 1(2) by (auto simp: read_more.simps [of 0])
    next
      case False
      then obtain b1 c1 where g: "conn_read_raw n d = (Some b1, c1)" "b1 \<noteq> []"
        using 1(2) by (auto simp: read_more.simps [of n d] split: prod.splits option.splits if_splits)
      then obtain b2 where "read_more (n - length b1) c1 = (Some b2, c')"
        using 1(2) False by (auto simp: read_more.simps [of n d] split: prod.splits option.splits)
      from 1(1) [OF False g(1) [symmetric] refl g(2) this] show ?thesis using conn_read_raw_pending [OF g(1)] by simp
    qed
  qed
  have "hc_buf c' = drop n (hc_buf c)" using keep [OF l(1)] by simp
  moreover have "length l = n - length (hc_buf c)" "concat (hc_net c) = l @ concat (hc_net c')"
    using read_more_amount [OF l(1)] by simp_all
  ultimately show ?thesis using l(2) by (cases "n < length (hc_buf c)") (auto simp: conn_pending_def)
qed

lemma read_chunks_limit:
  "read_chunks mx lb acc c = (Complete, b, c') \<Longrightarrow> length acc \<le> mx \<Longrightarrow> length acc + length (conn_pending c) < 2 ^ 64 \<Longrightarrow>
     length b \<le> mx"
proof (induction mx lb acc c rule: read_chunks.induct)
  case (1 mx lb acc c)
  obtain n lb1 c1 where l: "conn_read_line 128 lb c = (Some n, lb1, c1)"
    using 1(2) by (cases "conn_read_line 128 lb c"; cases "fst (conn_read_line 128 lb c)") (auto simp: read_chunks.simps [of mx lb acc c])
  define chunk where "chunk = strtoull16 (cstr_of_bytes lb1)"
  show ?case
  proof (cases "chunk = 0")
    case True
    then show ?thesis using 1(2,3) l by (simp add: read_chunks.simps [of mx lb acc c] chunk_def)
  next
    case False
    then have url_fits: "\<not> (length acc + chunk) mod 2 ^ 64 > mx"
      using 1(2) l by (auto simp: read_chunks.simps [of mx lb acc c] chunk_def Let_def)
    obtain bs c2 where e: "conn_read_exact chunk c1 = (Some bs, c2)"
      using 1(2) l False url_fits
      by (cases "conn_read_exact chunk c1"; cases "fst (conn_read_exact chunk c1)")
         (auto simp: read_chunks.simps [of mx lb acc c] chunk_def [symmetric] Let_def)
    obtain n3 lb3 c3 where k: "conn_read_line 128 lb1 c2 = (Some n3, lb3, c3)"
      using 1(2) l False url_fits e
      by (cases "conn_read_line 128 lb1 c2"; cases "fst (conn_read_line 128 lb1 c2)")
         (auto simp: read_chunks.simps [of mx lb acc c] chunk_def [symmetric] Let_def)
    have le: "length bs = chunk" "length (conn_pending c1) = chunk + length (conn_pending c2)"
      using conn_read_exact_amount [OF e] by auto
    have p: "length (conn_pending c1) < length (conn_pending c)" "length (conn_pending c3) < length (conn_pending c2)"
      using conn_read_line_less(1) [OF l] conn_read_line_less(1) [OF k] by simp_all
    have "length acc + chunk < 2 ^ 64" using le p 1(4) by linarith
    then have "length (acc @ bs) \<le> mx" using url_fits le(1) by simp
    moreover have "length (acc @ bs) + length (conn_pending c3) < 2 ^ 64" using le p 1(4) by simp
    moreover have "read_chunks mx lb3 (acc @ bs) c3 = (Complete, b, c')"
      using 1(2) l False url_fits e k by (simp add: read_chunks.simps [of mx lb acc c] chunk_def [symmetric] Let_def)
    ultimately show ?thesis
      using 1(1) [OF l [symmetric] refl refl chunk_def False url_fits e [symmetric] refl k [symmetric] refl refl] by blast
  qed
qed

lemma read_to_end_limit: "read_to_end mx acc c = (Complete, b, c') \<Longrightarrow> length acc \<le> mx \<Longrightarrow> length b \<le> mx"
proof (induction mx acc c rule: read_to_end.induct)
  case (1 mx acc c)
  show ?case
  proof (cases "hc_buf c = []")
    case False
    then have "\<not> length acc + length (hc_buf c) > mx" using 1(3) by (auto simp: read_to_end.simps [of mx acc c])
    then show ?thesis using 1(1) 1(3) False by (simp add: read_to_end.simps [of mx acc c])
  next
    case True
    obtain o1 c1 where g: "conn_read_raw (hc_room c) c = (o1, c1)" by fastforce
    show ?thesis
    proof (cases "o1 = None \<or> o1 = Some []")
      case True
      then show ?thesis using 1(3,4) g \<open>hc_buf c = []\<close> by (auto simp: read_to_end.simps [of mx acc c])
    next
      case False
      then obtain bs where bs: "o1 = Some bs" "bs \<noteq> []" by auto
      then show ?thesis using 1(2) [OF _ g [symmetric] bs] 1(3,4) g True by (simp add: read_to_end.simps [of mx acc c])
    qed
  qed
qed

lemma body_limit:
  assumes "http_read_body want mx junk r is_head c = (rc, b, c')" "length (conn_pending c) < 2 ^ 64"
  shows "length b \<le> mx"
proof -
  have ex: "length x \<le> mx" if "conn_read_exact (nat (rs_length r)) c = (Some x, d)" "\<not> nat (rs_length r) > mx" for x d
    using conn_read_exact_amount [OF that(1)] that(2) by simp
  show ?thesis
    using assms read_chunks_limit [of mx junk "[]" c] read_to_end_limit [of mx "[]" c] ex
    by (auto simp: http_read_body_def Let_def split: if_splits prod.splits option.splits body_end.splits)
qed

end
