(* ===== verification/HttpFetch.thy ===== *)
theory HttpFetch
  imports HttpBody
begin

text \<open>
  Requests, redirects and reads at an offset: \<open>fetch_on\<close>, \<open>http_fetch\<close> and the one-shot operations
  of \<open>src/http_source.c\<close>. The servers are parameters: which connections can be opened, which
  certificate a peer shows, and what comes back for a request. Error texts and allocation are
  left out.
\<close>

section \<open>The configuration of a source\<close>

record http_config =
  hg_enabled :: bool
  hg_id :: string
  hg_label :: string
  hg_url :: string
  hg_user :: string
  hg_pass :: string
  hg_tls :: string
  hg_pin :: string

definition cfg_same_host :: "http_config option \<Rightarrow> http_url \<Rightarrow> bool" where
  "cfg_same_host cfg u =
     (case cfg of
        None \<Rightarrow> False
      | Some g \<Rightarrow> (case http_url_parse (hg_url g) of None \<Rightarrow> False | Some cu \<Rightarrow> same_endpoint cu u))"

definition cfg_applies_to :: "http_config option \<Rightarrow> http_url \<Rightarrow> bool" where
  "cfg_applies_to cfg u = (case cfg of None \<Rightarrow> False | Some g \<Rightarrow> hg_user g \<noteq> [] \<and> cfg_same_host cfg u)"

section \<open>The servers\<close>

text \<open>A request as it is sent.\<close>

record request =
  rq_method :: string
  rq_path :: string
  rq_host :: string
  rq_range :: "(nat \<times> nat) option"
  rq_auth :: "string option"

text \<open>What happens at each step: whether a connection opens, the fingerprint of the certificate
  when the handshake succeeds, given whether it must be verified, and the pieces that answer a
  request (\<open>None\<close>: it cannot be sent). \<open>sv_room\<close> is the size of read buffers, \<open>sv_junk\<close> what line
  buffers hold at first, \<open>sv_lag\<close> the seconds that pass, \<open>sv_cancel\<close> whether the installation is
  being cancelled.\<close>

record servers =
  sv_open :: "nat \<Rightarrow> http_url \<Rightarrow> bool"
  sv_cert :: "nat \<Rightarrow> http_url \<Rightarrow> bool \<Rightarrow> string option"
  sv_reply :: "nat \<Rightarrow> http_url \<Rightarrow> request \<Rightarrow> byte list list option"
  sv_room :: nat
  sv_junk :: "byte list"
  sv_lag :: "nat \<Rightarrow> nat"
  sv_cancel :: "nat \<Rightarrow> bool"

text \<open>Steps done, the requests sent and to whom, connections made with the way of checking the
  certificate, and the time.\<close>

record net_state =
  ns_step :: nat
  ns_sent :: "(http_url \<times> request) list"
  ns_tls :: "(http_url \<times> string) list"
  ns_now :: nat

definition tick :: "servers \<Rightarrow> net_state \<Rightarrow> net_state" where
  "tick w st = st\<lparr> ns_step := ns_step st + 1, ns_now := ns_now st + sv_lag w (ns_step st) \<rparr>"

section \<open>Opening a connection\<close>

definition normalize_hex :: "nat \<Rightarrow> string \<Rightarrow> string" where
  "normalize_hex sz s = cstr_trunc sz (map c_tolower (filter is_hex s))"

definition tls_mode_for :: "http_config option \<Rightarrow> http_url \<Rightarrow> string" where
  "tls_mode_for cfg u =
     (case cfg of
        Some g \<Rightarrow> if cfg_same_host cfg u \<and> hg_tls g \<noteq> [] then hg_tls g else ''verify''
      | None \<Rightarrow> ''verify'')"

definition pin_ok :: "http_config option \<Rightarrow> string \<Rightarrow> bool" where
  "pin_ok cfg fingerprint =
     (let want = normalize_hex 100 (case cfg of Some g \<Rightarrow> hg_pin g | None \<Rightarrow> []) in want \<noteq> [] \<and> want = fingerprint)"

definition tls_handshake :: "servers \<Rightarrow> http_config option \<Rightarrow> http_url \<Rightarrow> net_state \<Rightarrow> bool" where
  "tls_handshake w cfg u st =
     (let mode = tls_mode_for cfg u in
      case sv_cert w (ns_step st) u (mode = ''verify'') of
        None \<Rightarrow> False
      | Some fp \<Rightarrow> mode = ''pin'' \<longrightarrow> pin_ok cfg fp)"

definition conn_open :: "servers \<Rightarrow> http_config option \<Rightarrow> http_url \<Rightarrow> net_state \<Rightarrow> hconn option \<times> net_state" where
  "conn_open w cfg u st =
     (let st1 = (tick w st)\<lparr> ns_tls := (if hu_https u then ns_tls st @ [(u, tls_mode_for cfg u)] else ns_tls st) \<rparr> in
      if sv_open w (ns_step st) u \<and> (hu_https u \<longrightarrow> tls_handshake w cfg u st)
      then (Some \<lparr> hc_buf = [], hc_net = [], hc_alive = True, hc_ep = u\<lparr> hu_path := [] \<rparr>, hc_room = sv_room w \<rparr>, st1)
      else (None, st1))"

section \<open>A request\<close>

record fetch_opts =
  fo_head :: bool
  fo_range :: "(nat \<times> nat) option"
  fo_buf :: bool
  fo_body :: bool
  fo_max :: nat

definition range_start :: "fetch_opts \<Rightarrow> nat" where
  "range_start opt = (case fo_range opt of Some (a, n) \<Rightarrow> a | None \<Rightarrow> 0)"

definition range_len :: "fetch_opts \<Rightarrow> nat" where
  "range_len opt = (case fo_range opt of Some (a, n) \<Rightarrow> n | None \<Rightarrow> 0)"

definition basic_auth :: "http_config \<Rightarrow> string" where
  "basic_auth g = src_b64_encode 300 0 (map of_char (cstr_trunc 200 (hg_user g @ '':'' @ hg_pass g)))"

definition build_request :: "http_config option \<Rightarrow> http_url \<Rightarrow> bool \<Rightarrow> (nat \<times> nat) option \<Rightarrow> request" where
  "build_request cfg u is_head rg =
     \<lparr> rq_method = (if is_head then ''HEAD'' else ''GET''), rq_path = hu_path u, rq_host = host_port u, rq_range = rg,
       rq_auth = (case cfg of Some g \<Rightarrow> if cfg_applies_to cfg u then Some (basic_auth g) else None | None \<Rightarrow> None) \<rparr>"

text \<open>The bytes of a request; \<open>version\<close> is that of the program.\<close>

definition line_end :: string where "line_end = [CHR 0x0D, CHR 0x0A]"

definition request_text :: "string \<Rightarrow> request \<Rightarrow> string" where
  "request_text version q =
     rq_method q @ '' '' @ rq_path q @ '' HTTP/1.1'' @ line_end @
     ''Host: '' @ rq_host q @ line_end @
     ''User-Agent: pkg-manager-x/'' @ version @ line_end @
     ''Accept: */*'' @ line_end @
     ''Accept-Encoding: identity'' @ line_end @
     ''Connection: keep-alive'' @ line_end @
     (case rq_range q of Some (a, b) \<Rightarrow> ''Range: bytes='' @ dec_str a @ ''-'' @ dec_str b @ line_end | None \<Rightarrow> []) @
     (case rq_auth q of Some t \<Rightarrow> ''Authorization: Basic '' @ t @ line_end | None \<Rightarrow> []) @ line_end"

definition PKGMGR_X_VERSION :: string where "PKGMGR_X_VERSION = ''0.0.0-dev''"

definition http_send_request ::
  "servers \<Rightarrow> http_config option \<Rightarrow> http_url \<Rightarrow> bool \<Rightarrow> (nat \<times> nat) option \<Rightarrow> hconn \<Rightarrow> net_state \<Rightarrow> bool \<times> hconn \<times> net_state" where
  "http_send_request w cfg u is_head rg c st =
     (let q = build_request cfg u is_head rg in
      if length (request_text PKGMGR_X_VERSION q) \<ge> HTTP_URL_MAX + 1024 then (False, c, st)
      else
      let st1 = (tick w st)\<lparr> ns_sent := ns_sent st @ [(hc_ep c, q)] \<rparr> in
      case sv_reply w (ns_step st) (hc_ep c) q of
        None \<Rightarrow> (False, c, st1)
      | Some ps \<Rightarrow> (True, c\<lparr> hc_net := hc_net c @ filter (\<lambda>p. p \<noteq> []) ps \<rparr>, st1))"

definition exchange ::
  "servers \<Rightarrow> http_config option \<Rightarrow> http_url \<Rightarrow> bool \<Rightarrow> (nat \<times> nat) option \<Rightarrow> hconn \<Rightarrow> net_state
   \<Rightarrow> (http_resp \<times> hconn) option \<times> net_state" where
  "exchange w cfg u is_head rg c st =
     (case http_send_request w cfg u is_head rg c st of
        (False, _, st1) \<Rightarrow> (None, st1)
      | (True, c1, st1) \<Rightarrow>
          (case http_read_response (sv_junk w) c1 of
             (None, _) \<Rightarrow> (None, st1)
           | (Some r, c2) \<Rightarrow> (Some (r, c2), st1)))"

section \<open>What is kept of a response\<close>

record fetched =
  ft_status :: int
  ft_resp :: http_resp
  ft_range :: "byte list"
  ft_body :: "byte list option"

definition fetch_failed :: fetched where
  "fetch_failed = \<lparr> ft_status = - 1, ft_resp = resp_zero, ft_range = [], ft_body = None \<rparr>"

definition dead :: "hconn \<Rightarrow> hconn" where
  "dead c = c\<lparr> hc_alive := False \<rparr>"

text \<open>The bytes for a range buffer: a 206 must start where it was asked to, a 200 serves from the
  start of the file only.\<close>

definition receive_range :: "byte list \<Rightarrow> fetch_opts \<Rightarrow> http_resp \<Rightarrow> hconn \<Rightarrow> int \<times> byte list \<times> hconn" where
  "receive_range junk opt r c =
     (let avail = (if rs_length r \<ge> 0 then nat (rs_length r) else range_len opt) in
      if rs_status r = 206 \<and> rs_has_range r \<and> rs_start r \<noteq> range_start opt then (- 1, [], dead c)
      else if rs_status r = 200 \<and> range_start opt \<noteq> 0 then (0, [], dead c)
      else if rs_chunked r then
        (case http_read_body True (range_len opt + 65536) junk r False c of
           (rc, body, c') \<Rightarrow> if rc = 0 then (0, take (range_len opt) body, c') else (rc, [], c'))
      else
      let want = min avail (range_len opt) in
      case conn_read_exact want c of
        (None, c') \<Rightarrow> (- 1, [], c')
      | (Some bs, c') \<Rightarrow> (0, bs, if rs_status r = 200 \<or> want \<noteq> avail then dead c' else c'))"

definition receive :: "byte list \<Rightarrow> fetch_opts \<Rightarrow> http_resp \<Rightarrow> hconn \<Rightarrow> int \<times> byte list \<times> byte list option \<times> hconn" where
  "receive junk opt r c =
     (if fo_buf opt \<and> \<not> fo_head opt \<and> (rs_status r = 206 \<or> rs_status r = 200)
      then (case receive_range junk opt r c of (rc, bs, c') \<Rightarrow> (rc, bs, None, c'))
      else if fo_body opt \<and> \<not> fo_head opt \<and> 200 \<le> rs_status r \<and> rs_status r < 300
      then (case http_read_body True (fo_max opt) junk r False c of
              (rc, b, c') \<Rightarrow> (rc, [], if rc = 0 then Some b else None, c'))
      else (case http_read_body False (256 * 1024) junk r (fo_head opt) c of (rc, _, c') \<Rightarrow> (rc, [], None, c')))"

text \<open>The answer and the connection if it can be used again.\<close>

definition finish_fetch :: "byte list \<Rightarrow> fetch_opts \<Rightarrow> http_resp \<times> hconn \<Rightarrow> fetched \<times> hconn option" where
  "finish_fetch junk opt rc =
     (case rc of (r, c) \<Rightarrow>
        case receive junk opt r c of
          (code, bs, body, c1) \<Rightarrow>
            if code < 0 then (fetch_failed, None)
            else (\<lparr> ft_status = rs_status r, ft_resp = r, ft_range = bs, ft_body = body \<rparr>,
                  if hc_alive c1 \<and> \<not> rs_close r then Some c1 else None))"

definition wire_range :: "fetch_opts \<Rightarrow> (nat \<times> nat) option" where
  "wire_range opt =
     (case fo_range opt of None \<Rightarrow> None | Some (a, n) \<Rightarrow> Some (a, (a + (if n \<noteq> 0 then n - 1 else 0)) mod 2 ^ 64))"

text \<open>On a fresh connection.\<close>

definition fetch_fresh ::
  "servers \<Rightarrow> http_url \<Rightarrow> http_config option \<Rightarrow> fetch_opts \<Rightarrow> net_state \<Rightarrow> fetched \<times> hconn option \<times> net_state" where
  "fetch_fresh w u cfg opt st =
     (case conn_open w cfg u st of
        (None, st1) \<Rightarrow> (fetch_failed, None, st1)
      | (Some c, st1) \<Rightarrow>
          (case exchange w cfg u (fo_head opt) (wire_range opt) c st1 of
             (None, st2) \<Rightarrow> (fetch_failed, None, st2)
           | (Some rc, st2) \<Rightarrow> (case finish_fetch (sv_junk w) opt rc of (f, c') \<Rightarrow> (f, c', st2))))"

definition fetch_on ::
  "servers \<Rightarrow> hconn option \<Rightarrow> http_url \<Rightarrow> http_config option \<Rightarrow> fetch_opts \<Rightarrow> net_state \<Rightarrow> fetched \<times> hconn option \<times> net_state" where
  "fetch_on w pc u cfg opt st =
     (case pc of
        None \<Rightarrow> fetch_fresh w u cfg opt st
      | Some c \<Rightarrow>
          if \<not> hc_alive c \<or> \<not> same_endpoint (hc_ep c) u then fetch_fresh w u cfg opt st
          else
          (case exchange w cfg u (fo_head opt) (wire_range opt) c st of
             (None, st1) \<Rightarrow> fetch_fresh w u cfg opt st1
           | (Some rc, st1) \<Rightarrow> (case finish_fetch (sv_junk w) opt rc of (f, c') \<Rightarrow> (f, c', st1))))"

section \<open>Redirects\<close>

definition is_redirect :: "http_resp \<Rightarrow> bool" where
  "is_redirect r \<longleftrightarrow> rs_status r \<in> {301, 302, 303, 307, 308} \<and> rs_location r \<noteq> []"

text \<open>Up to \<open>hops\<close> requests; the URL used last comes back with the answer.\<close>

fun fetch_hops ::
  "servers \<Rightarrow> nat \<Rightarrow> string \<Rightarrow> http_config option \<Rightarrow> fetch_opts \<Rightarrow> hconn option \<Rightarrow> net_state
   \<Rightarrow> fetched \<times> string \<times> hconn option \<times> net_state" where
  "fetch_hops w 0 cur cfg opt pc st = (fetch_failed, cur, pc, st)"
| "fetch_hops w (Suc k) cur cfg opt pc st =
     (case http_url_parse cur of
        None \<Rightarrow> (fetch_failed, cur, pc, st)
      | Some u \<Rightarrow>
          (case fetch_on w pc u cfg opt st of
             (f, pc1, st1) \<Rightarrow>
               if ft_status f < 0 then (f, cur, pc1, st1)
               else if is_redirect (ft_resp f)
               then (case url_resolve cur (rs_location (ft_resp f)) HTTP_URL_MAX of
                       None \<Rightarrow> (fetch_failed, cur, pc1, st1)
                     | Some next \<Rightarrow> fetch_hops w k next cfg opt pc1 st1)
               else (f, cur, pc1, st1)))"

definition HTTP_MAX_REDIRECTS :: nat where "HTTP_MAX_REDIRECTS = 5"

definition http_fetch ::
  "servers \<Rightarrow> string \<Rightarrow> http_config option \<Rightarrow> fetch_opts \<Rightarrow> hconn option \<Rightarrow> net_state
   \<Rightarrow> fetched \<times> string \<times> hconn option \<times> net_state" where
  "http_fetch w url cfg opt pc st = fetch_hops w (HTTP_MAX_REDIRECTS + 1) (cstr_trunc HTTP_URL_MAX url) cfg opt pc st"

definition range_opts :: "nat \<Rightarrow> nat \<Rightarrow> fetch_opts" where
  "range_opts off n = \<lparr> fo_head = False, fo_range = Some (off, n), fo_buf = True, fo_body = False, fo_max = 0 \<rparr>"

definition head_opts :: fetch_opts where
  "head_opts = \<lparr> fo_head = True, fo_range = None, fo_buf = False, fo_body = False, fo_max = 0 \<rparr>"

definition body_opts :: "nat \<Rightarrow> fetch_opts" where
  "body_opts mx = \<lparr> fo_head = False, fo_range = None, fo_buf = False, fo_body = True, fo_max = mx \<rparr>"

text \<open>Bytes of a file at an offset.\<close>

definition http_source_pread ::
  "servers \<Rightarrow> string \<Rightarrow> http_config option \<Rightarrow> nat \<Rightarrow> nat \<Rightarrow> net_state \<Rightarrow> byte list option \<times> net_state" where
  "http_source_pread w url cfg count off st =
     (if count = 0 then (Some [], st)
      else
      case http_fetch w url cfg (range_opts off count) None st of
        (f, _, _, st1) \<Rightarrow>
          (if ft_status f = 206 \<or> (ft_status f = 200 \<and> off = 0) then Some (ft_range f) else None, st1))"

end
