(* ===== verification/HttpSession.thy ===== *)
theory HttpSession
  imports HttpFetch
begin

text \<open>
  Packages on HTTP servers that are read as files: what is known of each file, probing, and
  sessions, whose reads ride out outages and renew links, as in \<open>src/http_source.c\<close>. One
  thread reads; the pool of idle connections and the state of files are passed along.
\<close>

section \<open>What is known of a file\<close>

text \<open>A slot of the table; a key of zero is a free slot.\<close>

record file_state =
  fl_key :: "64 word"
  fl_size :: nat
  fl_gone :: bool

definition HTTP_STATE_SLOTS :: nat where "HTTP_STATE_SLOTS = 8192"

definition url_key :: "string \<Rightarrow> 64 word" where
  "url_key url = (if fnv1a64 url = 0 then 1 else fnv1a64 url)"

text \<open>The slot with the key, or the first free one, in at most so many steps.\<close>

fun fstate_probe :: "file_state list \<Rightarrow> 64 word \<Rightarrow> nat \<Rightarrow> nat \<Rightarrow> nat option" where
  "fstate_probe tab key 0 i = None"
| "fstate_probe tab key (Suc k) i =
     (if fl_key (tab ! i) = key \<or> fl_key (tab ! i) = 0 then Some i
      else fstate_probe tab key k ((i + 1) mod HTTP_STATE_SLOTS))"

definition fstate_find :: "file_state list \<Rightarrow> string \<Rightarrow> bool \<Rightarrow> nat option \<times> file_state list" where
  "fstate_find tab url create =
     (let key = url_key url in
      case fstate_probe tab key HTTP_STATE_SLOTS (unat key mod HTTP_STATE_SLOTS) of
        None \<Rightarrow> (None, tab)
      | Some i \<Rightarrow>
          if fl_key (tab ! i) = key then (Some i, tab)
          else if create then (Some i, tab [i := (tab ! i)\<lparr> fl_key := key \<rparr>])
          else (None, tab))"

definition http_source_set_unavailable :: "string \<Rightarrow> bool \<Rightarrow> file_state list \<Rightarrow> file_state list" where
  "http_source_set_unavailable url gone tab =
     (case fstate_find tab url gone of
        (None, tab1) \<Rightarrow> tab1
      | (Some i, tab1) \<Rightarrow> tab1 [i := (tab1 ! i)\<lparr> fl_gone := gone \<rparr>])"

definition http_source_is_unavailable :: "string \<Rightarrow> file_state list \<Rightarrow> bool" where
  "http_source_is_unavailable url tab = (case fst (fstate_find tab url False) of None \<Rightarrow> False | Some i \<Rightarrow> fl_gone (tab ! i))"

definition expected_size_set :: "string \<Rightarrow> nat \<Rightarrow> file_state list \<Rightarrow> file_state list" where
  "expected_size_set url sz tab =
     (case fstate_find tab url (sz \<noteq> 0) of
        (None, tab1) \<Rightarrow> tab1
      | (Some i, tab1) \<Rightarrow> tab1 [i := (tab1 ! i)\<lparr> fl_size := sz \<rparr>])"

definition http_source_expected_size :: "string \<Rightarrow> file_state list \<Rightarrow> nat" where
  "http_source_expected_size url tab = (case fst (fstate_find tab url False) of None \<Rightarrow> 0 | Some i \<Rightarrow> fl_size (tab ! i))"

section \<open>The configured sources\<close>

text \<open>Of the sources whose address starts the URL, the first with the longest address.\<close>

definition http_sources_find_for_url :: "http_config list \<Rightarrow> string \<Rightarrow> http_config option" where
  "http_sources_find_for_url gs url =
     fold (\<lambda>g best. let l = length (hg_url g) in
             if l > (case best of None \<Rightarrow> 0 | Some b \<Rightarrow> length (hg_url b)) \<and> strncasecmp_eq url (hg_url g) l then Some g else best)
       gs None"

section \<open>Probing\<close>

datatype probed = Ranges nat | No_ranges | Unreachable

definition range_probe_st ::
  "servers \<Rightarrow> hconn option \<Rightarrow> string \<Rightarrow> http_config option \<Rightarrow> file_state list \<Rightarrow> net_state
   \<Rightarrow> probed \<times> int \<times> string \<times> hconn option \<times> file_state list \<times> net_state" where
  "range_probe_st w pc url cfg tab st =
     (case http_fetch w url cfg (range_opts 0 1) pc st of
        (f, fin, pc1, st1) \<Rightarrow>
          (if ft_status f = 206 \<and> rs_total (ft_resp f) > 0 then Ranges (rs_total (ft_resp f))
           else if ft_status f = 200 then No_ranges else Unreachable,
           ft_status f, fin, pc1,
           if ft_status f = 404 \<or> ft_status f = 410 then http_source_set_unavailable url True tab
           else if ft_status f = 206 then http_source_set_unavailable url False tab
           else tab,
           st1))"

text \<open>Size and date.\<close>

definition http_source_stat ::
  "servers \<Rightarrow> http_config list \<Rightarrow> string \<Rightarrow> file_state list \<Rightarrow> net_state \<Rightarrow> (nat \<times> nat) option \<times> file_state list \<times> net_state" where
  "http_source_stat w gs url tab st =
     (if http_source_expected_size url tab \<noteq> 0 then (Some (http_source_expected_size url tab, 0), tab, st)
      else
      let cfg = http_sources_find_for_url gs url in
      case http_fetch w url cfg head_opts None st of
        (f, fin, pc1, st1) \<Rightarrow>
          if ft_status f = 200 \<and> rs_length (ft_resp f) \<ge> 0
          then (Some (nat (rs_length (ft_resp f)), rs_modified (ft_resp f)), tab, st1)
          else if ft_status f > 0
          then (case range_probe_st w pc1 url cfg tab st1 of
                  (p, _, _, _, tab2, st2) \<Rightarrow> (case p of Ranges tot \<Rightarrow> Some (tot, 0) | _ \<Rightarrow> None, tab2, st2))
          else (None, tab, st1))"

section \<open>Sessions\<close>

record session =
  se_origin :: string
  se_url :: string
  se_u :: http_url
  se_redirected :: bool
  se_generation :: nat
  se_resilient :: bool
  se_cfg :: "http_config option"
  se_size :: nat
  se_idle :: "hconn list"
  se_stream :: "hconn option"
  se_pos :: nat
  se_end :: nat

definition HTTP_POOL_MAX :: nat where "HTTP_POOL_MAX = 6"

definition session_take :: "session \<Rightarrow> hconn option \<times> session" where
  "session_take s = (if se_idle s = [] then (None, s) else (Some (last (se_idle s)), s\<lparr> se_idle := butlast (se_idle s) \<rparr>))"

definition session_give :: "hconn option \<Rightarrow> session \<Rightarrow> session" where
  "session_give pc s =
     (case pc of
        None \<Rightarrow> s
      | Some c \<Rightarrow> if hc_alive c \<and> length (se_idle s) < HTTP_POOL_MAX then s\<lparr> se_idle := se_idle s @ [c] \<rparr> else s)"

definition session_set_url :: "string \<Rightarrow> http_url \<Rightarrow> session \<Rightarrow> session" where
  "session_set_url fin u s =
     s\<lparr> se_url := cstr_trunc HTTP_URL_MAX fin, se_u := u, se_redirected := cstr_trunc HTTP_URL_MAX fin \<noteq> se_origin s,
        se_generation := (se_generation s + 1) mod 2 ^ 32 \<rparr>"

definition http_file_session_open ::
  "servers \<Rightarrow> http_config list \<Rightarrow> string \<Rightarrow> file_state list \<Rightarrow> net_state \<Rightarrow> session option \<times> file_state list \<times> net_state" where
  "http_file_session_open w gs url tab st =
     (let cfg = http_sources_find_for_url gs url in
      case range_probe_st w None url cfg tab st of
        (p, status, fin, pc, tab1, st1) \<Rightarrow>
          let expected = http_source_expected_size url tab1 in
          case (p, http_url_parse fin) of
            (Ranges tot, Some u) \<Rightarrow>
              if expected \<noteq> 0 \<and> tot \<noteq> expected then (None, tab1, st1)
              else
              let s0 = \<lparr> se_origin = cstr_trunc HTTP_URL_MAX url, se_url = [], se_u = u, se_redirected = False, se_generation = 0,
                         se_resilient = False, se_cfg = cfg, se_size = tot, se_idle = [], se_stream = None, se_pos = 0, se_end = 0 \<rparr>
              in (Some (session_give pc (session_set_url fin u s0)), tab1, st1)
          | _ \<Rightarrow> (None, tab1, st1))"

definition http_file_session_set_resilient :: "bool \<Rightarrow> session \<Rightarrow> session" where
  "http_file_session_set_resilient r s = s\<lparr> se_resilient := r \<rparr>"

text \<open>Asking again where the file is.\<close>

datatype refreshed = Refreshed | Changed | Try_later

definition session_refresh ::
  "servers \<Rightarrow> session \<Rightarrow> nat \<Rightarrow> file_state list \<Rightarrow> net_state \<Rightarrow> refreshed \<times> session \<times> file_state list \<times> net_state" where
  "session_refresh w s seen tab st =
     (if se_generation s \<noteq> seen then (Refreshed, s, tab, st)
      else
      case range_probe_st w None (se_origin s) (se_cfg s) tab st of
        (p, status, fin, pc, tab1, st1) \<Rightarrow>
          (case p of
             Ranges tot \<Rightarrow>
               (case (tot = se_size s, http_url_parse fin) of
                  (True, Some u) \<Rightarrow> (Refreshed, session_give pc (session_set_url fin u s), tab1, st1)
                | _ \<Rightarrow> (Changed, s, tab1, st1))
           | _ \<Rightarrow> if status < 0 \<or> status \<ge> 500 \<or> status = 408 \<or> status = 429 then (Try_later, s, tab1, st1)
                  else (Changed, s, tab1, st1)))"

subsection \<open>A read\<close>

definition HTTP_READ_RETRY_SEC :: nat where "HTTP_READ_RETRY_SEC = 120"

text \<open>Waiting, second by second, until the time is over or the installation is cancelled.\<close>

fun pause :: "servers \<Rightarrow> nat \<Rightarrow> net_state \<Rightarrow> net_state" where
  "pause w 0 st = st"
| "pause w (Suc n) st =
     (if sv_cancel w (ns_step st) then st
      else let st1 = tick w st in pause w n (st1\<lparr> ns_now := ns_now st1 + 1 \<rparr>))"

datatype verdict = Deliver "byte list" | Give_up | Ask_again | Wait

text \<open>What to do with an answer; 404 and 410 mark the file as gone.\<close>

definition judge :: "bool \<Rightarrow> fetched \<Rightarrow> verdict" where
  "judge redirected f =
     (let st = ft_status f in
      if st = 206 \<and> ft_range f \<noteq> [] then Deliver (ft_range f)
      else if (300 \<le> st \<and> st < 400) \<or> (redirected \<and> st \<in> {400, 401, 403, 404, 410}) then Ask_again
      else if st = 404 \<or> st = 410 then Give_up
      else if st < 0 \<or> st \<ge> 500 \<or> st = 408 \<or> st = 429 then Wait
      else Give_up)"

definition gone_after :: "bool \<Rightarrow> fetched \<Rightarrow> string \<Rightarrow> file_state list \<Rightarrow> file_state list" where
  "gone_after redirected f url tab =
     (if judge redirected f = Give_up \<and> (ft_status f = 404 \<or> ft_status f = 410) then http_source_set_unavailable url True tab else tab)"

text \<open>One turn of the loop: an answer, or the session, deadline, pause and refreshes for the next.\<close>

record attempt =
  at_s :: session
  at_tab :: "file_state list"
  at_deadline :: nat
  at_delay :: nat
  at_refreshes :: nat
  at_st :: net_state

definition after_outage :: "servers \<Rightarrow> attempt \<Rightarrow> attempt option \<times> net_state" where
  "after_outage w a =
     (let st = at_st a;
          dl = (if at_deadline a = 0 then ns_now st + HTTP_READ_RETRY_SEC else at_deadline a)
      in if \<not> se_resilient (at_s a) \<or> sv_cancel w (ns_step st) \<or> ns_now st \<ge> dl then (None, st)
         else
         let st1 = pause w (at_delay a) st
         in (Some (a\<lparr> at_deadline := dl, at_delay := (if at_delay a < 8 then at_delay a * 2 else at_delay a), at_st := st1 \<rparr>), st1))"

definition read_turn ::
  "servers \<Rightarrow> nat \<Rightarrow> nat \<Rightarrow> attempt \<Rightarrow> (byte list option + attempt) \<times> attempt" where
  "read_turn w count off a =
     (case session_take (at_s a) of
        (pc, s1) \<Rightarrow>
          (case fetch_on w pc (se_u s1) (se_cfg s1) (range_opts off count) (at_st a) of
             (f, pc1, st1) \<Rightarrow>
               let s2 = session_give pc1 s1;
                   red = se_redirected (at_s a);
                   a2 = a\<lparr> at_s := s2, at_tab := gone_after red f (se_origin s2) (at_tab a), at_st := st1 \<rparr>;
                   wait = (\<lambda>b. case fst (after_outage w b) of None \<Rightarrow> (Inl None, b) | Some c \<Rightarrow> (Inr c, c))
               in (case judge red f of
                     Deliver bs \<Rightarrow> (Inl (Some bs), a2)
                   | Give_up \<Rightarrow> (Inl None, a2)
                   | Wait \<Rightarrow> wait a2
                   | Ask_again \<Rightarrow>
                       if at_refreshes a \<ge> 3 then (Inl None, a2)
                       else
                       (case session_refresh w s2 (se_generation (at_s a)) (at_tab a2) st1 of
                          (r, s3, tab3, st3) \<Rightarrow>
                            let a3 = a2\<lparr> at_s := s3, at_tab := tab3, at_refreshes := at_refreshes a + 1, at_st := st3 \<rparr>
                            in (case r of Refreshed \<Rightarrow> (Inr a3, a3) | Changed \<Rightarrow> (Inl None, a3) | Try_later \<Rightarrow> wait a3)))))"

text \<open>Turns of the loop, as many as there is fuel; \<open>None\<close> when it runs out.\<close>

fun read_turns :: "servers \<Rightarrow> nat \<Rightarrow> nat \<Rightarrow> nat \<Rightarrow> attempt \<Rightarrow> (byte list option \<times> attempt) option" where
  "read_turns w 0 count off a = None"
| "read_turns w (Suc k) count off a =
     (case read_turn w count off a of
        (Inl r, a1) \<Rightarrow> Some (r, a1)
      | (Inr b, a1) \<Rightarrow> read_turns w k count off b)"

definition first_attempt :: "session \<Rightarrow> file_state list \<Rightarrow> net_state \<Rightarrow> attempt" where
  "first_attempt s tab st = \<lparr> at_s = s, at_tab = tab, at_deadline = 0, at_delay = 1, at_refreshes = 0, at_st = st \<rparr>"

text \<open>Bytes at an offset, \<open>Some []\<close> at the end of the file; with the session, the table of files and
  the network afterwards. Turns are counted by \<open>fuel\<close>.\<close>

definition session_read_direct ::
  "servers \<Rightarrow> nat \<Rightarrow> session \<Rightarrow> nat \<Rightarrow> nat \<Rightarrow> file_state list \<Rightarrow> net_state
   \<Rightarrow> (byte list option \<times> session \<times> file_state list \<times> net_state) option" where
  "session_read_direct w fuel s count off tab st =
     (if count = 0 \<or> off \<ge> se_size s then Some (Some [], s, tab, st)
      else
      map_option (\<lambda>(r, a). (r, at_s a, at_tab a, at_st a))
        (read_turns w fuel (min count (se_size s - off)) off (first_attempt s tab st)))"

subsection \<open>Streaming\<close>

definition HTTP_STREAM_WINDOW :: nat where "HTTP_STREAM_WINDOW = 8 * 1024 * 1024"

definition stream_drop :: "session \<Rightarrow> session" where
  "stream_drop s = s\<lparr> se_stream := None, se_pos := 0, se_end := 0 \<rparr>"

definition stream_usable :: "nat \<Rightarrow> http_resp \<Rightarrow> bool" where
  "stream_usable off r \<longleftrightarrow> rs_status r = 206 \<and> \<not> rs_chunked r \<and> rs_length r > 0 \<and> (rs_has_range r \<longrightarrow> rs_start r = off)"

definition stream_window :: "session \<Rightarrow> nat \<Rightarrow> nat" where
  "stream_window s off = min (se_size s - off) HTTP_STREAM_WINDOW"

text \<open>A connection with the head of its answer read, if the answer can be handed out.\<close>

definition stream_fresh ::
  "servers \<Rightarrow> session \<Rightarrow> nat \<Rightarrow> net_state \<Rightarrow> (http_resp \<times> hconn) option \<times> net_state" where
  "stream_fresh w s off st =
     (case conn_open w (se_cfg s) (se_u s) st of
        (None, st1) \<Rightarrow> (None, st1)
      | (Some c, st1) \<Rightarrow> exchange w (se_cfg s) (se_u s) False (Some (off, off + stream_window s off - 1)) c st1)"

definition stream_request ::
  "servers \<Rightarrow> hconn option \<Rightarrow> session \<Rightarrow> nat \<Rightarrow> net_state \<Rightarrow> (http_resp \<times> hconn) option \<times> net_state" where
  "stream_request w pc s off st =
     (case pc of
        None \<Rightarrow> stream_fresh w s off st
      | Some c \<Rightarrow>
          if \<not> hc_alive c \<or> \<not> same_endpoint (hc_ep c) (se_u s) then stream_fresh w s off st
          else
          (case exchange w (se_cfg s) (se_u s) False (Some (off, off + stream_window s off - 1)) c st of
             (None, st1) \<Rightarrow> stream_fresh w s off st1
           | (Some rc, st1) \<Rightarrow> (Some rc, st1)))"

definition stream_open :: "servers \<Rightarrow> session \<Rightarrow> nat \<Rightarrow> net_state \<Rightarrow> bool \<times> session \<times> net_state" where
  "stream_open w s off st =
     (case session_take s of
        (pc, s1) \<Rightarrow>
          (case stream_request w pc s1 off st of
             (None, st1) \<Rightarrow> (False, s1, st1)
           | (Some (r, c), st1) \<Rightarrow>
               if \<not> stream_usable off r then (False, s1, st1)
               else (True,
                     s1\<lparr> se_stream := Some (if rs_close r then c\<lparr> hc_alive := False \<rparr> else c), se_pos := off,
                         se_end := off + nat (rs_length r) \<rparr>, st1)))"

definition stream_ready :: "session \<Rightarrow> nat \<Rightarrow> bool" where
  "stream_ready s off \<longleftrightarrow> se_stream s \<noteq> None \<and> off = se_pos s \<and> se_pos s < se_end s"

text \<open>The next bytes of the stream; \<open>None\<close> when the connection fails.\<close>

definition stream_next :: "session \<Rightarrow> nat \<Rightarrow> byte list option \<times> session" where
  "stream_next s count =
     (case se_stream s of
        None \<Rightarrow> (None, s)
      | Some c \<Rightarrow>
          (case conn_read_exact (min (se_end s - se_pos s) count) c of
             (None, c1) \<Rightarrow> (None, stream_drop s)
           | (Some bs, c1) \<Rightarrow>
               let pos = se_pos s + length bs in
               if pos \<ge> se_end s then (Some bs, session_give (Some c1) (s\<lparr> se_pos := pos, se_stream := None \<rparr>))
               else (Some bs, s\<lparr> se_pos := pos, se_stream := Some c1 \<rparr>)))"

definition session_read_streaming ::
  "servers \<Rightarrow> nat \<Rightarrow> session \<Rightarrow> nat \<Rightarrow> nat \<Rightarrow> file_state list \<Rightarrow> net_state
   \<Rightarrow> (byte list option \<times> session \<times> file_state list \<times> net_state) option" where
  "session_read_streaming w fuel s count0 off tab st =
     (if count0 = 0 \<or> off \<ge> se_size s then Some (Some [], s, tab, st)
      else
      let count = min count0 (se_size s - off);
          (ok, s1, st1) = (if stream_ready s off then (True, s, st) else stream_open w (stream_drop s) off st)
      in if \<not> ok then session_read_direct w fuel s1 count off tab st1
         else
         (case stream_next s1 count of
            (Some bs, s2) \<Rightarrow> Some (Some bs, s2, tab, st1)
          | (None, s2) \<Rightarrow> session_read_direct w fuel s2 count off tab st1))"

definition http_file_session_read ::
  "servers \<Rightarrow> nat \<Rightarrow> session \<Rightarrow> nat \<Rightarrow> nat \<Rightarrow> file_state list \<Rightarrow> net_state
   \<Rightarrow> (byte list option \<times> session \<times> file_state list \<times> net_state) option" where
  "http_file_session_read w fuel s count off tab st =
     (if se_resilient s then session_read_streaming w fuel s count off tab st
      else session_read_direct w fuel s count off tab st)"

end
