(* ===== verification/HttpSame.thy ===== *)
theory HttpSame
  imports HttpFetch
begin

text \<open>
  How the network cuts what it delivers into pieces makes no difference: two connections that
  still have the same bytes to deliver answer every reading operation alike, and go on alike.
\<close>

section \<open>Connections with the same bytes to come\<close>

definition wf_conn :: "hconn \<Rightarrow> bool" where
  "wf_conn c \<longleftrightarrow> 0 < hc_room c \<and> list_all (\<lambda>p. p \<noteq> []) (hc_net c)"

definition same :: "hconn \<Rightarrow> hconn \<Rightarrow> bool" where
  "same c d \<longleftrightarrow> wf_conn c \<and> wf_conn d \<and> conn_pending c = conn_pending d \<and> hc_alive c = hc_alive d \<and> hc_ep c = hc_ep d"

lemma same_wf: "same c d \<Longrightarrow> wf_conn c" "same c d \<Longrightarrow> wf_conn d"
  by (simp_all add: same_def)

lemma same_ep: "same c d \<Longrightarrow> hc_ep d = hc_ep c" "same c d \<Longrightarrow> hc_alive d = hc_alive c" "same c d \<Longrightarrow> conn_pending d = conn_pending c"
  by (simp_all add: same_def)

lemma same_amount:
  assumes "same c d"
  shows "length (hc_buf d) + length (concat (hc_net d)) = length (hc_buf c) + length (concat (hc_net c))"
proof -
  have "length (conn_pending d) = length (conn_pending c)" using assms by (simp add: same_def)
  then show ?thesis by (simp only: conn_pending_def length_append)
qed

lemma same_dead: "same c d \<Longrightarrow> same (c\<lparr> hc_alive := False \<rparr>) (d\<lparr> hc_alive := False \<rparr>)"
  by (simp add: same_def wf_conn_def conn_pending_def)

section \<open>One byte\<close>

lemma getc_cases:
  assumes "wf_conn c"
  obtains (none) "conn_pending c = []" "conn_getc c = (None, c)"
  | (some) b c' where "conn_getc c = (Some b, c')" "conn_pending c = b # conn_pending c'" "wf_conn c'" "hc_alive c' = hc_alive c" "hc_ep c' = hc_ep c"
proof (cases "hc_buf c")
  case Nil
  show ?thesis
  proof (cases "hc_net c")
    case Nil
    then show ?thesis using none \<open>hc_buf c = []\<close> by (simp add: conn_pending_def conn_getc_def conn_read_raw_def)
  next
    case (Cons p ps)
    then obtain b bs where p: "p = b # bs" "take (hc_room c) p = b # take (hc_room c - 1) bs"
      using assms by (cases p; cases "hc_room c") (auto simp: wf_conn_def)
    define c' where "c' = c\<lparr> hc_buf := take (hc_room c - 1) bs, hc_net := (if length p > hc_room c then drop (hc_room c) p # ps else ps) \<rparr>"
    have g: "conn_getc c = (Some b, c')"
      using Nil Cons p by (simp add: conn_getc_def conn_read_raw_def c'_def)
    have w: "wf_conn c'" using assms Cons by (auto simp: c'_def wf_conn_def)
    show ?thesis by (rule some [OF g conn_getc_pending [OF g] w]) (simp_all add: c'_def)
  qed
next
  case (Cons x xs)
  then have g: "conn_getc c = (Some x, c\<lparr> hc_buf := xs \<rparr>)" by (simp add: conn_getc_def)
  show ?thesis using assms by (intro some [OF g conn_getc_pending [OF g]]) (simp_all add: wf_conn_def)
qed

lemma getc_same:
  assumes "conn_getc c = (r, c')" "same c d"
  obtains d' where "conn_getc d = (r, d')" "same c' d'"
  using same_wf(1) [OF assms(2)]
proof (cases rule: getc_cases)
  case none
  then have "conn_pending d = []" using assms(2) by (simp add: same_def)
  with same_wf(2) [OF assms(2)] have "conn_getc d = (None, d)" by (cases rule: getc_cases) auto
  then show ?thesis using that none assms by simp
next
  case (some b c1)
  from same_wf(2) [OF assms(2)] show ?thesis
  proof (cases rule: getc_cases)
    case none
    then show ?thesis using some same_ep [OF assms(2)] by simp
  next
    case more: (some b2 d')
    then show ?thesis using that [of d'] some assms by (auto simp: same_def)
  qed
qed

section \<open>Lines\<close>

lemma read_line_same:
  assumes "read_line mx acc got c = (r, c')" "same c d"
  shows "\<exists>d'. read_line mx acc got d = (r, d') \<and> same c' d'"
  using assms
proof (induction mx acc got c arbitrary: d rule: read_line.induct)
  case (1 mx acc got c)
  obtain o1 c1 where g: "conn_getc c = (o1, c1)" by fastforce
  then obtain d1 where h: "conn_getc d = (o1, d1)" "same c1 d1" using getc_same 1(3) by blast
  show ?case
  proof (cases "o1 = None \<or> o1 = Some 10")
    case True
    then show ?thesis using 1(2) g h by (auto simp: read_line.simps [of mx acc got])
  next
    case False
    then obtain ch where ch: "o1 = Some ch" "ch \<noteq> 10" by auto
    show ?thesis using 1(1) [OF g [symmetric] ch _ h(2)] 1(2) g h(1) ch
      by (simp add: read_line.simps [of mx acc got c] read_line.simps [of mx acc got d])
  qed
qed

lemma conn_read_line_same:
  assumes "conn_read_line mx lb c = (r, lb', c')" "same c d"
  shows "\<exists>d'. conn_read_line mx lb d = (r, lb', d') \<and> same c' d'"
proof -
  obtain o1 c1 where g: "read_line mx [] False c = (o1, c1)" by fastforce
  from read_line_same [OF this assms(2)] obtain d1 where "read_line mx [] False d = (o1, d1)" "same c1 d1" by blast
  then show ?thesis using g assms(1) by (auto simp: conn_read_line_def split: option.splits prod.splits)
qed

lemma skip_lines_same:
  assumes "skip_lines mx lb c = (r, lb', c')" "same c d"
  shows "\<exists>d'. skip_lines mx lb d = (r, lb', d') \<and> same c' d'"
  using assms
proof (induction mx lb c arbitrary: d rule: skip_lines.induct)
  case (1 mx lb c)
  obtain o1 lb1 c1 where l: "conn_read_line mx lb c = (o1, lb1, c1)" by (metis prod_cases3)
  then obtain d1 where k: "conn_read_line mx lb d = (o1, lb1, d1)" "same c1 d1" using conn_read_line_same 1(3) by blast
  show ?case
  proof (cases "o1 = None \<or> o1 = Some 0")
    case True
    then show ?thesis using 1(2) l k by (auto simp: skip_lines.simps [of mx lb])
  next
    case False
    then obtain n where n: "o1 = Some n" "n \<noteq> 0" by auto
    show ?thesis using 1(1) [OF l [symmetric] n(1) refl n(2) _ k(2)] 1(2) l k(1) n
      by (simp add: skip_lines.simps [of mx lb])
  qed
qed

section \<open>Bytes\<close>

lemma raw_wf: "conn_read_raw n c = (r, c') \<Longrightarrow> wf_conn c \<Longrightarrow> wf_conn c'"
  by (auto simp: conn_read_raw_def wf_conn_def split: list.splits if_splits)

lemma raw_none: "wf_conn c \<Longrightarrow> 0 < n \<Longrightarrow> conn_read_raw n c = (None, c') \<Longrightarrow> c' = c \<and> hc_net c = []"
  by (auto simp: conn_read_raw_def wf_conn_def split: list.splits if_splits)

text \<open>So many bytes come exactly when so many are there.\<close>

lemma read_more_exact:
  "wf_conn c \<Longrightarrow> read_more n c = (r, c') \<Longrightarrow>
     (if length (concat (hc_net c)) < n then r = None
      else r = Some (take n (concat (hc_net c))) \<and> concat (hc_net c') = drop n (concat (hc_net c))) \<and>
     (r = None \<longrightarrow> hc_net c' = []) \<and>
     hc_buf c' = hc_buf c \<and> hc_alive c' = hc_alive c \<and> hc_ep c' = hc_ep c \<and> wf_conn c'"
proof (induction n c arbitrary: r rule: read_more.induct)
  case (1 n c)
  show ?case
  proof (cases "n = 0")
    case True
    then show ?thesis using 1(2,3) by (auto simp: read_more.simps [of 0])
  next
    case False
    obtain o1 c1 where g: "conn_read_raw n c = (o1, c1)" by fastforce
    show ?thesis
    proof (cases o1)
      case None
      then have "c1 = c \<and> hc_net c = []" using raw_none 1(2) g False by simp
      then show ?thesis using 1(2,3) g None False by (auto simp: read_more.simps [of n c])
    next
      case (Some bs)
      then have b: "bs \<noteq> []" "length bs \<le> n" "concat (hc_net c) = bs @ concat (hc_net c1)" "hc_buf c1 = hc_buf c"
          "hc_alive c1 = hc_alive c" "hc_ep c1 = hc_ep c"
        using conn_read_raw_pending [of n c bs c1] g by simp_all
      obtain r' where m: "read_more (n - length bs) c1 = (r', c')" "r = map_option (\<lambda>l. bs @ l) r'"
        using 1(3) g Some b(1) False by (auto simp: read_more.simps [of n c] split: prod.splits)
      show ?thesis using 1(1) [OF False g [symmetric] Some b(1) raw_wf [OF g 1(2)] m(1)] b m(2) by auto
    qed
  qed
qed

lemma conn_read_exact_same:
  assumes "conn_read_exact n c = (Some bs, c')" "same c d"
  shows "\<exists>d'. conn_read_exact n d = (Some bs, d') \<and> same c' d'"
proof -
  have all: "n \<le> length (conn_pending c)" "bs = take n (conn_pending c)" "conn_pending c' = drop n (conn_pending c)"
    using conn_read_exact_amount [OF assms(1)] by auto
  obtain o1 c1 where m: "read_more (n - length (hc_buf c)) (c\<lparr> hc_buf := drop n (hc_buf c) \<rparr>) = (o1, c1)" by fastforce
  have wc: "wf_conn (c\<lparr> hc_buf := drop n (hc_buf c) \<rparr>)" "wf_conn (d\<lparr> hc_buf := drop n (hc_buf d) \<rparr>)"
    using assms(2) by (simp_all add: same_def wf_conn_def)
  have c': "wf_conn c' \<and> hc_alive c' = hc_alive c \<and> hc_ep c' = hc_ep c"
    using read_more_exact [OF wc(1) m] assms(1) m by (auto simp: conn_read_exact_def)
  obtain o2 d1 where k: "read_more (n - length (hc_buf d)) (d\<lparr> hc_buf := drop n (hc_buf d) \<rparr>) = (o2, d1)" by fastforce
  have "n \<le> length (hc_buf d) + length (concat (hc_net d))" using all(1) same_amount [OF assms(2)] by (simp add: conn_pending_def)
  then have d1: "o2 = Some (take (n - length (hc_buf d)) (concat (hc_net d)))"
      "wf_conn d1 \<and> hc_alive d1 = hc_alive d \<and> hc_ep d1 = hc_ep d"
    using read_more_exact [OF wc(2) k] by (auto split: if_splits)
  then have e: "conn_read_exact n d = (Some (take n (conn_pending d)), d1)"
    using k by (simp add: conn_read_exact_def conn_pending_def)
  moreover have "conn_pending d1 = drop n (conn_pending d)" using conn_read_exact_amount [OF e] by (auto simp: conn_pending_def)
  ultimately show ?thesis using all c' d1 assms(2) same_ep [OF assms(2)] by (auto simp: same_def)
qed

lemma conn_read_exact_none:
  assumes "conn_read_exact n c = (None, c')" "same c d"
  shows "\<exists>d'. conn_read_exact n d = (None, d') \<and> same c' d'"
proof -
  let ?c = "c\<lparr> hc_buf := drop n (hc_buf c) \<rparr>" and ?d = "d\<lparr> hc_buf := drop n (hc_buf d) \<rparr>"
  have wc: "wf_conn ?c" "wf_conn ?d" using assms(2) by (simp_all add: same_def wf_conn_def)
  have m: "read_more (n - length (hc_buf c)) ?c = (None, c')"
    using assms(1) by (auto simp: conn_read_exact_def split: prod.splits)
  have short: "length (conn_pending c) < n" "length (hc_buf c) < n"
    using read_more_exact [OF wc(1) m] by (auto simp: conn_pending_def split: if_splits)
  have c': "hc_net c' = []" "hc_buf c' = []" "hc_alive c' = hc_alive c" "hc_ep c' = hc_ep c" "wf_conn c'"
    using read_more_exact [OF wc(1) m] short by auto
  obtain o2 d1 where k: "read_more (n - length (hc_buf d)) ?d = (o2, d1)" by fastforce
  have sd: "length (hc_buf d) + length (concat (hc_net d)) < n" using short same_amount [OF assms(2)] by (simp add: conn_pending_def)
  then have "o2 = None \<and> hc_net d1 = [] \<and> hc_buf d1 = [] \<and> hc_alive d1 = hc_alive d \<and> hc_ep d1 = hc_ep d \<and> wf_conn d1"
    using read_more_exact [OF wc(2) k] by (auto split: if_splits)
  then show ?thesis using k c' same_ep [OF assms(2)] by (auto simp: conn_read_exact_def same_def conn_pending_def)
qed

lemma conn_read_exact_alike:
  "conn_read_exact n c = (r, c') \<Longrightarrow> same c d \<Longrightarrow> \<exists>d'. conn_read_exact n d = (r, d') \<and> same c' d'"
  by (cases r) (auto intro: conn_read_exact_same conn_read_exact_none)

section \<open>The head of a response\<close>

lemma read_status_same:
  assumes "read_status lb c = (r, lb', c')" "same c d"
  shows "\<exists>d'. read_status lb d = (r, lb', d') \<and> same c' d'"
  using assms
proof (induction lb c arbitrary: d rule: read_status.induct)
  case (1 lb c)
  obtain o1 lb1 c1 where l: "conn_read_line HEAD_LINE lb c = (o1, lb1, c1)" by (metis prod_cases3)
  then obtain d1 where k: "conn_read_line HEAD_LINE lb d = (o1, lb1, d1)" "same c1 d1" using conn_read_line_same 1(3) by blast
  define line where "line = cstr_of_bytes lb1"
  obtain ok lb2 c2 where s: "skip_lines HEAD_LINE lb1 c1 = (ok, lb2, c2)" by (metis prod_cases3)
  then obtain d2 where t: "skip_lines HEAD_LINE lb1 d1 = (ok, lb2, d2)" "same c2 d2" using skip_lines_same k(2) by blast
  show ?case
  proof (cases "\<exists>n. o1 = Some n \<and> \<not> (n = 0 \<or> \<not> starts_with ''HTTP/1.'' line \<or> length line < 12) \<and>
      \<not> atoi (drop 9 line) \<ge> 200 \<and> ok")
    case True
    then obtain n where n: "o1 = Some n" "\<not> (n = 0 \<or> \<not> starts_with ''HTTP/1.'' line \<or> length line < 12)"
        "\<not> atoi (drop 9 line) \<ge> 200" ok by blast
    have "read_status lb2 c2 = (r, lb', c')"
      using 1(2) l s n by (simp add: read_status.simps [of lb c] line_def Let_def)
    from 1(1) [OF l [symmetric] n(1) refl line_def n(2,3) s [symmetric] _ refl this t(2)] n(4)
    show ?thesis using k(1) t(1) n by (simp add: read_status.simps [of lb d] line_def Let_def)
  next
    case False
    then show ?thesis using 1(2) l s k t
      by (cases o1) (auto simp: read_status.simps [of lb] line_def Let_def split: if_splits)
  qed
qed

lemma read_headers_same:
  "read_headers k lb r c = (x, c') \<Longrightarrow> same c d \<Longrightarrow> \<exists>d'. read_headers k lb r d = (x, d') \<and> same c' d'"
proof (induction k lb r c arbitrary: d rule: read_headers.induct)
  case (2 k lb r c)
  obtain o1 lb1 c1 where l: "conn_read_line HEAD_LINE lb c = (o1, lb1, c1)" by (metis prod_cases3)
  then obtain d1 where m: "conn_read_line HEAD_LINE lb d = (o1, lb1, d1)" "same c1 d1" using conn_read_line_same 2(3) by blast
  show ?case
  proof (cases "o1 = None \<or> o1 = Some 0")
    case True
    then show ?thesis using 2(2) l m by auto
  next
    case False
    then obtain n where n: "o1 = Some n" "n \<noteq> 0" by auto
    show ?thesis using 2(1) [OF l [symmetric] n(1) refl n(2) _ m(2)] 2(2) l m(1) n by simp
  qed
qed auto

lemma read_response_same:
  assumes "http_read_response junk c = (r, c')" "same c d"
  shows "\<exists>d'. http_read_response junk d = (r, d') \<and> same c' d'"
proof -
  obtain o1 lb1 c1 where s: "read_status junk c = (o1, lb1, c1)" by (metis prod_cases3)
  then obtain d1 where t: "read_status junk d = (o1, lb1, d1)" "same c1 d1" using read_status_same assms(2) by blast
  show ?thesis
  proof (cases o1)
    case None
    then show ?thesis using assms s t by (auto simp: http_read_response_def)
  next
    case (Some p)
    obtain st close where "p = (st, close)" by fastforce
    then show ?thesis using assms(1) s t(1) Some read_headers_same [OF _ t(2)] by (simp add: http_read_response_def)
  qed
qed

section \<open>The body\<close>

lemma read_chunks_same:
  assumes "read_chunks mx lb acc c = (e, b, c')" "same c d"
  shows "\<exists>d'. read_chunks mx lb acc d = (e, b, d') \<and> same c' d'"
  using assms
proof (induction mx lb acc c arbitrary: d rule: read_chunks.induct)
  case (1 mx lb acc c)
  obtain o1 lb1 c1 where l: "conn_read_line 128 lb c = (o1, lb1, c1)" by (metis prod_cases3)
  then obtain d1 where k: "conn_read_line 128 lb d = (o1, lb1, d1)" "same c1 d1" using conn_read_line_same 1(3) by blast
  define chunk where "chunk = strtoull16 (cstr_of_bytes lb1)"
  obtain ok lbs cs where s: "skip_lines 128 lb1 c1 = (ok, lbs, cs)" by (metis prod_cases3)
  then obtain ds where t: "skip_lines 128 lb1 d1 = (ok, lbs, ds)" "same cs ds" using skip_lines_same k(2) by blast
  obtain o2 c2 where x: "conn_read_exact chunk c1 = (o2, c2)" by fastforce
  then obtain d2 where y: "conn_read_exact chunk d1 = (o2, d2)" "same c2 d2" using conn_read_exact_alike k(2) by blast
  obtain o3 lb3 c3 where u: "conn_read_line 128 lb1 c2 = (o3, lb3, c3)" by (metis prod_cases3)
  then obtain d3 where v: "conn_read_line 128 lb1 d2 = (o3, lb3, d3)" "same c3 d3" using conn_read_line_same y(2) by blast
  show ?case
  proof (cases "\<exists>n bs n3. o1 = Some n \<and> chunk \<noteq> 0 \<and> \<not> (length acc + chunk) mod 2 ^ 64 > mx \<and> o2 = Some bs \<and> o3 = Some n3")
    case True
    then obtain n bs n3 where n: "o1 = Some n" "chunk \<noteq> 0" "\<not> (length acc + chunk) mod 2 ^ 64 > mx" "o2 = Some bs" "o3 = Some n3"
      by blast
    have rec: "read_chunks mx lb3 (acc @ bs) c3 = (e, b, c')"
      using 1(2) l x u n by (simp add: read_chunks.simps [of mx lb acc c] chunk_def [symmetric] Let_def)
    from 1(1) [OF l [symmetric] n(1) refl chunk_def n(2,3) x [symmetric] n(4) u [symmetric] n(5) refl rec v(2)]
    show ?thesis using k(1) y(1) v(1) n by (simp add: read_chunks.simps [of mx lb acc d] chunk_def [symmetric] Let_def)
  next
    case False
    show ?thesis
    proof (cases "o1 = None")
      case True
      have "(e, b, c') = (Lost, acc, c1)" using 1(2) l True by (simp add: read_chunks.simps [of mx lb acc c])
      moreover have "read_chunks mx lb acc d = (Lost, acc, d1)" using k(1) True by (simp add: read_chunks.simps [of mx lb acc d])
      ultimately show ?thesis using k(2) by simp
    next
      case some: False
      show ?thesis using some False 1(2) l s x u k t y v
        by (cases o1; cases o2; cases o3)
           (auto simp: read_chunks.simps [of mx lb acc c] read_chunks.simps [of mx lb acc d] chunk_def [symmetric] Let_def split: if_splits)
    qed
  qed
qed

text \<open>Up to the end: the bytes that are there, when they fit.\<close>

lemma read_to_end_all:
  "wf_conn c \<Longrightarrow> read_to_end mx acc c = (e, b, c') \<Longrightarrow>
     (if length acc + length (conn_pending c) \<le> mx \<or> conn_pending c = []
      then e = Complete \<and> b = acc @ conn_pending c \<and> conn_pending c' = [] \<and> wf_conn c' \<and> hc_ep c' = hc_ep c else e = Too_big)"
proof (induction mx acc c rule: read_to_end.induct)
  case (1 mx acc c)
  show ?case
  proof (cases "hc_buf c = []")
    case False
    show ?thesis
    proof (cases "length acc + length (hc_buf c) > mx")
      case True
      then show ?thesis using False 1(4) by (auto simp: read_to_end.simps [of mx acc c] conn_pending_def)
    next
      case small: False
      have w: "wf_conn (c\<lparr> hc_buf := [] \<rparr>)" using 1(3) by (simp add: wf_conn_def)
      have rec: "read_to_end mx (acc @ hc_buf c) (c\<lparr> hc_buf := [] \<rparr>) = (e, b, c')"
        using False small 1(4) by (simp add: read_to_end.simps [of mx acc c])
      show ?thesis using 1(1) [OF False small w rec] small False by (auto simp: conn_pending_def simp del: concat_eq_Nil_conv split: if_splits)
    qed
  next
    case True
    obtain o1 c1 where g: "conn_read_raw (hc_room c) c = (o1, c1)" by fastforce
    show ?thesis
    proof (cases o1)
      case None
      then have "c1 = c \<and> hc_net c = []" using raw_none [of c "hc_room c" c1] g 1(3) by (simp add: wf_conn_def)
      then show ?thesis using True g None 1(3,4) by (auto simp: read_to_end.simps [of mx acc c] conn_pending_def)
    next
      case (Some bs)
      have p: "bs \<noteq> []" "conn_pending c = conn_pending (c1\<lparr> hc_buf := bs \<rparr>)" "hc_ep c1 = hc_ep c"
        using conn_read_raw_pending [of "hc_room c" c bs c1] g Some True by (simp_all add: conn_pending_def)
      have w: "wf_conn (c1\<lparr> hc_buf := bs \<rparr>)" using raw_wf [OF g 1(3)] by (simp add: wf_conn_def)
      have rec: "read_to_end mx acc (c1\<lparr> hc_buf := bs \<rparr>) = (e, b, c')"
        using True g Some p(1) 1(4) by (simp add: read_to_end.simps [of mx acc c])
      have nb: "\<not> hc_buf c \<noteq> []" using True by simp
      show ?thesis using 1(2) [OF nb g [symmetric] Some p(1) w rec] p by simp
    qed
  qed
qed

text \<open>After a body, two connections go on alike, or neither is used again.\<close>

definition alike :: "hconn \<Rightarrow> hconn \<Rightarrow> bool" where
  "alike c d \<longleftrightarrow> same c d \<or> (\<not> hc_alive c \<and> \<not> hc_alive d)"

lemma alike_same: "same c d \<Longrightarrow> alike c d"
  by (simp add: alike_def)

lemma alike_dead: "\<not> hc_alive c \<Longrightarrow> \<not> hc_alive d \<Longrightarrow> alike c d"
  by (simp add: alike_def)

lemma read_body_same:
  assumes "http_read_body want mx junk r is_head c = (rc, b, c')" "same c d"
  shows "\<exists>d'. http_read_body want mx junk r is_head d = (rc, b, d') \<and> alike c' d'"
proof -
  obtain ce be cc where chunks: "read_chunks mx junk [] c = (ce, be, cc)" by (metis prod_cases3)
  then obtain dc where chunks': "read_chunks mx junk [] d = (ce, be, dc)" "same cc dc" using read_chunks_same assms(2) by blast
  obtain xo xc where exact: "conn_read_exact (nat (rs_length r)) c = (xo, xc)" by fastforce
  then obtain xd where exact': "conn_read_exact (nat (rs_length r)) d = (xo, xd)" "same xc xd"
    using conn_read_exact_alike assms(2) by blast
  obtain ee eb ec where ends: "read_to_end mx [] c = (ee, eb, ec)" by (metis prod_cases3)
  obtain fe fb fc where ends': "read_to_end mx [] d = (fe, fb, fc)" by (metis prod_cases3)
  have to_end: "ee = fe" "ee = Complete \<Longrightarrow> eb = fb" "ee = Complete \<or> ee = Too_big"
    using read_to_end_all [OF same_wf(1) [OF assms(2)] ends] read_to_end_all [OF same_wf(2) [OF assms(2)] ends']
      same_ep [OF assms(2)] by (auto split: if_splits)
  show ?thesis
    using assms chunks chunks' exact exact' ends ends' to_end same_dead [of cc dc] same_dead [of xc xd]
    by (cases ce; cases ee; cases xo) (auto simp: http_read_body_def alike_def split: if_splits)
qed

end
