(* ===== verification/HttpAlike.thy ===== *)
theory HttpAlike
  imports HttpSame
begin

text \<open>
  Two views on whole fetches: with servers that differ only in how they cut their answers into
  pieces they come to the same end, and what is sent along the way, and to whom, is bounded.
\<close>

section \<open>Answers cut differently\<close>

definition pieces_alike :: "servers \<Rightarrow> servers \<Rightarrow> bool" where
  "pieces_alike w v \<longleftrightarrow>
     sv_open w = sv_open v \<and> sv_cert w = sv_cert v \<and> sv_junk w = sv_junk v \<and> sv_lag w = sv_lag v \<and>
     0 < sv_room w \<and> 0 < sv_room v \<and>
     (\<forall>n u q. map_option concat (sv_reply w n u q) = map_option concat (sv_reply v n u q))"

lemma piecesD:
  assumes "pieces_alike w v"
  shows "sv_open w = sv_open v" "sv_cert w = sv_cert v" "sv_junk w = sv_junk v" "sv_lag w = sv_lag v" "0 < sv_room w" "0 < sv_room v"
    "map_option concat (sv_reply w n u q) = map_option concat (sv_reply v n u q)"
  using assms by (simp_all add: pieces_alike_def)

lemma tick_same: "pieces_alike w v \<Longrightarrow> tick v st = tick w st"
  by (simp add: tick_def piecesD)

lemma conn_open_same:
  assumes "conn_open w cfg u st = (r, st')" "pieces_alike w v"
  shows "\<exists>r'. conn_open v cfg u st = (r', st') \<and> rel_option same r r'"
  using assms piecesD [OF assms(2)]
  by (auto simp: conn_open_def tls_handshake_def tick_same [OF assms(2)] Let_def same_def wf_conn_def conn_pending_def split: if_splits)

lemma send_same:
  assumes "http_send_request w cfg u h rg c st = (ok, c', st')" "same c d" "pieces_alike w v"
  shows "\<exists>d'. http_send_request v cfg u h rg d st = (ok, d', st') \<and> same c' d'"
proof -
  define q where "q = build_request cfg u h rg"
  have r: "map_option concat (sv_reply w (ns_step st) (hc_ep c) q) = map_option concat (sv_reply v (ns_step st) (hc_ep d) q)"
    using piecesD(7) [OF assms(3)] same_ep [OF assms(2)] by simp
  have more: "same (c\<lparr> hc_net := hc_net c @ filter (\<lambda>p. p \<noteq> []) ps \<rparr>) (d\<lparr> hc_net := hc_net d @ filter (\<lambda>p. p \<noteq> []) qs \<rparr>)"
    if "concat ps = concat qs" for ps qs
  proof -
    have "conn_pending (e\<lparr> hc_net := hc_net e @ filter (\<lambda>p. p \<noteq> []) xs \<rparr>) = conn_pending e @ concat xs" for e xs
      by (induction xs) (simp_all add: conn_pending_def)
    then show ?thesis using assms(2) that by (auto simp: same_def wf_conn_def list_all_iff)
  qed
  show ?thesis
    using assms(1,2) r more same_ep [OF assms(2)] tick_same [OF assms(3)]
    by (cases "sv_reply v (ns_step st) (hc_ep d) q")
       (auto simp: http_send_request_def q_def [symmetric] Let_def split: if_splits option.splits)
qed

lemma exchange_same:
  assumes "exchange w cfg u h rg c st = (r, st')" "same c d" "pieces_alike w v"
  shows "\<exists>r'. exchange v cfg u h rg d st = (r', st') \<and> rel_option (rel_prod (=) same) r r'"
proof -
  obtain ok c1 st1 where s: "http_send_request w cfg u h rg c st = (ok, c1, st1)" by (metis prod_cases3)
  then obtain d1 where t: "http_send_request v cfg u h rg d st = (ok, d1, st1)" "same c1 d1" using send_same assms(2,3) by blast
  obtain x c2 where x: "http_read_response (sv_junk w) c1 = (x, c2)" by fastforce
  then obtain d2 where y: "http_read_response (sv_junk w) d1 = (x, d2)" "same c2 d2" using read_response_same t(2) by blast
  show ?thesis
    using assms(1) s t x y piecesD(3) [OF assms(3)] by (cases ok; cases x) (auto simp: exchange_def)
qed

lemma receive_range_same:
  assumes "receive_range junk opt r c = (rc, bs, c')" "same c d"
  shows "\<exists>d'. receive_range junk opt r d = (rc, bs, d') \<and> alike c' d'"
proof -
  obtain a1 b1 c1 where b: "http_read_body True (range_len opt + 65536) junk r False c = (a1, b1, c1)" by (metis prod_cases3)
  obtain d1 where b': "http_read_body True (range_len opt + 65536) junk r False d = (a1, b1, d1)" "alike c1 d1"
    using read_body_same [OF b assms(2)] by blast
  define avail where "avail = (if rs_length r \<ge> 0 then nat (rs_length r) else range_len opt)"
  obtain a2 c2 where e: "conn_read_exact (min avail (range_len opt)) c = (a2, c2)" by fastforce
  then obtain d2 where e': "conn_read_exact (min avail (range_len opt)) d = (a2, d2)" "same c2 d2"
    using conn_read_exact_alike assms(2) by blast
  have un: "receive_range junk opt r x =
      (if rs_status r = 206 \<and> rs_has_range r \<and> rs_start r \<noteq> range_start opt then (- 1, [], dead x)
       else if rs_status r = 200 \<and> range_start opt \<noteq> 0 then (0, [], dead x)
       else if rs_chunked r then
         (case http_read_body True (range_len opt + 65536) junk r False x of
            (rc, body, c') \<Rightarrow> if rc = 0 then (0, take (range_len opt) body, c') else (rc, [], c'))
       else case conn_read_exact (min avail (range_len opt)) x of
         (None, c') \<Rightarrow> (- 1, [], c')
       | (Some bs, c') \<Rightarrow> (0, bs, if rs_status r = 200 \<or> min avail (range_len opt) \<noteq> avail then dead c' else c'))" for x
    unfolding receive_range_def avail_def [symmetric] Let_def ..
  have d: "alike (dead x) (dead y)" for x y by (rule alike_dead) (simp_all add: dead_def)
  show ?thesis
    using assms(1) d b'(2) alike_same [OF e'(2)] unfolding un b b'(1) e e'(1)
    by (cases a2) (auto split: if_splits)
qed

lemma receive_same:
  assumes "receive junk opt r c = (rc, bs, body, c')" "same c d"
  shows "\<exists>d'. receive junk opt r d = (rc, bs, body, d') \<and> alike c' d'"
proof -
  obtain a2 b2 c2 where b: "receive_range junk opt r c = (a2, b2, c2)" by (metis prod_cases3)
  obtain d2 where b': "receive_range junk opt r d = (a2, b2, d2)" "alike c2 d2"
    using receive_range_same [OF b assms(2)] by blast
  obtain a3 b3 c3 where f: "http_read_body True (fo_max opt) junk r False c = (a3, b3, c3)" by (metis prod_cases3)
  obtain d3 where f': "http_read_body True (fo_max opt) junk r False d = (a3, b3, d3)" "alike c3 d3"
    using read_body_same [OF f assms(2)] by blast
  obtain a4 b4 c4 where g: "http_read_body False (256 * 1024) junk r (fo_head opt) c = (a4, b4, c4)" by (metis prod_cases3)
  obtain d4 where g': "http_read_body False (256 * 1024) junk r (fo_head opt) d = (a4, b4, d4)" "alike c4 d4"
    using read_body_same [OF g assms(2)] by blast
  show ?thesis
    using assms(1) b'(2) f'(2) g'(2) unfolding receive_def b b'(1) f f'(1) g g'(1)
    by (auto split: if_splits)
qed

lemma finish_same:
  assumes "finish_fetch junk opt (r, c) = (f, c')" "same c d"
  shows "\<exists>d'. finish_fetch junk opt (r, d) = (f, d') \<and> rel_option same c' d'"
proof -
  obtain rc bs body c1 where x: "receive junk opt r c = (rc, bs, body, c1)" by (metis prod_cases4)
  obtain d1 where y: "receive junk opt r d = (rc, bs, body, d1)" "alike c1 d1" using receive_same [OF x assms(2)] by blast
  show ?thesis using assms(1) x y by (auto simp: finish_fetch_def alike_def dest: same_ep(2) split: if_splits)
qed

lemma finished_same:
  assumes "rel_option (rel_prod (=) same) (Some rc) x" "finish_fetch junk opt rc = (f, c')"
  shows "\<exists>rd d'. x = Some rd \<and> finish_fetch junk opt rd = (f, d') \<and> rel_option same c' d'"
proof -
  obtain r c where rc: "rc = (r, c)" by fastforce
  then obtain d where d: "x = Some (r, d)" "same c d" using assms(1) by (cases x) auto
  then show ?thesis using finish_same [OF assms(2) [unfolded rc] d(2)] by blast
qed

lemma fetch_fresh_same:
  assumes "fetch_fresh w u cfg opt st = (f, c', st')" "pieces_alike w v"
  shows "\<exists>d'. fetch_fresh v u cfg opt st = (f, d', st') \<and> rel_option same c' d'"
proof -
  obtain o1 st1 where o1: "conn_open w cfg u st = (o1, st1)" by fastforce
  then obtain o2 where o2: "conn_open v cfg u st = (o2, st1)" "rel_option same o1 o2" using conn_open_same assms(2) by blast
  show ?thesis
  proof (cases o1)
    case None
    then show ?thesis using assms(1) o1 o2 by (auto simp: fetch_fresh_def)
  next
    case (Some c)
    then obtain d where d: "o2 = Some d" "same c d" using o2(2) by (cases o2) auto
    obtain x st2 where x: "exchange w cfg u (fo_head opt) (wire_range opt) c st1 = (x, st2)" by fastforce
    then obtain y where y: "exchange v cfg u (fo_head opt) (wire_range opt) d st1 = (y, st2)"
        "rel_option (rel_prod (=) same) x y"
      using exchange_same d(2) assms(2) by blast
    show ?thesis
    proof (cases x)
      case None
      then have "y = None" using y(2) by simp
      then show ?thesis using assms(1) o1 o2 Some d x y None by (auto simp: fetch_fresh_def)
    next
      case fin: (Some rc)
      have ff: "finish_fetch (sv_junk w) opt rc = (f, c') \<and> st' = st2"
        using assms(1) o1 Some x fin by (auto simp: fetch_fresh_def split: prod.splits)
      then obtain rd d' where "y = Some rd" "finish_fetch (sv_junk w) opt rd = (f, d')" "rel_option same c' d'"
        using finished_same y(2) fin by blast
      then show ?thesis using ff o2 d y piecesD(3) [OF assms(2)] by (auto simp: fetch_fresh_def)
    qed
  qed
qed

lemma fetch_on_same:
  assumes "fetch_on w pc u cfg opt st = (f, c', st')" "pieces_alike w v" "rel_option same pc pd"
  shows "\<exists>d'. fetch_on v pd u cfg opt st = (f, d', st') \<and> rel_option same c' d'"
proof (cases pc)
  case None
  then have "pd = None" using assms(3) by simp
  then show ?thesis using assms(1) None fetch_fresh_same assms(2) by (simp add: fetch_on_def)
next
  case (Some c)
  then obtain d where d: "pd = Some d" "same c d" using assms(3) by (cases pd) auto
  show ?thesis
  proof (cases "\<not> hc_alive c \<or> \<not> same_endpoint (hc_ep c) u")
    case True
    then have "\<not> hc_alive d \<or> \<not> same_endpoint (hc_ep d) u" using same_ep [OF d(2)] by simp
    then show ?thesis using True Some d assms(1) fetch_fresh_same [OF _ assms(2)] by (simp add: fetch_on_def)
  next
    case False
    then have use: "hc_alive d \<and> same_endpoint (hc_ep d) u" using same_ep [OF d(2)] by simp
    obtain x st2 where x: "exchange w cfg u (fo_head opt) (wire_range opt) c st = (x, st2)" by fastforce
    then obtain y where y: "exchange v cfg u (fo_head opt) (wire_range opt) d st = (y, st2)"
        "rel_option (rel_prod (=) same) x y"
      using exchange_same d(2) assms(2) by blast
    show ?thesis
    proof (cases x)
      case None
      then have "y = None" using y(2) by simp
      moreover have "fetch_fresh w u cfg opt st2 = (f, c', st')" using assms(1) Some False x None by (simp add: fetch_on_def)
      ultimately show ?thesis using fetch_fresh_same [OF _ assms(2)] use d(1) y by (simp add: fetch_on_def)
    next
      case fin: (Some rc)
      have ff: "finish_fetch (sv_junk w) opt rc = (f, c') \<and> st' = st2"
        using assms(1) Some False x fin by (auto simp: fetch_on_def split: prod.splits)
      then obtain rd d' where "y = Some rd" "finish_fetch (sv_junk w) opt rd = (f, d')" "rel_option same c' d'"
        using finished_same y(2) fin by blast
      then show ?thesis using ff use d y piecesD(3) [OF assms(2)] by (auto simp: fetch_on_def)
    qed
  qed
qed

lemma fetch_hops_same:
  assumes "pieces_alike w v"
  shows "fetch_hops w k cur cfg opt pc st = (f, url, c', st') \<Longrightarrow> rel_option same pc pd \<Longrightarrow>
     \<exists>d'. fetch_hops v k cur cfg opt pd st = (f, url, d', st') \<and> rel_option same c' d'"
proof (induction k arbitrary: cur pc pd st)
  case (Suc k)
  show ?case
  proof (cases "http_url_parse cur")
    case None
    then show ?thesis using Suc.prems by auto
  next
    case (Some u)
    obtain g pc1 st1 where x: "fetch_on w pc u cfg opt st = (g, pc1, st1)" by (metis prod_cases3)
    then obtain pd1 where y: "fetch_on v pd u cfg opt st = (g, pd1, st1)" "rel_option same pc1 pd1"
      using fetch_on_same assms Suc.prems(2) by blast
    show ?thesis using Suc.prems(1) Some x y Suc.IH [OF _ y(2)] by (auto split: if_splits option.splits)
  qed
qed auto

lemma http_fetch_same:
  "pieces_alike w v \<Longrightarrow> http_fetch w url cfg opt pc st = (f, fin, c', st') \<Longrightarrow> rel_option same pc pd \<Longrightarrow>
     \<exists>d'. http_fetch v url cfg opt pd st = (f, fin, d', st') \<and> rel_option same c' d'"
  unfolding http_fetch_def by (rule fetch_hops_same)

section \<open>What is sent, and to whom\<close>

text \<open>From \<open>st\<close> to \<open>st'\<close> at most \<open>k\<close> requests are sent; those with credentials go to the source's
  own address, and only there is a certificate not verified.\<close>

definition discreet :: "http_config option \<Rightarrow> nat \<Rightarrow> net_state \<Rightarrow> net_state \<Rightarrow> bool" where
  "discreet cfg k st st' \<longleftrightarrow>
     (\<exists>sent tls. ns_sent st' = ns_sent st @ sent \<and> ns_tls st' = ns_tls st @ tls \<and> length sent \<le> k \<and>
        list_all (\<lambda>(ep, q). rq_auth q \<noteq> None \<longrightarrow> cfg_same_host cfg ep) sent \<and>
        list_all (\<lambda>(u, m). m \<noteq> ''verify'' \<longrightarrow> cfg_same_host cfg u) tls)"

lemma discreet_refl: "discreet cfg k st st"
  by (auto simp: discreet_def intro: exI [where x="[]"])

lemma discreet_trans: "discreet cfg j st st1 \<Longrightarrow> discreet cfg k st1 st2 \<Longrightarrow> discreet cfg (j + k) st st2"
  unfolding discreet_def
proof (elim exE conjE)
  fix s t s' t'
  assume "ns_sent st1 = ns_sent st @ s" "ns_tls st1 = ns_tls st @ t" "length s \<le> j"
    "list_all (\<lambda>(ep, q). rq_auth q \<noteq> None \<longrightarrow> cfg_same_host cfg ep) s" "list_all (\<lambda>(u, m). m \<noteq> ''verify'' \<longrightarrow> cfg_same_host cfg u) t"
    "ns_sent st2 = ns_sent st1 @ s'" "ns_tls st2 = ns_tls st1 @ t'" "length s' \<le> k"
    "list_all (\<lambda>(ep, q). rq_auth q \<noteq> None \<longrightarrow> cfg_same_host cfg ep) s'" "list_all (\<lambda>(u, m). m \<noteq> ''verify'' \<longrightarrow> cfg_same_host cfg u) t'"
  then show "\<exists>sent tls. ns_sent st2 = ns_sent st @ sent \<and> ns_tls st2 = ns_tls st @ tls \<and> length sent \<le> j + k \<and>
      list_all (\<lambda>(ep, q). rq_auth q \<noteq> None \<longrightarrow> cfg_same_host cfg ep) sent \<and>
      list_all (\<lambda>(u, m). m \<noteq> ''verify'' \<longrightarrow> cfg_same_host cfg u) tls"
    by (intro exI [where x="s @ s'"] exI [where x="t @ t'"]) simp
qed

lemma discreet_mono: "discreet cfg j st st' \<Longrightarrow> j \<le> k \<Longrightarrow> discreet cfg k st st'"
  unfolding discreet_def by (meson order_trans)

lemma conn_open_discreet: "conn_open w cfg u st = (r, st') \<Longrightarrow> discreet cfg 0 st st'"
  by (auto simp: conn_open_def discreet_def tick_def tls_mode_for_def Let_def split: if_splits option.splits)

lemma conn_open_ep: "conn_open w cfg u st = (Some c, st') \<Longrightarrow> same_endpoint (hc_ep c) u"
  by (auto simp: conn_open_def same_endpoint_def strcasecmp_eq_def Let_def split: if_splits)

lemma same_host_endpoint: "same_endpoint e u \<Longrightarrow> cfg_same_host cfg u \<Longrightarrow> cfg_same_host cfg e"
  by (auto simp: cfg_same_host_def split: option.splits intro: same_endpoint_trans dest: same_endpoint_sym)

lemma send_discreet:
  assumes "http_send_request w cfg u h rg c st = (ok, c', st')" "same_endpoint (hc_ep c) u"
  shows "discreet cfg 1 st st'"
proof -
  have "rq_auth (build_request cfg u h rg) \<noteq> None \<Longrightarrow> cfg_same_host cfg (hc_ep c)"
    using same_host_endpoint [OF assms(2)]
    by (auto simp: build_request_def cfg_applies_to_def split: option.splits if_splits)
  then show ?thesis
    using assms(1) discreet_refl [of cfg 1 st]
    by (auto simp: http_send_request_def Let_def tick_def discreet_def split: if_splits option.splits)
qed

lemma exchange_discreet:
  "exchange w cfg u h rg c st = (r, st') \<Longrightarrow> same_endpoint (hc_ep c) u \<Longrightarrow> discreet cfg 1 st st'"
  using send_discreet by (fastforce simp: exchange_def split: prod.splits bool.splits option.splits)

lemma fetch_fresh_discreet:
  assumes "fetch_fresh w u cfg opt st = (f, c', st')"
  shows "discreet cfg 1 st st'"
proof -
  obtain o1 st1 where o1: "conn_open w cfg u st = (o1, st1)" by fastforce
  note d0 = conn_open_discreet [OF o1]
  show ?thesis
  proof (cases o1)
    case None
    then show ?thesis using assms o1 discreet_mono [OF d0] by (simp add: fetch_fresh_def)
  next
    case (Some c)
    obtain x st2 where x: "exchange w cfg u (fo_head opt) (wire_range opt) c st1 = (x, st2)" by fastforce
    have "discreet cfg 1 st1 st2" using exchange_discreet [OF x] conn_open_ep o1 Some by blast
    moreover have "st' = st2" using assms o1 Some x by (auto simp: fetch_fresh_def split: option.splits prod.splits)
    ultimately show ?thesis using discreet_trans [OF d0] by simp
  qed
qed

lemma fetch_on_discreet:
  assumes "fetch_on w pc u cfg opt st = (f, c', st')"
  shows "discreet cfg 2 st st'"
proof (cases pc)
  case None
  then show ?thesis using assms discreet_mono [OF fetch_fresh_discreet] by (simp add: fetch_on_def)
next
  case (Some c)
  show ?thesis
  proof (cases "\<not> hc_alive c \<or> \<not> same_endpoint (hc_ep c) u")
    case True
    then show ?thesis using assms Some discreet_mono [OF fetch_fresh_discreet] by (simp add: fetch_on_def)
  next
    case False
    obtain x st1 where x: "exchange w cfg u (fo_head opt) (wire_range opt) c st = (x, st1)" by fastforce
    have d: "discreet cfg 1 st st1" using exchange_discreet [OF x] False by blast
    show ?thesis
    proof (cases x)
      case None
      then have "fetch_fresh w u cfg opt st1 = (f, c', st')" using assms Some False x by (simp add: fetch_on_def)
      from discreet_trans [OF d fetch_fresh_discreet [OF this]] show ?thesis by (simp add: numeral_2_eq_2)
    next
      case fin: (Some rc)
      then have "st' = st1" using assms Some False x by (auto simp: fetch_on_def split: prod.splits)
      then show ?thesis using discreet_mono [OF d] by simp
    qed
  qed
qed

lemma fetch_hops_discreet: "fetch_hops w k cur cfg opt pc st = (f, url, c', st') \<Longrightarrow> discreet cfg (2 * k) st st'"
proof (induction k arbitrary: cur pc st)
  case 0
  then show ?case using discreet_refl by auto
next
  case (Suc k)
  show ?case
  proof (cases "http_url_parse cur")
    case None
    then show ?thesis using Suc.prems discreet_refl by auto
  next
    case (Some u)
    obtain g pc1 st1 where x: "fetch_on w pc u cfg opt st = (g, pc1, st1)" by (metis prod_cases3)
    note d = fetch_on_discreet [OF x]
    have "st' = st1 \<or> discreet cfg (2 * k) st1 st'"
      using Suc.prems Some x Suc.IH by (auto split: if_splits option.splits)
    then show ?thesis using discreet_trans [OF d] discreet_mono [OF d, of "2 * Suc k"] by auto
  qed
qed

lemma http_fetch_discreet: "http_fetch w url cfg opt pc st = (f, fin, c', st') \<Longrightarrow> discreet cfg 12 st st'"
  using fetch_hops_discreet by (fastforce simp: http_fetch_def HTTP_MAX_REDIRECTS_def)

end
