(* ===== verification/HttpServe.thy ===== *)
theory HttpServe
  imports HttpAlike
begin

text \<open>
  A server that serves one file in ranges, and what a read at an offset makes of its answers.
\<close>

section \<open>Heads of responses\<close>

definition wire_bytes :: "string \<Rightarrow> byte list" where
  "wire_bytes s = map byte_of_char s"

definition wire_lines :: "string list \<Rightarrow> byte list" where
  "wire_lines ls = concat (map (\<lambda>l. wire_bytes l @ [13, 10]) ls)"

text \<open>A line that fits the buffer and holds no control character that matters.\<close>

definition plain_line :: "string \<Rightarrow> bool" where
  "plain_line l \<longleftrightarrow> length l < 4095 \<and> list_all (\<lambda>c. c \<noteq> CHR 0x00 \<and> c \<noteq> CHR 0x0A \<and> c \<noteq> CHR 0x0D) l"

lemma byte_of_char_eq: "byte_of_char c = byte_of_char d \<longleftrightarrow> c = d"
  by (metis char_of_byte_of_char)

lemma special_bytes: "byte_of_char (CHR 0x0A) = 10" "byte_of_char (CHR 0x0D) = 13" "byte_of_char (CHR 0x00) = 0"
  by (simp_all add: byte_of_char_def)

lemma plain_bytes:
  assumes "plain_line l"
  shows "10 \<notin> set (wire_bytes l)" "13 \<notin> set (wire_bytes l)" "0 \<notin> set (wire_bytes l)" "length (wire_bytes l) < 4095"
proof -
  have "b \<notin> set (wire_bytes l)" if "b = byte_of_char d" "d \<notin> set l" for b d
    using that by (auto simp: wire_bytes_def byte_of_char_eq)
  moreover have "CHR 0x0A \<notin> set l" "CHR 0x0D \<notin> set l" "CHR 0x00 \<notin> set l" using assms by (auto simp: plain_line_def list_all_iff)
  ultimately show "10 \<notin> set (wire_bytes l)" "13 \<notin> set (wire_bytes l)" "0 \<notin> set (wire_bytes l)"
    using special_bytes by metis+
  show "length (wire_bytes l) < 4095" using assms by (simp add: plain_line_def wire_bytes_def)
qed

lemma getc_buffered: "hc_buf c = b # bs \<Longrightarrow> conn_getc c = (Some b, c\<lparr> hc_buf := bs \<rparr>)"
  by (simp add: conn_getc_def)

lemma read_line_buffered:
  "10 \<notin> set l \<Longrightarrow> 13 \<notin> set l \<Longrightarrow> length acc + length l < mx \<Longrightarrow>
     read_line mx acc got (c\<lparr> hc_buf := l @ [13, 10] @ rest \<rparr>) = (Some (acc @ l, True), c\<lparr> hc_buf := rest \<rparr>)"
proof (induction l arbitrary: acc got)
  case Nil
  have "read_line mx acc True (c\<lparr> hc_buf := 10 # rest \<rparr>) = (Some (acc, True), c\<lparr> hc_buf := rest \<rparr>)"
    by (simp add: read_line.simps [of mx acc True] conn_getc_def)
  then show ?case by (simp add: read_line.simps [of mx acc got] conn_getc_def)
next
  case (Cons b l)
  have "read_line mx (acc @ [b]) True (c\<lparr> hc_buf := l @ [13, 10] @ rest \<rparr>) = (Some (acc @ b # l, True), c\<lparr> hc_buf := rest \<rparr>)"
    using Cons.IH [of "acc @ [b]" True] Cons.prems by simp
  then show ?case using Cons.prems by (auto simp: read_line.simps [of mx acc got] conn_getc_def)
qed

lemma read_line_plain:
  assumes "plain_line l"
  shows "conn_read_line HEAD_LINE lb (c\<lparr> hc_buf := wire_lines (l # ls) @ rest \<rparr>) =
    (Some (length l), overlay (wire_bytes l @ [0]) lb, c\<lparr> hc_buf := wire_lines ls @ rest \<rparr>)"
  using read_line_buffered [where l="wire_bytes l" and acc="[]" and mx=HEAD_LINE and got=False and c=c and rest="wire_lines ls @ rest"] plain_bytes [OF assms]
  by (simp add: conn_read_line_def wire_lines_def HEAD_LINE_def wire_bytes_def)

lemma line_text: "plain_line l \<Longrightarrow> cstr_of_bytes (overlay (wire_bytes l @ [0]) lb) = l"
proof -
  assume "plain_line l"
  have t: "takeWhile (\<lambda>b. b \<noteq> 0) (wire_bytes l @ 0 # x) = wire_bytes l" for x
    by (rule until_char(1)) (rule plain_bytes(3) [OF \<open>plain_line l\<close>])
  have "cstr_of_bytes (overlay (wire_bytes l @ [0]) lb) = map char_of_byte (wire_bytes l)"
    unfolding cstr_of_bytes_def overlay_def append_assoc append.simps t ..
  also have "\<dots> = l" unfolding wire_bytes_def map_map comp_def char_of_byte_of_char by simp
  finally show ?thesis .
qed

lemma plain_nil: "plain_line []"
  by (simp add: plain_line_def)

lemma read_headers_lines:
  "list_all (\<lambda>l. plain_line l \<and> l \<noteq> []) ls \<Longrightarrow> length ls < k \<Longrightarrow>
     read_headers k lb r (c\<lparr> hc_buf := wire_lines (ls @ [[]]) @ rest \<rparr>) = (Some (fold apply_header ls r), c\<lparr> hc_buf := rest \<rparr>)"
proof (induction ls arbitrary: k lb r)
  case Nil
  then show ?case
    using read_line_plain [OF plain_nil, where lb=lb and c=c and ls="[]" and rest=rest] by (cases k) (simp_all add: wire_lines_def)
next
  case (Cons l ls)
  then obtain j where k: "k = Suc j" "length ls < j" by (cases k) auto
  have p: "plain_line l" "l \<noteq> []" using Cons.prems(1) by simp_all
  show ?case
    using Cons.IH [of j "overlay (wire_bytes l @ [0]) lb" "apply_header l r"] Cons.prems(1) k p
      read_line_plain [OF p(1), where lb=lb and c=c and ls="ls @ [[]]" and rest=rest]
    by (simp add: line_text)
qed

lemma read_response_lines:
  assumes "plain_line s" "starts_with ''HTTP/1.'' s" "12 \<le> length s" "200 \<le> atoi (drop 9 s)"
    "list_all (\<lambda>l. plain_line l \<and> l \<noteq> []) ls" "length ls < 128"
  shows "http_read_response junk (c\<lparr> hc_buf := wire_lines (s # ls @ [[]]) @ rest \<rparr>) =
    (Some (fold apply_header ls (resp_zero\<lparr> rs_status := atoi (drop 9 s), rs_close := (s ! 7 = CHR ''0'') \<rparr>)), c\<lparr> hc_buf := rest \<rparr>)"
proof -
  have ne: "s \<noteq> []" using assms(3) by auto
  have "read_status junk (c\<lparr> hc_buf := wire_lines (s # ls @ [[]]) @ rest \<rparr>) =
      (Some (atoi (drop 9 s), s ! 7 = CHR ''0''), overlay (wire_bytes s @ [0]) junk, c\<lparr> hc_buf := wire_lines (ls @ [[]]) @ rest \<rparr>)"
    using assms(2-4) ne
    by (simp add: read_status.simps [of junk] read_line_plain [OF assms(1)] line_text [OF assms(1)])
  then show ?thesis using read_headers_lines [OF assms(5,6)] by (simp add: http_read_response_def)
qed

section \<open>Header lines\<close>

lemma trim_id: "s \<noteq> [] \<Longrightarrow> \<not> c_isspace (hd s) \<Longrightarrow> \<not> c_isspace (last s) \<Longrightarrow> trim s = s"
proof -
  assume s: "s \<noteq> []" "\<not> c_isspace (hd s)" "\<not> c_isspace (last s)"
  then have "dropWhile c_isspace (rev s) = rev s" by (cases s rule: rev_cases) simp_all
  then show ?thesis using s by (cases s) (simp_all add: trim_def)
qed

lemma header_parts:
  assumes "CHR '':'' \<notin> set name" "v \<noteq> []" "\<not> c_isspace (hd v)" "\<not> c_isspace (last v)"
  shows "strchr (name @ '': '' @ v) (CHR '':'') = Some ('': '' @ v)"
    "takeWhile (\<lambda>c. c \<noteq> CHR '':'') (name @ '': '' @ v) = name"
    "trim (dropWhile (\<lambda>c. c = CHR '' '' \<or> c = CHR 0x09) ('' '' @ v)) = v"
proof -
  show "strchr (name @ '': '' @ v) (CHR '':'') = Some ('': '' @ v)" using strchr_at [OF assms(1)] by simp
  show "takeWhile (\<lambda>c. c \<noteq> CHR '':'') (name @ '': '' @ v) = name" using until_char(1) [OF assms(1)] by simp
  have "hd v \<noteq> CHR '' ''" "hd v \<noteq> CHR 0x09" using assms(3) by (auto simp: c_isspace_def)
  then have "dropWhile (\<lambda>c. c = CHR '' '' \<or> c = CHR 0x09) ('' '' @ v) = v" using assms(2) by (cases v) auto
  then show "trim (dropWhile (\<lambda>c. c = CHR '' '' \<or> c = CHR 0x09) ('' '' @ v)) = v" using trim_id assms(2-4) by simp
qed

lemma dec_ends: "\<not> c_isspace (hd (dec_str n))" "\<not> c_isspace (last (dec_str n))"
  using dec_str_chars [of _ n] c_isdigit_not_space by (simp_all add: hd_in_set last_in_set)

lemma strtol10_dec: "n < 2 ^ 63 \<Longrightarrow> strtol10 (dec_str n) = int n"
proof -
  assume n: "n < 2 ^ 63"
  obtain c cs where cc: "dec_str n = c # cs" by (cases "dec_str n") auto
  have c: "c_isdigit c" using dec_str_chars [of c n] cc by simp
  then have s: "c \<noteq> CHR ''-''" "c \<noteq> CHR ''+''" by (auto simp: c_isdigit_def)
  have tw: "takeWhile c_isdigit (dec_str n) = dec_str n" using dec_str_digits [of n] by (simp add: list_all_iff takeWhile_eq_all_conv)
  have "int n \<le> 2 ^ 63 - 1" using n by simp
  then show ?thesis using c_isdigit_not_space [OF c] s tw digits_value_dec_str [of n] cc by (simp add: strtol10_def)
qed

lemma content_length_line: "n < 2 ^ 63 \<Longrightarrow> apply_header (''Content-Length: '' @ dec_str n) r = r\<lparr> rs_length := int n \<rparr>"
  using header_parts [of "''Content-Length''" "dec_str n"] dec_ends strtol10_dec
  by (simp add: apply_header_def Let_def strcasecmp_eq_def)

lemma scan_ull_dec: "n \<le> ULONG_MAX \<Longrightarrow> s = [] \<or> \<not> c_isdigit (hd s) \<Longrightarrow> scan_ull (dec_str n @ s) = Some (n, s)"
  using strtoul10_dec_str [of n s] by (simp add: scan_ull_def)

lemma scan_ull_space: "n \<le> ULONG_MAX \<Longrightarrow> s = [] \<or> \<not> c_isdigit (hd s) \<Longrightarrow> scan_ull ('' '' @ dec_str n @ s) = Some (n, s)"
proof -
  assume n: "n \<le> ULONG_MAX" "s = [] \<or> \<not> c_isdigit (hd s)"
  obtain c cs where cc: "dec_str n = c # cs" by (cases "dec_str n") auto
  have c: "c_isdigit c" using dec_str_chars [of c n] cc by simp
  then have sign: "c \<noteq> CHR ''-''" "c \<noteq> CHR ''+''" by (auto simp: c_isdigit_def)
  have d: "dropWhile c_isspace ('' '' @ c # cs @ s) = c # cs @ s" "dropWhile c_isspace (c # cs @ s) = c # cs @ s"
    using c_isdigit_not_space [OF c] by (simp_all add: c_isspace_def)
  have "strtoul10 ('' '' @ c # cs @ s) = strtoul10 (c # cs @ s)"
    unfolding strtoul10_def Let_def d using sign c by simp
  then have "strtoul10 ('' '' @ dec_str n @ s) = strtoul10 (dec_str n @ s)" using cc by simp
  then show ?thesis using strtoul10_dec_str [OF n] by (simp add: scan_ull_def)
qed

lemma content_range_text:
  assumes "a \<le> ULONG_MAX" "b \<le> ULONG_MAX" "t \<le> ULONG_MAX"
  shows "content_range (''bytes '' @ dec_str a @ ''-'' @ dec_str b @ ''/'' @ dec_str t) = Some (a, b, t)"
proof -
  have "scan_ull ('' '' @ dec_str a @ ''-'' @ dec_str b @ ''/'' @ dec_str t) = Some (a, ''-'' @ dec_str b @ ''/'' @ dec_str t)"
    by (rule scan_ull_space) (use assms in \<open>simp_all add: c_isdigit_def\<close>)
  moreover have "scan_ull (dec_str b @ ''/'' @ dec_str t) = Some (b, ''/'' @ dec_str t)"
    by (rule scan_ull_dec) (use assms in \<open>simp_all add: c_isdigit_def\<close>)
  moreover have "scan_ull (dec_str t) = Some (t, [])" using scan_ull_dec [of t "[]"] assms by simp
  ultimately show ?thesis by (simp add: content_range_def scan_lit_def)
qed

lemma content_range_line:
  assumes "a \<le> ULONG_MAX" "b \<le> ULONG_MAX" "t \<le> ULONG_MAX"
  shows "apply_header (''Content-Range: bytes '' @ dec_str a @ ''-'' @ dec_str b @ ''/'' @ dec_str t) r =
    r\<lparr> rs_has_range := True, rs_start := a, rs_end := b, rs_total := t \<rparr>"
proof -
  define v where "v = ''bytes '' @ dec_str a @ ''-'' @ dec_str b @ ''/'' @ dec_str t"
  have v: "v \<noteq> []" "\<not> c_isspace (hd v)" "\<not> c_isspace (last v)"
    using dec_ends(2) [of t] by (simp_all add: v_def c_isspace_def)
  have "apply_header (''Content-Range'' @ '': '' @ v) r = r\<lparr> rs_has_range := True, rs_start := a, rs_end := b, rs_total := t \<rparr>"
    using header_parts [OF _ v, of "''Content-Range''"] content_range_text [OF assms, folded v_def]
    by (simp add: apply_header_def Let_def strcasecmp_eq_def c_tolower_def v_def [symmetric])
  then show ?thesis by (simp add: v_def)
qed

section \<open>Requests fit their buffer\<close>

text \<open>The limits on the parts of an address that was parsed.\<close>

definition url_fits :: "http_url \<Rightarrow> bool" where
  "url_fits u \<longleftrightarrow> length (hu_host u) < 256 \<and> hu_port u \<le> 65535 \<and> length (hu_path u) < HTTP_URL_MAX"

lemma port_digits_le: "port_digits p s = Some n \<Longrightarrow> p \<le> 65535 \<Longrightarrow> n \<le> 65535"
  by (induction p s rule: port_digits.induct) (auto split: if_splits)

lemma url_port_le: "url_port d s = Some n \<Longrightarrow> d \<le> 65535 \<Longrightarrow> n \<le> 65535"
  using port_digits_le [of 0] by (auto simp: url_port_def split: option.splits if_splits)

lemma url_path_length: "url_path r = Some p \<Longrightarrow> length p < HTTP_URL_MAX"
  by (auto simp: url_path_def Let_def HTTP_URL_MAX_def split: if_splits)

lemma parse_fits: "http_url_parse s = Some u \<Longrightarrow> url_fits u"
  using url_path_length url_port_le
  by (fastforce simp: http_url_parse_def url_fits_def url_scheme_def bind_eq_Some_conv Let_def split: if_splits)

lemma b64_length: "length (src_b64_encode sz p x) \<le> sz - p"
  by (induction sz p x rule: src_b64_encode.induct) (auto simp: Let_def)

lemma host_port_length: "url_fits u \<Longrightarrow> length (host_port u) \<le> 263"
proof -
  assume "url_fits u"
  then have "length (dec_str (hu_port u)) \<le> 5" "length (hu_host u) < 256" by (auto simp: url_fits_def intro: length_dec_str)
  then show ?thesis by (simp add: host_port_def bracketed_def)
qed

lemma request_fits:
  assumes "url_fits u" "a < 2 ^ 64" "b < 2 ^ 64"
  shows "length (request_text PKGMGR_X_VERSION (build_request cfg u False (Some (a, b)))) < HTTP_URL_MAX + 1024"
proof -
  have d: "length (dec_str a) \<le> 20" "length (dec_str b) \<le> 20"
    using length_dec_str [of 20 a] length_dec_str [of 20 b] assms(2,3) by simp_all
  have auth: "length (basic_auth g) \<le> 300" for g
    using b64_length [of 300 0] by (simp add: basic_auth_def)
  have p: "length (hu_path u) < 1024" "length (host_port u) \<le> 263"
    using assms(1) host_port_length [OF assms(1)] by (simp_all add: url_fits_def HTTP_URL_MAX_def)
  show ?thesis
  proof (cases cfg)
    case None
    then show ?thesis using d p
      by (simp add: request_text_def build_request_def line_end_def PKGMGR_X_VERSION_def HTTP_URL_MAX_def)
  next
    case (Some g)
    then show ?thesis using d p auth [of g]
      by (simp add: request_text_def build_request_def line_end_def PKGMGR_X_VERSION_def HTTP_URL_MAX_def)
  qed
qed

section \<open>A server with one file\<close>

text \<open>The head of the answer with \<open>n\<close> bytes from \<open>a\<close>; \<open>ex\<close> are headers the client does not use.\<close>

definition honest_head :: "string list \<Rightarrow> nat \<Rightarrow> nat \<Rightarrow> nat \<Rightarrow> string list" where
  "honest_head ex a n tot =
     ''HTTP/1.1 206 Partial Content'' # ex @
     [''Content-Length: '' @ dec_str n,
      ''Content-Range: bytes '' @ dec_str a @ ''-'' @ dec_str (a + n - 1) @ ''/'' @ dec_str tot]"

definition honest_reply :: "string list \<Rightarrow> byte list \<Rightarrow> nat \<Rightarrow> nat \<Rightarrow> byte list" where
  "honest_reply ex fl a b =
     (let n = min (b + 1) (length fl) - a
      in wire_lines (honest_head ex a n (length fl) @ [[]]) @ take n (drop a fl))"

definition idle_header :: "string \<Rightarrow> bool" where
  "idle_header l \<longleftrightarrow> plain_line l \<and> l \<noteq> [] \<and> (\<forall>r. apply_header l r = r)"

text \<open>Every request for a range within the file is answered, in whatever pieces.\<close>

definition serves :: "servers \<Rightarrow> string list \<Rightarrow> byte list \<Rightarrow> bool" where
  "serves w ex fl \<longleftrightarrow>
     0 < sv_room w \<and> list_all idle_header ex \<and> length ex \<le> 100 \<and> length fl < 2 ^ 63 \<and>
     (\<forall>k u q a b. rq_range q = Some (a, b) \<and> a \<le> b \<and> a < length fl \<longrightarrow>
        map_option concat (sv_reply w k u q) = Some (honest_reply ex fl a b))"

lemma dec_short: "n < 2 ^ 64 \<Longrightarrow> length (dec_str n) \<le> 20"
  by (rule length_dec_str) simp_all

lemma dec_plain: "list_all (\<lambda>c. c \<noteq> CHR 0x00 \<and> c \<noteq> CHR 0x0A \<and> c \<noteq> CHR 0x0D) (dec_str n)"
proof -
  have "c \<noteq> CHR 0x00 \<and> c \<noteq> CHR 0x0A \<and> c \<noteq> CHR 0x0D" if "c \<in> set (dec_str n)" for c
    using dec_str_chars [OF that] by (auto simp: c_isdigit_def)
  then show ?thesis by (simp add: list_all_iff)
qed

lemma plain_lines:
  assumes "n < 2 ^ 64" "a < 2 ^ 64" "b < 2 ^ 64" "t < 2 ^ 64"
  shows "plain_line (''Content-Length: '' @ dec_str n)"
    "plain_line (''Content-Range: bytes '' @ dec_str a @ ''-'' @ dec_str b @ ''/'' @ dec_str t)"
  using dec_short [OF assms(1)] dec_short [OF assms(2)] dec_short [OF assms(3)] dec_short [OF assms(4)] dec_plain
  by (simp_all add: plain_line_def)

definition range_answer :: "nat \<Rightarrow> nat \<Rightarrow> nat \<Rightarrow> http_resp" where
  "range_answer a n tot =
     resp_zero\<lparr> rs_status := 206, rs_length := int n, rs_has_range := True, rs_start := a, rs_end := a + n - 1, rs_total := tot \<rparr>"

lemma fold_idle: "list_all idle_header ex \<Longrightarrow> fold apply_header ex r = r"
  by (induction ex) (auto simp: idle_header_def)

lemma honest_answer:
  assumes "list_all idle_header ex" "length ex \<le> 100" "a + n \<le> tot" "tot < 2 ^ 63"
  shows "http_read_response junk (c\<lparr> hc_buf := wire_lines (honest_head ex a n tot @ [[]]) @ rest \<rparr>) =
    (Some (range_answer a n tot), c\<lparr> hc_buf := rest \<rparr>)"
proof -
  let ?s = "''HTTP/1.1 206 Partial Content''"
  define cl where "cl = ''Content-Length: '' @ dec_str n"
  define cr where "cr = ''Content-Range: bytes '' @ dec_str a @ ''-'' @ dec_str (a + n - 1) @ ''/'' @ dec_str tot"
  have b: "n < 2 ^ 63" "a < 2 ^ 63" "a + n - 1 < 2 ^ 63" "tot < 2 ^ 63" using assms(3,4) by linarith+
  then have b64: "n < 2 ^ 64" "a < 2 ^ 64" "a + n - 1 < 2 ^ 64" "tot < 2 ^ 64" by simp_all
  have u: "a \<le> ULONG_MAX" "a + n - 1 \<le> ULONG_MAX" "tot \<le> ULONG_MAX" using b64 by (simp_all add: ULONG_MAX_def)
  have s: "plain_line ?s" "starts_with ''HTTP/1.'' ?s" "12 \<le> length ?s" by (simp_all add: plain_line_def)
  have at: "atoi (drop 9 ?s) = 206"
    by (simp add: atoi_def strtol10_def c_isspace_def c_isdigit_def digit_val_def int32_id)
  have ls: "list_all (\<lambda>l. plain_line l \<and> l \<noteq> []) (ex @ [cl, cr])"
    using assms(1) plain_lines [OF b64] by (auto simp: cl_def cr_def idle_header_def list_all_iff)
  have "http_read_response junk (c\<lparr> hc_buf := wire_lines (?s # (ex @ [cl, cr]) @ [[]]) @ rest \<rparr>) =
      (Some (fold apply_header (ex @ [cl, cr]) (resp_zero\<lparr> rs_status := 206, rs_close := False \<rparr>)), c\<lparr> hc_buf := rest \<rparr>)"
    using read_response_lines [OF s _ ls, where junk=junk and c=c and rest=rest] assms(2) at by simp
  moreover have "fold apply_header (ex @ [cl, cr]) (resp_zero\<lparr> rs_status := 206, rs_close := False \<rparr>) = range_answer a n tot"
    using fold_idle [OF assms(1)] content_length_line [OF b(1)] content_range_line [OF u]
    unfolding cl_def cr_def fold_append fold_simps comp_def by (simp add: range_answer_def resp_zero_def)
  moreover have "honest_head ex a n tot @ [[]] = ?s # (ex @ [cl, cr]) @ [[]]"
    by (simp add: honest_head_def cl_def cr_def)
  ultimately show ?thesis by simp
qed

lemma exact_buffered:
  "length bs = n \<Longrightarrow> conn_read_exact n (c\<lparr> hc_buf := bs \<rparr>) = (Some bs, c\<lparr> hc_buf := [] \<rparr>)"
  by (simp add: conn_read_exact_def read_more.simps [of 0])

lemma receive_honest:
  assumes "fo_range opt = Some (a, m)" "fo_buf opt" "\<not> fo_head opt" "n \<le> m" "length bs = n"
  shows "\<exists>d. receive junk opt (range_answer a n tot) (c\<lparr> hc_buf := bs \<rparr>) = (0, bs, None, d)"
  using assms exact_buffered [OF assms(5), of c]
  by (simp add: receive_def receive_range_def range_answer_def range_start_def range_len_def resp_zero_def Let_def min_absorb1)

lemma buf_net: "c\<lparr> hc_net := [], hc_buf := x \<rparr> = c\<lparr> hc_buf := x, hc_net := [] \<rparr>" for c :: hconn
  by simp

text \<open>A request for \<open>m\<close> bytes from \<open>a\<close> on an open connection.\<close>

lemma exchange_honest:
  assumes "serves w ex fl" "wf_conn c" "conn_pending c = []" "a < length fl" "0 < m" "a + m < 2 ^ 64" "url_fits u"
  shows "\<exists>c1 st1. exchange w cfg u False (Some (a, a + m - 1)) c st =
      (Some (range_answer a (min m (length fl - a)) (length fl), c1), st1) \<and>
      same (c\<lparr> hc_buf := take m (drop a fl), hc_net := [] \<rparr>) c1"
proof -
  let ?q = "build_request cfg u False (Some (a, a + m - 1))"
  define n where "n = min m (length fl - a)"
  have fit: "length (request_text PKGMGR_X_VERSION ?q) < HTTP_URL_MAX + 1024"
    using request_fits [OF assms(7)] assms(5,6) by simp
  have rg: "rq_range ?q = Some (a, a + m - 1)" by (simp add: build_request_def)
  have sv: "0 < sv_room w" "list_all idle_header ex" "length ex \<le> 100" "length fl < 2 ^ 63"
    "map_option concat (sv_reply w (ns_step st) (hc_ep c) ?q) = Some (honest_reply ex fl a (a + m - 1))"
    using assms(1,4,5) rg by (simp_all add: serves_def)
  then obtain ps where ps: "sv_reply w (ns_step st) (hc_ep c) ?q = Some ps" "concat ps = honest_reply ex fl a (a + m - 1)" by auto
  define d where "d = c\<lparr> hc_net := hc_net c @ filter (\<lambda>p. p \<noteq> []) ps \<rparr>"
  define k where "k = c\<lparr> hc_buf := honest_reply ex fl a (a + m - 1), hc_net := [] \<rparr>"
  have "concat (filter (\<lambda>p. p \<noteq> []) xs) = concat xs" for xs :: "byte list list" by (induction xs) simp_all
  then have kd: "same k d" using assms(2,3) ps(2) by (auto simp: same_def k_def d_def wf_conn_def conn_pending_def list_all_iff)
  have nm: "min (a + m - 1 + 1) (length fl) - a = n" using assms(4,5) by (simp add: n_def)
  have body: "take n (drop a fl) = take m (drop a fl)" by (simp add: n_def min_def)
  have r: "honest_reply ex fl a (a + m - 1) = wire_lines (honest_head ex a n (length fl) @ [[]]) @ take m (drop a fl)"
    unfolding honest_reply_def nm Let_def body ..
  have le: "a + n \<le> length fl" using assms(4) by (simp add: n_def)
  have "http_read_response (sv_junk w) k = (Some (range_answer a n (length fl)), c\<lparr> hc_buf := take m (drop a fl), hc_net := [] \<rparr>)"
    using honest_answer [OF sv(2,3) le sv(4), where junk="sv_junk w" and c="c\<lparr> hc_net := [] \<rparr>" and rest="take m (drop a fl)"]
    unfolding k_def r buf_net .
  from read_response_same [OF this kd] obtain c1 where c1: "http_read_response (sv_junk w) d = (Some (range_answer a n (length fl)), c1)"
      "same (c\<lparr> hc_buf := take m (drop a fl), hc_net := [] \<rparr>) c1" by blast
  have "exchange w cfg u False (Some (a, a + m - 1)) c st =
      (Some (range_answer a n (length fl), c1), (tick w st)\<lparr> ns_sent := ns_sent st @ [(hc_ep c, ?q)] \<rparr>)"
    using fit ps(1) c1(1) by (simp add: exchange_def http_send_request_def Let_def d_def)
  then show ?thesis using c1(2) n_def by blast
qed

lemma finish_honest:
  assumes "fo_range opt = Some (a, m)" "fo_buf opt" "\<not> fo_head opt"
    "same (c\<lparr> hc_buf := take m (drop a fl), hc_net := [] \<rparr>) c1"
  shows "\<exists>c2. finish_fetch junk opt (range_answer a (min m (length fl - a)) (length fl), c1) =
    (\<lparr> ft_status = 206, ft_resp = range_answer a (min m (length fl - a)) (length fl), ft_range = take m (drop a fl), ft_body = None \<rparr>, c2)"
proof -
  let ?r = "range_answer a (min m (length fl - a)) (length fl)"
  have n: "min m (length fl - a) \<le> m" "length (take m (drop a fl)) = min m (length fl - a)" by (simp_all add: min.commute)
  from receive_honest [OF assms(1-3) n, where junk=junk and tot="length fl" and c="c\<lparr> hc_net := [] \<rparr>"]
  obtain d where "receive junk opt ?r (c\<lparr> hc_buf := take m (drop a fl), hc_net := [] \<rparr>) = (0, take m (drop a fl), None, d)"
    unfolding buf_net by blast
  from receive_same [OF this assms(4)] obtain d' where "receive junk opt ?r c1 = (0, take m (drop a fl), None, d')" by blast
  then show ?thesis by (simp add: finish_fetch_def range_answer_def)
qed

text \<open>The bytes of the file at the offset, as many as there are.\<close>

lemma pread_honest:
  assumes "serves w ex fl" "http_url_parse (cstr_trunc HTTP_URL_MAX url) = Some u"
    "sv_open w (ns_step st) u" "hu_https u \<longrightarrow> tls_handshake w cfg u st"
    "a < length fl" "0 < m" "a + m < 2 ^ 64"
  shows "fst (http_source_pread w url cfg m a st) = Some (take m (drop a fl))"
proof -
  let ?r = "range_answer a (min m (length fl - a)) (length fl)"
  obtain c st1 where c: "conn_open w cfg u st = (Some c, st1)" "wf_conn c" "conn_pending c = []"
    using assms(1,3,4) by (auto simp: conn_open_def serves_def wf_conn_def conn_pending_def)
  have wr: "wire_range (range_opts a m) = Some (a, a + m - 1)" using assms(6,7) by (simp add: wire_range_def range_opts_def)
  obtain c1 st2 where e: "exchange w cfg u False (Some (a, a + m - 1)) c st1 = (Some (?r, c1), st2)"
      "same (c\<lparr> hc_buf := take m (drop a fl), hc_net := [] \<rparr>) c1"
    using exchange_honest [OF assms(1) c(2,3) assms(5-7) parse_fits [OF assms(2)]] by blast
  obtain c2 where f: "finish_fetch (sv_junk w) (range_opts a m) (?r, c1) =
      (\<lparr> ft_status = 206, ft_resp = ?r, ft_range = take m (drop a fl), ft_body = None \<rparr>, c2)"
    using finish_honest [OF _ _ _ e(2), of "range_opts a m"] by (auto simp: range_opts_def)
  have "fetch_on w None u cfg (range_opts a m) st =
      (\<lparr> ft_status = 206, ft_resp = ?r, ft_range = take m (drop a fl), ft_body = None \<rparr>, c2, st2)"
    using c(1) e(1) f wr by (simp add: fetch_on_def fetch_fresh_def range_opts_def)
  moreover have "\<not> is_redirect ?r" by (simp add: is_redirect_def range_answer_def resp_zero_def)
  ultimately have "fetch_hops w (Suc 5) (cstr_trunc HTTP_URL_MAX url) cfg (range_opts a m) None st =
      (\<lparr> ft_status = 206, ft_resp = ?r, ft_range = take m (drop a fl), ft_body = None \<rparr>, cstr_trunc HTTP_URL_MAX url, c2, st2)"
    using assms(2) unfolding fetch_hops.simps(2) by simp
  then show ?thesis using assms(6) by (simp add: http_source_pread_def http_fetch_def HTTP_MAX_REDIRECTS_def)
qed

end
