(* ===== verification/HttpSessionProps.thy ===== *)
theory HttpSessionProps
  imports HttpSession HttpServe
begin

text \<open>
  Reading through a session comes to an end whatever the servers do, and delivers the bytes of
  the file when they serve it.
\<close>

section \<open>Time and steps go forward\<close>

definition later :: "net_state \<Rightarrow> net_state \<Rightarrow> bool" where
  "later st st' \<longleftrightarrow> ns_step st \<le> ns_step st' \<and> ns_now st \<le> ns_now st'"

lemma later_refl: "later st st"
  by (simp add: later_def)

lemma later_trans: "later a b \<Longrightarrow> later b c \<Longrightarrow> later a c"
  by (auto simp: later_def)

lemma conn_open_later: "conn_open w cfg u st = (r, st') \<Longrightarrow> later st st'"
  by (auto simp: conn_open_def later_def tick_def Let_def split: if_splits)

lemma exchange_later: "exchange w cfg u h rg c st = (r, st') \<Longrightarrow> later st st'"
  by (auto simp: exchange_def http_send_request_def later_def tick_def Let_def split: if_splits option.splits prod.splits)

lemma fetch_fresh_later: "fetch_fresh w u cfg opt st = (f, c', st') \<Longrightarrow> later st st'"
proof -
  assume a: "fetch_fresh w u cfg opt st = (f, c', st')"
  obtain o1 st1 where o1: "conn_open w cfg u st = (o1, st1)" by fastforce
  note l = conn_open_later [OF o1]
  show "later st st'"
  proof (cases o1)
    case None
    then show ?thesis using a o1 l by (simp add: fetch_fresh_def)
  next
    case (Some c)
    obtain x st2 where x: "exchange w cfg u (fo_head opt) (wire_range opt) c st1 = (x, st2)" by fastforce
    have "st' = st2" using a o1 Some x by (auto simp: fetch_fresh_def split: option.splits prod.splits)
    then show ?thesis using later_trans [OF l exchange_later [OF x]] by simp
  qed
qed

lemma fetch_on_later: "fetch_on w pc u cfg opt st = (f, c', st') \<Longrightarrow> later st st'"
proof -
  assume a: "fetch_on w pc u cfg opt st = (f, c', st')"
  show "later st st'"
  proof (cases "\<exists>c. pc = Some c \<and> hc_alive c \<and> same_endpoint (hc_ep c) u")
    case False
    then show ?thesis using a fetch_fresh_later by (cases pc) (auto simp: fetch_on_def split: if_splits)
  next
    case True
    then obtain c where c: "pc = Some c" "hc_alive c" "same_endpoint (hc_ep c) u" by blast
    obtain x st1 where x: "exchange w cfg u (fo_head opt) (wire_range opt) c st = (x, st1)" by fastforce
    note l = exchange_later [OF x]
    show ?thesis
    proof (cases x)
      case None
      then have "later st1 st'" using a c x fetch_fresh_later by (simp add: fetch_on_def)
      then show ?thesis using later_trans [OF l] by simp
    next
      case (Some rc)
      then have "st' = st1" using a c x by (auto simp: fetch_on_def split: prod.splits)
      then show ?thesis using l by simp
    qed
  qed
qed

lemma fetch_hops_later: "fetch_hops w k cur cfg opt pc st = (f, url, c', st') \<Longrightarrow> later st st'"
proof (induction k arbitrary: cur pc st)
  case 0
  then show ?case using later_refl by auto
next
  case (Suc k)
  show ?case
  proof (cases "http_url_parse cur")
    case None
    then show ?thesis using Suc.prems later_refl by auto
  next
    case (Some u)
    obtain g pc1 st1 where x: "fetch_on w pc u cfg opt st = (g, pc1, st1)" by (metis prod_cases3)
    have "st' = st1 \<or> later st1 st'"
      using Suc.prems Some x Suc.IH by (auto split: if_splits option.splits)
    then show ?thesis using later_trans [OF fetch_on_later [OF x]] fetch_on_later [OF x] by auto
  qed
qed

lemma range_probe_later: "range_probe_st w pc url cfg tab st = (p, s, fin, pc', tab', st') \<Longrightarrow> later st st'"
proof -
  assume a: "range_probe_st w pc url cfg tab st = (p, s, fin, pc', tab', st')"
  obtain f u c1 st1 where x: "http_fetch w url cfg (range_opts 0 1) pc st = (f, u, c1, st1)" by (metis prod_cases4)
  have "st' = st1" using a x by (simp add: range_probe_st_def)
  then show "later st st'" using fetch_hops_later [OF x [unfolded http_fetch_def]] by simp
qed

lemma session_refresh_later: "session_refresh w s g tab st = (r, s', tab', st') \<Longrightarrow> later st st'"
proof -
  assume a: "session_refresh w s g tab st = (r, s', tab', st')"
  obtain p status fin pc tab1 st1 where x: "range_probe_st w None (se_origin s) (se_cfg s) tab st = (p, status, fin, pc, tab1, st1)"
    by (metis prod_cases6)
  have "st' = st \<or> st' = st1"
    using a x by (auto simp: session_refresh_def split: if_splits probed.splits bool.splits option.splits)
  then show "later st st'" using range_probe_later [OF x] later_refl by auto
qed

lemma pause_later: "later st (pause w n st)"
proof (induction n arbitrary: st)
  case (Suc n)
  define st1 where "st1 = tick w st"
  have "later st (st1\<lparr> ns_now := ns_now st1 + 1 \<rparr>)" by (simp add: st1_def later_def tick_def)
  then show ?case using Suc.IH later_trans later_refl by (simp add: Let_def st1_def)
qed (simp add: later_refl)

section \<open>The end of a read\<close>

text \<open>Cancelling an installation is not taken back while a read goes on.\<close>

definition steady :: "servers \<Rightarrow> bool" where
  "steady w \<longleftrightarrow> (\<forall>i j. i \<le> j \<longrightarrow> sv_cancel w i \<longrightarrow> sv_cancel w j)"

lemma pause_spends:
  assumes "steady w" "0 < n" "\<not> sv_cancel w (ns_step st)"
  shows "sv_cancel w (ns_step (pause w n st)) \<or> ns_now st + 1 \<le> ns_now (pause w n st)"
proof -
  obtain k where n: "n = Suc k" using assms(2) by (cases n) auto
  define st1 where "st1 = (tick w st)\<lparr> ns_now := ns_now (tick w st) + 1 \<rparr>"
  have "pause w n st = pause w k st1" using assms(3) n by (simp add: st1_def Let_def)
  moreover have "ns_now st + 1 \<le> ns_now st1" by (simp add: st1_def tick_def)
  ultimately show ?thesis using pause_later [of st1 w k] by (simp add: later_def)
qed

text \<open>How many turns an attempt still has.\<close>

definition budget :: "servers \<Rightarrow> attempt \<Rightarrow> nat" where
  "budget w a =
     (3 - at_refreshes a) +
     (if sv_cancel w (ns_step (at_st a)) then 1
      else if at_deadline a = 0 then 123 else (at_deadline a - ns_now (at_st a)) + 2)"

lemma budget_later:
  assumes "steady w" "later (at_st a) (at_st b)" "at_refreshes b = at_refreshes a" "at_deadline b = at_deadline a"
  shows "budget w b \<le> budget w a"
  using assms by (auto simp: budget_def later_def steady_def)

lemma after_outage_less:
  assumes "steady w" "0 < at_delay a" "fst (after_outage w a) = Some b"
  shows "budget w b < budget w a" "0 < at_delay b" "at_refreshes b = at_refreshes a"
proof -
  define dl where "dl = (if at_deadline a = 0 then ns_now (at_st a) + HTTP_READ_RETRY_SEC else at_deadline a)"
  define st1 where "st1 = pause w (at_delay a) (at_st a)"
  have go: "\<not> sv_cancel w (ns_step (at_st a))" "ns_now (at_st a) < dl"
    and b: "b = a\<lparr> at_deadline := dl, at_delay := (if at_delay a < 8 then at_delay a * 2 else at_delay a), at_st := st1 \<rparr>"
    using assms(3) by (auto simp: after_outage_def Let_def dl_def [symmetric] st1_def [symmetric] split: if_splits)
  show "0 < at_delay b" "at_refreshes b = at_refreshes a" using b assms(2) by auto
  have "sv_cancel w (ns_step st1) \<or> ns_now (at_st a) + 1 \<le> ns_now st1"
    using pause_spends [OF assms(1,2) go(1)] by (simp add: st1_def)
  moreover have "dl - ns_now (at_st a) \<le> 120 \<or> at_deadline a \<noteq> 0" "dl \<noteq> 0" "at_deadline a \<noteq> 0 \<Longrightarrow> dl = at_deadline a"
    using go(2) by (auto simp: dl_def HTTP_READ_RETRY_SEC_def)
  ultimately show "budget w b < budget w a" using go b by (auto simp: budget_def)
qed

lemma read_turn_less:
  assumes "steady w" "0 < at_delay a" "read_turn w n off a = (Inr b, x)"
  shows "budget w b < budget w a \<and> 0 < at_delay b"
proof -
  obtain pc s1 where t: "session_take (at_s a) = (pc, s1)" by fastforce
  obtain f pc1 st1 where f: "fetch_on w pc (se_u s1) (se_cfg s1) (range_opts off n) (at_st a) = (f, pc1, st1)" by (metis prod_cases3)
  define s2 where "s2 = session_give pc1 s1"
  define red where "red = se_redirected (at_s a)"
  define a2 where "a2 = a\<lparr> at_s := s2, at_tab := gone_after red f (se_origin s2) (at_tab a), at_st := st1 \<rparr>"
  have a2: "budget w a2 \<le> budget w a" "0 < at_delay a2"
    using budget_later [OF assms(1), of a a2] fetch_on_later [OF f] assms(2) by (simp_all add: a2_def)
  obtain r s3 tab3 st3 where r: "session_refresh w s2 (se_generation (at_s a)) (at_tab a2) st1 = (r, s3, tab3, st3)" by (metis prod_cases4)
  define a3 where "a3 = a2\<lparr> at_s := s3, at_tab := tab3, at_refreshes := at_refreshes a + 1, at_st := st3 \<rparr>"
  have a3: "budget w a3 < budget w a" "0 < at_delay a3" if "at_refreshes a < 3"
  proof -
    have "budget w (a2\<lparr> at_st := st3 \<rparr>) \<le> budget w a2"
      using budget_later [OF assms(1), of a2 "a2\<lparr> at_st := st3 \<rparr>"] session_refresh_later [OF r] by (simp add: a2_def)
    moreover have "budget w a3 < budget w (a2\<lparr> at_st := st3 \<rparr>)" using that by (auto simp: budget_def a3_def a2_def)
    ultimately show "budget w a3 < budget w a" using a2(1) by simp
    show "0 < at_delay a3" using a2(2) by (simp add: a3_def)
  qed
  have turn: "read_turn w n off a =
      (case judge red f of
         Deliver bs \<Rightarrow> (Inl (Some bs), a2)
       | Give_up \<Rightarrow> (Inl None, a2)
       | Wait \<Rightarrow> (case fst (after_outage w a2) of None \<Rightarrow> (Inl None, a2) | Some c \<Rightarrow> (Inr c, c))
       | Ask_again \<Rightarrow>
           if at_refreshes a \<ge> 3 then (Inl None, a2)
           else (case r of Refreshed \<Rightarrow> (Inr a3, a3) | Changed \<Rightarrow> (Inl None, a3)
                 | Try_later \<Rightarrow> (case fst (after_outage w a3) of None \<Rightarrow> (Inl None, a3) | Some c \<Rightarrow> (Inr c, c))))"
    unfolding read_turn_def t f Let_def prod.case s2_def [symmetric] red_def [symmetric] a2_def [symmetric] r a3_def [symmetric]
    by (rule refl)
  show ?thesis
  proof (cases "judge red f")
    case Wait
    then have "fst (after_outage w a2) = Some b" using assms(3) turn by (auto split: option.splits)
    from after_outage_less [OF assms(1) a2(2) this] show ?thesis using a2(1) by simp
  next
    case Ask_again
    then have lt: "at_refreshes a < 3" using assms(3) turn by (auto split: if_splits)
    show ?thesis
    proof (cases r)
      case Refreshed
      then show ?thesis using assms(3) turn Ask_again lt a3 by simp
    next
      case Try_later
      then have "fst (after_outage w a3) = Some b" using assms(3) turn Ask_again lt by (auto split: option.splits)
      from after_outage_less [OF assms(1) a3(2) [OF lt] this] show ?thesis using a3(1) [OF lt] by simp
    qed (use assms(3) turn Ask_again lt in simp)
  qed (use assms(3) turn in simp_all)
qed

lemma read_turns_end: "steady w \<Longrightarrow> 0 < at_delay a \<Longrightarrow> budget w a \<le> k \<Longrightarrow> read_turns w k n off a \<noteq> None"
proof (induction k arbitrary: a)
  case 0
  then show ?case by (simp add: budget_def split: if_splits)
next
  case (Suc k)
  obtain r x where r: "read_turn w n off a = (r, x)" by fastforce
  show ?case
  proof (cases r)
    case (Inl v)
    then show ?thesis using r by simp
  next
    case (Inr b)
    then have "budget w b < budget w a \<and> 0 < at_delay b" using read_turn_less Suc.prems r by blast
    then show ?thesis using Suc.IH [of b] Suc.prems r Inr by simp
  qed
qed

definition READ_TURNS :: nat where "READ_TURNS = 126"

lemma read_direct_ends: "steady w \<Longrightarrow> session_read_direct w READ_TURNS s n off tab st \<noteq> None"
  using read_turns_end [of w "first_attempt s tab st" READ_TURNS]
  by (simp add: session_read_direct_def READ_TURNS_def first_attempt_def budget_def)

lemma session_read_ends: "steady w \<Longrightarrow> http_file_session_read w READ_TURNS s n off tab st \<noteq> None"
  using read_direct_ends
  by (auto simp: http_file_session_read_def session_read_streaming_def Let_def split: prod.splits option.splits)

section \<open>Reading what the server has\<close>

text \<open>A connection on which nothing is outstanding.\<close>

definition at_rest :: "hconn \<Rightarrow> bool" where
  "at_rest c \<longleftrightarrow> wf_conn c \<and> conn_pending c = []"

text \<open>The server of a session can be reached; its address was parsed.\<close>

definition session_reachable :: "servers \<Rightarrow> session \<Rightarrow> bool" where
  "session_reachable w s \<longleftrightarrow>
     (\<forall>k. sv_open w k (se_u s)) \<and> (hu_https (se_u s) \<longrightarrow> (\<forall>st. tls_handshake w (se_cfg s) (se_u s) st)) \<and>
     url_fits (se_u s)"

text \<open>A session on a file: its size, connections at rest, and a stream that has just the bytes
  between its position and its end still to deliver.\<close>

definition session_ok :: "byte list \<Rightarrow> session \<Rightarrow> bool" where
  "session_ok fl s \<longleftrightarrow>
     se_size s = length fl \<and> list_all at_rest (se_idle s) \<and>
     (case se_stream s of
        None \<Rightarrow> True
      | Some c \<Rightarrow> wf_conn c \<and> se_pos s \<le> se_end s \<and> se_end s \<le> length fl \<and>
          conn_pending c = take (se_end s - se_pos s) (drop (se_pos s) fl))"

lemma session_take_ok:
  assumes "session_take s = (pc, s1)" "session_ok fl s"
  shows "pred_option at_rest pc" "session_ok fl s1" "se_u s1 = se_u s" "se_cfg s1 = se_cfg s" "se_stream s1 = se_stream s"
    "se_size s1 = se_size s"
proof -
  show "pred_option at_rest pc" "session_ok fl s1"
    using assms by (auto simp: session_take_def session_ok_def list_all_iff in_set_butlastD split: if_splits option.splits)
  show "se_u s1 = se_u s" "se_cfg s1 = se_cfg s" "se_stream s1 = se_stream s" "se_size s1 = se_size s"
    using assms(1) by (auto simp: session_take_def split: if_splits)
qed

lemma session_give_ok:
  "session_ok fl s \<Longrightarrow> pred_option at_rest pc \<Longrightarrow> session_ok fl (session_give pc s)"
  "se_u (session_give pc s) = se_u s" "se_cfg (session_give pc s) = se_cfg s"
  by (auto simp: session_give_def session_ok_def split: option.splits)

lemma finish_at_rest:
  assumes "finish_fetch junk (range_opts a m) (range_answer a (min m (length fl - a)) (length fl), c1) = (f, c2)"
    "same (c\<lparr> hc_buf := take m (drop a fl), hc_net := [] \<rparr>) c1"
  shows "pred_option at_rest c2" "ft_status f = 206" "ft_range f = take m (drop a fl)"
proof -
  let ?n = "min m (length fl - a)"
  let ?r = "range_answer a ?n (length fl)"
  let ?k = "c\<lparr> hc_buf := take m (drop a fl), hc_net := [] \<rparr>"
  have "conn_read_exact ?n ?k = (Some (take m (drop a fl)), c\<lparr> hc_buf := [], hc_net := [] \<rparr>)"
    using exact_buffered [of "take m (drop a fl)" ?n "c\<lparr> hc_net := [] \<rparr>"] unfolding buf_net by (simp add: min.commute)
  then have "receive junk (range_opts a m) ?r ?k = (0, take m (drop a fl), None, c\<lparr> hc_buf := [], hc_net := [] \<rparr>)"
    by (simp add: receive_def receive_range_def range_answer_def range_start_def range_len_def range_opts_def resp_zero_def Let_def
        min_absorb1)
  from receive_same [OF this assms(2)] obtain d where d:
      "receive junk (range_opts a m) ?r c1 = (0, take m (drop a fl), None, d)" "alike (c\<lparr> hc_buf := [], hc_net := [] \<rparr>) d"
    by blast
  have "at_rest d" if "hc_alive d"
    using d(2) that by (auto simp: alike_def same_def at_rest_def conn_pending_def)
  then show "pred_option at_rest c2" "ft_status f = 206" "ft_range f = take m (drop a fl)"
    using assms(1) d(1) by (auto simp: finish_fetch_def range_answer_def resp_zero_def split: if_splits)
qed

lemma conn_open_reachable:
  assumes "session_reachable w s" "0 < sv_room w"
  shows "\<exists>c st1. conn_open w (se_cfg s) (se_u s) st = (Some c, st1) \<and> wf_conn c \<and> conn_pending c = []"
  using assms by (auto simp: conn_open_def session_reachable_def wf_conn_def conn_pending_def)

lemma fetch_on_honest:
  assumes "serves w ex fl" "session_reachable w s" "pred_option at_rest pc" "a < length fl" "0 < m" "a + m \<le> length fl"
  shows "\<exists>f c2 st2. fetch_on w pc (se_u s) (se_cfg s) (range_opts a m) st = (f, c2, st2) \<and>
    pred_option at_rest c2 \<and> ft_status f = 206 \<and> ft_range f = take m (drop a fl)"
proof -
  let ?cfg = "se_cfg s" and ?u = "se_u s" and ?r = "range_answer a (min m (length fl - a)) (length fl)"
  have lt: "length fl < 2 ^ 63" "0 < sv_room w" using assms(1) by (simp_all add: serves_def)
  then have "a + m < 2 ^ 63" using assms(6) by linarith
  then have lim: "a + m < 2 ^ 64" "a + m - 1 < 2 ^ 63" by simp_all
  have short: "url_fits (se_u s)" using assms(2) by (simp add: session_reachable_def)
  have wr: "wire_range (range_opts a m) = Some (a, a + m - 1)" using assms(5) lim(1) by (simp add: wire_range_def range_opts_def)
  have ex: "\<exists>rc st1. exchange w ?cfg ?u (fo_head (range_opts a m)) (wire_range (range_opts a m)) c st = (Some rc, st1) \<and>
      (\<forall>f c2. finish_fetch (sv_junk w) (range_opts a m) rc = (f, c2) \<longrightarrow>
         pred_option at_rest c2 \<and> ft_status f = 206 \<and> ft_range f = take m (drop a fl))"
    if w: "wf_conn c" and p: "conn_pending c = []" for c st
  proof -
    obtain c1 st1 where e: "exchange w ?cfg ?u False (Some (a, a + m - 1)) c st = (Some (?r, c1), st1)"
        "same (c\<lparr> hc_buf := take m (drop a fl), hc_net := [] \<rparr>) c1"
      using exchange_honest [OF assms(1) w p assms(4,5) lim(1) short] by blast
    then show ?thesis using finish_at_rest [OF _ e(2)] wr by (auto simp: range_opts_def)
  qed
  have fresh: "\<exists>f c2 st2. fetch_fresh w ?u ?cfg (range_opts a m) st = (f, c2, st2) \<and>
      pred_option at_rest c2 \<and> ft_status f = 206 \<and> ft_range f = take m (drop a fl)" for st
  proof -
    obtain c st1 where c: "conn_open w ?cfg ?u st = (Some c, st1)" "wf_conn c" "conn_pending c = []"
      using conn_open_reachable [OF assms(2) lt(2)] by blast
    obtain rc st2 where "exchange w ?cfg ?u (fo_head (range_opts a m)) (wire_range (range_opts a m)) c st1 = (Some rc, st2)"
      "\<And>f c2. finish_fetch (sv_junk w) (range_opts a m) rc = (f, c2) \<Longrightarrow>
         pred_option at_rest c2 \<and> ft_status f = 206 \<and> ft_range f = take m (drop a fl)"
      using ex [OF c(2,3)] by blast
    then show ?thesis using c(1) by (cases "finish_fetch (sv_junk w) (range_opts a m) rc") (auto simp: fetch_fresh_def)
  qed
  show ?thesis
  proof (cases "\<exists>c. pc = Some c \<and> hc_alive c \<and> same_endpoint (hc_ep c) ?u")
    case False
    then show ?thesis using fresh by (cases pc) (auto simp: fetch_on_def)
  next
    case True
    then obtain c where c: "pc = Some c" "hc_alive c" "same_endpoint (hc_ep c) ?u" "wf_conn c" "conn_pending c = []"
      using assms(3) by (auto simp: at_rest_def)
    obtain rc st2 where "exchange w ?cfg ?u (fo_head (range_opts a m)) (wire_range (range_opts a m)) c st = (Some rc, st2)"
      "\<And>f c2. finish_fetch (sv_junk w) (range_opts a m) rc = (f, c2) \<Longrightarrow>
         pred_option at_rest c2 \<and> ft_status f = 206 \<and> ft_range f = take m (drop a fl)"
      using ex [OF c(4,5)] by blast
    then show ?thesis using c(1-3) by (cases "finish_fetch (sv_junk w) (range_opts a m) rc") (auto simp: fetch_on_def)
  qed
qed

lemma reachable_same: "session_reachable w s \<Longrightarrow> se_u s' = se_u s \<Longrightarrow> se_cfg s' = se_cfg s \<Longrightarrow> session_reachable w s'"
  by (simp add: session_reachable_def)

text \<open>What a read of so many bytes at an offset may deliver.\<close>

definition delivers :: "byte list \<Rightarrow> nat \<Rightarrow> nat \<Rightarrow> byte list \<Rightarrow> bool" where
  "delivers fl n off bs \<longleftrightarrow>
     length bs \<le> n \<and> bs = take (length bs) (drop off fl) \<and> (0 < n \<and> off < length fl \<longrightarrow> bs \<noteq> [])"

definition read_well :: "servers \<Rightarrow> byte list \<Rightarrow> nat \<Rightarrow> nat \<Rightarrow> (byte list option \<times> session \<times> file_state list \<times> net_state) option \<Rightarrow> bool" where
  "read_well w fl n off r \<longleftrightarrow>
     (\<exists>bs s' tab' st'. r = Some (Some bs, s', tab', st') \<and> delivers fl n off bs \<and> session_ok fl s' \<and> session_reachable w s')"

lemma read_direct_honest:
  assumes "serves w ex fl" "session_reachable w s" "session_ok fl s"
  shows "read_well w fl n off (session_read_direct w (Suc k) s n off tab st)"
proof (cases "n = 0 \<or> off \<ge> length fl")
  case True
  then show ?thesis using assms(2,3) by (auto simp: session_read_direct_def read_well_def delivers_def session_ok_def)
next
  case False
  then have n: "0 < n" "off < length fl" by auto
  have sz: "se_size s = length fl" using assms(3) by (simp add: session_ok_def)
  define m where "m = min n (length fl - off)"
  have m: "0 < m" "off + m \<le> length fl" "m \<le> n" using n by (auto simp: m_def)
  obtain pc s1 where t: "session_take s = (pc, s1)" by fastforce
  note ok = session_take_ok [OF t assms(3)]
  obtain f c2 st2 where f: "fetch_on w pc (se_u s1) (se_cfg s1) (range_opts off m) st = (f, c2, st2)"
      "pred_option at_rest c2" "ft_status f = 206" "ft_range f = take m (drop off fl)"
    using fetch_on_honest [OF assms(1) reachable_same [OF assms(2) ok(3,4)] ok(1) n(2) m(1,2)] by blast
  have ne: "take m (drop off fl) \<noteq> []" using m(1) n(2) by simp
  have "judge r f = Deliver (take m (drop off fl))" for r using f(3,4) ne by (simp add: judge_def)
  then have "fst (read_turn w m off (first_attempt s tab st)) = Inl (Some (take m (drop off fl)))"
      "at_s (snd (read_turn w m off (first_attempt s tab st))) = session_give c2 s1"
    using t f(1) by (simp_all add: read_turn_def first_attempt_def Let_def)
  then have "\<exists>tab' st'. session_read_direct w (Suc k) s n off tab st =
      Some (Some (take m (drop off fl)), session_give c2 s1, tab', st')"
    using n sz by (cases "read_turn w m off (first_attempt s tab st)") (auto simp: session_read_direct_def m_def [symmetric])
  moreover have "delivers fl n off (take m (drop off fl))"
    using m ne by (simp add: delivers_def min_def)
  moreover have "session_ok fl (session_give c2 s1)" "session_reachable w (session_give c2 s1)"
    using session_give_ok ok f(2) reachable_same [OF assms(2)] by simp_all
  ultimately show ?thesis unfolding read_well_def by blast
qed

lemma stream_drop_ok: "session_ok fl s \<Longrightarrow> session_ok fl (stream_drop s)"
  by (simp add: session_ok_def stream_drop_def)

lemma delivers_less: "delivers fl (min n (length fl - off)) off bs \<Longrightarrow> 0 < n \<Longrightarrow> off < length fl \<Longrightarrow> delivers fl n off bs"
  by (simp add: delivers_def)

lemma read_well_less:
  "read_well w fl (min n (length fl - off)) off r \<Longrightarrow> 0 < n \<Longrightarrow> off < length fl \<Longrightarrow> read_well w fl n off r"
  using delivers_less unfolding read_well_def by blast

lemma stream_request_honest:
  assumes "serves w ex fl" "session_reachable w s" "session_ok fl s" "pred_option at_rest pc" "off < length fl"
  shows "\<exists>c c1 st1. stream_request w pc s off st =
      (Some (range_answer off (stream_window s off) (length fl), c1), st1) \<and>
      same (c\<lparr> hc_buf := take (stream_window s off) (drop off fl), hc_net := [] \<rparr>) c1"
proof -
  define m where "m = stream_window s off"
  have m: "0 < m" "m \<le> length fl - off"
    using assms(3,5) by (auto simp: m_def stream_window_def session_ok_def HTTP_STREAM_WINDOW_def)
  have lt: "length fl < 2 ^ 63" "0 < sv_room w" using assms(1) by (simp_all add: serves_def)
  then have "off + m < 2 ^ 63" using m assms(5) by linarith
  then have lim: "off + m < 2 ^ 64" "off + m - 1 < 2 ^ 63" by simp_all
  have short: "url_fits (se_u s)" using assms(2) by (simp add: session_reachable_def)
  have mm: "min m (length fl - off) = m" using m(2) by simp
  have ex: "\<exists>c1 st1. exchange w (se_cfg s) (se_u s) False (Some (off, off + m - 1)) c st = (Some (range_answer off m (length fl), c1), st1) \<and>
      same (c\<lparr> hc_buf := take m (drop off fl), hc_net := [] \<rparr>) c1" if "wf_conn c" "conn_pending c = []" for c st
    using exchange_honest [OF assms(1) that assms(5) m(1) lim(1) short] unfolding mm by blast
  have fresh: "\<exists>c c1 st1. stream_fresh w s off st = (Some (range_answer off m (length fl), c1), st1) \<and>
      same (c\<lparr> hc_buf := take m (drop off fl), hc_net := [] \<rparr>) c1" for st
  proof -
    obtain c st1 where c: "conn_open w (se_cfg s) (se_u s) st = (Some c, st1)" "wf_conn c" "conn_pending c = []"
      using conn_open_reachable [OF assms(2) lt(2)] by blast
    then show ?thesis using ex [OF c(2,3), of st1] by (auto simp: stream_fresh_def m_def [symmetric])
  qed
  show ?thesis
  proof (cases "\<exists>c. pc = Some c \<and> hc_alive c \<and> same_endpoint (hc_ep c) (se_u s)")
    case False
    then show ?thesis using fresh [of st] by (cases pc) (auto simp: stream_request_def m_def [symmetric])
  next
    case True
    then obtain c where c: "pc = Some c" "hc_alive c" "same_endpoint (hc_ep c) (se_u s)" "wf_conn c" "conn_pending c = []"
      using assms(4) by (auto simp: at_rest_def)
    then show ?thesis using ex [OF c(4,5), of st] by (auto simp: stream_request_def m_def [symmetric])
  qed
qed

lemma stream_open_honest:
  assumes "serves w ex fl" "session_reachable w s" "session_ok fl s" "off < length fl"
  shows "\<exists>s1 st1. stream_open w s off st = (True, s1, st1) \<and> session_ok fl s1 \<and> session_reachable w s1 \<and> stream_ready s1 off"
proof -
  obtain pc s0 where t: "session_take s = (pc, s0)" by fastforce
  note ok = session_take_ok [OF t assms(3)]
  have re: "session_reachable w s0" by (rule reachable_same [OF assms(2) ok(3,4)])
  define m where "m = stream_window s0 off"
  have m: "0 < m" "m \<le> length fl - off"
    using ok(2) assms(4) by (auto simp: m_def stream_window_def session_ok_def HTTP_STREAM_WINDOW_def)
  obtain c c1 st1 where r: "stream_request w pc s0 off st = (Some (range_answer off m (length fl), c1), st1)"
      "same (c\<lparr> hc_buf := take m (drop off fl), hc_net := [] \<rparr>) c1"
    using stream_request_honest [OF assms(1) re ok(2,1) assms(4)] unfolding m_def by blast
  have c1: "wf_conn c1" "conn_pending c1 = take m (drop off fl)"
    using same_wf(2) [OF r(2)] same_ep(3) [OF r(2)] by (simp_all add: conn_pending_def)
  define s1 where "s1 = s0\<lparr> se_stream := Some c1, se_pos := off, se_end := off + m \<rparr>"
  have "stream_open w s off st = (True, s1, st1)"
    using t r(1) m(1)
    by (simp add: stream_open_def stream_usable_def range_answer_def resp_zero_def s1_def)
  moreover have "session_ok fl s1" using ok(2) c1 m assms(4) by (auto simp: session_ok_def s1_def)
  moreover have "session_reachable w s1" using reachable_same [OF re] by (simp add: s1_def)
  moreover have "stream_ready s1 off" using m(1) by (simp add: stream_ready_def s1_def)
  ultimately show ?thesis by blast
qed

lemma stream_next_ok:
  assumes "session_ok fl s" "stream_ready s off" "0 < n"
  shows "\<exists>bs s'. stream_next s n = (Some bs, s') \<and> delivers fl n off bs \<and> session_ok fl s' \<and> se_u s' = se_u s \<and> se_cfg s' = se_cfg s"
proof -
  obtain c where c: "se_stream s = Some c" "off = se_pos s" "se_pos s < se_end s"
    using assms(2) by (auto simp: stream_ready_def)
  have ok: "wf_conn c" "se_end s \<le> length fl" "conn_pending c = take (se_end s - se_pos s) (drop (se_pos s) fl)"
    "list_all at_rest (se_idle s)" "se_size s = length fl"
    using assms(1) c(1) by (simp_all add: session_ok_def)
  define m where "m = min (se_end s - se_pos s) n"
  have m: "0 < m" "m \<le> n" "m \<le> se_end s - se_pos s" "m \<le> length (conn_pending c)" "off + m \<le> length fl"
    using c assms(3) ok(2,3) by (auto simp: m_def)
  have sm: "same (c\<lparr> hc_buf := conn_pending c, hc_net := [] \<rparr>) c" using ok(1) by (simp add: same_def wf_conn_def conn_pending_def)
  have "conn_read_exact m (c\<lparr> hc_buf := conn_pending c, hc_net := [] \<rparr>) =
      (Some (take m (conn_pending c)), c\<lparr> hc_buf := drop m (conn_pending c), hc_net := [] \<rparr>)"
    using m(4) by (simp add: conn_read_exact_def read_more.simps [of 0])
  from conn_read_exact_same [OF this sm] obtain c1 where r: "conn_read_exact m c = (Some (take m (conn_pending c)), c1)"
      "same (c\<lparr> hc_buf := drop m (conn_pending c), hc_net := [] \<rparr>) c1" by blast
  have p1: "wf_conn c1" "conn_pending c1 = drop m (conn_pending c)"
    using same_wf(2) [OF r(2)] same_ep(3) [OF r(2)] by (simp_all add: conn_pending_def)
  define bs where "bs = take m (conn_pending c)"
  have bs: "length bs = m" "bs = take m (drop off fl)"
    using m(4) m(3) [THEN min_absorb1] ok(3) c(2) by (simp_all add: bs_def)
  have del: "delivers fl n off bs" using bs m(1,2) by (auto simp: delivers_def)
  have nxt: "stream_next s n =
      (if se_pos s + m \<ge> se_end s
       then (Some bs, session_give (Some c1) (s\<lparr> se_pos := se_pos s + m, se_stream := None \<rparr>))
       else (Some bs, s\<lparr> se_pos := se_pos s + m, se_stream := Some c1 \<rparr>))"
    using c(1) r(1) bs(1) by (simp add: stream_next_def m_def [symmetric] bs_def Let_def)
  show ?thesis
  proof (cases "se_pos s + m \<ge> se_end s")
    case True
    then have "conn_pending c1 = []" using p1(2) ok(3) by simp
    then have "session_ok fl (session_give (Some c1) (s\<lparr> se_pos := se_pos s + m, se_stream := None \<rparr>))"
      using ok(4,5) p1(1) by (intro session_give_ok(1)) (simp_all add: session_ok_def at_rest_def)
    then show ?thesis using nxt True del session_give_ok(2,3) by simp
  next
    case False
    have "drop m (conn_pending c) = take (se_end s - (se_pos s + m)) (drop (se_pos s + m) fl)"
      by (simp add: ok(3) drop_take add.commute)
    then have "session_ok fl (s\<lparr> se_pos := se_pos s + m, se_stream := Some c1 \<rparr>)"
      using False ok p1 by (simp add: session_ok_def)
    then show ?thesis using nxt False del by simp
  qed
qed

lemma session_read_honest:
  assumes "serves w ex fl" "session_reachable w s" "session_ok fl s"
  shows "read_well w fl n off (http_file_session_read w (Suc k) s n off tab st)"
proof (cases "se_resilient s \<and> n \<noteq> 0 \<and> off < length fl")
  case False
  then show ?thesis
    using read_direct_honest [OF assms] assms(2,3)
    by (auto simp: http_file_session_read_def session_read_streaming_def read_well_def delivers_def session_ok_def)
next
  case True
  then have n: "0 < n" "off < length fl" "se_resilient s" by auto
  have sz: "se_size s = length fl" using assms(3) by (simp add: session_ok_def)
  obtain s1 st1 where op: "(if stream_ready s off then (True, s, st) else stream_open w (stream_drop s) off st) = (True, s1, st1)"
      "session_ok fl s1" "session_reachable w s1" "stream_ready s1 off"
  proof (cases "stream_ready s off")
    case True
    then show ?thesis using that assms by simp
  next
    case False
    have "session_reachable w (stream_drop s)" using reachable_same [OF assms(2)] by (simp add: stream_drop_def)
    from stream_open_honest [OF assms(1) this stream_drop_ok [OF assms(3)] n(2), of st] that False show ?thesis by auto
  qed
  define m where "m = min n (length fl - off)"
  have "0 < m" using n by (simp add: m_def)
  from stream_next_ok [OF op(2,4) this] obtain bs s2 where nx: "stream_next s1 m = (Some bs, s2)" "delivers fl m off bs"
      "session_ok fl s2" "se_u s2 = se_u s1" "se_cfg s2 = se_cfg s1" by blast
  have "http_file_session_read w (Suc k) s n off tab st = Some (Some bs, s2, tab, st1)"
    using n sz op(1) nx(1) by (simp add: http_file_session_read_def session_read_streaming_def m_def [symmetric] Let_def)
  then show ?thesis
    using delivers_less nx n reachable_same [OF op(3)] unfolding read_well_def m_def by blast
qed

end
