(* ===== verification/HttpJson.thy ===== *)
theory HttpJson
  imports HttpUrl
begin

text \<open>
  The JSON reader and writer of \<open>src/http_source.c\<close>. A pair of pointers is the text between
  them: no function looks behind the end it is given, except at the bracket that ends an object,
  which neither continues a number nor a word.
\<close>

section \<open>Brackets\<close>

text \<open>The position of the bracket that closes the first one.\<close>

fun json_match_from :: "char \<Rightarrow> char \<Rightarrow> nat \<Rightarrow> bool \<Rightarrow> bool \<Rightarrow> nat \<Rightarrow> string \<Rightarrow> nat option" where
  "json_match_from opn cls depth in_str esc i [] = None"
| "json_match_from opn cls depth in_str esc i (c # s) =
     (if c = NUL then None
      else if esc then json_match_from opn cls depth in_str False (i + 1) s
      else if in_str then json_match_from opn cls depth (c \<noteq> CHR 0x22) (c = CHR 0x5C) (i + 1) s
      else if c = CHR 0x22 then json_match_from opn cls depth True False (i + 1) s
      else if c = opn then json_match_from opn cls (depth + 1) False False (i + 1) s
      else if c = cls then (if depth = 1 then Some i else json_match_from opn cls (depth - 1) False False (i + 1) s)
      else json_match_from opn cls depth False False (i + 1) s)"

definition json_match :: "string \<Rightarrow> nat option" where
  "json_match s =
     (case s of [] \<Rightarrow> None
      | c # t \<Rightarrow> json_match_from c (if c = CHR ''{'' then CHR ''}'' else CHR '']'') 0 False False 0 s)"

section \<open>Strings\<close>

text \<open>Four hexadecimal digits or fewer; a character that is none counts as zero.\<close>

definition hex4 :: "string \<Rightarrow> nat" where
  "hex4 s = fold (\<lambda>c v. v * 16 + (case hexval c of Some h \<Rightarrow> h | None \<Rightarrow> 0)) (take 4 s) 0"

text \<open>What an escape sequence stands for: the bytes that go ahead when there is room for
  \<open>need\<close> more, and the last one; with the text behind it.\<close>

definition json_escape_at :: "string \<Rightarrow> (nat \<times> string \<times> char) \<times> string" where
  "json_escape_at s =
     (case s of
        [] \<Rightarrow> ((0, [], CHR 0x5C), [])
      | e # t \<Rightarrow>
          if e = CHR ''n'' then ((0, [], CHR 0x0A), t)
          else if e = CHR ''t'' then ((0, [], CHR 0x09), t)
          else if e = CHR ''r'' then ((0, [], CHR 0x0D), t)
          else if e = CHR ''b'' then ((0, [], CHR 0x08), t)
          else if e = CHR ''f'' then ((0, [], CHR 0x0C), t)
          else if e = CHR ''u'' then
            (let v = hex4 t in
             (if v < 0x80 then (0, [], char_of v)
              else if v < 0x800 then (2, [char_of (0xC0 + v div 64)], char_of (0x80 + v mod 64))
              else (3, [char_of (0xE0 + v div 4096), char_of (0x80 + v div 64 mod 64)], char_of (0x80 + v mod 64)),
              drop 4 t))
          else ((0, [], e), t))"

definition json_unit :: "char \<Rightarrow> string \<Rightarrow> (nat \<times> string \<times> char) \<times> string" where
  "json_unit c t = (if c = CHR 0x5C then json_escape_at t else ((0, [], c), t))"

lemma json_unit_shorter: "json_unit c s = (x, t) \<Longrightarrow> length t \<le> length s"
  by (auto simp: json_unit_def json_escape_at_def Let_def split: list.splits if_splits)

text \<open>The rest of a string, after the opening quote; \<open>acc\<close> is what is in the buffer of size
  \<open>sz\<close>. The result is the buffer and the text behind the closing quote.\<close>

function json_string_from :: "nat \<Rightarrow> string \<Rightarrow> string \<Rightarrow> string \<times> string option" where
  "json_string_from sz acc s =
     (case s of
        [] \<Rightarrow> (acc, None)
      | c # t \<Rightarrow>
          if c = NUL then (acc, None)
          else if c = CHR 0x22 then (acc, Some t)
          else
          (case json_unit c t of
             ((need, pre, lst), rest) \<Rightarrow>
               let acc1 = (if length acc + need < sz then acc @ pre else acc)
               in json_string_from sz (if length acc1 + 1 < sz then acc1 @ [lst] else acc1) rest))"
  by pat_completeness auto
termination
  by (relation "measure (\<lambda>(sz, acc, s). length s)")
     (auto simp: less_Suc_eq_le dest: json_unit_shorter [OF sym])

declare json_string_from.simps [simp del]

definition json_parse_string :: "nat \<Rightarrow> string \<Rightarrow> string \<times> string option" where
  "json_parse_string sz s =
     (case s of
        c # t \<Rightarrow> if c = CHR 0x22 then (case json_string_from sz [] t of (v, r) \<Rightarrow> (up_to_nul v, r)) else ([], None)
      | [] \<Rightarrow> ([], None))"

section \<open>Members of an object\<close>

text \<open>The text of the value of a key: the first place where the quoted key and a colon stand.\<close>

fun json_value :: "string \<Rightarrow> string \<Rightarrow> string option" where
  "json_value key [] = None"
| "json_value key (c # s) =
     (let pat = [CHR 0x22] @ key @ [CHR 0x22] in
      if starts_with pat (c # s) then
        (let q = dropWhile c_isspace (drop (length pat) (c # s)) in
         if q = [] \<or> hd q \<noteq> CHR '':'' then json_value key s
         else (let r = dropWhile c_isspace (tl q) in if r = [] then None else Some r))
      else json_value key s)"

text \<open>What is put into the buffer, if anything, and whether the string was complete.\<close>

definition json_get_str :: "nat \<Rightarrow> string \<Rightarrow> string \<Rightarrow> (string \<times> bool) option" where
  "json_get_str sz key obj =
     (case json_value key obj of
        None \<Rightarrow> None
      | Some v \<Rightarrow> if hd v \<noteq> CHR 0x22 then None else (case json_parse_string sz v of (x, r) \<Rightarrow> Some (x, r \<noteq> None)))"

definition json_text :: "nat \<Rightarrow> string \<Rightarrow> string \<Rightarrow> string" where
  "json_text sz key obj = (case json_get_str sz key obj of None \<Rightarrow> [] | Some (x, ok) \<Rightarrow> x)"

definition json_get_u64 :: "string \<Rightarrow> string \<Rightarrow> nat option" where
  "json_get_u64 key obj =
     (case json_value key obj of
        None \<Rightarrow> None
      | Some v \<Rightarrow>
          (let u = (if hd v = CHR 0x22 then tl v else v)
           in if u \<noteq> [] \<and> c_isdigit (hd u) then Some (fst (strtoul10 u)) else None))"

definition json_get_bool :: "string \<Rightarrow> string \<Rightarrow> bool option" where
  "json_get_bool key obj =
     (case json_value key obj of
        None \<Rightarrow> None
      | Some v \<Rightarrow>
          if starts_with ''true'' v \<or> hd v = CHR ''1'' then Some True
          else if starts_with ''false'' v \<or> hd v = CHR ''0'' then Some False
          else None)"

section \<open>Writing\<close>

text \<open>\<open>\\u%04x\<close> for a character below 32.\<close>

definition lower_hex :: "nat \<Rightarrow> char" where
  "lower_hex n = ''0123456789abcdef'' ! (n mod 16)"

definition escape_char :: "char \<Rightarrow> string" where
  "escape_char c =
     (if c = CHR 0x22 \<or> c = CHR 0x5C then [CHR 0x5C, c]
      else if c = CHR 0x0A then [CHR 0x5C, CHR ''n'']
      else if c = CHR 0x0D then [CHR 0x5C, CHR ''r'']
      else if c = CHR 0x09 then [CHR 0x5C, CHR ''t'']
      else if (of_char c :: nat) < 32 then [CHR 0x5C, CHR ''u'', CHR ''0'', CHR ''0'', lower_hex (of_char c div 16), lower_hex (of_char c)]
      else [c])"

fun json_escape_from :: "nat \<Rightarrow> nat \<Rightarrow> string \<Rightarrow> string" where
  "json_escape_from sz d [] = []"
| "json_escape_from sz d (c # s) =
     (if d + 7 < sz then escape_char c @ json_escape_from sz (d + length (escape_char c)) s else [])"

definition json_escape :: "nat \<Rightarrow> string \<Rightarrow> string" where
  "json_escape sz s = json_escape_from sz 0 s"

end
