(* ===== verification/HttpScan.thy ===== *)
theory HttpScan
  imports HttpSession HttpJson
begin

text \<open>
  Finding the packages of an HTTP source: the catalogue of a gateway, \<open>index.json\<close>, or
  directory listings in JSON or HTML, as in \<open>src/http_source.c\<close>. The packages reported are
  kept in order; what the caller does with them is not part of the scan.
\<close>

section \<open>The state of a scan\<close>

record package =
  pk_url :: string
  pk_name :: string
  pk_size :: nat
  pk_mtime :: nat

record scan =
  sc_found :: "package list"
  sc_dirs :: nat
  sc_conn :: "hconn option"
  sc_json :: bool
  sc_seen :: "64 word list"
  sc_tab :: "file_state list"
  sc_st :: net_state

definition HTTP_MAX_LISTING :: nat where "HTTP_MAX_LISTING = 8 * 1024 * 1024"
definition HTTP_MAX_DEPTH :: nat where "HTTP_MAX_DEPTH = 5"
definition HTTP_MAX_DIRS :: nat where "HTTP_MAX_DIRS = 512"

definition seen_add :: "string \<Rightarrow> scan \<Rightarrow> bool \<times> scan" where
  "seen_add url s =
     (if fnv1a64 url \<in> set (sc_seen s) then (False, s) else (True, s\<lparr> sc_seen := sc_seen s @ [fnv1a64 url] \<rparr>))"

text \<open>Size and date of a package, asked for when the listing does not give them.\<close>

definition package_meta :: "servers \<Rightarrow> http_config \<Rightarrow> string \<Rightarrow> nat \<Rightarrow> nat \<Rightarrow> scan \<Rightarrow> nat \<times> nat \<times> scan" where
  "package_meta w g url sz mtime s =
     (case http_fetch w url (Some g) head_opts (sc_conn s) (sc_st s) of
        (f, _, pc1, st1) \<Rightarrow>
          if ft_status f = 200 \<and> rs_length (ft_resp f) \<ge> 0
          then (nat (rs_length (ft_resp f)), rs_modified (ft_resp f), s\<lparr> sc_conn := pc1, sc_st := st1 \<rparr>)
          else
          (case range_probe_st w pc1 url (Some g) (sc_tab s) st1 of
             (p, _, _, pc2, tab2, st2) \<Rightarrow>
               (case p of Ranges tot \<Rightarrow> tot | _ \<Rightarrow> sz, mtime, s\<lparr> sc_conn := pc2, sc_tab := tab2, sc_st := st2 \<rparr>)))"

definition pkg_name :: "string \<Rightarrow> string" where
  "pkg_name url = pct_decode 256 (c_basename url)"

definition emit_pkg ::
  "servers \<Rightarrow> http_config \<Rightarrow> bool \<Rightarrow> string \<Rightarrow> nat \<Rightarrow> nat \<Rightarrow> bool \<Rightarrow> scan \<Rightarrow> scan" where
  "emit_pkg w g want_meta url sz mtime have_meta s =
     (case seen_add url s of
        (False, s1) \<Rightarrow> s1
      | (True, s1) \<Rightarrow>
          if \<not> ends_with_ci (pkg_name url) ''.pkg'' then s1
          else
          (case (if want_meta \<and> \<not> have_meta then package_meta w g url sz mtime s1 else (sz, mtime, s1)) of
             (sz2, mtime2, s2) \<Rightarrow>
               s2\<lparr> sc_found := sc_found s2 @ [\<lparr> pk_url = url, pk_name = pkg_name url, pk_size = sz2, pk_mtime = mtime2 \<rparr>] \<rparr>))"

section \<open>Entries of JSON lists\<close>

text \<open>The members of an array: objects and, where they are wanted, strings. What is neither is
  skipped character by character; an unfinished one ends the list.\<close>

datatype json_item = Obj string | Str string

definition skip_seps :: "string \<Rightarrow> string" where
  "skip_seps s = dropWhile (\<lambda>c. c_isspace c \<or> c = CHR '','') s"

lemma skip_seps_less: "skip_seps s = c # r \<Longrightarrow> length r < length s"
  using length_dropWhile_le [of "\<lambda>c. c_isspace c \<or> c = CHR '',''" s] by (simp add: skip_seps_def)

function json_items :: "bool \<Rightarrow> string \<Rightarrow> json_item list" where
  "json_items strings s =
     (case skip_seps s of
        [] \<Rightarrow> []
      | c # t \<Rightarrow>
          if strings \<and> c = CHR 0x22 then
            (case json_parse_string HTTP_URL_MAX (c # t) of
               (x, None) \<Rightarrow> []
             | (x, Some r) \<Rightarrow> if length r \<le> length t then Str x # json_items strings r else [])
          else if c = CHR ''{'' then
            (case json_match (c # t) of None \<Rightarrow> [] | Some n \<Rightarrow> Obj (take n (c # t)) # json_items strings (drop n t))
          else json_items strings t)"
  by pat_completeness auto
termination
  by (relation "measure (\<lambda>(b, s). length s)") (auto dest!: skip_seps_less)

declare json_items.simps [simp del]

text \<open>The text between the brackets of an array.\<close>

definition json_array :: "string \<Rightarrow> string option" where
  "json_array s =
     (if s = [] \<or> hd s \<noteq> CHR ''['' then None
      else case json_match s of None \<Rightarrow> None | Some n \<Rightarrow> Some (take (n - 1) (tl s)))"

definition skip_slashes :: "string \<Rightarrow> string" where
  "skip_slashes s = dropWhile (\<lambda>c. c = CHR ''/'') s"

section \<open>\<open>index.json\<close>\<close>

text \<open>Path, size, date and whether the size is given.\<close>

definition index_entry :: "json_item \<Rightarrow> string \<times> nat \<times> nat \<times> bool" where
  "index_entry it =
     (case it of
        Str x \<Rightarrow> (x, 0, 0, False)
      | Obj t \<Rightarrow>
          let complete = (\<lambda>k. case json_get_str HTTP_URL_MAX k t of None \<Rightarrow> False | Some (x, ok) \<Rightarrow> ok);
              over = (\<lambda>k old. case json_get_str HTTP_URL_MAX k t of None \<Rightarrow> old | Some (x, ok) \<Rightarrow> x);
              p1 = over ''path'' [];
              p2 = (if complete ''path'' then p1 else over ''url'' p1);
              p3 = (if complete ''path'' \<or> complete ''url'' then p2 else over ''name'' p2)
          in (p3, case json_get_u64 ''size'' t of None \<Rightarrow> 0 | Some n \<Rightarrow> n,
              case json_get_u64 ''mtime'' t of None \<Rightarrow> 0 | Some n \<Rightarrow> n, json_get_u64 ''size'' t \<noteq> None))"

definition index_url :: "http_config \<Rightarrow> string \<Rightarrow> string option" where
  "index_url g path =
     (if is_absolute path then Some path
      else
      let enc = pct_encode_path HTTP_URL_MAX (skip_slashes path)
      in if length (hg_url g) + length enc \<ge> HTTP_URL_MAX then None else Some (hg_url g @ enc))"

definition index_item :: "servers \<Rightarrow> http_config \<Rightarrow> bool \<Rightarrow> json_item \<Rightarrow> scan \<Rightarrow> scan" where
  "index_item w g m it s =
     (case index_entry it of
        (path, sz, mtime, have) \<Rightarrow>
          if path = [] then s
          else (case index_url g path of None \<Rightarrow> s | Some url \<Rightarrow> emit_pkg w g m url sz (mtime mod 2 ^ 32) have s))"

definition scan_index_json :: "servers \<Rightarrow> http_config \<Rightarrow> bool \<Rightarrow> string \<Rightarrow> scan \<Rightarrow> scan option" where
  "scan_index_json w g m body s =
     (case json_array (case json_value ''files'' body of Some a \<Rightarrow> a | None \<Rightarrow> dropWhile c_isspace body) of
        None \<Rightarrow> None
      | Some a \<Rightarrow> Some (fold (index_item w g m) (json_items True a) s))"

section \<open>The catalogue of a gateway\<close>

definition catalog_item :: "servers \<Rightarrow> http_config \<Rightarrow> bool \<Rightarrow> json_item \<Rightarrow> scan \<Rightarrow> scan" where
  "catalog_item w g m it s =
     (case it of
        Str x \<Rightarrow> s
      | Obj t \<Rightarrow>
          let path = json_text HTTP_URL_MAX ''path'' t;
              sz = json_get_u64 ''size'' t;
              mtime = (case json_get_u64 ''mtime'' t of None \<Rightarrow> 0 | Some n \<Rightarrow> n);
              gone = (json_get_bool ''local'' t = Some False \<and> json_get_bool ''r2'' t = Some False);
              enc = pct_encode_path HTTP_URL_MAX (skip_slashes path);
              url = hg_url g @ ''files/'' @ enc
          in if path = [] \<or> length (hg_url g) + 6 + length enc \<ge> HTTP_URL_MAX then s
             else
             let tab1 = (case sz of None \<Rightarrow> sc_tab s | Some n \<Rightarrow> expected_size_set url n (sc_tab s));
                 tab2 = http_source_set_unavailable url gone tab1
             in emit_pkg w g m url (case sz of None \<Rightarrow> 0 | Some n \<Rightarrow> n) (mtime mod 2 ^ 32) (sz \<noteq> None) (s\<lparr> sc_tab := tab2 \<rparr>))"

definition scan_catalog :: "servers \<Rightarrow> http_config \<Rightarrow> bool \<Rightarrow> string \<Rightarrow> scan \<Rightarrow> scan option" where
  "scan_catalog w g m body s =
     (case Option.bind (json_value ''files'' body) json_array of
        None \<Rightarrow> None
      | Some a \<Rightarrow> Some (fold (catalog_item w g m) (json_items False a) s))"

section \<open>Directory listings\<close>

text \<open>A sub-directory is noted once, and only where there is a level left for it.\<close>

definition note_dir :: "bool \<Rightarrow> string \<Rightarrow> scan \<times> string list \<Rightarrow> scan \<times> string list" where
  "note_dir deeper url ss =
     (case ss of (s, subs) \<Rightarrow>
        if deeper then (case seen_add url s of (new, s1) \<Rightarrow> (s1, if new then subs @ [url] else subs)) else (s, subs))"

definition json_dir_item ::
  "servers \<Rightarrow> http_config \<Rightarrow> bool \<Rightarrow> bool \<Rightarrow> string \<Rightarrow> json_item \<Rightarrow> scan \<times> string list \<Rightarrow> scan \<times> string list" where
  "json_dir_item w g m deeper dir it ss =
     (case it of
        Str x \<Rightarrow> ss
      | Obj t \<Rightarrow>
          let name = json_text 512 ''name'' t;
              ty = json_text 16 ''type'' t;
              date = json_text 64 ''mtime'' t;
              sz = json_get_u64 ''size'' t;
              enc = pct_encode_path HTTP_URL_MAX name;
              url = dir @ enc @ (if ty = ''directory'' then ''/'' else [])
          in if name = [] \<or> hd name = CHR ''.'' \<or> strchr name (CHR ''/'') \<noteq> None then ss
             else if length dir + length enc + 2 \<ge> HTTP_URL_MAX then ss
             else if ty = ''directory'' then note_dir deeper url ss
             else if ty = ''file''
             then (emit_pkg w g m url (case sz of None \<Rightarrow> 0 | Some n \<Rightarrow> n) (parse_http_date date) (sz \<noteq> None) (fst ss), snd ss)
             else ss)"

text \<open>The targets of the links of an HTML page, in order, with their entities resolved.\<close>

definition href_end :: "char option \<Rightarrow> char \<Rightarrow> bool" where
  "href_end quote c \<longleftrightarrow> (case quote of Some q \<Rightarrow> c = q | None \<Rightarrow> c = CHR '' '' \<or> c = CHR ''>'')"

definition href_at :: "string \<Rightarrow> string \<times> string" where
  "href_at p =
     (let p1 = dropWhile (\<lambda>c. c = CHR '' '') p;
          quote = (if p1 \<noteq> [] \<and> (hd p1 = CHR 0x22 \<or> hd p1 = CHR 0x27) then Some (hd p1) else None);
          p2 = (if quote = None then p1 else tl p1)
      in (takeWhile (\<lambda>c. \<not> href_end quote c) p2, dropWhile (\<lambda>c. \<not> href_end quote c) p2))"

lemma strstr_length: "strstr s p = Some r \<Longrightarrow> length r \<le> length s"
  by (induction s p rule: strstr.induct) (auto split: if_splits)

lemma strcasestr_shorter: "strcasestr s p = Some r \<Longrightarrow> length r \<le> length s"
  by (auto simp: strcasestr_def split: option.splits)

lemma href_at_shorter: "href_at p = (h, e) \<Longrightarrow> length e \<le> length p"
proof -
  assume h: "href_at p = (h, e)"
  define p1 where "p1 = dropWhile (\<lambda>c. c = CHR '' '') p"
  define quote where "quote = (if p1 \<noteq> [] \<and> (hd p1 = CHR 0x22 \<or> hd p1 = CHR 0x27) then Some (hd p1) else None)"
  have "e = dropWhile (\<lambda>c. \<not> href_end quote c) (if quote = None then p1 else tl p1)"
    using h unfolding href_at_def Let_def p1_def [symmetric] quote_def [symmetric] prod.inject by (elim conjE) (rule sym)
  then have "length e \<le> length (if quote = None then p1 else tl p1)" by (simp only: length_dropWhile_le)
  also have "\<dots> \<le> length p1" by simp
  also have "\<dots> \<le> length p" unfolding p1_def by (rule length_dropWhile_le)
  finally show ?thesis .
qed

lemma strcasestr_pos: "strcasestr s p = Some r \<Longrightarrow> p \<noteq> [] \<Longrightarrow> r \<noteq> []"
proof -
  have l: "strstr a b = Some x \<Longrightarrow> b \<noteq> [] \<Longrightarrow> 0 < length x \<and> length x \<le> length a" for a b x
    by (induction a b rule: strstr.induct) (auto split: if_splits)
  assume r: "strcasestr s p = Some r" "p \<noteq> []"
  then obtain x where x: "strstr (map c_tolower s) (map c_tolower p) = Some x" "r = drop (length s - length x) s"
    by (auto simp: strcasestr_def split: option.splits)
  have le: "0 < length x \<and> length x \<le> length s" using l [OF x(1)] r(2) by simp
  then have "length r = length x" using x(2) by simp
  then show "r \<noteq> []" using le by auto
qed

function html_hrefs :: "string \<Rightarrow> string list" where
  "html_hrefs s =
     (case strcasestr s ''href'' of
        None \<Rightarrow> []
      | Some r \<Rightarrow>
          let p = dropWhile (\<lambda>c. c = CHR '' '') (drop 4 r) in
          if p = [] \<or> hd p \<noteq> CHR ''='' then html_hrefs p
          else
          (case href_at (tl p) of
             (h, e) \<Rightarrow> if h = [] \<or> length h \<ge> HTTP_URL_MAX then html_hrefs e else html_unescape h # html_hrefs e))"
  by pat_completeness auto
termination
proof (relation "measure length", goal_cases)
  have a: "length (dropWhile (\<lambda>c. c = CHR '' '') (drop 4 r)) < length s" if "strcasestr s ''href'' = Some r" for s r
  proof -
    have "r \<noteq> []" "length r \<le> length s" using strcasestr_pos [OF that] strcasestr_shorter [OF that] by simp_all
    then have "length (drop 4 r) < length s" by (cases r) auto
    then show ?thesis using length_dropWhile_le [of "\<lambda>c. c = CHR '' ''" "drop 4 r"] by linarith
  qed
  {
    case (2 s r p)
    then show ?case using a [of s r] by simp
  next
    case (3 s r p h e)
    then show ?case using a [of s r] href_at_shorter [of "tl p" h e] by (cases p) auto
  next
    case (4 s r p h e)
    then show ?case using a [of s r] href_at_shorter [of "tl p" h e] by (cases p) auto
  }
qed simp

declare html_hrefs.simps [simp del]

definition href_ignored :: "string \<Rightarrow> bool" where
  "href_ignored h \<longleftrightarrow>
     h = [] \<or> hd h = CHR ''?'' \<or> hd h = CHR ''#'' \<or> strncasecmp_eq h ''mailto:'' 7 \<or> strncasecmp_eq h ''javascript:'' 11 \<or>
     starts_with ''../'' h \<or> h = ''..'' \<or> h = ''./''"

text \<open>The address a link of a listing stands for, if it lies below the listed directory.\<close>

definition inside :: "string \<Rightarrow> string \<Rightarrow> bool" where
  "inside dir url \<longleftrightarrow> strncasecmp_eq url dir (length dir) \<and> length url \<noteq> length dir"

definition href_url :: "string \<Rightarrow> string \<Rightarrow> string option" where
  "href_url dir h =
     (if href_ignored h then None
      else
      case url_resolve dir (takeWhile (\<lambda>c. c \<noteq> CHR ''?'') h) HTTP_URL_MAX of
        None \<Rightarrow> None
      | Some url \<Rightarrow> if inside dir url then Some url else None)"

definition html_dir_item ::
  "servers \<Rightarrow> http_config \<Rightarrow> bool \<Rightarrow> bool \<Rightarrow> string \<Rightarrow> string \<Rightarrow> scan \<times> string list \<Rightarrow> scan \<times> string list" where
  "html_dir_item w g m deeper dir h ss =
     (case href_url dir h of
        None \<Rightarrow> ss
      | Some url \<Rightarrow>
          if last url = CHR ''/'' then note_dir deeper url ss
          else (emit_pkg w g m url 0 0 False (fst ss), snd ss))"

text \<open>What a listing holds: a failure, or the state and the sub-directories to be read.\<close>

definition list_dir ::
  "servers \<Rightarrow> http_config \<Rightarrow> bool \<Rightarrow> bool \<Rightarrow> bool \<Rightarrow> string \<Rightarrow> string \<Rightarrow> scan \<Rightarrow> bool \<times> scan \<times> string list" where
  "list_dir w g m root deeper dir body s =
     (let first = dropWhile c_isspace (up_to_nul body) in
      if first \<noteq> [] \<and> hd first = CHR ''['' then
        (let s1 = (if root then s\<lparr> sc_json := True \<rparr> else s) in
         case json_array (dropWhile c_isspace body) of
           None \<Rightarrow> (False, s1, [])
         | Some a \<Rightarrow> (True, fold (json_dir_item w g m deeper dir) (json_items False a) (s1, [])))
      else (True, fold (html_dir_item w g m deeper dir) (html_hrefs (up_to_nul body)) (s, [])))"

text \<open>A directory and those below it; \<open>k\<close> levels are left, \<open>HTTP_MAX_DEPTH + 1\<close> at the top.\<close>

fun scan_html_dir :: "servers \<Rightarrow> http_config \<Rightarrow> bool \<Rightarrow> nat \<Rightarrow> string \<Rightarrow> scan \<Rightarrow> bool \<times> scan" where
  "scan_html_dir w g m 0 dir s = (True, s)"
| "scan_html_dir w g m (Suc k) dir s =
     (if sc_dirs s \<ge> HTTP_MAX_DIRS then (True, s)
      else
      let root = (k = HTTP_MAX_DEPTH) in
      case http_fetch w dir (Some g) (body_opts HTTP_MAX_LISTING) (sc_conn s) (sc_st s) of
        (f, _, pc1, st1) \<Rightarrow>
          let s1 = s\<lparr> sc_dirs := sc_dirs s + 1, sc_conn := pc1, sc_st := st1 \<rparr> in
          if ft_status f \<noteq> 200 \<or> ft_body f = None then (\<not> root, s1)
          else
          (case list_dir w g m root (0 < k) dir (map char_of_byte (the (ft_body f))) s1 of
             (ok, s2, subs) \<Rightarrow>
               if \<not> ok then (\<not> root, s2) else (True, fold (\<lambda>d s. snd (scan_html_dir w g m k d s)) subs s2)))"

section \<open>A whole scan\<close>

datatype listing_kind = By_catalog | By_index | By_json | By_html

definition fetch_listing :: "servers \<Rightarrow> http_config \<Rightarrow> string \<Rightarrow> scan \<Rightarrow> int \<times> string option \<times> scan" where
  "fetch_listing w g path s =
     (case http_fetch w (cstr_trunc HTTP_URL_MAX (hg_url g @ path)) (Some g) (body_opts HTTP_MAX_LISTING) (sc_conn s) (sc_st s) of
        (f, _, pc1, st1) \<Rightarrow>
          (ft_status f, if ft_status f = 200 then map_option (map char_of_byte) (ft_body f) else None,
           s\<lparr> sc_conn := pc1, sc_st := st1 \<rparr>))"

definition scan_dirs :: "servers \<Rightarrow> http_config \<Rightarrow> bool \<Rightarrow> scan \<Rightarrow> listing_kind option \<times> scan" where
  "scan_dirs w g m s =
     (case seen_add (hg_url g) s of
        (new, s1) \<Rightarrow>
          (case (if new then scan_html_dir w g m (HTTP_MAX_DEPTH + 1) (hg_url g) s1 else (True, s1)) of
             (ok, s2) \<Rightarrow> (if \<not> ok then None else Some (if sc_json s2 then By_json else By_html), s2)))"

definition scan_run :: "servers \<Rightarrow> http_config \<Rightarrow> bool \<Rightarrow> scan \<Rightarrow> listing_kind option \<times> scan" where
  "scan_run w g m s =
     (case fetch_listing w g ''api/catalog'' s of
        (st, body, s1) \<Rightarrow>
          if st < 0 \<or> st = 401 then (None, s1)
          else
          case Option.bind body (\<lambda>b. scan_catalog w g m b s1) of
            Some s2 \<Rightarrow> (Some By_catalog, s2)
          | None \<Rightarrow>
              (case fetch_listing w g ''index.json'' s1 of
                 (st2, body2, s2) \<Rightarrow>
                   if st2 < 0 then (None, s2)
                   else
                   case Option.bind body2 (\<lambda>b. scan_index_json w g m b s2) of
                     Some s3 \<Rightarrow> (Some By_index, s3)
                   | None \<Rightarrow> if st2 = 401 \<or> st2 = 403 then (None, s2) else scan_dirs w g m s2))"

definition scan_init :: "file_state list \<Rightarrow> net_state \<Rightarrow> scan" where
  "scan_init tab st =
     \<lparr> sc_found = [], sc_dirs = 0, sc_conn = None, sc_json = False, sc_seen = [], sc_tab = tab, sc_st = st \<rparr>"

text \<open>The packages of a source, or \<open>None\<close> when it cannot be read.\<close>

definition http_source_scan ::
  "servers \<Rightarrow> http_config \<Rightarrow> file_state list \<Rightarrow> net_state \<Rightarrow> package list option \<times> file_state list \<times> net_state" where
  "http_source_scan w g tab st =
     (if \<not> hg_enabled g then (Some [], tab, st)
      else
      case scan_run w g True (scan_init tab st) of
        (r, s) \<Rightarrow> (case r of None \<Rightarrow> None | Some l \<Rightarrow> Some (sc_found s), sc_tab s, sc_st s))"

definition http_source_count_pkg_files ::
  "servers \<Rightarrow> http_config \<Rightarrow> file_state list \<Rightarrow> net_state \<Rightarrow> int \<times> file_state list \<times> net_state" where
  "http_source_count_pkg_files w g tab st =
     (if \<not> hg_enabled g then (0, tab, st)
      else
      case scan_run w g False (scan_init tab st) of
        (r, s) \<Rightarrow> (case r of None \<Rightarrow> - 1 | Some l \<Rightarrow> int (length (sc_found s)), sc_tab s, sc_st s))"

end
