(* ===== verification/HttpScanProps.thy ===== *)
theory HttpScanProps
  imports HttpScan HttpAlike
begin

text \<open>
  What a scan reports: packages by their names, each once, none outside the address of the
  source but for absolute addresses in \<open>index.json\<close>, from a bounded number of directories, and
  without showing the credentials to anyone else.
\<close>

definition below :: "string \<Rightarrow> string \<Rightarrow> bool" where
  "below base url \<longleftrightarrow> strncasecmp_eq url base (length base)"

lemma below_refl: "below b b"
  by (simp add: below_def strncasecmp_eq_def)

lemma below_length: "below b u \<Longrightarrow> length b \<le> length u"
proof -
  assume "below b u"
  then have "length (map c_tolower (take (length b) u)) = length (map c_tolower (take (length b) b))"
    by (simp only: below_def strncasecmp_eq_def)
  then show ?thesis by simp
qed

lemma below_append: "below b u \<Longrightarrow> below b (u @ x)"
  using below_length [of b u] by (simp add: below_def strncasecmp_eq_def)

lemma below_trans: "below b d \<Longrightarrow> below d u \<Longrightarrow> below b u"
proof -
  assume b: "below b d" and d: "below d u"
  have "map c_tolower (take (length b) u) = take (length b) (map c_tolower (take (length d) u))"
    using below_length [OF b] by (simp add: take_map min_absorb1)
  also have "\<dots> = take (length b) (map c_tolower d)" using d by (simp add: below_def strncasecmp_eq_def)
  also have "\<dots> = map c_tolower (take (length b) b)" using b by (simp add: below_def strncasecmp_eq_def take_map)
  finally show "below b u" by (simp add: below_def strncasecmp_eq_def)
qed

lemma inside_below: "inside dir u \<Longrightarrow> below dir u"
  by (simp add: inside_def below_def)

section \<open>An invariant of scans\<close>

text \<open>\<open>P\<close> holds of every address that was reported; \<open>st0\<close> is where the scan began.\<close>

definition scan_good :: "(string \<Rightarrow> bool) \<Rightarrow> http_config \<Rightarrow> net_state \<Rightarrow> scan \<Rightarrow> bool" where
  "scan_good P g st0 s \<longleftrightarrow>
     distinct (map (\<lambda>p. fnv1a64 (pk_url p)) (sc_found s)) \<and>
     (\<forall>p\<in>set (sc_found s). fnv1a64 (pk_url p) \<in> set (sc_seen s) \<and> P (pk_url p) \<and> pk_name p = pkg_name (pk_url p) \<and>
        ends_with_ci (pk_name p) ''.pkg'') \<and>
     sc_dirs s \<le> HTTP_MAX_DIRS \<and> (\<exists>k. discreet (Some g) k st0 (sc_st s))"

lemma scan_good_net:
  "scan_good P g st0 s \<Longrightarrow> discreet (Some g) k (sc_st s) st1 \<Longrightarrow> scan_good P g st0 (s\<lparr> sc_conn := pc, sc_st := st1 \<rparr>)"
proof -
  assume s: "scan_good P g st0 s" and d: "discreet (Some g) k (sc_st s) st1"
  then obtain j where "discreet (Some g) j st0 (sc_st s)" by (auto simp: scan_good_def)
  from discreet_trans [OF this d] show ?thesis using s by (auto simp: scan_good_def)
qed

lemma scan_good_tab: "scan_good P g st0 (s\<lparr> sc_tab := t \<rparr>) = scan_good P g st0 s"
  by (simp add: scan_good_def)

lemma scan_good_mono: "scan_good P g st0 s \<Longrightarrow> (\<And>u. P u \<Longrightarrow> Q u) \<Longrightarrow> scan_good Q g st0 s"
  by (auto simp: scan_good_def)

lemma seen_add_cases:
  assumes "seen_add url s = (new, s1)"
  shows "new \<longleftrightarrow> fnv1a64 url \<notin> set (sc_seen s)" "sc_found s1 = sc_found s" "sc_dirs s1 = sc_dirs s" "sc_st s1 = sc_st s"
    "set (sc_seen s1) = insert (fnv1a64 url) (set (sc_seen s))"
  using assms by (auto simp: seen_add_def split: if_splits)

lemma seen_add_good: "seen_add url s = (new, s1) \<Longrightarrow> scan_good P g st0 s \<Longrightarrow> scan_good P g st0 s1"
  using seen_add_cases [of url s new s1] by (auto simp: scan_good_def)

lemma probe_discreet: "range_probe_st w pc url cfg tab st = (p, x, fin, pc', tab', st') \<Longrightarrow> discreet cfg 12 st st'"
proof -
  assume a: "range_probe_st w pc url cfg tab st = (p, x, fin, pc', tab', st')"
  obtain f u c1 st1 where f: "http_fetch w url cfg (range_opts 0 1) pc st = (f, u, c1, st1)" by (metis prod_cases4)
  have "st' = st1" using a f by (simp add: range_probe_st_def)
  then show "discreet cfg 12 st st'" using http_fetch_discreet [OF f] by simp
qed

lemma package_meta_keeps:
  assumes "package_meta w g url sz mtime s = (a, b, s1)"
  shows "sc_found s1 = sc_found s" "sc_dirs s1 = sc_dirs s" "sc_seen s1 = sc_seen s" "\<exists>k. discreet (Some g) k (sc_st s) (sc_st s1)"
proof -
  obtain f u pc1 st1 where f: "http_fetch w url (Some g) head_opts (sc_conn s) (sc_st s) = (f, u, pc1, st1)" by (metis prod_cases4)
  obtain p x y pc2 tab2 st2 where p: "range_probe_st w pc1 url (Some g) (sc_tab s) st1 = (p, x, y, pc2, tab2, st2)"
    by (metis prod_cases6)
  note d = http_fetch_discreet [OF f] discreet_trans [OF http_fetch_discreet [OF f] probe_discreet [OF p]]
  show "sc_found s1 = sc_found s" "sc_dirs s1 = sc_dirs s" "sc_seen s1 = sc_seen s" "\<exists>k. discreet (Some g) k (sc_st s) (sc_st s1)"
    using assms f p d by (auto simp: package_meta_def split: if_splits)
qed

lemma emit_good:
  assumes "scan_good P g st0 s" "P url"
  shows "scan_good P g st0 (emit_pkg w g m url sz mtime have s)"
proof -
  obtain new s1 where a: "seen_add url s = (new, s1)" by fastforce
  have g1: "scan_good P g st0 s1" by (rule seen_add_good [OF a assms(1)])
  show ?thesis
  proof (cases "new \<and> ends_with_ci (pkg_name url) ''.pkg''")
    case False
    then show ?thesis using a g1 by (auto simp: emit_pkg_def split: bool.splits)
  next
    case True
    obtain sz2 mt2 s2 where m: "(if m \<and> \<not> have then package_meta w g url sz mtime s1 else (sz, mtime, s1)) = (sz2, mt2, s2)"
      by (metis prod_cases3)
    have k: "sc_found s2 = sc_found s1" "sc_dirs s2 = sc_dirs s1" "sc_seen s2 = sc_seen s1" "\<exists>k. discreet (Some g) k (sc_st s1) (sc_st s2)"
      using m package_meta_keeps [of w g url sz mtime s1] discreet_refl [of "Some g" 0 "sc_st s1"] by (auto split: if_splits)
    obtain j where "discreet (Some g) j st0 (sc_st s1)" using g1 by (auto simp: scan_good_def)
    then have d: "\<exists>k. discreet (Some g) k st0 (sc_st s2)" using k(4) discreet_trans by blast
    have fresh: "fnv1a64 url \<notin> (\<lambda>p. fnv1a64 (pk_url p)) ` set (sc_found s1)"
      using assms(1) seen_add_cases [OF a] True by (auto simp: scan_good_def)
    have "emit_pkg w g m url sz mtime have s =
        s2\<lparr> sc_found := sc_found s2 @ [\<lparr> pk_url = url, pk_name = pkg_name url, pk_size = sz2, pk_mtime = mt2 \<rparr>] \<rparr>"
      using a True m by (simp add: emit_pkg_def)
    then show ?thesis
      using g1 k(1-3) d fresh True assms(2) seen_add_cases(5) [OF a] by (auto simp: scan_good_def)
  qed
qed

lemma fold_keeps: "P s \<Longrightarrow> (\<And>x s. x \<in> set xs \<Longrightarrow> P s \<Longrightarrow> P (f x s)) \<Longrightarrow> P (fold f xs s)"
  by (induction xs arbitrary: s) simp_all

section \<open>Lists\<close>

lemma index_good:
  assumes "scan_good (\<lambda>u. below (hg_url g) u \<or> is_absolute u) g st0 s" "scan_index_json w g m body s = Some s'"
  shows "scan_good (\<lambda>u. below (hg_url g) u \<or> is_absolute u) g st0 s'"
proof -
  have "scan_good (\<lambda>u. below (hg_url g) u \<or> is_absolute u) g st0 (index_item w g m it s)"
    if "scan_good (\<lambda>u. below (hg_url g) u \<or> is_absolute u) g st0 s" for it s
  proof -
    have "below (hg_url g) u \<or> is_absolute u" if "index_url g p = Some u" for p u
      using that below_append [OF below_refl, of "hg_url g"] by (auto simp: index_url_def Let_def split: if_splits)
    then show ?thesis using that emit_good by (auto simp: index_item_def split: prod.splits option.splits)
  qed
  then have "scan_good (\<lambda>u. below (hg_url g) u \<or> is_absolute u) g st0 (fold (index_item w g m) its s)" for its
    by (intro fold_keeps [where P="scan_good (\<lambda>u. below (hg_url g) u \<or> is_absolute u) g st0", OF assms(1)])
  then show ?thesis using assms(2) by (auto simp: scan_index_json_def split: option.splits)
qed

lemma catalog_good:
  assumes "scan_good (below (hg_url g)) g st0 s" "scan_catalog w g m body s = Some s'"
  shows "scan_good (below (hg_url g)) g st0 s'"
proof -
  have "scan_good (below (hg_url g)) g st0 (catalog_item w g m it s)"
    if "scan_good (below (hg_url g)) g st0 s" for it s
    using that emit_good [of "below (hg_url g)"] below_append [OF below_refl, of "hg_url g"]
    by (auto simp: catalog_item_def Let_def scan_good_tab split: json_item.splits)
  then have "scan_good (below (hg_url g)) g st0 (fold (catalog_item w g m) its s)" for its
    by (intro fold_keeps [where P="scan_good (below (hg_url g)) g st0", OF assms(1)])
  then show ?thesis using assms(2) by (auto simp: scan_catalog_def bind_eq_Some_conv split: option.splits)
qed

section \<open>Directories\<close>

text \<open>A scan and directories still to be read.\<close>

definition dirs_good :: "http_config \<Rightarrow> net_state \<Rightarrow> scan \<times> string list \<Rightarrow> bool" where
  "dirs_good g st0 ss \<longleftrightarrow> scan_good (below (hg_url g)) g st0 (fst ss) \<and> list_all (below (hg_url g)) (snd ss)"

lemma note_good: "dirs_good g st0 ss \<Longrightarrow> below (hg_url g) url \<Longrightarrow> dirs_good g st0 (note_dir deeper url ss)"
  using seen_add_good by (fastforce simp: note_dir_def dirs_good_def split: prod.splits)

lemma json_item_good:
  assumes "dirs_good g st0 ss" "below (hg_url g) dir"
  shows "dirs_good g st0 (json_dir_item w g m deeper dir it ss)"
proof -
  have b: "below (hg_url g) (dir @ x)" for x by (rule below_append [OF assms(2)])
  have e: "dirs_good g st0 (emit_pkg w g m (dir @ x) sz mt hv (fst ss), snd ss)" for x sz mt hv
    using assms(1) emit_good [where P="below (hg_url g)", OF _ b] by (simp add: dirs_good_def)
  show ?thesis
    using assms(1) note_good [OF assms(1) b] e by (auto simp: json_dir_item_def Let_def split: json_item.splits)
qed

lemma html_item_good:
  assumes "dirs_good g st0 ss" "below (hg_url g) dir"
  shows "dirs_good g st0 (html_dir_item w g m deeper dir h ss)"
proof (cases "href_url dir h")
  case None
  then show ?thesis using assms by (simp add: html_dir_item_def)
next
  case (Some u)
  then have "below dir u" by (auto simp: href_url_def intro: inside_below split: if_splits option.splits)
  then have b: "below (hg_url g) u" using below_trans assms(2) by blast
  have "dirs_good g st0 (emit_pkg w g m u 0 0 False (fst ss), snd ss)"
    using assms(1) emit_good [where P="below (hg_url g)", OF _ b] by (simp add: dirs_good_def)
  then show ?thesis using Some note_good [OF assms(1) b] by (simp add: html_dir_item_def)
qed

lemma list_dir_good:
  assumes "list_dir w g m root deeper dir body s = (ok, s1, subs)" "scan_good (below (hg_url g)) g st0 s" "below (hg_url g) dir"
  shows "dirs_good g st0 (s1, subs)"
proof -
  have start: "dirs_good g st0 (s, [])" "dirs_good g st0 (if root then s\<lparr> sc_json := True \<rparr> else s, [])"
    using assms(2) by (auto simp: dirs_good_def scan_good_def)
  have j: "dirs_good g st0 (fold (json_dir_item w g m deeper dir) its ss)" if "dirs_good g st0 ss" for its ss
    using that json_item_good [OF _ assms(3)] by (rule fold_keeps [where P="dirs_good g st0"])
  have h: "dirs_good g st0 (fold (html_dir_item w g m deeper dir) hs ss)" if "dirs_good g st0 ss" for hs ss
    using that html_item_good [OF _ assms(3)] by (rule fold_keeps [where P="dirs_good g st0"])
  have "((if root then s\<lparr> sc_json := True \<rparr> else s, []) = (s1, subs)) \<or>
      (\<exists>its. fold (json_dir_item w g m deeper dir) its (if root then s\<lparr> sc_json := True \<rparr> else s, []) = (s1, subs)) \<or>
      (\<exists>hs. fold (html_dir_item w g m deeper dir) hs (s, []) = (s1, subs))"
    using assms(1) unfolding list_dir_def Let_def by (auto split: if_splits option.splits)
  then show ?thesis
  proof (elim disjE exE)
    assume "(if root then s\<lparr> sc_json := True \<rparr> else s, []) = (s1, subs)"
    then show ?thesis using start(2) by simp
  next
    fix its
    assume "fold (json_dir_item w g m deeper dir) its (if root then s\<lparr> sc_json := True \<rparr> else s, []) = (s1, subs)"
    then show ?thesis using j [OF start(2), of its] by simp
  next
    fix hs
    assume "fold (html_dir_item w g m deeper dir) hs (s, []) = (s1, subs)"
    then show ?thesis using h [OF start(1), of hs] by simp
  qed
qed

lemma scan_html_dir_good:
  "scan_good (below (hg_url g)) g st0 s \<Longrightarrow> below (hg_url g) dir \<Longrightarrow> scan_good (below (hg_url g)) g st0 (snd (scan_html_dir w g m k dir s))"
proof (induction k arbitrary: dir s)
  case (Suc k)
  show ?case
  proof (cases "sc_dirs s \<ge> HTTP_MAX_DIRS")
    case True
    then show ?thesis using Suc.prems by simp
  next
    case False
    obtain f u pc1 st1 where f: "http_fetch w dir (Some g) (body_opts HTTP_MAX_LISTING) (sc_conn s) (sc_st s) = (f, u, pc1, st1)"
      by (metis prod_cases4)
    define s1 where "s1 = s\<lparr> sc_dirs := Suc (sc_dirs s), sc_conn := pc1, sc_st := st1 \<rparr>"
    have "scan_good (below (hg_url g)) g st0 (s\<lparr> sc_conn := pc1, sc_st := st1 \<rparr>)"
      using scan_good_net [OF Suc.prems(1) http_fetch_discreet [OF f]] .
    then have g1: "scan_good (below (hg_url g)) g st0 s1" using False by (auto simp: scan_good_def s1_def)
    obtain ok s2 subs where l: "list_dir w g m (k = HTTP_MAX_DEPTH) (0 < k) dir (map char_of_byte (the (ft_body f))) s1 = (ok, s2, subs)"
      by (metis prod_cases3)
    have g2: "scan_good (below (hg_url g)) g st0 s2" "list_all (below (hg_url g)) subs"
      using list_dir_good [OF l g1 Suc.prems(2)] by (simp_all add: dirs_good_def)
    have "scan_good (below (hg_url g)) g st0 (fold (\<lambda>d s. snd (scan_html_dir w g m k d s)) subs s2)"
      using g2 Suc.IH by (intro fold_keeps [where P="scan_good (below (hg_url g)) g st0"]) (auto simp: list_all_iff)
    then show ?thesis using False f g1 g2 l by (auto simp: Let_def s1_def [symmetric])
  qed
qed simp

section \<open>A whole scan\<close>

lemma fetch_listing_good:
  "fetch_listing w g path s = (st, body, s1) \<Longrightarrow> scan_good P g st0 s \<Longrightarrow> scan_good P g st0 s1"
proof -
  assume a: "fetch_listing w g path s = (st, body, s1)" "scan_good P g st0 s"
  obtain f u pc1 st1 where f: "http_fetch w (cstr_trunc HTTP_URL_MAX (hg_url g @ path)) (Some g) (body_opts HTTP_MAX_LISTING)
      (sc_conn s) (sc_st s) = (f, u, pc1, st1)" by (metis prod_cases4)
  show "scan_good P g st0 s1" using a f scan_good_net [OF a(2) http_fetch_discreet [OF f]] by (auto simp: fetch_listing_def)
qed

lemma scan_dirs_good:
  assumes "scan_dirs w g m s = (r, s')" "scan_good (below (hg_url g)) g st0 s"
  shows "scan_good (below (hg_url g)) g st0 s'"
proof -
  obtain new s1 where a: "seen_add (hg_url g) s = (new, s1)" by fastforce
  have g1: "scan_good (below (hg_url g)) g st0 s1" by (rule seen_add_good [OF a assms(2)])
  then have "scan_good (below (hg_url g)) g st0 (snd (if new then scan_html_dir w g m (HTTP_MAX_DEPTH + 1) (hg_url g) s1 else (True, s1)))"
    using scan_html_dir_good [OF g1 below_refl, of w m "HTTP_MAX_DEPTH + 1"] by (cases new) (simp_all del: scan_html_dir.simps)
  then show ?thesis using assms(1) a by (auto simp del: scan_html_dir.simps simp: scan_dirs_def split: prod.splits)
qed

lemma scan_run_good:
  assumes "scan_run w g m s = (r, s')" "sc_found s = []" "sc_dirs s = 0"
  shows "scan_good (\<lambda>u. below (hg_url g) u \<or> r = Some By_index \<and> is_absolute u) g (sc_st s) s'"
proof -
  let ?B = "below (hg_url g)" and ?I = "\<lambda>u. below (hg_url g) u \<or> is_absolute u"
  have g0: "scan_good ?B g (sc_st s) s" using assms(2,3) discreet_refl by (auto simp: scan_good_def)
  obtain st body s1 where a: "fetch_listing w g ''api/catalog'' s = (st, body, s1)" by (metis prod_cases3)
  have g1: "scan_good ?B g (sc_st s) s1" by (rule fetch_listing_good [OF a g0])
  obtain st2 body2 s2 where b: "fetch_listing w g ''index.json'' s1 = (st2, body2, s2)" by (metis prod_cases3)
  have g2: "scan_good ?B g (sc_st s) s2" by (rule fetch_listing_good [OF b g1])
  obtain r3 s3 where d: "scan_dirs w g m s2 = (r3, s3)" by fastforce
  have g3: "scan_good ?B g (sc_st s) s3" by (rule scan_dirs_good [OF d g2])
  have cat: "scan_good ?B g (sc_st s) x" if "Option.bind body (\<lambda>b. scan_catalog w g m b s1) = Some x" for x
    using that catalog_good [OF g1] by (auto simp: bind_eq_Some_conv)
  have ind: "scan_good ?I g (sc_st s) x" if "Option.bind body2 (\<lambda>b. scan_index_json w g m b s2) = Some x" for x
    using that index_good [OF scan_good_mono [OF g2]] by (auto simp: bind_eq_Some_conv)
  have "scan_good ?B g (sc_st s) s' \<or> r = Some By_index \<and> scan_good ?I g (sc_st s) s'"
    using assms(1) a b d g1 g2 g3 cat ind by (auto simp: scan_run_def split: if_splits option.splits)
  then show ?thesis using scan_good_mono [of ?B g "sc_st s" s'] by (elim disjE conjE) auto
qed

section \<open>Two weak spots\<close>

text \<open>A source whose address names the usual port has an HTML listing without packages: the links
  are resolved against the address without the port, which is not below the source.\<close>

lemma named_port_parse:
  "http_url_parse ''http://nas:80/'' = Some \<lparr> hu_https = False, hu_host = ''nas'', hu_port = 80, hu_path = ''/'' \<rparr>"
  by (simp add: http_url_parse_def url_scheme_def strncasecmp_eq_def c_tolower_def url_stop_def after_userinfo_def
      split_host_def strchr_def url_port_def c_isdigit_def digit_val_def url_path_def HTTP_URL_MAX_def)

lemma named_port_resolve: "url_resolve ''http://nas:80/'' ''a.pkg'' HTTP_URL_MAX = Some ''http://nas/a.pkg''"
proof -
  have "\<not> is_absolute ''a.pkg''" by (simp add: is_absolute_def strncasecmp_eq_def c_tolower_def)
  moreover have "skip_dot_slash ''a.pkg'' = ''a.pkg''" by (simp add: skip_dot_slash.simps)
  moreover have "url_dir ''/'' = ''/''" by (simp add: url_dir_def c_basename_def)
  moreover have "url_origin \<lparr> hu_https = False, hu_host = ''nas'', hu_port = 80, hu_path = ''/'' \<rparr> = ''http://nas''"
    by (simp add: url_origin_def host_port_def bracketed_def)
  moreover have "cstr_trunc (HTTP_URL_MAX * 2) ''http://nas/a.pkg'' = ''http://nas/a.pkg''"
    by (rule cstr_trunc_id) (simp add: HTTP_URL_MAX_def)
  ultimately show ?thesis by (simp add: url_resolve_def named_port_parse HTTP_URL_MAX_def)
qed

lemma named_port_rejected: "href_url ''http://nas:80/'' ''a.pkg'' = None"
proof -
  have "\<not> href_ignored ''a.pkg''" by (simp add: href_ignored_def strncasecmp_eq_def c_tolower_def)
  moreover have "\<not> inside ''http://nas:80/'' ''http://nas/a.pkg''" by (simp add: inside_def strncasecmp_eq_def c_tolower_def)
  ultimately show ?thesis by (simp add: href_url_def named_port_resolve)
qed

text \<open>A chunked body is taken for complete when the connection is cut after the CR that follows a
  chunk: the line buffer still holds the empty line read before.\<close>

lemma cut_after_cr_complete:
  "\<exists>c'. read_chunks mx (0 # lb) acc \<lparr> hc_buf = [13], hc_net = [], hc_alive = True, hc_ep = u, hc_room = n \<rparr> = (Complete, acc, c')"
proof -
  let ?c = "\<lparr> hc_buf = [13], hc_net = [], hc_alive = True, hc_ep = u, hc_room = n \<rparr>"
  have "read_line 128 [] False ?c = (Some ([], False), ?c\<lparr> hc_buf := [] \<rparr>)"
    by (simp add: read_line.simps [of 128 "[]"] conn_getc_def conn_read_raw_def)
  then have l: "conn_read_line 128 (0 # lb) ?c = (Some 0, 0 # lb, ?c\<lparr> hc_buf := [] \<rparr>)"
    by (simp add: conn_read_line_def overlay_def)
  have "strtoull16 (cstr_of_bytes (0 # lb)) = 0" by (simp add: cstr_of_bytes_def strtoull16_def strncasecmp_eq_def ULONG_MAX_def)
  then show ?thesis using l by (simp add: read_chunks.simps [of mx "0 # lb" acc ?c])
qed

end
