(* ===== verification/HttpClaims.thy ===== *)
theory HttpClaims
  imports HttpSessionProps HttpScanProps
begin

text \<open>
  The properties of the HTTP client: reading a package through a session, the end of a read,
  who gets to see the credentials, and what a scan may report.
\<close>

section \<open>Opening a session and reading\<close>

lemma open_honest:
  assumes "serves w ex fl" "fl \<noteq> []" "length url < HTTP_URL_MAX" "http_url_parse url = Some u"
    "\<And>k. sv_open w k u" "\<And>st. hu_https u \<Longrightarrow> tls_handshake w (http_sources_find_for_url gs url) u st"
    "http_source_expected_size url (http_source_set_unavailable url False tab) \<in> {0, length fl}"
  shows "\<exists>s tab' st'. http_file_session_open w gs url tab st = (Some s, tab', st') \<and> session_ok fl s \<and> session_reachable w s"
proof -
  define cfg where "cfg = http_sources_find_for_url gs url"
  define s0 where "s0 = \<lparr> se_origin = url, se_url = [], se_u = u, se_redirected = False, se_generation = 0, se_resilient = False,
    se_cfg = cfg, se_size = length fl, se_idle = [], se_stream = None, se_pos = 0, se_end = 0 \<rparr>"
  have re: "session_reachable w s" if "se_u s = u" "se_cfg s = cfg" for s
    using that assms(5,6) parse_fits [OF assms(4)] by (simp add: session_reachable_def cfg_def)
  have len: "0 < length fl" using assms(2) by simp
  have url: "cstr_trunc HTTP_URL_MAX url = url" using assms(3) by (rule cstr_trunc_id)
  have lt: "length fl < 2 ^ 63" "0 < sv_room w" using assms(1) by (simp_all add: serves_def)
  obtain c st1 where c: "conn_open w cfg u st = (Some c, st1)" "wf_conn c" "conn_pending c = []"
    using conn_open_reachable [OF re lt(2), of s0 st] by (auto simp: s0_def)
  have wr: "wire_range (range_opts 0 1) = Some (0, 0 + 1 - 1)" by (simp add: wire_range_def range_opts_def)
  define r where "r = range_answer 0 (min 1 (length fl - 0)) (length fl)"
  obtain c1 st2 where e: "exchange w cfg u False (Some (0, 0 + 1 - 1)) c st1 = (Some (r, c1), st2)"
      "same (c\<lparr> hc_buf := take 1 (drop 0 fl), hc_net := [] \<rparr>) c1"
    using exchange_honest [OF assms(1) c(2,3) len _ _ parse_fits [OF assms(4)], of 1 cfg st1] unfolding r_def by auto
  obtain f c2 where fin: "finish_fetch (sv_junk w) (range_opts 0 1) (r, c1) = (f, c2)" by fastforce
  have f: "ft_status f = 206" "pred_option at_rest c2"
    using finish_at_rest [OF fin [unfolded r_def] e(2)] by simp_all
  have fr: "ft_resp f = r" using fin f(1) by (auto simp: finish_fetch_def fetch_failed_def split: prod.splits if_splits)
  have "fetch_on w None u cfg (range_opts 0 1) st = (f, c2, st2)"
    using c(1) e(1) fin wr by (simp add: fetch_on_def fetch_fresh_def range_opts_def)
  moreover have "\<not> is_redirect r" by (simp add: is_redirect_def r_def range_answer_def resp_zero_def)
  ultimately have "fetch_hops w (Suc 5) url cfg (range_opts 0 1) None st = (f, url, c2, st2)"
    using assms(4) f(1) fr unfolding fetch_hops.simps(2) by simp
  then have "http_fetch w url cfg (range_opts 0 1) None st = (f, url, c2, st2)"
    by (simp add: http_fetch_def HTTP_MAX_REDIRECTS_def url)
  then have p: "range_probe_st w None url cfg tab st =
      (Ranges (length fl), 206, url, c2, http_source_set_unavailable url False tab, st2)"
    using f(1) fr len by (simp add: range_probe_st_def r_def range_answer_def)
  define s1 where "s1 = session_give c2 (session_set_url url u s0)"
  have "http_file_session_open w gs url tab st = (Some s1, http_source_set_unavailable url False tab, st2)"
    using p assms(4,7) by (auto simp: http_file_session_open_def cfg_def [symmetric] Let_def s1_def s0_def url)
  moreover have "session_ok fl s1"
    unfolding s1_def by (rule session_give_ok(1) [OF _ f(2)]) (simp add: session_ok_def session_set_url_def s0_def)
  moreover have "session_reachable w s1"
    by (rule re) (simp_all add: s1_def session_give_ok(2,3) session_set_url_def s0_def)
  ultimately show ?thesis by blast
qed

text \<open>Reads one after the other, each of so many bytes at an offset.\<close>

fun session_reads ::
  "servers \<Rightarrow> (nat \<times> nat) list \<Rightarrow> session \<Rightarrow> file_state list \<Rightarrow> net_state \<Rightarrow> byte list option list option" where
  "session_reads w [] s tab st = Some []"
| "session_reads w ((n, off) # rs) s tab st =
     (case http_file_session_read w READ_TURNS s n off tab st of
        None \<Rightarrow> None
      | Some (r, s1, tab1, st1) \<Rightarrow> map_option ((#) r) (session_reads w rs s1 tab1 st1))"

lemma reads_honest:
  "serves w ex fl \<Longrightarrow> session_reachable w s \<Longrightarrow> session_ok fl s \<Longrightarrow>
     \<exists>rs. session_reads w reqs s tab st = Some rs \<and> list_all2 (\<lambda>(n, off) r. \<exists>bs. r = Some bs \<and> delivers fl n off bs) reqs rs"
proof (induction reqs arbitrary: s tab st)
  case (Cons q reqs)
  obtain n off where q: "q = (n, off)" by fastforce
  have "read_well w fl n off (http_file_session_read w READ_TURNS s n off tab st)"
    using session_read_honest [OF Cons.prems, of n off 125] by (simp add: READ_TURNS_def)
  then obtain bs s1 tab1 st1 where r: "http_file_session_read w READ_TURNS s n off tab st = Some (Some bs, s1, tab1, st1)"
      "delivers fl n off bs" "session_ok fl s1" "session_reachable w s1"
    unfolding read_well_def by blast
  from Cons.IH [OF Cons.prems(1) r(4,3), of tab1 st1] r(1,2) q show ?case by auto
qed simp




section \<open>A server to try things on\<close>

definition demo_server :: "nat \<Rightarrow> byte list \<Rightarrow> servers" where
  "demo_server sp fl =
     \<lparr> sv_open = (\<lambda>k u. True), sv_cert = (\<lambda>k u v. None),
       sv_reply = (\<lambda>k u q. case rq_range q of
           Some (a, b) \<Rightarrow> (let r = honest_reply [] fl a b in Some [take sp r, drop sp r]) | None \<Rightarrow> None),
       sv_room = 16384, sv_junk = [], sv_lag = (\<lambda>k. 1), sv_cancel = (\<lambda>k. False) \<rparr>"

definition demo_url :: http_url where
  "demo_url = \<lparr> hu_https = False, hu_host = ''nas'', hu_port = 80, hu_path = ''/a.pkg'' \<rparr>"

definition demo_st :: net_state where
  "demo_st = \<lparr> ns_step = 0, ns_sent = [], ns_tls = [], ns_now = 7 \<rparr>"

lemma demo_serves: "length fl < 2 ^ 63 \<Longrightarrow> serves (demo_server sp fl) [] fl"
  by (simp add: serves_def demo_server_def Let_def)

lemma demo_parse: "http_url_parse ''http://nas/a.pkg'' = Some demo_url"
  using parse_origin [of demo_url]
  by (simp add: demo_url_def wf_url_def url_stop_def HTTP_URL_MAX_def url_origin_def host_port_def bracketed_def)

text \<open>A table that knows no file.\<close>

definition demo_table :: "file_state list" where
  "demo_table = replicate HTTP_STATE_SLOTS \<lparr> fl_key = 0, fl_size = 0, fl_gone = False \<rparr>"

lemma demo_unknown: "http_source_expected_size u (http_source_set_unavailable u False demo_table) = 0"
proof -
  have at: "fl_key (demo_table ! i) = 0" if "i < HTTP_STATE_SLOTS" for i using that by (simp add: demo_table_def)
  have "url_key u \<noteq> 0" by (simp add: url_key_def)
  moreover have "unat (url_key u) mod HTTP_STATE_SLOTS < HTTP_STATE_SLOTS" by (simp add: HTTP_STATE_SLOTS_def)
  moreover have "fstate_probe demo_table key HTTP_STATE_SLOTS i = Some i" if "i < HTTP_STATE_SLOTS" for i key
  proof -
    have "fstate_probe demo_table key (Suc 8191) i = Some i" using at [OF that] unfolding fstate_probe.simps by simp
    then show ?thesis by (simp add: HTTP_STATE_SLOTS_def)
  qed
  ultimately have "fstate_find demo_table u False = (None, demo_table)" using at by (simp add: fstate_find_def Let_def)
  then show ?thesis by (simp add: http_source_expected_size_def http_source_set_unavailable_def)
qed

section \<open>Properties\<close>

lemma discreet_calm:
  "discreet cfg k st st' \<Longrightarrow> \<exists>sent tls. ns_sent st' = ns_sent st @ sent \<and> ns_tls st' = ns_tls st @ tls \<and> length sent \<le> k \<and>
     list_all (\<lambda>(ep, q). rq_auth q = None \<or> cfg_same_host cfg ep) sent \<and>
     list_all (\<lambda>(u, mode). mode = ''verify'' \<or> cfg_same_host cfg u) tls"
  unfolding discreet_def by (simp only: imp_conv_disj not_not)

text \<open>C35. A package that a server really serves in ranges, whatever other headers it sends and
  however the network cuts its answers, is opened by its URL, and then every read through the
  session, in any order, streaming or not, delivers bytes of the file at the offset asked for: no
  more than asked for, and at least one before the end of the file.\<close>

theorem session_delivers_file:
  assumes "serves w ex fl" "fl \<noteq> []" "length url < HTTP_URL_MAX" "http_url_parse url = Some u"
    "\<And>k. sv_open w k u" "\<And>st. hu_https u \<Longrightarrow> tls_handshake w (http_sources_find_for_url gs url) u st"
    "http_source_expected_size url (http_source_set_unavailable url False tab) \<in> {0, length fl}"
  shows "\<exists>s tab1 st1 rs. http_file_session_open w gs url tab st = (Some s, tab1, st1) \<and>
    session_reads w reqs (http_file_session_set_resilient resilient s) tab1 st1 = Some rs \<and>
    list_all2 (\<lambda>(n, off) r. \<exists>bs. r = Some bs \<and> length bs \<le> n \<and> bs = take (length bs) (drop off fl) \<and>
      (0 < n \<and> off < length fl \<longrightarrow> bs \<noteq> [])) reqs rs"
proof -
  obtain s tab1 st1 where s: "http_file_session_open w gs url tab st = (Some s, tab1, st1)" "session_ok fl s" "session_reachable w s"
    using open_honest [OF assms] by blast
  have "session_ok fl (http_file_session_set_resilient resilient s)" "session_reachable w (http_file_session_set_resilient resilient s)"
    using s(2,3) by (auto simp: session_ok_def session_reachable_def http_file_session_set_resilient_def split: option.splits)
  from reads_honest [OF assms(1) this(2,1), of reqs tab1 st1] s(1) show ?thesis unfolding delivers_def by blast
qed

lemma session_delivers_file_witness:
  "\<exists>s tab1 st1 rs.
     http_file_session_open (demo_server 20 [1, 2, 3, 4, 5]) [] ''http://nas/a.pkg'' demo_table
       demo_st = (Some s, tab1, st1) \<and>
     session_reads (demo_server 20 [1, 2, 3, 4, 5]) [(2, 0), (9, 2), (1, 5)] (http_file_session_set_resilient True s) tab1 st1 = Some rs \<and>
     list_all2 (\<lambda>(n, off) r. \<exists>bs. r = Some bs \<and> length bs \<le> n \<and> bs = take (length bs) (drop off [1, 2, 3, 4, 5]) \<and>
       (0 < n \<and> off < length [1, 2, 3, 4, 5 :: byte] \<longrightarrow> bs \<noteq> [])) [(2, 0), (9, 2), (1, 5)] rs"
proof -
  have "http_source_expected_size ''http://nas/a.pkg'' (http_source_set_unavailable ''http://nas/a.pkg'' False demo_table) \<in> {0, length [1, 2, 3, 4, 5 :: byte]}"
    using demo_unknown by simp
  then show ?thesis
    by (intro session_delivers_file [OF demo_serves _ _ demo_parse])
       (simp_all add: demo_server_def demo_url_def HTTP_URL_MAX_def)
qed





text \<open>C37. Over any redirects, and on any connection it finds, a fetch sends at most twelve requests;
  those with the password of the source go to the source's own scheme, host and port, and the
  certificate of any other host is verified.\<close>

theorem credentials_stay_home:
  "\<exists>sent tls.
     ns_sent (snd (snd (snd (http_fetch w url cfg opt pc st)))) = ns_sent st @ sent \<and>
     ns_tls (snd (snd (snd (http_fetch w url cfg opt pc st)))) = ns_tls st @ tls \<and>
     length sent \<le> 12 \<and>
     list_all (\<lambda>(ep, q). rq_auth q = None \<or> cfg_same_host cfg ep) sent \<and>
     list_all (\<lambda>(u, mode). mode = ''verify'' \<or> cfg_same_host cfg u) tls"
proof -
  obtain f fin c' st' where r: "http_fetch w url cfg opt pc st = (f, fin, c', st')" by (metis prod_cases4)
  show ?thesis using discreet_calm [OF http_fetch_discreet [OF r]] unfolding r snd_conv .
qed

text \<open>C38. How the network cuts the answers of the servers into pieces, and how large the read
  buffer is, makes no difference to a fetch: status, headers, bytes, the URL reached and every
  request sent are the same.\<close>

theorem fetch_any_pieces:
  assumes "pieces_alike w v"
  shows "(case http_fetch w url cfg opt None st of (f, fin, c, st1) \<Rightarrow> (f, fin, st1)) =
    (case http_fetch v url cfg opt None st of (f, fin, c, st1) \<Rightarrow> (f, fin, st1))"
proof -
  obtain f fin c' st' where r: "http_fetch w url cfg opt None st = (f, fin, c', st')" by (metis prod_cases4)
  with http_fetch_same [OF assms r, of None] show ?thesis by auto
qed

lemma fetch_any_pieces_witness:
  "(case http_fetch (demo_server 3 [7, 8]) ''http://nas/a.pkg'' None (range_opts 0 2) None demo_st of (f, fin, c, st1) \<Rightarrow> (f, fin, st1)) =
   (case http_fetch (demo_server 50 [7, 8]) ''http://nas/a.pkg'' None (range_opts 0 2) None demo_st of (f, fin, c, st1) \<Rightarrow> (f, fin, st1))"
proof (rule fetch_any_pieces)
  show "pieces_alike (demo_server 3 [7, 8]) (demo_server 50 [7, 8])"
    by (auto simp: pieces_alike_def demo_server_def Let_def split: option.splits)
qed


text \<open>Whatever its framing, the body that is kept of a response is no longer than the limit set
  for it, on any connection that delivers fewer than \<open>2 ^ 64\<close> bytes.\<close>

theorem kept_body_bounded:
  assumes "length (conn_pending c) < 2 ^ 64"
  shows "length (fst (snd (http_read_body want mx junk r is_head c))) \<le> mx"
proof -
  obtain rc b c' where "http_read_body want mx junk r is_head c = (rc, b, c')" by (metis prod_cases3)
  from body_limit [OF this assms] show ?thesis using \<open>http_read_body want mx junk r is_head c = (rc, b, c')\<close> by simp
qed

lemma kept_body_bounded_witness:
  "length (fst (snd (http_read_body True 4 [] (resp_zero\<lparr> rs_chunked := True \<rparr>) False
     \<lparr> hc_buf = [51, 13, 10, 1, 2, 3, 13, 10, 48, 13, 10, 13, 10], hc_net = [], hc_alive = True, hc_ep = demo_url, hc_room = 16 \<rparr>))) \<le> 4"
  by (rule kept_body_bounded) (simp add: conn_pending_def)

end
