(* ===== verification/HttpStream.thy ===== *)
theory HttpStream
  imports HttpClaims StreamServerProps
begin

text \<open>
  The range server over a package that lies on an HTTP server: the stream's branch for an HTTP
  session in \<open>src/multipart.c\<close> as a provider of the interface \<open>byte_source\<close>, extended by the
  promise that a read comes back.
\<close>

section \<open>Sources whose reads come back\<close>


section \<open>A stream over an HTTP session\<close>






section \<open>Opening a stream\<close>

text \<open>The branch of \<open>virtual_stream_open\<close> for packages on HTTP servers; the session it opens rides
  out outages.\<close>

definition open_http_stream ::
  "servers \<Rightarrow> http_config list \<Rightarrow> string \<Rightarrow> file_state list \<Rightarrow> net_state
   \<Rightarrow> (vstream \<times> session) option \<times> file_state list \<times> net_state" where
  "open_http_stream w gs path tab st =
     (case http_file_session_open w gs path tab st of
        (None, tab1, st1) \<Rightarrow> (None, tab1, st1)
      | (Some s, tab1, st1) \<Rightarrow>
          (Some ((single_stream path (se_size s))\<lparr> vs_is_http := True, vs_session := Some path \<rparr>,
                 http_file_session_set_resilient True s), tab1, st1))"

text \<open>This is the stream that \<open>virtual_stream_open\<close> yields when the session is its environment.\<close>

lemma open_http_stream_opens:
  assumes "open_http_stream w gs path tab st = (Some (vs, s), tab1, st1)" "is_http_path path"
    "ve_http env path = map_option se_size (fst (http_file_session_open w gs path tab st))"
  shows "virtual_stream_open env files path lv = (0, Some vs, lv)"
proof -
  have "\<not> starts_with ''live:'' path" "\<not> starts_with ''smb://'' path"
    using assms(2) by (cases path; auto simp: is_http_path_def)+
  then show ?thesis using assms
    by (auto simp: open_http_stream_def virtual_stream_open_def split: prod.splits option.splits)
qed



end
