(* ===== verification/Spec2Isabelle.thy ===== *)
theory Spec2Isabelle
  imports LiveProps WsProps StreamServerProps StreamLife InstallerClaims JsonTextProps PkgClaims AppInfoProps CatalogClaims CatalogOrder
    HttpStream
begin

text \<open>
  A verification library for the package manager in \<open>src/\<close>.

  The live streaming session (\<open>src/ws_stream.c\<close>) is modelled in \<open>LiveStream\<close>
  (state and non-blocking operations) and \<open>LiveRead\<close> (the operations that
  wait), with its invariant in \<open>LiveInv\<close>, \<open>LiveStore\<close> and \<open>LiveOps\<close>, the
  behaviour under concurrent operations in \<open>LiveSession\<close> and its properties in
  \<open>LiveProps\<close>.
\<close>

end
